(* ===== verification/Prelude.thy ===== *)
theory Prelude
  imports Main "HOL-Library.Word" "HOL-Library.AList" "HOL-Library.Multiset" "HOL-Library.Product_Lexorder"
begin

text \<open>
  What every component of the model shares: results with errors and panics as values, computations
  over an explicit state, the preservation calculus the invariants are proved with, and the contract of
  the machines that retry.

  Strings are Rust's UTF-8 byte strings: a \<^typ>\<open>char\<close> is one byte and \<^const>\<open>length\<close> is \<open>str::len\<close>.
\<close>

section \<open>Results and computations\<close>

text \<open>
  \<open>failure::Error\<close> values are kept as the format string of the \<open>format_err!\<close> that built them with
  its string arguments; errors that come out of a library are one constructor for each library.
\<close>

datatype error =
    Failure string "string list"
  | DbError
  | IrcError
  | PduError
  | ParseError
  | JidError
  | IoError
  | HttpError
  | TimerError
  | WaFailed

text \<open>\<open>Result<T, Error>\<close>, with a panic (\<open>unwrap\<close>, \<open>expect\<close>, an index out of range) as a third case.\<close>

datatype 'a outcome = Ok 'a | Err error | Panic

text \<open>
  A method \<open>fn f(&mut self, ..) -> Result<T>\<close>: what it changed before an error or a panic stays
  changed, so the state is returned beside the outcome.
\<close>

type_synonym ('s, 'a) comp = "'s \<Rightarrow> 'a outcome \<times> 's"

definition ret :: "'a \<Rightarrow> ('s, 'a) comp" where
  "ret x s = (Ok x, s)"

definition err :: "error \<Rightarrow> ('s, 'a) comp" where
  "err e s = (Err e, s)"

definition panic :: "('s, 'a) comp" where
  "panic s = (Panic, s)"

text \<open>The \<open>?\<close> operator: the rest runs only after an \<open>Ok\<close>.\<close>

definition and_then :: "('s, 'a) comp \<Rightarrow> ('a \<Rightarrow> ('s, 'b) comp) \<Rightarrow> ('s, 'b) comp" where
  "and_then m f s = (case m s of
      (Ok x, s') \<Rightarrow> f x s'
    | (Err e, s') \<Rightarrow> (Err e, s')
    | (Panic, s') \<Rightarrow> (Panic, s'))"

definition then_do :: "('s, 'a) comp \<Rightarrow> ('s, 'b) comp \<Rightarrow> ('s, 'b) comp" where
  "then_do m n = and_then m (\<lambda>_. n)"

definition gets :: "('s \<Rightarrow> 'a) \<Rightarrow> ('s, 'a) comp" where
  "gets f s = (Ok (f s), s)"

definition modify :: "('s \<Rightarrow> 's) \<Rightarrow> ('s, unit) comp" where
  "modify f s = (Ok (), f s)"

definition lift :: "'a outcome \<Rightarrow> ('s, 'a) comp" where
  "lift r s = (r, s)"

text \<open>\<open>match m { Ok(x) => .., Err(e) => .. }\<close>: the error becomes a value, a panic does not.\<close>

definition attempt :: "('s, 'a) comp \<Rightarrow> ('s, error + 'a) comp" where
  "attempt m s = (case m s of
      (Ok x, s') \<Rightarrow> (Ok (Inr x), s')
    | (Err e, s') \<Rightarrow> (Ok (Inl e), s')
    | (Panic, s') \<Rightarrow> (Panic, s'))"

text \<open>\<open>for x in xs { body(x)?; }\<close>\<close>

primrec for_each :: "'a list \<Rightarrow> ('a \<Rightarrow> ('s, unit) comp) \<Rightarrow> ('s, unit) comp" where
  "for_each [] f = ret ()"
| "for_each (x # xs) f = then_do (f x) (for_each xs f)"

text \<open>A method of a field of \<open>self\<close>, run on the whole \<open>self\<close>.\<close>

definition on_field :: "('s \<Rightarrow> 'd) \<Rightarrow> ('d \<Rightarrow> 's \<Rightarrow> 's) \<Rightarrow> ('d, 'a) comp \<Rightarrow> ('s, 'a) comp" where
  "on_field get put m s = (let (r, d) = m (get s) in (r, put d s))"

lemmas comp_simps =
  ret_def err_def panic_def then_do_def and_then_def gets_def modify_def lift_def attempt_def

lemma and_then_ret [simp]: "and_then (ret x) f = f x"
  by (rule ext) (simp add: comp_simps)

lemma and_then_err [simp]: "and_then (err e) f = err e"
  by (rule ext) (simp add: comp_simps)

lemma and_then_panic [simp]: "and_then panic f = panic"
  by (rule ext) (simp add: comp_simps)

lemma and_then_gets [simp]: "and_then (gets f) g s = g (f s) s"
  by (simp add: comp_simps)

lemma and_then_modify [simp]: "and_then (modify f) g s = g () (f s)"
  by (simp add: comp_simps)

lemma and_then_assoc: "and_then (and_then m f) g = and_then m (\<lambda>x. and_then (f x) g)"
  by (rule ext) (simp add: and_then_def split: prod.splits outcome.splits)

lemma then_do_ret [simp]: "then_do (ret x) m = m"
  by (simp add: then_do_def)

lemma then_do_modify [simp]: "then_do (modify f) m s = m (f s)"
  by (simp add: then_do_def)

lemma and_then_Ok: "m s = (Ok x, s') \<Longrightarrow> and_then m f s = f x s'"
  by (simp add: and_then_def)

lemma then_do_Ok: "m s = (Ok x, s') \<Longrightarrow> then_do m n s = n s'"
  by (simp add: then_do_def and_then_def)

text \<open>A successful sequence is two successful parts.\<close>

lemma and_then_OkE:
  assumes "and_then m f s = (Ok y, t)"
  obtains x s' where "m s = (Ok x, s')" and "f x s' = (Ok y, t)"
  using assms by (auto simp: and_then_def split: prod.splits outcome.splits)

lemma then_do_OkE:
  assumes "then_do m n s = (Ok y, t)"
  obtains x s' where "m s = (Ok x, s')" and "n s' = (Ok y, t)"
  using assms unfolding then_do_def by (rule and_then_OkE)

lemma modify_iff: "modify f s = (r, t) \<longleftrightarrow> r = Ok () \<and> t = f s"
  by (auto simp: modify_def)

lemma ret_iff: "ret x s = (r, t) \<longleftrightarrow> r = Ok x \<and> t = s"
  by (auto simp: ret_def)

lemma for_each_append:
  "for_each (xs @ ys) f = then_do (for_each xs f) (for_each ys f)"
  by (induction xs) (simp_all add: then_do_def and_then_assoc)

section \<open>Preservation\<close>

text \<open>
  \<open>pres P m\<close>: the predicate survives the computation whatever its outcome, so also when the
  handler stops half way with an error. The rules are collected in \<open>pres\<close>; a component adds the
  rules of its own operations to the same collection.
\<close>

named_theorems pres

definition pres :: "('s \<Rightarrow> bool) \<Rightarrow> ('s, 'a) comp \<Rightarrow> bool" where
  "pres P m \<longleftrightarrow> (\<forall>s. P s \<longrightarrow> P (snd (m s)))"

lemma presI: "(\<And>s. P s \<Longrightarrow> P (snd (m s))) \<Longrightarrow> pres P m"
  by (simp add: pres_def)

lemma presD: "pres P m \<Longrightarrow> P s \<Longrightarrow> m s = (r, s') \<Longrightarrow> P s'"
  by (auto simp: pres_def dest: spec [of _ s])

lemma pres_snd: "pres P m \<Longrightarrow> P s \<Longrightarrow> P (snd (m s))"
  by (simp add: pres_def)

lemma pres_ret [pres]: "pres P (ret x)"
  by (simp add: pres_def ret_def)

lemma pres_err [pres]: "pres P (err e)"
  by (simp add: pres_def err_def)

lemma pres_panic [pres]: "pres P panic"
  by (simp add: pres_def panic_def)

lemma pres_lift [pres]: "pres P (lift r)"
  by (simp add: pres_def lift_def)

lemma pres_gets [pres]: "pres P (gets f)"
  by (simp add: pres_def gets_def)

lemma pres_modify: "(\<And>s. P s \<Longrightarrow> P (f s)) \<Longrightarrow> pres P (modify f)"
  by (simp add: pres_def modify_def)

lemma pres_and_then [pres]: "pres P m \<Longrightarrow> (\<And>x. pres P (f x)) \<Longrightarrow> pres P (and_then m f)"
  by (fastforce simp: pres_def and_then_def split: prod.splits outcome.splits)

lemma pres_then_do [pres]: "pres P m \<Longrightarrow> pres P n \<Longrightarrow> pres P (then_do m n)"
  by (simp add: then_do_def pres_and_then)

lemma pres_gets_then: "(\<And>s. P s \<Longrightarrow> P (snd (g (f s) s))) \<Longrightarrow> pres P (and_then (gets f) g)"
  by (simp add: pres_def)

lemma pres_attempt [pres]: "pres P m \<Longrightarrow> pres P (attempt m)"
  by (fastforce simp: pres_def attempt_def split: prod.splits outcome.splits)

lemma pres_for_each [pres]: "(\<And>x. x \<in> set xs \<Longrightarrow> pres P (f x)) \<Longrightarrow> pres P (for_each xs f)"
  by (induction xs) (auto intro: pres)

lemma pres_if [pres]: "(b \<Longrightarrow> pres P m) \<Longrightarrow> (\<not> b \<Longrightarrow> pres P n) \<Longrightarrow> pres P (if b then m else n)"
  by simp

lemma pres_option [pres]:
  "pres P m \<Longrightarrow> (\<And>x. o' = Some x \<Longrightarrow> pres P (f x)) \<Longrightarrow> pres P (case o' of None \<Rightarrow> m | Some x \<Rightarrow> f x)"
  by (cases o') simp_all

lemma pres_sum [pres]:
  "(\<And>x. pres P (f x)) \<Longrightarrow> (\<And>x. pres P (g x)) \<Longrightarrow> pres P (case r of Inl x \<Rightarrow> f x | Inr x \<Rightarrow> g x)"
  by (cases r) simp_all

lemma pres_prod [pres]: "(\<And>x y. pres P (f x y)) \<Longrightarrow> pres P (case p of (x, y) \<Rightarrow> f x y)"
  by (cases p) simp

lemma pres_list [pres]:
  "pres P m \<Longrightarrow> (\<And>x xs. pres P (f x xs)) \<Longrightarrow> pres P (case l of [] \<Rightarrow> m | x # xs \<Rightarrow> f x xs)"
  by (cases l) simp_all

lemma pres_Let [pres]: "pres P (f x) \<Longrightarrow> pres P (Let x f)"
  by simp

lemma pres_conj: "pres P m \<Longrightarrow> pres Q m \<Longrightarrow> pres (\<lambda>s. P s \<and> Q s) m"
  by (simp add: pres_def)

lemma pres_on_field:
  assumes "pres Q m" and "\<And>s. P s \<Longrightarrow> Q (get s)" and "\<And>s d. P s \<Longrightarrow> Q d \<Longrightarrow> P (put d s)"
  shows "pres P (on_field get put m)"
  using assms by (simp add: pres_def on_field_def split: prod.splits) (metis snd_conv)

text \<open>\<open>safe P m\<close>: besides keeping the predicate, the computation does not panic where it holds.\<close>

named_theorems safe

definition safe :: "('s \<Rightarrow> bool) \<Rightarrow> ('s, 'a) comp \<Rightarrow> bool" where
  "safe P m \<longleftrightarrow> (\<forall>s. P s \<longrightarrow> fst (m s) \<noteq> Panic \<and> P (snd (m s)))"

lemma safeI: "pres P m \<Longrightarrow> (\<And>s. P s \<Longrightarrow> fst (m s) \<noteq> Panic) \<Longrightarrow> safe P m"
  by (simp add: safe_def pres_def)

lemma safe_pres: "safe P m \<Longrightarrow> pres P m"
  by (simp add: safe_def pres_def)

lemma safe_no_panic: "safe P m \<Longrightarrow> P s \<Longrightarrow> fst (m s) \<noteq> Panic"
  by (simp add: safe_def)

lemma safe_of_quiet: "safe (\<lambda>_. True) m \<Longrightarrow> pres P m \<Longrightarrow> safe P m"
  by (simp add: safe_def pres_def)

lemma safe_ret [safe]: "safe P (ret x)"
  by (simp add: safe_def ret_def)

lemma safe_err [safe]: "safe P (err e)"
  by (simp add: safe_def err_def)

lemma safe_gets [safe]: "safe P (gets f)"
  by (simp add: safe_def gets_def)

lemma safe_lift: "r \<noteq> Panic \<Longrightarrow> safe P (lift r)"
  by (simp add: safe_def lift_def)

lemma safe_modify: "(\<And>s. P s \<Longrightarrow> P (f s)) \<Longrightarrow> safe P (modify f)"
  by (simp add: safe_def modify_def)

lemma safe_and_then [safe]: "safe P m \<Longrightarrow> (\<And>x. safe P (f x)) \<Longrightarrow> safe P (and_then m f)"
  by (fastforce simp: safe_def and_then_def split: prod.splits outcome.splits)

lemma safe_then_do [safe]: "safe P m \<Longrightarrow> safe P n \<Longrightarrow> safe P (then_do m n)"
  by (simp add: then_do_def safe_and_then)

lemma safe_gets_then: "(\<And>s. P s \<Longrightarrow> fst (g (f s) s) \<noteq> Panic \<and> P (snd (g (f s) s))) \<Longrightarrow> safe P (and_then (gets f) g)"
  by (simp add: safe_def)

lemma safe_for_each [safe]: "(\<And>x. x \<in> set xs \<Longrightarrow> safe P (f x)) \<Longrightarrow> safe P (for_each xs f)"
  by (induction xs) (auto intro: safe)

lemma safe_if [safe]: "(b \<Longrightarrow> safe P m) \<Longrightarrow> (\<not> b \<Longrightarrow> safe P n) \<Longrightarrow> safe P (if b then m else n)"
  by simp

lemma safe_option [safe]:
  "(o' = None \<Longrightarrow> safe P m) \<Longrightarrow> (\<And>x. o' = Some x \<Longrightarrow> safe P (f x))
   \<Longrightarrow> safe P (case o' of None \<Rightarrow> m | Some x \<Rightarrow> f x)"
  by (cases o') simp_all

lemma safe_sum [safe]:
  "(\<And>x. safe P (f x)) \<Longrightarrow> (\<And>x. safe P (g x)) \<Longrightarrow> safe P (case r of Inl x \<Rightarrow> f x | Inr x \<Rightarrow> g x)"
  by (cases r) simp_all

lemma safe_prod [safe]: "(\<And>x y. safe P (f x y)) \<Longrightarrow> safe P (case p of (x, y) \<Rightarrow> f x y)"
  by (cases p) simp

lemma safe_list [safe]:
  "safe P m \<Longrightarrow> (\<And>x xs. safe P (f x xs)) \<Longrightarrow> safe P (case l of [] \<Rightarrow> m | x # xs \<Rightarrow> f x xs)"
  by (cases l) simp_all

lemma safe_Let [safe]: "safe P (f x) \<Longrightarrow> safe P (Let x f)"
  by simp

lemma safe_on_field:
  assumes "safe Q m" and "\<And>s. P s \<Longrightarrow> Q (get s)" and "\<And>s d. P s \<Longrightarrow> Q d \<Longrightarrow> P (put d s)"
  shows "safe P (on_field get put m)"
  using assms by (simp add: safe_def on_field_def split: prod.splits) (metis fst_conv snd_conv)

lemma safe_attempt [safe]: "safe P m \<Longrightarrow> safe P (attempt m)"
  by (fastforce simp: safe_def attempt_def split: prod.splits outcome.splits)

text \<open>
  \<open>guarded b P m\<close> is both at once: the predicate is kept in any case, and where \<open>b\<close> holds there is no
  panic. A component is gone through once, with the conditions of its panics under \<open>b\<close>.
\<close>

named_theorems guarded

definition guarded :: "bool \<Rightarrow> ('s \<Rightarrow> bool) \<Rightarrow> ('s, 'a) comp \<Rightarrow> bool" where
  "guarded b P m \<longleftrightarrow> pres P m \<and> (b \<longrightarrow> safe P m)"

lemma guardedI:
  "(\<And>s. P s \<Longrightarrow> P (snd (m s)) \<and> (b \<longrightarrow> fst (m s) \<noteq> Panic)) \<Longrightarrow> guarded b P m"
  by (simp add: guarded_def pres_def safe_def)

text \<open>The same where the state is at hand.\<close>

lemma guarded_at: "P s \<Longrightarrow> guarded b P m \<Longrightarrow> P (snd (m s)) \<and> (b \<longrightarrow> fst (m s) \<noteq> Panic)"
  by (simp add: guarded_def pres_def safe_def)

lemma guardedD: "guarded b P m \<Longrightarrow> P s \<Longrightarrow> P (snd (m s)) \<and> (b \<longrightarrow> fst (m s) \<noteq> Panic)"
  by (simp add: guarded_def pres_def safe_def)

lemma guarded_pres: "guarded b P m \<Longrightarrow> pres P m"
  by (simp add: guarded_def)

lemma guarded_safe: "guarded True P m \<Longrightarrow> safe P m"
  by (simp add: guarded_def)

lemma guarded_of_quiet: "pres P m \<Longrightarrow> safe (\<lambda>_. True) m \<Longrightarrow> guarded b P m"
  by (simp add: guarded_def safe_of_quiet)

lemma guarded_lift: "(b \<Longrightarrow> r \<noteq> Panic) \<Longrightarrow> guarded b P (lift r)"
  by (auto simp: guarded_def pres_lift safe_lift)

lemma guarded_panic: "\<not> b \<Longrightarrow> guarded b P panic"
  by (simp add: guarded_def pres_panic)

lemma guarded_modify: "(\<And>s. P s \<Longrightarrow> P (f s)) \<Longrightarrow> guarded b P (modify f)"
  by (simp add: guarded_def pres_modify safe_modify)

lemma guarded_gets_then:
  "(\<And>s. P s \<Longrightarrow> guarded b P (g (f s))) \<Longrightarrow> guarded b P (and_then (gets f) g)"
  by (simp add: guarded_def pres_def safe_def)

lemma guarded_basic [guarded]:
  "guarded b P (ret x)" "guarded b P (err e)" "guarded b P (gets f)"
  by (simp_all add: guarded_def pres safe)

lemma guarded_and_then [guarded]:
  "guarded b P m \<Longrightarrow> (\<And>x. guarded b P (f x)) \<Longrightarrow> guarded b P (and_then m f)"
  by (auto simp: guarded_def intro: pres safe)

text \<open>The second part may rely on what the first one achieved.\<close>

lemma guarded_and_then_post:
  assumes "guarded b P m" and "\<And>s x s'. P s \<Longrightarrow> m s = (Ok x, s') \<Longrightarrow> R x s'"
    and "\<And>x s. P s \<Longrightarrow> R x s \<Longrightarrow> P (snd (f x s)) \<and> (b \<longrightarrow> fst (f x s) \<noteq> Panic)"
  shows "guarded b P (and_then m f)"
proof (rule guardedI)
  fix s assume P: "P s"
  obtain r s1 where m: "m s = (r, s1)" by (cases "m s")
  then show "P (snd (and_then m f s)) \<and> (b \<longrightarrow> fst (and_then m f s) \<noteq> Panic)"
    using guardedD [OF assms(1) P] assms(2) [OF P] assms(3) by (cases r) (auto simp: and_then_def)
qed

lemma guarded_rules [guarded]:
  "guarded b P m1 \<Longrightarrow> guarded b P m2 \<Longrightarrow> guarded b P (then_do m1 m2)"
  "guarded b P m3 \<Longrightarrow> guarded b P (attempt m3)"
  "(\<And>x. x \<in> set xs \<Longrightarrow> guarded b P (k x)) \<Longrightarrow> guarded b P (for_each xs k)"
  "(c \<Longrightarrow> guarded b P m) \<Longrightarrow> (\<not> c \<Longrightarrow> guarded b P n) \<Longrightarrow> guarded b P (if c then m else n)"
  "(o' = None \<Longrightarrow> guarded b P m4) \<Longrightarrow> (\<And>x. o' = Some x \<Longrightarrow> guarded b P (h x))
   \<Longrightarrow> guarded b P (case o' of None \<Rightarrow> m4 | Some x \<Rightarrow> h x)"
  "(\<And>x. r = Inl x \<Longrightarrow> guarded b P (f x)) \<Longrightarrow> (\<And>y. r = Inr y \<Longrightarrow> guarded b P (g y))
   \<Longrightarrow> guarded b P (case r of Inl x \<Rightarrow> f x | Inr y \<Rightarrow> g y)"
  "(\<And>x y. p = (x, y) \<Longrightarrow> guarded b P (q x y)) \<Longrightarrow> guarded b P (case p of (x, y) \<Rightarrow> q x y)"
  "guarded b P (j z) \<Longrightarrow> guarded b P (Let z j)"
  by (auto simp: guarded_def intro: pres safe split: option.split sum.split prod.split)

lemma guarded_on_field:
  assumes "guarded b Q m" and "\<And>s. P s \<Longrightarrow> Q (get s)" and "\<And>s d. P s \<Longrightarrow> Q d \<Longrightarrow> P (put d s)"
  shows "guarded b P (on_field get put m)"
  using pres_on_field [of Q m P get put] safe_on_field [of Q m P get put] assms
  by (auto simp: guarded_def)

section \<open>Machines that retry\<close>

text \<open>
  Two components wait, connect and, when that fails, wait again, inside one call. \<open>ahead n s\<close>: the
  state waits, and the environment has \<open>n\<close> failures in store before it lets the next attempt succeed.
  The law is that a failure leads back to a waiting state with one failure less ahead.
\<close>

locale retrying =
  fixes run :: "'s \<Rightarrow> 'r" and ahead :: "nat \<Rightarrow> 's \<Rightarrow> bool" and same :: "'s \<Rightarrow> 's \<Rightarrow> bool"
  assumes same_refl: "same s s"
    and same_trans: "same s t \<Longrightarrow> same t u \<Longrightarrow> same s u"
    and retry: "ahead (Suc n) s \<Longrightarrow> \<exists>s'. ahead n s' \<and> same s s' \<and> run s = run s'"
begin

lemma reaches_attempt: "ahead n s \<Longrightarrow> \<exists>s'. ahead 0 s' \<and> same s s' \<and> run s = run s'"
proof (induction n arbitrary: s)
  case 0
  then show ?case using same_refl by blast
next
  case (Suc n)
  then show ?case using retry [of n s] same_trans by metis
qed

end

end
