(* ===== verification/Rust_Str.thy ===== *)
theory Rust_Str
  imports Prelude
begin

text \<open>
  The parts of the standard library's \<open>str\<close>, integer formatting and \<open>HashMap\<close> that the code uses.
\<close>

lemma char_of_eq_nat: "char_of n = c \<longleftrightarrow> n mod 256 = (of_char c :: nat)"
  by (simp add: char_of_eq_iff take_bit_eq_mod)

section \<open>Characters and slices of a UTF-8 string\<close>

definition byte_in :: "nat \<Rightarrow> nat \<Rightarrow> char \<Rightarrow> bool" where
  "byte_in lo hi c \<longleftrightarrow> lo \<le> of_char c \<and> of_char c \<le> (hi :: nat)"

text \<open>A continuation byte \<open>10xxxxxx\<close>; every other byte starts a character.\<close>

definition is_cont :: "char \<Rightarrow> bool" where
  "is_cont = byte_in 128 191"

definition is_upper :: "char \<Rightarrow> bool" where
  "is_upper = byte_in 65 90"

definition is_lower :: "char \<Rightarrow> bool" where
  "is_lower = byte_in 97 122"

definition is_digit :: "char \<Rightarrow> bool" where
  "is_digit = byte_in 48 57"

definition is_ascii_alphabetic :: "char \<Rightarrow> bool" where
  "is_ascii_alphabetic c \<longleftrightarrow> is_upper c \<or> is_lower c"

definition is_ascii_alphanumeric :: "char \<Rightarrow> bool" where
  "is_ascii_alphanumeric c \<longleftrightarrow> is_ascii_alphabetic c \<or> is_digit c"

definition is_ascii :: "char \<Rightarrow> bool" where
  "is_ascii = byte_in 0 127"

text \<open>\<open>str::is_char_boundary\<close>.\<close>

definition char_boundary :: "string \<Rightarrow> nat \<Rightarrow> bool" where
  "char_boundary s i \<longleftrightarrow> i = 0 \<or> i = length s \<or> (i < length s \<and> \<not> is_cont (s ! i))"

text \<open>The byte index of every character of a string (\<open>str::char_indices\<close>).\<close>

definition char_indices :: "string \<Rightarrow> nat list" where
  "char_indices s = filter (\<lambda>i. \<not> is_cont (s ! i)) [0..<length s]"

text \<open>\<open>&s[a..b]\<close>: \<^const>\<open>None\<close> where the slice panics.\<close>

definition str_slice :: "string \<Rightarrow> nat \<Rightarrow> nat \<Rightarrow> string option" where
  "str_slice s a b =
     (if a \<le> b \<and> b \<le> length s \<and> char_boundary s a \<and> char_boundary s b
      then Some (take (b - a) (drop a s)) else None)"

definition starts_with :: "string \<Rightarrow> string \<Rightarrow> bool" where
  "starts_with s p \<longleftrightarrow> take (length p) s = p"

lemma starts_with_append [simp]: "starts_with (p @ s) p"
  by (simp add: starts_with_def)

lemma starts_with_iff: "starts_with s p \<longleftrightarrow> (\<exists>t. s = p @ t)"
  by (metis append_take_drop_id starts_with_append starts_with_def)

lemma starts_with_trans: "starts_with s p \<Longrightarrow> starts_with p q \<Longrightarrow> starts_with s q"
  by (auto simp: starts_with_iff)

section \<open>Case\<close>

definition ascii_lower :: "char \<Rightarrow> char" where
  "ascii_lower c = (if is_upper c then char_of (of_char c + (32 :: nat)) else c)"

text \<open>
  \<open>str::to_lowercase\<close>, as far as a comparison with an ASCII keyword can tell: besides the capital
  letters only the Kelvin sign \<open>U+212A\<close> (bytes \<open>E2 84 AA\<close>) has an all-ASCII lower case, \<open>k\<close>. The
  code compares the result with ASCII literals and does nothing else with it.
\<close>

fun to_lowercase :: "string \<Rightarrow> string" where
  "to_lowercase [] = []"
| "to_lowercase (c # cs) =
     (case cs of
        d # e # ds \<Rightarrow>
          if c = CHR 0xE2 \<and> d = CHR 0x84 \<and> e = CHR 0xAA
          then CHR ''k'' # to_lowercase ds
          else ascii_lower c # to_lowercase cs
      | _ \<Rightarrow> ascii_lower c # to_lowercase cs)"

declare to_lowercase.simps [simp del]

lemma to_lowercase_Cons: "c \<noteq> CHR 0xE2 \<Longrightarrow> to_lowercase (c # cs) = ascii_lower c # to_lowercase cs"
  by (subst to_lowercase.simps) (simp split: list.split)

text \<open>On a string without that lead byte, so on ASCII, only the capitals change.\<close>

lemma to_lowercase_ascii: "CHR 0xE2 \<notin> set s \<Longrightarrow> to_lowercase s = map ascii_lower s"
  by (induction s) (auto simp: to_lowercase.simps(1) to_lowercase_Cons)

section \<open>Splitting and joining\<close>

text \<open>\<open>s.split(c)\<close> for a one-byte separator: always at least one piece.\<close>

fun split_on :: "char \<Rightarrow> string \<Rightarrow> string list" where
  "split_on c [] = [[]]"
| "split_on c (x # xs) =
     (if x = c then [] # split_on c xs
      else (case split_on c xs of [] \<Rightarrow> [[x]] | y # ys \<Rightarrow> (x # y) # ys))"

fun join_str :: "string \<Rightarrow> string list \<Rightarrow> string" where
  "join_str sep [] = []"
| "join_str sep [x] = x"
| "join_str sep (x # y # ys) = x @ sep @ join_str sep (y # ys)"

lemma split_on_nonempty [simp]: "split_on c s \<noteq> []"
  by (induction s) (auto split: list.splits)

lemma join_split: "join_str [c] (split_on c s) = s"
proof (induction s)
  case Nil
  then show ?case by simp
next
  case (Cons x xs)
  obtain y ys where y: "split_on c xs = y # ys"
    by (cases "split_on c xs") auto
  with Cons show ?case by (cases ys) auto
qed

lemma split_on_no_sep: "p \<in> set (split_on c s) \<Longrightarrow> c \<notin> set p"
  by (induction s arbitrary: p) (auto split: list.splits if_splits)

text \<open>
  \<open>str::lines\<close>: a line ends at a line feed, a carriage return before it belongs to the line ending,
  and there is no empty line after the last line feed.
\<close>

definition newline :: char where
  "newline = CHR 0x0A"

definition carriage_return :: char where
  "carriage_return = CHR 0x0D"

definition strip_cr :: "string \<Rightarrow> string" where
  "strip_cr s = (if s \<noteq> [] \<and> last s = carriage_return then butlast s else s)"

definition str_lines :: "string \<Rightarrow> string list" where
  "str_lines s =
     (let ps = split_on newline s
      in map strip_cr (butlast ps) @ (if last ps = [] then [] else [last ps]))"

lemma set_strip_cr: "set (strip_cr s) \<subseteq> set s"
  by (auto simp: strip_cr_def dest: in_set_butlastD)

lemma str_lines_pieces:
  "l \<in> set (str_lines s) \<Longrightarrow> \<exists>p \<in> set (split_on newline s). l = strip_cr p \<or> l = p"
  by (auto simp: str_lines_def Let_def dest: in_set_butlastD
      intro: last_in_set [OF split_on_nonempty] split: if_splits)

lemma str_lines_no_newline:
  assumes "l \<in> set (str_lines s)"
  shows "newline \<notin> set l"
proof -
  obtain p where p: "p \<in> set (split_on newline s)" and l: "l = strip_cr p \<or> l = p"
    using str_lines_pieces [OF assms] by blast
  then have "set l \<subseteq> set p" using set_strip_cr by blast
  with split_on_no_sep [OF p] show ?thesis by blast
qed

section \<open>Numbers\<close>

definition digit_char :: "nat \<Rightarrow> char" where
  "digit_char n = char_of (48 + n)"

fun show_nat :: "nat \<Rightarrow> string" where
  "show_nat n = (if n < 10 then [digit_char n] else show_nat (n div 10) @ [digit_char (n mod 10)])"

declare show_nat.simps [simp del]

definition show_int :: "int \<Rightarrow> string" where
  "show_int i = (if i < 0 then CHR ''-'' # show_nat (nat (- i)) else show_nat (nat i))"

text \<open>\<open>Duration::num_seconds\<close> and \<open>num_milliseconds\<close> of nanoseconds truncate towards zero.\<close>

definition num_seconds :: "int \<Rightarrow> int" where
  "num_seconds ns = (if ns \<ge> 0 then ns div 10 ^ 9 else - (- ns div 10 ^ 9))"

definition num_milliseconds :: "int \<Rightarrow> int" where
  "num_milliseconds ns = (if ns \<ge> 0 then ns div 10 ^ 6 else - (- ns div 10 ^ 6))"

text \<open>\<open>format!("{:05}", n)\<close>.\<close>

definition pad5 :: "nat \<Rightarrow> string" where
  "pad5 n = replicate (5 - length (show_nat n)) (CHR ''0'') @ show_nat n"

definition digit_val :: "char \<Rightarrow> nat" where
  "digit_val c = of_char c - 48"

definition read_nat :: "string \<Rightarrow> nat" where
  "read_nat s = foldl (\<lambda>a c. a * 10 + digit_val c) 0 s"

text \<open>\<open>str::parse::<i64>\<close>: an optional sign, at least one digit, and no overflow.\<close>

definition parse_i64 :: "string \<Rightarrow> int option" where
  "parse_i64 s =
     (let neg = (case s of c # _ \<Rightarrow> c = CHR ''-'' | [] \<Rightarrow> False);
          ds = (case s of c # cs \<Rightarrow> if c = CHR ''-'' \<or> c = CHR ''+'' then cs else s | [] \<Rightarrow> s);
          v = (if neg then - int (read_nat ds) else int (read_nat ds))
      in if ds \<noteq> [] \<and> list_all is_digit ds \<and> - (2 ^ 63) \<le> v \<and> v < 2 ^ 63 then Some v else None)"

lemma digit_val_char: "d < 10 \<Longrightarrow> digit_val (digit_char d) = d"
  by (simp add: digit_val_def digit_char_def)

lemma is_digit_digit_char: "d < 10 \<Longrightarrow> is_digit (digit_char d)"
  by (simp add: is_digit_def byte_in_def digit_char_def)

lemma read_nat_append1: "read_nat (s @ [c]) = read_nat s * 10 + digit_val c"
  by (simp add: read_nat_def)

lemma read_show_nat: "read_nat (show_nat n) = n"
proof (induction n rule: show_nat.induct)
  case (1 n)
  show ?case
  proof (cases "n < 10")
    case True
    then show ?thesis by (subst show_nat.simps) (simp add: read_nat_def digit_val_char)
  next
    case False
    with 1 show ?thesis
      by (subst show_nat.simps) (simp add: read_nat_append1 digit_val_char)
  qed
qed

lemma read_nat_zeros: "read_nat (replicate k (CHR ''0'') @ s) = read_nat s"
proof -
  have "foldl (\<lambda>a c. a * 10 + digit_val c) 0 (replicate k (CHR ''0'')) = 0"
    by (induction k) (auto simp: digit_val_def)
  then show ?thesis by (simp add: read_nat_def)
qed

lemma pad5_inject: "pad5 m = pad5 n \<longleftrightarrow> m = n"
  by (metis pad5_def read_nat_zeros read_show_nat)

lemma show_nat_inject: "show_nat m = show_nat n \<longleftrightarrow> m = n"
  by (metis read_show_nat)

lemma show_nat_digits: "list_all is_digit (show_nat n)"
proof (induction n rule: show_nat.induct)
  case (1 n)
  then show ?case
    by (subst show_nat.simps) (simp add: is_digit_digit_char)
qed

lemma show_nat_nonempty [simp]: "show_nat n \<noteq> []"
  by (subst show_nat.simps) simp

lemma length_show_nat: "n < 10 ^ Suc k \<Longrightarrow> length (show_nat n) \<le> Suc k"
proof (induction k arbitrary: n)
  case 0
  then show ?case by (subst show_nat.simps) simp
next
  case (Suc k)
  then have "length (show_nat (n div 10)) \<le> Suc k"
    by (intro Suc.IH) (simp add: less_mult_imp_div_less)
  then show ?case by (subst show_nat.simps) simp
qed

lemma length_pad5: "n \<le> 99999 \<Longrightarrow> length (pad5 n) = 5"
  using length_show_nat [of n 4] by (simp add: pad5_def)

section \<open>Hash maps\<close>

text \<open>
  A \<open>HashMap\<close> is an association list without repeated keys. The order in which the code iterates it
  is not the list's: an iteration goes through a function \<open>ord\<close> from the keys to an ordering of them
  that stands for the hasher, a parameter of the model.
\<close>

type_synonym ('k, 'v) hash_map = "('k \<times> 'v) list"

abbreviation hm_get :: "('k, 'v) hash_map \<Rightarrow> 'k \<Rightarrow> 'v option" where
  "hm_get \<equiv> map_of"

abbreviation hm_insert :: "'k \<Rightarrow> 'v \<Rightarrow> ('k, 'v) hash_map \<Rightarrow> ('k, 'v) hash_map" where
  "hm_insert \<equiv> AList.update"

abbreviation hm_remove :: "'k \<Rightarrow> ('k, 'v) hash_map \<Rightarrow> ('k, 'v) hash_map" where
  "hm_remove \<equiv> AList.delete"

definition hm_wf :: "('k, 'v) hash_map \<Rightarrow> bool" where
  "hm_wf m \<longleftrightarrow> distinct (map fst m)"

definition hm_iter :: "('k list \<Rightarrow> 'k list) \<Rightarrow> ('k, 'v) hash_map \<Rightarrow> ('k \<times> 'v) list" where
  "hm_iter ord m = map (\<lambda>k. (k, the (map_of m k))) (ord (map fst m))"

text \<open>What an iteration order promises: every key once.\<close>

definition ord_ok :: "('k list \<Rightarrow> 'k list) \<Rightarrow> bool" where
  "ord_ok ord \<longleftrightarrow> (\<forall>ks. mset (ord ks) = mset ks)"

lemma ord_ok_set: "ord_ok ord \<Longrightarrow> set (ord ks) = set ks"
  by (metis ord_ok_def set_mset_mset)

lemma hm_wf_Nil [simp]: "hm_wf []"
  by (simp add: hm_wf_def)

lemma hm_wf_insert [simp]: "hm_wf m \<Longrightarrow> hm_wf (hm_insert k v m)"
  by (simp add: hm_wf_def distinct_update)

lemma hm_wf_filter [simp]: "hm_wf m \<Longrightarrow> hm_wf (filter P m)"
  by (simp add: hm_wf_def distinct_map_filter)

lemma hm_wf_remove [simp]: "hm_wf m \<Longrightarrow> hm_wf (hm_remove k m)"
  by (simp add: hm_wf_def distinct_delete)

lemma hm_get_insert: "hm_get (hm_insert k v m) = (hm_get m)(k \<mapsto> v)"
  by (rule update_conv')

lemma hm_get_remove: "hm_get (hm_remove k m) = (hm_get m)(k := None)"
  by (rule delete_conv')

lemma hm_get_iff: "hm_wf m \<Longrightarrow> hm_get m k = Some v \<longleftrightarrow> (k, v) \<in> set m"
  by (simp add: hm_wf_def)

lemma set_hm_iter:
  assumes "ord_ok ord" and "hm_wf m"
  shows "set (hm_iter ord m) = set m"
proof -
  have "set (hm_iter ord m) = (\<lambda>k. (k, the (map_of m k))) ` fst ` set m"
    by (simp add: hm_iter_def ord_ok_set [OF assms(1)])
  also have "\<dots> = set m"
    using assms(2) by (force simp: hm_wf_def image_iff)
  finally show ?thesis .
qed

lemma hm_get_filter:
  "hm_wf m \<Longrightarrow> hm_get (filter P m) k = (case hm_get m k of None \<Rightarrow> None | Some v \<Rightarrow> if P (k, v) then Some v else None)"
  by (induction m) (auto simp: hm_wf_def map_of_eq_None_iff split: option.splits)

end
