(* ===== verification/Models.thy ===== *)
theory Models
  imports Rust_Str
begin

text \<open>
  The data of the program: the rows of the database (\<open>models.rs\<close>), the commands the components send
  each other (\<open>comm.rs\<close>), the InspIRCd configuration, and the interface of the libraries the code
  calls but does not contain, which is a parameter of the model.
\<close>

section \<open>Library data\<close>

text \<open>
  \<open>huawei_modem::pdu::PduAddress\<close>: the two fields the code builds it from. What an address type is
  belongs to the library; it is the type variable \<open>'t\<close>. WhatsApp's \<open>Jid\<close> is the type variable \<open>'j\<close>.
\<close>

record 't pdu_address =
  type_addr :: "'t"
  number :: "8 word list"

text \<open>
  What the code reads of a decoded message: its text and the concatenation header, whose small
  unsigned numbers the code only widens.
\<close>

record concat_data =
  reference :: nat
  parts :: nat
  sequence :: nat

record gsm_message =
  gsm_text :: string
  concatenated :: "concat_data option"

text \<open>
  A \<open>DeliverPdu\<close>: the sender and the result of \<open>get_message_data().decode_message()\<close>, where \<^const>\<open>Inl\<close>
  is the decoding error as it is displayed.
\<close>

record 't deliver_pdu =
  originating_address :: "'t pdu_address"
  decode_message :: "string + gsm_message"

datatype message_status = ReceivedUnread | OtherStatus

record 't sms_message =
  status :: message_status
  pdu :: "'t deliver_pdu"
  raw_pdu :: "8 word list"

text \<open>A line to an IRC peer, as \<open>Message::new(prefix, command, args, suffix)\<close> takes it.\<close>

record irc_msg =
  im_prefix :: "string option"
  im_command :: string
  im_args :: "string list"
  im_suffix :: "string option"

text \<open>A line from an IRC peer: the variants of the \<open>irc\<close> library's \<open>Command\<close> that the code tells apart.\<close>

datatype cap_sub_command = LS | REQ | LIST | END | CapOther

datatype irc_response = RPL_ENDOFMOTD | ERR_NOMOTD | ERR_UNKNOWNCOMMAND | OtherResponse

datatype irc_command =
    PRIVMSG string string
  | ERROR string
  | KILL string string
  | QUIT "string option"
  | PING string "string option"
  | SQUIT string string
  | NICK string
  | USER string string string
  | JOIN string
  | PART string
  | ChannelMODE string "string list"
  | CAP cap_sub_command "string option" "string option"
  | PASS string
  | Response irc_response "string list" "string option"
  | Raw string "string list" "string option"
  | OtherCommand string

record in_msg =
  prefix :: "string option"
  command :: irc_command

section \<open>Library functions\<close>

text \<open>
  One field for every function of a library that the code relies on: the address types, hexadecimal
  strings and addresses of \<open>huawei_modem\<close>, the JIDs of \<open>whatsappweb\<close>, transliteration to ASCII
  (\<open>unidecode\<close>), \<open>Regex::is_match\<close>, the validation, parsing and printing of the \<open>irc\<close> library, PDU decoding, the quoting
  and escaping of a string by \<open>{:?}\<close>, local time, and the iteration orders of the hash maps.
\<close>

record ('t, 'j) ext =
  ton_into_u8 :: "'t \<Rightarrow> 8 word"
  ton_try_from :: "8 word \<Rightarrow> 't option"
  hex_to_string :: "8 word list \<Rightarrow> string"
  hex_decode :: "string \<Rightarrow> 8 word list option"
  addr_to_string :: "'t pdu_address \<Rightarrow> string"
  addr_parse :: "string \<Rightarrow> 't pdu_address option"
  jid_id :: "'j \<Rightarrow> string"
  jid_is_group :: "'j \<Rightarrow> bool"
  jid_to_string :: "'j \<Rightarrow> string"
  jid_parse :: "string \<Rightarrow> 'j option"
  jid_phonenumber :: "'j \<Rightarrow> string option"
  jid_from_phonenumber :: "string \<Rightarrow> 'j option"
  unidecode :: "string \<Rightarrow> string"
  regex_is_match :: "string \<Rightarrow> string \<Rightarrow> bool"
  irc_valid :: "irc_msg \<Rightarrow> bool"
  irc_parse :: "string \<Rightarrow> string + irc_msg"
  irc_command_str :: "irc_command \<Rightarrow> string"
  deliver_try_from :: "8 word list \<Rightarrow> 't deliver_pdu option"
  debug_str :: "string \<Rightarrow> string"
  local_date :: "int \<Rightarrow> string"
  local_time :: "int \<Rightarrow> string"
  ord_str :: "string list \<Rightarrow> string list"
  ord_addr :: "'t pdu_address list \<Rightarrow> 't pdu_address list"
  ord_jid :: "'j list \<Rightarrow> 'j list"

text \<open>\<open>Message::new(..)?\<close>: the message, or the error of the library's validation.\<close>

definition new_message ::
  "('t, 'j) ext \<Rightarrow> string option \<Rightarrow> string \<Rightarrow> string list \<Rightarrow> string option \<Rightarrow> irc_msg outcome" where
  "new_message E pre cmd args suffix =
     (let m = \<lparr>im_prefix = pre, im_command = cmd, im_args = args, im_suffix = suffix\<rparr>
      in if irc_valid E m then Ok m else Err IrcError)"

section \<open>Database rows\<close>

text \<open>
  Serial identifiers are unbounded here. A timestamp is a number of nanoseconds since the epoch.
\<close>

record recipient =
  r_id :: int
  r_phone_number :: string
  r_nick :: string
  r_whatsapp :: bool
  r_avatar_url :: "string option"
  r_notify :: "string option"
  r_nicksrc :: int

definition NICKSRC_MIGRATED :: int where "NICKSRC_MIGRATED = - 1"
definition NICKSRC_AUTO :: int where "NICKSRC_AUTO = 0"
definition NICKSRC_USER :: int where "NICKSRC_USER = 1"
definition NICKSRC_WA_CONTACT :: int where "NICKSRC_WA_CONTACT = 2"
definition NICKSRC_WA_NOTIFY :: int where "NICKSRC_WA_NOTIFY = 3"
definition NICKSRC_COLLISION :: int where "NICKSRC_COLLISION = 4"

lemmas nicksrc_defs =
  NICKSRC_MIGRATED_def NICKSRC_AUTO_def NICKSRC_USER_def NICKSRC_WA_CONTACT_def
  NICKSRC_WA_NOTIFY_def NICKSRC_COLLISION_def

record message =
  m_id :: int
  m_phone_number :: string
  m_pdu :: "8 word list option"
  m_csms_data :: "int option"
  m_group_target :: "int option"
  m_text :: "string option"
  m_source :: int
  m_ts :: int

definition SOURCE_SMS :: int where "SOURCE_SMS = 0"
definition SOURCE_WA :: int where "SOURCE_WA = 1"

record group =
  g_id :: int
  g_jid :: string
  g_channel :: string
  g_participants :: "int list"
  g_admins :: "int list"
  g_topic :: string

section \<open>Commands between the components\<close>

datatype 't modem_command =
    DoCmgl
  | CmglComplete "'t sms_message list"
  | CmglFailed error
  | SendMessage "'t pdu_address" string
  | RequestCsq
  | RequestReg
  | ForceReinit
  | UpdatePath "string option"
  | CommandTimeout
  | ModemMakeContact "'t pdu_address"

datatype 'j peer = Individual 'j | PeerGroup 'j 'j

record 'j media_result =
  mr_from :: 'j
  mr_group :: "int option"
  mr_mi :: string
  mr_peer :: "'j peer option"
  mr_ts :: int
  mr_result :: "error + string"

datatype ('t, 'j) whatsapp_command =
    StartRegistration
  | LogonIfSaved
  | SendGroupMessage string string
  | SendDirectMessage "'t pdu_address" string
  | GroupAssociate 'j string
  | GroupList
  | GroupRemove string
  | GroupUpdateAll
  | MediaFinished "'j media_result"
  | PrintAcks
  | WaMakeContact "'t pdu_address"
  | SubscribePresence "'t pdu_address"

datatype contact_manager_command =
    CmProcessMessages
  | CmProcessGroups
  | UpdateAway "string option"
  | ChangeNick string int
  | SetWhatsapp bool

datatype 't contact_factory_command =
    ProcessMessages
  | ProcessGroups
  | ProcessAvatars
  | SetupContact "'t pdu_address"
  | DropContact "'t pdu_address"
  | QueryContact "'t pdu_address" int
  | DropContactByNick string
  | LoadRecipients
  | ForwardCommand "'t pdu_address" contact_manager_command
  | ForwardCommandByNick string contact_manager_command
  | SubscribePresenceByNick string

datatype control_bot_command =
    Log string
  | ReportFailure string
  | CommandResponse string
  | CbProcessGroups

section \<open>Configuration of the InspIRCd link\<close>

record insp_config =
  sid :: string
  control_nick :: string
  admin_nick :: string
  sendpass :: string
  recvpass :: string
  server_desc :: string
  server_name :: string
  log_chan :: string
  set_topics :: bool
  clobber_topics :: bool
  cfg_ensure_joined :: bool

end
