(* ===== verification/Util.thy ===== *)
theory Util
  imports Models
begin

text \<open>
  \<open>util.rs\<close>: the database form of a phone number and its inverse, the conversion between JIDs and
  numbers, and the sanitising of names for IRC.
\<close>

section \<open>Addresses\<close>

definition hex_digit :: "nat \<Rightarrow> char" where
  "hex_digit n = char_of (if n < 10 then 48 + n else 55 + n)"

text \<open>\<open>format!("{:02X}", b)\<close>.\<close>

definition fmt_02X :: "8 word \<Rightarrow> string" where
  "fmt_02X b = [hex_digit (unat b div 16), hex_digit (unat b mod 16)]"

definition normalize_address :: "('t, 'j) ext \<Rightarrow> 't pdu_address \<Rightarrow> string" where
  "normalize_address E addr =
     fmt_02X (ton_into_u8 E (type_addr addr)) @ hex_to_string E (number addr)"

text \<open>\<open>data.remove(0)\<close> panics where the decoder returns an empty vector.\<close>

definition un_normalize_address :: "('t, 'j) ext \<Rightarrow> string \<Rightarrow> 't pdu_address option outcome" where
  "un_normalize_address E addr =
     (if length addr < 3 then Ok None
      else (case hex_decode E addr of
          None \<Rightarrow> Ok None
        | Some [] \<Rightarrow> Panic
        | Some (toa # data) \<Rightarrow>
            (case ton_try_from E toa of
               None \<Rightarrow> Ok None
             | Some t \<Rightarrow> Ok (Some \<lparr>type_addr = t, number = data\<rparr>))))"

text \<open>\<open>pn.parse().unwrap()\<close> panics where the library cannot parse the number.\<close>

definition jid_to_address :: "('t, 'j) ext \<Rightarrow> 'j \<Rightarrow> 't pdu_address option outcome" where
  "jid_to_address E jid =
     (case jid_phonenumber E jid of
        None \<Rightarrow> Ok None
      | Some pn \<Rightarrow>
          (case addr_parse E pn of
             None \<Rightarrow> Panic
           | Some a \<Rightarrow> Ok (if length (number a) > 0 then Some a else None)))"

definition address_to_jid :: "('t, 'j) ext \<Rightarrow> 't pdu_address \<Rightarrow> 'j outcome" where
  "address_to_jid E addr =
     (case jid_from_phonenumber E (addr_to_string E addr) of
        None \<Rightarrow> Err JidError
      | Some j \<Rightarrow> Ok j)"

text \<open>\<open>Recipient::get_addr\<close> and \<open>Message::get_addr\<close> of \<open>models.rs\<close>.\<close>

definition get_addr :: "('t, 'j) ext \<Rightarrow> string \<Rightarrow> 't pdu_address outcome" where
  "get_addr E num =
     (case un_normalize_address E num of
        Ok (Some a) \<Rightarrow> Ok a
      | Ok None \<Rightarrow> Err (Failure ''invalid address {} in db'' [num])
      | Err e \<Rightarrow> Err e
      | Panic \<Rightarrow> Panic)"

section \<open>Names\<close>

text \<open>One character of a channel name.\<close>

definition chan_char :: "char \<Rightarrow> string" where
  "chan_char ch =
     (if ch = CHR ''_'' then ''_''
      else if ch = CHR ''-'' then ''-''
      else if ch = CHR ''#'' then ''#''
      else if ch = CHR '' '' then ''-''
      else if is_ascii_alphanumeric ch then [ascii_lower ch]
      else [])"

definition string_to_irc_chan :: "('t, 'j) ext \<Rightarrow> string \<Rightarrow> string" where
  "string_to_irc_chan E inp = concat (map chan_char (unidecode E inp))"

definition backslash :: char where
  "backslash = CHR 0x5C"

definition backtick :: char where
  "backtick = CHR 0x60"

definition nick_symbols :: "char list" where
  "nick_symbols = [CHR ''_'', CHR ''-'', backslash, CHR ''['', CHR '']'', CHR ''{'', CHR ''}'',
     CHR ''^'', backtick, CHR ''|'']"

text \<open>One character of a nickname.\<close>

definition nick_char :: "char \<Rightarrow> char" where
  "nick_char ch =
     (if ch = CHR ''+'' then CHR ''I''
      else if ch \<in> set nick_symbols then ch
      else if is_ascii_alphanumeric ch then ch
      else CHR ''_'')"

text \<open>
  The leading \<open>S\<close> is taken away again when an ASCII letter follows it. The loop of the source goes
  over characters; the output of \<open>unidecode\<close> is ASCII, so they are its bytes.
\<close>

definition string_to_irc_nick :: "('t, 'j) ext \<Rightarrow> string \<Rightarrow> string" where
  "string_to_irc_nick E inp =
     (let r = CHR ''S'' # map nick_char (unidecode E inp)
      in case r of
           s # ch # cs \<Rightarrow> if is_ascii_alphabetic ch then ch # cs else r
         | _ \<Rightarrow> r)"

definition make_nick_for_address :: "('t, 'j) ext \<Rightarrow> 't pdu_address \<Rightarrow> string" where
  "make_nick_for_address E addr = string_to_irc_nick E (addr_to_string E addr)"


section \<open>Round trip of the database form\<close>

text \<open>
  What the code relies on: \<open>HexData\<close> prints two upper-case digits for each byte and its \<open>decode\<close>
  reads them back, and an address type survives its conversion to a byte.
\<close>

definition hex_ok :: "('t, 'j) ext \<Rightarrow> bool" where
  "hex_ok E \<longleftrightarrow> (\<forall>bs. hex_to_string E bs = concat (map fmt_02X bs)
                   \<and> hex_decode E (concat (map fmt_02X bs)) = Some bs)"

definition ton_ok :: "('t, 'j) ext \<Rightarrow> bool" where
  "ton_ok E \<longleftrightarrow> (\<forall>t. ton_try_from E (ton_into_u8 E t) = Some t)"

text \<open>A JID is read back from what it prints as.\<close>

definition jid_ok :: "('t, 'j) ext \<Rightarrow> bool" where
  "jid_ok E \<longleftrightarrow> (\<forall>j. jid_parse E (jid_to_string E j) = Some j)"

text \<open>\<open>HexData::decode\<close> of three or more digits is not empty, so the database form never panics.\<close>

definition decode_ok :: "('t, 'j) ext \<Rightarrow> bool" where
  "decode_ok E \<longleftrightarrow> (\<forall>s. 3 \<le> length s \<longrightarrow> hex_decode E s \<noteq> Some [])"

lemma get_addr_no_panic: "decode_ok E \<Longrightarrow> get_addr E n \<noteq> Panic"
  by (auto simp: decode_ok_def get_addr_def un_normalize_address_def not_le [symmetric]
      split: option.splits list.splits)

lemma length_fmt_02X [simp]: "length (fmt_02X b) = 2"
  by (simp add: fmt_02X_def)

lemma length_hex [simp]: "length (concat (map fmt_02X bs)) = 2 * length bs"
  by (induction bs) auto

lemma normalize_address_hex:
  "hex_ok E \<Longrightarrow>
   normalize_address E a = concat (map fmt_02X (ton_into_u8 E (type_addr a) # number a))"
  by (simp add: normalize_address_def hex_ok_def)

lemma decode_normalize:
  "hex_ok E \<Longrightarrow>
   hex_decode E (normalize_address E a) = Some (ton_into_u8 E (type_addr a) # number a)"
  by (simp only: normalize_address_hex) (simp add: hex_ok_def del: list.map concat.simps)

lemma length_normalize: "hex_ok E \<Longrightarrow> length (normalize_address E a) = 2 + 2 * length (number a)"
  by (simp add: normalize_address_hex)

lemma un_normalize_normalize:
  assumes "hex_ok E" and "ton_ok E"
  shows "un_normalize_address E (normalize_address E a) = Ok (if number a = [] then None else Some a)"
proof -
  have "length (normalize_address E a) < 3 \<longleftrightarrow> number a = []"
    by (cases "number a") (auto simp: length_normalize [OF assms(1)])
  with assms show ?thesis
    by (simp add: un_normalize_address_def decode_normalize ton_ok_def)
qed

lemma normalize_inject:
  assumes "hex_ok E" and "ton_ok E"
  shows "normalize_address E a = normalize_address E b \<longleftrightarrow> a = b"
proof
  assume "normalize_address E a = normalize_address E b"
  then have "ton_into_u8 E (type_addr a) # number a = ton_into_u8 E (type_addr b) # number b"
    using decode_normalize [OF assms(1), of a] decode_normalize [OF assms(1), of b] by simp
  moreover from this have "type_addr a = type_addr b"
    using assms(2) by (metis list.inject option.inject ton_ok_def)
  ultimately show "a = b" by simp
qed simp

lemma get_addr_normalize:
  "hex_ok E \<Longrightarrow> ton_ok E \<Longrightarrow> number a \<noteq> [] \<Longrightarrow> get_addr E (normalize_address E a) = Ok a"
  by (simp add: get_addr_def un_normalize_normalize)

section \<open>Sanitised names\<close>

definition nick_ok_char :: "char \<Rightarrow> bool" where
  "nick_ok_char c \<longleftrightarrow> c \<in> set nick_symbols \<or> is_ascii_alphanumeric c"

text \<open>A nickname in the sense of RFC 2812: no leading digit or hyphen, no other character.\<close>

definition valid_nick :: "string \<Rightarrow> bool" where
  "valid_nick s \<longleftrightarrow> s \<noteq> [] \<and> is_ascii_alphabetic (hd s) \<and> list_all nick_ok_char s"

lemma alpha_S: "is_ascii_alphabetic (CHR ''S'')"
  by (simp add: is_ascii_alphabetic_def is_upper_def byte_in_def)

lemma nick_ok_nick_char: "nick_ok_char (nick_char c)"
  by (simp add: nick_ok_char_def nick_char_def nick_symbols_def is_ascii_alphanumeric_def
      is_ascii_alphabetic_def is_upper_def byte_in_def)

lemmas char_class_defs =
  is_ascii_alphanumeric_def is_ascii_alphabetic_def is_upper_def is_lower_def is_digit_def byte_in_def

lemma plus_not_ok: "\<not> nick_ok_char (CHR ''+'')"
  by (simp add: nick_ok_char_def nick_symbols_def backslash_def backtick_def char_class_defs)

lemma nick_char_id: "nick_ok_char c \<Longrightarrow> nick_char c = c"
  using plus_not_ok by (cases "c = CHR ''+''") (auto simp: nick_ok_char_def nick_char_def)

lemma string_to_irc_nick_cases:
  "string_to_irc_nick E inp =
     (case map nick_char (unidecode E inp) of
        ch # cs \<Rightarrow> if is_ascii_alphabetic ch then ch # cs else CHR ''S'' # ch # cs
      | [] \<Rightarrow> ''S'')"
  by (simp add: string_to_irc_nick_def Let_def split: list.splits)

lemma valid_nick_string_to_irc_nick: "valid_nick (string_to_irc_nick E inp)"
proof -
  have "list_all nick_ok_char (map nick_char (unidecode E inp))"
    by (simp add: list_all_iff nick_ok_nick_char)
  moreover have "nick_ok_char (CHR ''S'')"
    by (simp add: nick_ok_char_def is_ascii_alphanumeric_def alpha_S)
  ultimately show ?thesis
    by (auto simp: string_to_irc_nick_cases valid_nick_def alpha_S split: list.splits)
qed

lemma string_to_irc_nick_id: "valid_nick s \<Longrightarrow> unidecode E s = s \<Longrightarrow> string_to_irc_nick E s = s"
  by (cases s) (auto simp: string_to_irc_nick_cases valid_nick_def nick_char_id list_all_iff
      intro!: map_idI)

definition chan_ok_char :: "char \<Rightarrow> bool" where
  "chan_ok_char c \<longleftrightarrow> c \<in> {CHR ''_'', CHR ''-'', CHR ''#''} \<or> is_lower c \<or> is_digit c"

lemma is_lower_ascii_lower: "is_ascii_alphabetic c \<Longrightarrow> is_lower (ascii_lower c)"
  by (auto simp: ascii_lower_def char_class_defs)

lemma ascii_lower_id: "\<not> is_upper c \<Longrightarrow> ascii_lower c = c"
  by (simp add: ascii_lower_def)

lemma alnum_lower_ok: "is_ascii_alphanumeric c \<Longrightarrow> chan_ok_char (ascii_lower c)"
  by (cases "is_upper c") (auto simp: is_ascii_alphanumeric_def is_lower_ascii_lower ascii_lower_id
      chan_ok_char_def is_ascii_alphabetic_def dest: is_lower_ascii_lower)

lemma chan_char_ok: "c \<in> set (chan_char ch) \<Longrightarrow> chan_ok_char c"
  by (auto simp: chan_char_def split: if_splits dest: alnum_lower_ok) (simp_all add: chan_ok_char_def)

lemma chan_ok_not_upper: "chan_ok_char c \<Longrightarrow> \<not> is_upper c"
  by (auto simp: chan_ok_char_def char_class_defs)

lemma space_not_ok: "\<not> chan_ok_char (CHR '' '')"
  by (simp add: chan_ok_char_def char_class_defs)

lemma chan_char_id:
  assumes "chan_ok_char c"
  shows "chan_char c = [c]"
proof -
  have "c \<noteq> CHR '' ''" using assms space_not_ok by blast
  moreover have "is_ascii_alphanumeric c \<or> c \<in> {CHR ''_'', CHR ''-'', CHR ''#''}"
    using assms by (auto simp: chan_ok_char_def is_ascii_alphanumeric_def is_ascii_alphabetic_def)
  ultimately show ?thesis
    using ascii_lower_id [OF chan_ok_not_upper [OF assms]] by (auto simp: chan_char_def)
qed

lemma string_to_irc_chan_ok: "list_all chan_ok_char (string_to_irc_chan E inp)"
  by (auto simp: string_to_irc_chan_def list_all_iff dest: chan_char_ok)

lemma string_to_irc_chan_id:
  assumes "list_all chan_ok_char s" and "unidecode E s = s"
  shows "string_to_irc_chan E s = s"
proof -
  have "concat (map chan_char s) = s"
    using assms(1) by (induction s) (auto simp: chan_char_id)
  with assms(2) show ?thesis by (simp add: string_to_irc_chan_def)
qed

section \<open>Commands for the modem\<close>

text \<open>What no component but the modem manager itself sends it.\<close>

definition no_listing :: "'t modem_command list \<Rightarrow> bool" where
  "no_listing cs \<longleftrightarrow> (\<forall>ms. CmglComplete ms \<notin> set cs)"

lemma no_listing_append [simp]: "no_listing (xs @ ys) \<longleftrightarrow> no_listing xs \<and> no_listing ys"
  by (auto simp: no_listing_def)

lemma no_listing_sends [simp]: "no_listing (map (SendMessage a) ms)"
  by (auto simp: no_listing_def)

lemma no_listing_cons [simp]:
  "no_listing []" "no_listing (c # cs) \<longleftrightarrow> (\<forall>ms. c \<noteq> CmglComplete ms) \<and> no_listing cs"
  by (auto simp: no_listing_def)

end
