(* ===== verification/Store.thy ===== *)
theory Store
  imports Util
begin

text \<open>
  \<open>store.rs\<close> over a model of its five tables. The columns, the unique keys, the foreign key with its
  cascade and the check constraint are those of the migrations under \<open>migrations/\<close>.
\<close>

section \<open>The database\<close>

text \<open>
  Rows are listed in the order the server returns them where a query has no \<open>ORDER BY\<close>. \<open>faults\<close>
  is the environment: one entry for each statement to come, true where taking a connection from the
  pool or running the statement fails; past its end every statement succeeds.
\<close>

record db =
  recipients :: "recipient list"
  messages :: "message list"
  groups :: "group list"
  wa_persistence :: "(int \<times> string) list"
  wa_msgids :: "string list"
  next_recipient_id :: int
  next_message_id :: int
  next_group_id :: int
  db_clock :: int
  faults :: "bool list"

definition with_conn :: "(db, 'a) comp \<Rightarrow> (db, 'a) comp" where
  "with_conn m d = (case faults d of
      [] \<Rightarrow> m d
    | f # fs \<Rightarrow> if f then (Err DbError, d\<lparr>faults := fs\<rparr>) else m (d\<lparr>faults := fs\<rparr>))"

text \<open>\<open>.first(&*conn).optional()?\<close>.\<close>

definition first_opt :: "('r \<Rightarrow> bool) \<Rightarrow> 'r list \<Rightarrow> 'r option" where
  "first_opt P rows = find P rows"

section \<open>Messages\<close>

definition insert_message :: "message \<Rightarrow> (db, message) comp" where
  "insert_message m0 d =
     (let m = m0\<lparr>m_id := next_message_id d\<rparr>;
          d' = d\<lparr>next_message_id := next_message_id d + 1\<rparr>
      in if (case m_group_target m of None \<Rightarrow> True | Some g \<Rightarrow> g \<in> g_id ` set (groups d))
            \<and> (m_pdu m = None) \<noteq> (m_text m = None)
         then (Ok m, d'\<lparr>messages := messages d @ [m]\<rparr>)
         else (Err DbError, d'))"

text \<open>The timestamp column defaults to \<open>now()\<close>.\<close>

definition store_sms_message ::
  "('t, 'j) ext \<Rightarrow> 't pdu_address \<Rightarrow> 8 word list \<Rightarrow> int option \<Rightarrow> (db, message) comp" where
  "store_sms_message E addr pd csms =
     with_conn (\<lambda>d. insert_message
       \<lparr>m_id = 0, m_phone_number = normalize_address E addr, m_pdu = Some pd, m_csms_data = csms,
        m_group_target = None, m_text = None, m_source = SOURCE_SMS, m_ts = db_clock d\<rparr> d)"

definition store_wa_message ::
  "('t, 'j) ext \<Rightarrow> 't pdu_address \<Rightarrow> string \<Rightarrow> int option \<Rightarrow> int \<Rightarrow> (db, message) comp" where
  "store_wa_message E addr txt group_target ts =
     with_conn (insert_message
       \<lparr>m_id = 0, m_phone_number = normalize_address E addr, m_pdu = None, m_csms_data = None,
        m_group_target = group_target, m_text = Some txt, m_source = SOURCE_WA, m_ts = ts\<rparr>)"

text \<open>\<open>order((ts.asc(), id.asc()))\<close>.\<close>

definition by_ts_id :: "message list \<Rightarrow> message list" where
  "by_ts_id ms = sort_key (\<lambda>m. (m_ts m, m_id m)) ms"

definition get_all_messages :: "(db, message list) comp" where
  "get_all_messages = with_conn (gets (\<lambda>d. by_ts_id (messages d)))"

definition get_messages_for_recipient ::
  "('t, 'j) ext \<Rightarrow> 't pdu_address \<Rightarrow> (db, message list) comp" where
  "get_messages_for_recipient E addr =
     with_conn (gets (\<lambda>d. by_ts_id
       (filter (\<lambda>m. m_phone_number m = normalize_address E addr) (messages d))))"

definition get_all_concatenated :: "string \<Rightarrow> int \<Rightarrow> (db, message list) comp" where
  "get_all_concatenated num rf =
     with_conn (gets (\<lambda>d.
       filter (\<lambda>m. m_csms_data m = Some rf \<and> m_phone_number m = num) (messages d)))"

definition delete_message :: "int \<Rightarrow> (db, unit) comp" where
  "delete_message mid =
     with_conn (\<lambda>d.
       if mid \<in> m_id ` set (messages d)
       then (Ok (), d\<lparr>messages := filter (\<lambda>m. m_id m \<noteq> mid) (messages d)\<rparr>)
       else (Err (Failure ''no rows affected deleting mid #{}'' [show_int mid]), d))"

section \<open>WhatsApp session and message identifiers\<close>

text \<open>The session is kept as the JSON value it serialises to; there is one row, of revision 0.\<close>

definition store_wa_persistence :: "string \<Rightarrow> (db, unit) comp" where
  "store_wa_persistence p =
     with_conn (modify (\<lambda>d. d\<lparr>wa_persistence := AList.update 0 p (wa_persistence d)\<rparr>))"

definition get_wa_persistence_opt :: "(db, string option) comp" where
  "get_wa_persistence_opt = with_conn (gets (\<lambda>d. map_of (wa_persistence d) 0))"

definition is_wa_msgid_stored :: "string \<Rightarrow> (db, bool) comp" where
  "is_wa_msgid_stored mid = with_conn (gets (\<lambda>d. mid \<in> set (wa_msgids d)))"

definition store_wa_msgid :: "string \<Rightarrow> (db, unit) comp" where
  "store_wa_msgid mid =
     with_conn (modify (\<lambda>d.
       if mid \<in> set (wa_msgids d) then d else d\<lparr>wa_msgids := wa_msgids d @ [mid]\<rparr>))"

section \<open>Recipients\<close>

definition insert_recipient :: "recipient \<Rightarrow> (db, recipient) comp" where
  "insert_recipient r0 d =
     (let r = r0\<lparr>r_id := next_recipient_id d\<rparr>;
          d' = d\<lparr>next_recipient_id := next_recipient_id d + 1\<rparr>
      in if r_phone_number r \<in> r_phone_number ` set (recipients d) then (Err DbError, d')
         else (Ok r, d'\<lparr>recipients := recipients d @ [r]\<rparr>))"

definition store_recipient :: "('t, 'j) ext \<Rightarrow> 't pdu_address \<Rightarrow> string \<Rightarrow> (db, recipient) comp" where
  "store_recipient E addr nick =
     with_conn (insert_recipient
       \<lparr>r_id = 0, r_phone_number = normalize_address E addr, r_nick = nick, r_whatsapp = False,
        r_avatar_url = None, r_notify = None, r_nicksrc = NICKSRC_AUTO\<rparr>)"

definition store_wa_recipient ::
  "('t, 'j) ext \<Rightarrow> 't pdu_address \<Rightarrow> string \<Rightarrow> string option \<Rightarrow> int \<Rightarrow> (db, recipient) comp" where
  "store_wa_recipient E addr nick notify src =
     with_conn (insert_recipient
       \<lparr>r_id = 0, r_phone_number = normalize_address E addr, r_nick = nick, r_whatsapp = True,
        r_avatar_url = None, r_notify = notify, r_nicksrc = src\<rparr>)"

text \<open>\<open>update(recipients).filter(phone_number.eq(num)).set(..)\<close>: no error where no row matches.\<close>

definition update_recipients :: "string \<Rightarrow> (recipient \<Rightarrow> recipient) \<Rightarrow> (db, unit) comp" where
  "update_recipients num f =
     with_conn (modify (\<lambda>d. d\<lparr>recipients :=
       map (\<lambda>r. if r_phone_number r = num then f r else r) (recipients d)\<rparr>))"

definition update_recipient_notify ::
  "('t, 'j) ext \<Rightarrow> 't pdu_address \<Rightarrow> string option \<Rightarrow> (db, unit) comp" where
  "update_recipient_notify E addr n =
     update_recipients (normalize_address E addr) (\<lambda>r. r\<lparr>r_notify := n\<rparr>)"

definition update_recipient_nick ::
  "('t, 'j) ext \<Rightarrow> 't pdu_address \<Rightarrow> string \<Rightarrow> int \<Rightarrow> (db, unit) comp" where
  "update_recipient_nick E addr n src =
     update_recipients (normalize_address E addr) (\<lambda>r. r\<lparr>r_nick := n, r_nicksrc := src\<rparr>)"

definition update_recipient_wa :: "('t, 'j) ext \<Rightarrow> 't pdu_address \<Rightarrow> bool \<Rightarrow> (db, unit) comp" where
  "update_recipient_wa E addr wa =
     update_recipients (normalize_address E addr) (\<lambda>r. r\<lparr>r_whatsapp := wa\<rparr>)"

definition get_recipient_by_id_opt :: "int \<Rightarrow> (db, recipient option) comp" where
  "get_recipient_by_id_opt i =
     with_conn (gets (\<lambda>d. first_opt (\<lambda>r. r_id r = i) (recipients d)))"

definition get_recipient_by_nick_opt :: "string \<Rightarrow> (db, recipient option) comp" where
  "get_recipient_by_nick_opt n =
     with_conn (gets (\<lambda>d. first_opt (\<lambda>r. r_nick r = n) (recipients d)))"

definition get_recipient_by_addr_opt ::
  "('t, 'j) ext \<Rightarrow> 't pdu_address \<Rightarrow> (db, recipient option) comp" where
  "get_recipient_by_addr_opt E addr =
     with_conn (gets (\<lambda>d.
       first_opt (\<lambda>r. r_phone_number r = normalize_address E addr) (recipients d)))"

definition get_all_recipients :: "(db, recipient list) comp" where
  "get_all_recipients = with_conn (gets recipients)"

definition get_recipients_with_nicksrc :: "int \<Rightarrow> (db, recipient list) comp" where
  "get_recipients_with_nicksrc ns =
     with_conn (gets (\<lambda>d. filter (\<lambda>r. r_nicksrc r = ns) (recipients d)))"

definition delete_recipient_with_addr ::
  "('t, 'j) ext \<Rightarrow> 't pdu_address \<Rightarrow> (db, unit) comp" where
  "delete_recipient_with_addr E addr =
     with_conn (\<lambda>d.
       (let num = normalize_address E addr
        in if num \<in> r_phone_number ` set (recipients d)
           then (Ok (), d\<lparr>recipients := filter (\<lambda>r. r_phone_number r \<noteq> num) (recipients d)\<rparr>)
           else (Err (Failure ''no rows affected deleting recip {}'' [addr_to_string E addr]), d)))"

section \<open>Groups\<close>

definition store_group ::
  "('t, 'j) ext \<Rightarrow> 'j \<Rightarrow> string \<Rightarrow> int list \<Rightarrow> int list \<Rightarrow> string \<Rightarrow> (db, group) comp" where
  "store_group E jid channel participants admins topic =
     with_conn (\<lambda>d.
       (let g = \<lparr>g_id = next_group_id d, g_jid = jid_to_string E jid, g_channel = channel,
                 g_participants = participants, g_admins = admins, g_topic = topic\<rparr>;
            d' = d\<lparr>next_group_id := next_group_id d + 1\<rparr>
        in if g_jid g \<in> g_jid ` set (groups d) \<or> g_channel g \<in> g_channel ` set (groups d)
           then (Err DbError, d')
           else (Ok g, d'\<lparr>groups := groups d @ [g]\<rparr>)))"

text \<open>\<open>get_result\<close> of an update that matches no row is the error \<open>NotFound\<close>.\<close>

definition update_group ::
  "('t, 'j) ext \<Rightarrow> 'j \<Rightarrow> int list \<Rightarrow> int list \<Rightarrow> string \<Rightarrow> (db, group) comp" where
  "update_group E j ps adms tpc =
     with_conn (\<lambda>d.
       (let upd = (\<lambda>g. if g_jid g = jid_to_string E j
                       then g\<lparr>g_participants := ps, g_admins := adms, g_topic := tpc\<rparr> else g);
            gs = map upd (groups d)
        in case first_opt (\<lambda>g. g_jid g = jid_to_string E j) gs of
             None \<Rightarrow> (Err DbError, d)
           | Some g \<Rightarrow> (Ok g, d\<lparr>groups := gs\<rparr>)))"

definition get_group_by_id :: "int \<Rightarrow> (db, group) comp" where
  "get_group_by_id gid =
     with_conn (\<lambda>d. case first_opt (\<lambda>g. g_id g = gid) (groups d) of
         None \<Rightarrow> (Err DbError, d)
       | Some g \<Rightarrow> (Ok g, d))"

definition get_all_groups :: "(db, group list) comp" where
  "get_all_groups = with_conn (gets groups)"

definition get_group_by_jid_opt :: "('t, 'j) ext \<Rightarrow> 'j \<Rightarrow> (db, group option) comp" where
  "get_group_by_jid_opt E j =
     with_conn (gets (\<lambda>d. first_opt (\<lambda>g. g_jid g = jid_to_string E j) (groups d)))"

definition get_group_by_chan_opt :: "string \<Rightarrow> (db, group option) comp" where
  "get_group_by_chan_opt c =
     with_conn (gets (\<lambda>d. first_opt (\<lambda>g. g_channel g = c) (groups d)))"

definition get_groups_for_recipient ::
  "('t, 'j) ext \<Rightarrow> 't pdu_address \<Rightarrow> (db, group list) comp" where
  "get_groups_for_recipient E addr =
     and_then (get_recipient_by_addr_opt E addr) (\<lambda>ro. case ro of
         None \<Rightarrow> err (Failure ''get_groups_for_recipient couldn't find recipient'' [])
       | Some r \<Rightarrow> with_conn (gets (\<lambda>d. filter (\<lambda>g. r_id r \<in> set (g_participants g)) (groups d))))"

text \<open>The foreign key of \<open>messages.group_target\<close> is declared \<open>ON DELETE CASCADE\<close>.\<close>

definition delete_group_with_id :: "int \<Rightarrow> (db, unit) comp" where
  "delete_group_with_id i =
     with_conn (\<lambda>d.
       if i \<in> g_id ` set (groups d)
       then (Ok (), d\<lparr>groups := filter (\<lambda>g. g_id g \<noteq> i) (groups d),
                      messages := filter (\<lambda>m. m_group_target m \<noteq> Some i) (messages d)\<rparr>)
       else (Err (Failure ''no rows affected deleting gid {}'' [show_int i]), d))"

section \<open>Start-up\<close>

text \<open>
  \<open>Store::new\<close> after the connection pool is built and the migrations have run: every recipient left
  by an older version gets a nick source, guessed from the look of its nick.
\<close>

definition default_re :: string where
  "default_re = CHR ''I'' # backslash # ''d+''"

definition store_new :: "('t, 'j) ext \<Rightarrow> (db, unit) comp" where
  "store_new E =
     and_then (get_recipients_with_nicksrc NICKSRC_MIGRATED) (\<lambda>sourceless.
       for_each sourceless (\<lambda>r.
         and_then (lift (get_addr E (r_phone_number r))) (\<lambda>addr.
           update_recipient_nick E addr (r_nick r)
             (if regex_is_match E default_re (r_nick r) then NICKSRC_AUTO else NICKSRC_USER))))"


section \<open>Integrity\<close>

text \<open>
  What the schema promises: keys are unique and below their sequence's next value, a message refers
  to an existing group, and it holds a PDU or a text but not both.
\<close>

definition key_ok :: "('r \<Rightarrow> int) \<Rightarrow> int \<Rightarrow> 'r list \<Rightarrow> bool" where
  "key_ok key nxt rows \<longleftrightarrow> distinct (map key rows) \<and> (\<forall>r \<in> set rows. key r < nxt)"

definition message_ok :: "group list \<Rightarrow> message \<Rightarrow> bool" where
  "message_ok gs m \<longleftrightarrow>
     (case m_group_target m of None \<Rightarrow> True | Some g \<Rightarrow> g \<in> g_id ` set gs) \<and> (m_pdu m = None) \<noteq> (m_text m = None)"

lemma message_ok_iff:
  "message_ok gs m \<longleftrightarrow>
     (\<forall>g. m_group_target m = Some g \<longrightarrow> g \<in> g_id ` set gs) \<and> (m_pdu m = None) \<noteq> (m_text m = None)"
  by (simp add: message_ok_def split: option.split)

definition db_inv :: "db \<Rightarrow> bool" where
  "db_inv d \<longleftrightarrow>
     key_ok r_id (next_recipient_id d) (recipients d) \<and> distinct (map r_phone_number (recipients d))
   \<and> key_ok g_id (next_group_id d) (groups d)
   \<and> distinct (map g_jid (groups d)) \<and> distinct (map g_channel (groups d))
   \<and> key_ok m_id (next_message_id d) (messages d)
   \<and> list_all (message_ok (groups d)) (messages d)
   \<and> distinct (wa_msgids d) \<and> hm_wf (wa_persistence d)"

lemma key_ok_snoc: "key_ok key n rows \<Longrightarrow> key r = n \<Longrightarrow> key_ok key (n + 1) (rows @ [r])"
  by (auto simp: key_ok_def dest: bspec)

lemma key_ok_bump: "key_ok key n rows \<Longrightarrow> key_ok key (n + 1) rows"
  by (auto simp: key_ok_def dest: bspec)

lemma key_ok_filter: "key_ok key n rows \<Longrightarrow> key_ok key n (filter P rows)"
  by (auto simp: key_ok_def distinct_map_filter)

lemma map_update_same:
  "(\<And>r. key (f r) = key r) \<Longrightarrow> map key (map (\<lambda>r. if P r then f r else r) rows) = map key rows"
  by simp

lemma key_ok_map: "(\<And>r. key (f r) = key r) \<Longrightarrow> key_ok key n (map f rows) = key_ok key n rows"
  by (simp add: key_ok_def comp_def)

lemma first_opt_Some: "first_opt P rows = Some r \<Longrightarrow> r \<in> set rows \<and> P r"
  by (auto simp: first_opt_def find_Some_iff)

lemma first_opt_None: "first_opt P rows = None \<longleftrightarrow> (\<forall>r \<in> set rows. \<not> P r)"
  by (auto simp: first_opt_def find_None_iff)

text \<open>With a unique key the first match is the match.\<close>

lemma first_opt_key:
  assumes "distinct (map key rows)" and "r \<in> set rows" and "key r = k"
  shows "first_opt (\<lambda>r. key r = k) rows = Some r"
  using assms by (induction rows) (auto simp: first_opt_def)

section \<open>Rules for the operations\<close>

lemma with_conn_healthy [simp]: "faults d = [] \<Longrightarrow> with_conn m d = m d"
  by (simp add: with_conn_def)

lemma pres_with_conn:
  assumes "pres P m" and "\<And>d fs. P d \<Longrightarrow> P (d\<lparr>faults := fs\<rparr>)"
  shows "pres P (with_conn m)"
  using assms by (auto simp: pres_def with_conn_def split: list.splits)

lemma pres_read:
  assumes "\<And>d fs. P d \<Longrightarrow> P (d\<lparr>faults := fs\<rparr>)"
  shows "pres P (with_conn (gets f))"
  using assms by (intro pres_with_conn pres_gets) auto

lemma db_inv_faults [simp]: "db_inv (d\<lparr>faults := fs\<rparr>) = db_inv d"
  by (simp add: db_inv_def)

lemmas db_read_defs =
  get_all_messages_def get_messages_for_recipient_def get_all_concatenated_def
  get_wa_persistence_opt_def is_wa_msgid_stored_def get_recipient_by_id_opt_def
  get_recipient_by_nick_opt_def get_recipient_by_addr_opt_def get_all_recipients_def
  get_recipients_with_nicksrc_def get_all_groups_def get_group_by_jid_opt_def
  get_group_by_chan_opt_def

text \<open>
  A query changes nothing but the environment's schedule: it preserves every predicate that does not
  look at the schedule.
\<close>

definition fault_blind :: "(db \<Rightarrow> bool) \<Rightarrow> bool" where
  "fault_blind P \<longleftrightarrow> (\<forall>d fs. P d \<longrightarrow> P (d\<lparr>faults := fs\<rparr>))"

lemma fault_blind_inv [simp]: "fault_blind db_inv"
  by (simp add: fault_blind_def)

lemma pres_get_group_by_id: "fault_blind P \<Longrightarrow> pres P (get_group_by_id i)"
  unfolding get_group_by_id_def
  by (rule pres_with_conn) (auto simp: fault_blind_def pres_def split: option.splits)

lemma pres_reads:
  assumes "fault_blind P"
  shows "pres P get_all_messages" and "pres P (get_messages_for_recipient E a)"
    and "pres P (get_all_concatenated n rf)" and "pres P get_wa_persistence_opt"
    and "pres P (is_wa_msgid_stored mid)" and "pres P (get_recipient_by_id_opt i)"
    and "pres P (get_recipient_by_nick_opt n)" and "pres P (get_recipient_by_addr_opt E a)"
    and "pres P get_all_recipients" and "pres P (get_recipients_with_nicksrc ns)"
    and "pres P get_all_groups" and "pres P (get_group_by_jid_opt E j)"
    and "pres P (get_group_by_chan_opt c)"
  using assms unfolding db_read_defs by (auto intro!: pres_read simp: fault_blind_def)

lemma pres_get_groups_for_recipient: "fault_blind P \<Longrightarrow> pres P (get_groups_for_recipient E a)"
  unfolding get_groups_for_recipient_def
  by (auto intro!: pres pres_reads pres_read simp: fault_blind_def)

lemma insert_message_inv: "pres db_inv (insert_message m)"
proof (rule presI)
  fix d assume inv: "db_inv d"
  show "db_inv (snd (insert_message m d))"
  proof (cases "message_ok (groups d) m")
    case True
    with inv show ?thesis
      by (auto simp: insert_message_def db_inv_def message_ok_def Let_def intro!: key_ok_snoc)
  next
    case False
    then have "snd (insert_message m d) = d\<lparr>next_message_id := next_message_id d + 1\<rparr>"
      by (auto simp: insert_message_def message_ok_def Let_def)
    with inv show ?thesis by (simp add: db_inv_def key_ok_bump)
  qed
qed

lemma insert_recipient_inv: "pres db_inv (insert_recipient r)"
  by (auto simp: pres_def insert_recipient_def db_inv_def Let_def intro: key_ok_snoc key_ok_bump)

lemma update_recipients_inv:
  assumes "\<And>r. r_id (f r) = r_id r" and "\<And>r. r_phone_number (f r) = r_phone_number r"
  shows "pres db_inv (update_recipients num f)"
proof -
  let ?g = "\<lambda>r :: recipient. if r_phone_number r = num then f r else r"
  have "r_id (?g r) = r_id r" and "r_phone_number (?g r) = r_phone_number r" for r
    using assms by simp_all
  then have "db_inv (d\<lparr>recipients := map ?g (recipients d)\<rparr>) = db_inv d" for d
    by (simp add: db_inv_def key_ok_map comp_def)
  then show ?thesis
    unfolding update_recipients_def by (intro pres_with_conn pres_modify) simp_all
qed

lemma store_group_inv: "pres db_inv (store_group E j c ps as t)"
proof -
  have "message_ok gs m \<Longrightarrow> message_ok (gs @ [g]) m" for gs g m
    by (auto simp: message_ok_iff)
  then have "list_all (message_ok gs) ms \<Longrightarrow> list_all (message_ok (gs @ [g])) ms" for gs g ms
    by (auto simp: list_all_iff)
  then have "pres db_inv (\<lambda>d. (let g = \<lparr>g_id = next_group_id d, g_jid = jid_to_string E j, g_channel = c,
                 g_participants = ps, g_admins = as, g_topic = t\<rparr>;
            d' = d\<lparr>next_group_id := next_group_id d + 1\<rparr>
        in if g_jid g \<in> g_jid ` set (groups d) \<or> g_channel g \<in> g_channel ` set (groups d)
           then (Err DbError, d')
           else (Ok g, d'\<lparr>groups := groups d @ [g]\<rparr>)))"
    by (auto simp: pres_def db_inv_def Let_def intro: key_ok_snoc key_ok_bump)
  then show ?thesis unfolding store_group_def by (rule pres_with_conn) simp
qed

lemma update_group_inv: "pres db_inv (update_group E j ps as t)"
proof -
  let ?u = "\<lambda>g :: group. if g_jid g = jid_to_string E j
                then g\<lparr>g_participants := ps, g_admins := as, g_topic := t\<rparr> else g"
  have keys: "g_id (?u g) = g_id g" "g_jid (?u g) = g_jid g" "g_channel (?u g) = g_channel g" for g
    by simp_all
  have "map g_id (map ?u gs) = map g_id gs" for gs
    by simp
  then have "g_id ` set (map ?u gs) = g_id ` set gs" for gs
    by (metis list.set_map)
  then have "message_ok (map ?u gs) = message_ok gs" for gs
    unfolding message_ok_iff by (intro ext) (simp only:)
  then have "db_inv (d\<lparr>groups := map ?u (groups d)\<rparr>) = db_inv d" for d
    using keys by (simp add: db_inv_def key_ok_map comp_def del: list.set_map)
  then show ?thesis unfolding update_group_def Let_def
    by (intro pres_with_conn) (auto simp: pres_def split: option.splits)
qed

lemma delete_group_inv: "pres db_inv (delete_group_with_id i)"
proof -
  have "list_all (message_ok gs) ms \<Longrightarrow>
     list_all (message_ok (filter (\<lambda>g. g_id g \<noteq> i) gs)) (filter (\<lambda>m. m_group_target m \<noteq> Some i) ms)"
    for gs ms by (fastforce simp: list_all_iff message_ok_iff)
  then have "pres db_inv (\<lambda>d.
       if i \<in> g_id ` set (groups d)
       then (Ok (), d\<lparr>groups := filter (\<lambda>g. g_id g \<noteq> i) (groups d),
                      messages := filter (\<lambda>m. m_group_target m \<noteq> Some i) (messages d)\<rparr>)
       else (Err (Failure ''no rows affected deleting gid {}'' [show_int i]), d))"
    by (auto simp: pres_def db_inv_def distinct_map_filter intro: key_ok_filter)
  then show ?thesis unfolding delete_group_with_id_def by (rule pres_with_conn) simp
qed

lemma delete_message_inv: "pres db_inv (delete_message i)"
  unfolding delete_message_def
  by (rule pres_with_conn) (auto simp: pres_def db_inv_def list_all_iff intro: key_ok_filter)

lemma delete_recipient_inv: "pres db_inv (delete_recipient_with_addr E a)"
  unfolding delete_recipient_with_addr_def
  by (rule pres_with_conn)
    (auto simp: pres_def db_inv_def Let_def distinct_map_filter intro: key_ok_filter)

text \<open>Every operation of the store keeps the integrity of the database, failures included.\<close>

lemma store_ops_inv [pres]:
  shows "pres db_inv (store_sms_message E a pd csms)"
    and "pres db_inv (store_wa_message E a txt gt ts)"
    and "pres db_inv (store_wa_persistence p)"
    and "pres db_inv (store_wa_msgid mid)"
    and "pres db_inv (store_recipient E a nick)"
    and "pres db_inv (store_wa_recipient E a nick ntf src)"
    and "pres db_inv (update_recipient_notify E a ntf)"
    and "pres db_inv (update_recipient_nick E a nick src)"
    and "pres db_inv (update_recipient_wa E a wa)"
proof -
  show "pres db_inv (store_sms_message E a pd csms)"
    unfolding store_sms_message_def
    by (rule pres_with_conn) (auto simp: pres_def intro: pres_snd [OF insert_message_inv])
  show "pres db_inv (store_wa_message E a txt gt ts)"
    unfolding store_wa_message_def by (rule pres_with_conn [OF insert_message_inv]) simp
  show "pres db_inv (store_wa_persistence p)"
    unfolding store_wa_persistence_def
    by (intro pres_with_conn pres_modify) (auto simp: db_inv_def)
  show "pres db_inv (store_wa_msgid mid)"
    unfolding store_wa_msgid_def
    by (intro pres_with_conn pres_modify) (auto simp: db_inv_def)
  show "pres db_inv (store_recipient E a nick)"
    unfolding store_recipient_def by (rule pres_with_conn [OF insert_recipient_inv]) simp
  show "pres db_inv (store_wa_recipient E a nick ntf src)"
    unfolding store_wa_recipient_def by (rule pres_with_conn [OF insert_recipient_inv]) simp
qed (simp_all add: update_recipient_notify_def update_recipient_nick_def update_recipient_wa_def
    update_recipients_inv)

lemmas store_deletes_inv [pres] =
  store_group_inv update_group_inv delete_group_inv delete_message_inv delete_recipient_inv

lemmas store_reads_inv [pres] =
  pres_reads [OF fault_blind_inv] pres_get_group_by_id [OF fault_blind_inv]
  pres_get_groups_for_recipient [OF fault_blind_inv]

lemma store_new_inv [pres]: "pres db_inv (store_new E)"
  unfolding store_new_def by (intro pres)

section \<open>No operation panics\<close>

lemma safe_with_conn:
  assumes "safe P m" and "\<And>d fs. P d \<Longrightarrow> P (d\<lparr>faults := fs\<rparr>)"
  shows "safe P (with_conn m)"
  using assms by (auto simp: safe_def with_conn_def split: list.splits)

lemma quiet_insert: "safe (\<lambda>_. True) (insert_message m)" "safe (\<lambda>_. True) (insert_recipient r)"
  by (simp_all add: safe_def insert_message_def insert_recipient_def Let_def)

lemma quiet_reads [safe]:
  "safe (\<lambda>_. True) get_all_messages"
  "safe (\<lambda>_. True) (get_messages_for_recipient E a)"
  "safe (\<lambda>_. True) (get_all_concatenated n rf)"
  "safe (\<lambda>_. True) get_wa_persistence_opt"
  "safe (\<lambda>_. True) (is_wa_msgid_stored mid)"
  "safe (\<lambda>_. True) (get_recipient_by_id_opt i)"
  "safe (\<lambda>_. True) (get_recipient_by_nick_opt n)"
  "safe (\<lambda>_. True) (get_recipient_by_addr_opt E a)"
  "safe (\<lambda>_. True) get_all_recipients"
  "safe (\<lambda>_. True) (get_recipients_with_nicksrc ns)"
  "safe (\<lambda>_. True) get_all_groups"
  "safe (\<lambda>_. True) (get_group_by_jid_opt E j)"
  "safe (\<lambda>_. True) (get_group_by_chan_opt c)"
  unfolding db_read_defs by (auto intro!: safe_with_conn safe)

lemma quiet_get_group_by_id [safe]: "safe (\<lambda>_. True) (get_group_by_id g)"
  unfolding get_group_by_id_def
  by (rule safe_with_conn) (auto simp: safe_def split: option.splits)

lemma quiet_get_groups_for_recipient [safe]: "safe (\<lambda>_. True) (get_groups_for_recipient E a)"
  unfolding get_groups_for_recipient_def by (intro safe safe_with_conn) auto

lemma quiet_writes [safe]:
  "safe (\<lambda>_. True) (store_sms_message E a pd csms)"
  "safe (\<lambda>_. True) (store_wa_message E a txt gt ts)"
  "safe (\<lambda>_. True) (store_wa_persistence p)"
  "safe (\<lambda>_. True) (store_wa_msgid mid)"
  "safe (\<lambda>_. True) (store_recipient E a nick)"
  "safe (\<lambda>_. True) (store_wa_recipient E a nick ntf src)"
  "safe (\<lambda>_. True) (update_recipient_notify E a ntf)"
  "safe (\<lambda>_. True) (update_recipient_nick E a nick nsrc)"
  "safe (\<lambda>_. True) (update_recipient_wa E a wa)"
  "safe (\<lambda>_. True) (delete_message i)"
  "safe (\<lambda>_. True) (delete_recipient_with_addr E a)"
  "safe (\<lambda>_. True) (store_group E j c ps as t)"
  "safe (\<lambda>_. True) (update_group E j ps as t)"
  "safe (\<lambda>_. True) (delete_group_with_id i)"
  using quiet_insert
  unfolding store_sms_message_def store_wa_message_def store_wa_persistence_def store_wa_msgid_def
    store_recipient_def store_wa_recipient_def update_recipient_notify_def update_recipient_nick_def
    update_recipient_wa_def update_recipients_def delete_message_def delete_recipient_with_addr_def
    store_group_def update_group_def delete_group_with_id_def
  by (auto simp: safe_def with_conn_def modify_def Let_def split: list.splits option.splits)

end
