(* ===== verification/Admin.thy ===== *)
theory Admin
  imports Store
begin

text \<open>
  \<open>admin.rs\<close>: the administrator's command language. A command is the list of the words of a line.
  Parsing returns an option, as in the source, inside an outcome because one parser indexes out of
  range.
\<close>

section \<open>Commands\<close>

datatype ghost_command =
    GhostChangeNick string
  | GhostSetWhatsapp bool
  | GhostPresenceSubscribe
  | GhostRemove

datatype admin_modem_command = GetCsq | GetReg | Reinit | TempPath "string option"

datatype 't contact_command = NewSms "'t pdu_address" | NewWhatsapp "'t pdu_address"

datatype admin_whatsapp_command = Setup | Logon | ChatList | UpdateAll | AdminPrintAcks

datatype 'j group_command = BridgeWhatsapp 'j string | Unbridge string

datatype insp_command = InspRaw string | QueryUuid string | QueryNickUuid string

datatype ('t, 'j) admin_command =
    Ghost string ghost_command
  | Contact "'t contact_command"
  | Whatsapp admin_whatsapp_command
  | Modem admin_modem_command
  | Group "'j group_command"
  | Insp insp_command
  | Help "string option"

section \<open>Parsing\<close>

text \<open>\<open>str::parse::<bool>\<close>.\<close>

definition parse_bool :: "string \<Rightarrow> bool option" where
  "parse_bool s = (if s = ''true'' then Some True else if s = ''false'' then Some False else None)"

definition ghost_parse :: "string list \<Rightarrow> ghost_command option" where
  "ghost_parse inp = (case inp of [] \<Rightarrow> None | c # rest \<Rightarrow>
     (let cmd = to_lowercase c
      in if cmd = ''rename'' then (case rest of [new_nick] \<Rightarrow> Some (GhostChangeNick new_nick) | _ \<Rightarrow> None)
         else if cmd = ''whatsapp'' then
           (case rest of [value] \<Rightarrow> map_option GhostSetWhatsapp (parse_bool value) | _ \<Rightarrow> None)
         else if cmd = ''presub'' then Some GhostPresenceSubscribe
         else if cmd = ''die'' \<or> cmd = ''kill'' \<or> cmd = ''remove'' then Some GhostRemove
         else None))"

definition modem_parse :: "string list \<Rightarrow> admin_modem_command option" where
  "modem_parse inp = (case inp of [] \<Rightarrow> None | c # rest \<Rightarrow>
     (let cmd = to_lowercase c
      in if cmd = ''signal'' \<or> cmd = ''csq'' then Some GetCsq
         else if cmd = ''registration'' \<or> cmd = ''reg'' then Some GetReg
         else if cmd = ''restart'' then Some Reinit
         else if cmd = ''path'' then
           (case rest of [path] \<Rightarrow> Some (TempPath (Some path)) | _ \<Rightarrow> Some (TempPath None))
         else None))"

definition contact_parse :: "('t, 'j) ext \<Rightarrow> string list \<Rightarrow> 't contact_command option" where
  "contact_parse E inp = (case inp of [] \<Rightarrow> None | c # rest \<Rightarrow>
     (let cmd = to_lowercase c
      in if cmd = ''whatsapp'' \<or> cmd = ''sms'' then
           (case rest of
              [num] \<Rightarrow> (case addr_parse E num of
                  Some a \<Rightarrow> if cmd = ''whatsapp'' then Some (NewWhatsapp a) else Some (NewSms a)
                | None \<Rightarrow> None)
            | _ \<Rightarrow> None)
         else None))"

definition whatsapp_parse :: "string list \<Rightarrow> admin_whatsapp_command option" where
  "whatsapp_parse inp = (case inp of [] \<Rightarrow> None | c # rest \<Rightarrow>
     (let cmd = to_lowercase c
      in if cmd = ''setup'' then Some Setup
         else if cmd = ''logon'' then Some Logon
         else if cmd = ''chats'' then Some ChatList
         else if cmd = ''rebuild'' then Some UpdateAll
         else if cmd = ''receipts'' \<or> cmd = ''acks'' then Some AdminPrintAcks
         else None))"

definition group_parse :: "('t, 'j) ext \<Rightarrow> string list \<Rightarrow> 'j group_command option" where
  "group_parse E inp = (case inp of [] \<Rightarrow> None | c # rest \<Rightarrow>
     (let cmd = to_lowercase c
      in if cmd = ''bridge'' then
           (case rest of
              [jid, chan] \<Rightarrow> (case jid_parse E jid of
                  Some j \<Rightarrow> if starts_with chan ''#'' then Some (BridgeWhatsapp j chan) else None
                | None \<Rightarrow> None)
            | _ \<Rightarrow> None)
         else if cmd = ''unbridge'' then
           (case rest of [chan] \<Rightarrow> if starts_with chan ''#'' then Some (Unbridge chan) else None
            | _ \<Rightarrow> None)
         else None))"

text \<open>\<open>args[1..]\<close> panics on an empty slice, and skips the first argument of a longer one.\<close>

definition insp_parse :: "string list \<Rightarrow> insp_command option outcome" where
  "insp_parse inp = (case inp of [] \<Rightarrow> Ok None | c # rest \<Rightarrow>
     (let cmd = to_lowercase c
      in if cmd = ''raw'' then
           (case rest of [] \<Rightarrow> Panic | _ # args \<Rightarrow> Ok (Some (InspRaw (join_str '' '' args))))
         else if cmd = ''uuquery'' then
           (case rest of [uuid] \<Rightarrow> Ok (Some (QueryUuid uuid)) | _ \<Rightarrow> Ok None)
         else if cmd = ''nickquery'' then
           (case rest of [nick] \<Rightarrow> Ok (Some (QueryNickUuid nick)) | _ \<Rightarrow> Ok None)
         else Ok None))"

definition admin_parse ::
  "('t, 'j) ext \<Rightarrow> string list \<Rightarrow> ('t, 'j) admin_command option outcome" where
  "admin_parse E inp = (case inp of [] \<Rightarrow> Ok None | c # rest \<Rightarrow>
     (let cmd = to_lowercase c
      in if cmd = ''contact'' then Ok (map_option Contact (contact_parse E rest))
         else if cmd = ''whatsapp'' then Ok (map_option Whatsapp (whatsapp_parse rest))
         else if cmd = ''group'' then Ok (map_option Group (group_parse E rest))
         else if cmd = ''modem'' then Ok (map_option Modem (modem_parse rest))
         else if cmd = ''insp'' then map_outcome (map_option Insp) (insp_parse rest)
         else if cmd = ''ghost'' then
           (case rest of
              tgt # sub # subs \<Rightarrow> Ok (map_option (Ghost tgt) (ghost_parse (sub # subs)))
            | _ \<Rightarrow> Ok None)
         else if cmd = ''help'' then Ok (Some (Help (case rest of [] \<Rightarrow> None | x # _ \<Rightarrow> Some x)))
         else Ok None))"

section \<open>Help pages\<close>

text \<open>IRC formatting characters.\<close>

definition bold :: string where "bold = [CHR 0x02]"
definition colour :: string where "colour = [CHR 0x03]"
definition plain :: string where "plain = [CHR 0x0F]"
definition mono :: string where "mono = [CHR 0x11]"
definition italic :: string where "italic = [CHR 0x1D]"
definition underline :: string where "underline = [CHR 0x1F]"

definition ghost_help :: string where
  "ghost_help =
     join_str [newline] [
       bold @ ''*** GHOST subcommand ***'' @ plain,
       ''The following commands are available:'',
       bold @ ''RENAME'' @ plain @ '' '' @ italic @ ''new_nick'' @ plain,
       ''    Change the ghost's nickname to '' @ italic @ ''new_nick'' @ plain @ ''.'',
       bold @ ''WHATSAPP'' @ plain @ '' '' @ italic @ ''true|false'' @ plain,
       ''    Enable or disable WhatsApp mode for this recipient.'',
       bold @ ''REMOVE'' @ plain @ '' '' @ colour @ ''07(aliases '' @ bold @ ''KILL'' @ bold @ '', '' @ bold @ ''DIE'' @ bold @ '')'' @ plain,
       ''    Remove this recipient, causing them to disconnect.'',
       bold @ ''PRESUB'' @ plain,
       ''    '' @ bold @ ''Sub'' @ plain @ ''scribe to updates about the user's '' @ bold @ ''pre'' @ plain @ ''sence, if they're using WhatsApp.'',
       ''    This command will usually not be required, and is mainly useful for debugging.'',
       bold @ ''*** End of subcommand help ***'' @ plain]"

definition modem_help :: string where
  "modem_help =
     join_str [newline] [
       bold @ ''*** MODEM subcommand ***'' @ plain,
       ''The following commands are available:'',
       bold @ ''SIGNAL'' @ plain @ '' '' @ colour @ ''07(alias '' @ bold @ ''CSQ'' @ bold @ '')'' @ plain,
       ''    Get the current signal strength, as reported by the modem.'',
       bold @ ''REGISTRATION'' @ plain @ '' '' @ colour @ ''07(alias '' @ bold @ ''REG'' @ bold @ '')'' @ plain,
       ''    Get the modem's registration state.'',
       bold @ ''RESTART'' @ plain,
       ''    Reinitialize the connection to the modem.'',
       bold @ ''PATH'' @ plain @ '' '' @ italic @ ''[temp_path]'' @ plain,
       ''    '' @ underline @ bold @ ''Temporarily'' @ plain @ '' sets the modem path to '' @ italic @ ''temp_path'' @ plain @ ''.'',
       ''    Not specifying a value for '' @ italic @ ''temp_path'' @ plain @ '' will disable the modem.'',
       ''    '' @ underline @ ''Tip: Change the '' @ mono @ ''modem_path'' @ mono @ '' option in the configuration to make this permanent.'' @ underline,
       bold @ ''*** End of subcommand help ***'' @ plain]"

definition contact_help :: string where
  "contact_help =
     join_str [newline] [
       bold @ ''*** CONTACT subcommand ***'' @ plain,
       ''The following commands are available:'',
       bold @ ''WHATSAPP'' @ plain @ '' '' @ italic @ ''number'' @ plain,
       ''    Contact someone new, with the phone number '' @ italic @ ''number'' @ plain @ '', via WhatsApp.'',
       bold @ ''SMS'' @ plain @ '' '' @ italic @ ''number'' @ plain,
       ''    Contact someone new, with the phone number '' @ italic @ ''number'' @ plain @ '', via SMS.'',
       bold @ ''*** End of subcommand help ***'' @ plain]"

definition whatsapp_help :: string where
  "whatsapp_help =
     join_str [newline] [
       bold @ ''*** WHATSAPP subcommand ***'' @ plain,
       ''The following commands are available:'',
       bold @ ''SETUP'' @ plain,
       ''    Begin the WhatsApp registration process. This requires you to have your phone ready, in order to scan a QR code.'',
       ''    '' @ underline @ bold @ ''Warning:'' @ bold @ '' This command will '' @ bold @ ''erase'' @ bold @ '' your existing WhatsApp credentials.'' @ underline,
       bold @ ''LOGON'' @ plain,
       ''    Log on to WhatsApp Web using stored credentials.'',
       ''    This command will usually not be required, but is helpful if the bridge appears stuck.'',
       bold @ ''CHATS'' @ plain,
       ''    List all WhatsApp chats you're currently part of.'',
       bold @ ''RECEIPTS'' @ plain @ '' '' @ colour @ ''07(alias '' @ bold @ ''ACKS'' @ bold @ '')'' @ plain,
       ''    Print delivery reports for recently sent messages.'',
       bold @ ''REBUILD'' @ plain,
       ''    Refresh group metadata for all WhatsApp groups you're currently in.'',
       ''    This command will usually not be required, and is mainly useful for debugging.'',
       bold @ ''*** End of subcommand help ***'' @ plain]"

definition group_help :: string where
  "group_help =
     join_str [newline] [
       bold @ ''*** GROUP subcommand ***'' @ plain,
       ''The following commands are available:'',
       bold @ ''BRIDGE'' @ plain @ '' '' @ italic @ ''jid'' @ plain @ '' '' @ italic @ ''chan'' @ plain,
       ''    Bridges the WhatsApp groupchat with JID '' @ italic @ ''jid'' @ plain @ '' to the IRC channel '' @ italic @ ''chan'' @ plain @ ''.'',
       bold @ ''UNBRIDGE'' @ plain @ '' '' @ italic @ ''chan'' @ plain,
       ''    Unbridges the IRC channel '' @ italic @ ''chan'' @ plain @ ''.'',
       bold @ ''*** End of subcommand help ***'' @ plain]"

definition insp_help :: string where
  "insp_help =
     join_str [newline] [
       bold @ ''*** INSP subcommand ***'' @ plain,
       ''The following commands are available:'',
       bold @ ''RAW'' @ plain @ '' '' @ italic @ ''raw IRC line'' @ plain,
       ''    Sends the '' @ italic @ ''raw IRC line'' @ plain @ '' to the linked IRC server.'',
       ''    '' @ underline @ bold @ ''Warning:'' @ bold @ '' This command is very technical, and only intended for debugging. Misuse can cause the bridge to be disconnected!'' @ bold,
       bold @ ''UUQUERY'' @ plain @ '' '' @ italic @ ''uuid'' @ plain,
       ''    Returns the nickname associated with UUID '' @ italic @ ''uuid'' @ plain @ '', if there is one.'',
       bold @ ''NICKQUERY'' @ plain @ '' '' @ italic @ ''nick'' @ plain,
       ''    Returns the UUID for the nickname '' @ italic @ ''nick'' @ plain @ '', if we know it.'',
       bold @ ''*** End of subcommand help ***'' @ plain]"

definition admin_help :: string where
  "admin_help =
     join_str [newline] [
       bold @ ''*** sms-irc help ***'' @ plain,
       ''The following commands are available. Use '' @ bold @ ''HELP'' @ bold @ '' '' @ italic @ ''command'' @ plain @ '' to get more information on each subcommand.'',
       bold @ ''GHOST'' @ bold @ '' '' @ italic @ ''nickname subcommand'' @ plain,
       ''    Manages ghosts (i.e. IRC users that represent a message recipient).'',
       ''    Here, '' @ italic @ ''nickname'' @ plain @ '' represents the nickname of the ghost you're trying to manage.'',
       ''    '' @ italic @ ''For example, '' @ mono @ ''GHOST user REMOVE'' @ mono @ '' would remove the ghost named '' @ mono @ ''user'' @ mono @ ''.'' @ italic,
       bold @ ''CONTACT'' @ plain @ '' '' @ italic @ ''subcommand'' @ plain,
       ''    Allows establishing contact with new people.'',
       bold @ ''WHATSAPP'' @ plain @ '' '' @ italic @ ''subcommand'' @ plain,
       ''    Manages WhatsApp registration, login and more.'',
       bold @ ''MODEM'' @ plain @ '' '' @ italic @ ''subcommand'' @ plain,
       ''    Queries the modem state and provides other management commands.'',
       bold @ ''GROUP'' @ plain @ '' '' @ italic @ ''subcommand'' @ plain,
       ''    Used to bridge and unbridge group chats to/from IRC channels.'',
       ''    (Currently, only WhatsApp group chats are supported.)'',
       bold @ ''INSP'' @ plain @ '' '' @ italic @ ''subcommand'' @ plain,
       ''    If sms-irc is using the InspIRCd server-to-server link, provides some debug commands.'',
       bold @ ''HELP'' @ plain @ '' '' @ italic @ ''[command]'' @ plain,
       ''    Shows this help.'',
       ''    If a '' @ italic @ ''command'' @ plain @ '' is provided, shows help for that command.'',
       bold @ ''*** End of help ***'' @ plain]"

definition help_page :: "string option \<Rightarrow> string option" where
  "help_page query = (case map_option to_lowercase query of
      None \<Rightarrow> Some admin_help
    | Some q \<Rightarrow>
        if q = ''ghost'' then Some ghost_help
        else if q = ''modem'' then Some modem_help
        else if q = ''contact'' then Some contact_help
        else if q = ''whatsapp'' then Some whatsapp_help
        else if q = ''group'' then Some group_help
        else if q = ''insp'' then Some insp_help
        else None)"

section \<open>The language\<close>

text \<open>The words a user types for a command, in the spelling of the help pages.\<close>

definition bool_word :: "bool \<Rightarrow> string" where
  "bool_word b = (if b then ''true'' else ''false'')"

fun ghost_words :: "ghost_command \<Rightarrow> string list" where
  "ghost_words (GhostChangeNick n) = [''RENAME'', n]"
| "ghost_words (GhostSetWhatsapp b) = [''WHATSAPP'', bool_word b]"
| "ghost_words GhostPresenceSubscribe = [''PRESUB'']"
| "ghost_words GhostRemove = [''REMOVE'']"

fun modem_words :: "admin_modem_command \<Rightarrow> string list" where
  "modem_words GetCsq = [''SIGNAL'']"
| "modem_words GetReg = [''REGISTRATION'']"
| "modem_words Reinit = [''RESTART'']"
| "modem_words (TempPath None) = [''PATH'']"
| "modem_words (TempPath (Some p)) = [''PATH'', p]"

fun whatsapp_words :: "admin_whatsapp_command \<Rightarrow> string list" where
  "whatsapp_words Setup = [''SETUP'']"
| "whatsapp_words Logon = [''LOGON'']"
| "whatsapp_words ChatList = [''CHATS'']"
| "whatsapp_words UpdateAll = [''REBUILD'']"
| "whatsapp_words AdminPrintAcks = [''RECEIPTS'']"

fun admin_words :: "('t, 'j) ext \<Rightarrow> ('t, 'j) admin_command \<Rightarrow> string list" where
  "admin_words E (Ghost nick gc) = ''GHOST'' # nick # ghost_words gc"
| "admin_words E (Contact (NewSms a)) = [''CONTACT'', ''SMS'', addr_to_string E a]"
| "admin_words E (Contact (NewWhatsapp a)) = [''CONTACT'', ''WHATSAPP'', addr_to_string E a]"
| "admin_words E (Whatsapp w) = ''WHATSAPP'' # whatsapp_words w"
| "admin_words E (Modem m) = ''MODEM'' # modem_words m"
| "admin_words E (Group (BridgeWhatsapp j c)) = [''GROUP'', ''BRIDGE'', jid_to_string E j, c]"
| "admin_words E (Group (Unbridge c)) = [''GROUP'', ''UNBRIDGE'', c]"
| "admin_words E (Insp (InspRaw l)) = [''INSP'', ''RAW'', l]"
| "admin_words E (Insp (QueryUuid u)) = [''INSP'', ''UUQUERY'', u]"
| "admin_words E (Insp (QueryNickUuid n)) = [''INSP'', ''NICKQUERY'', n]"
| "admin_words E (Help None) = [''HELP'']"
| "admin_words E (Help (Some p)) = [''HELP'', p]"

text \<open>
  The commands the words determine: a bridged channel starts with \<open>#\<close>, the library reads back the
  address and the JID it printed, and \<open>RAW\<close> is left out.
\<close>

fun printable :: "('t, 'j) ext \<Rightarrow> ('t, 'j) admin_command \<Rightarrow> bool" where
  "printable E (Contact (NewSms a)) = (addr_parse E (addr_to_string E a) = Some a)"
| "printable E (Contact (NewWhatsapp a)) = (addr_parse E (addr_to_string E a) = Some a)"
| "printable E (Group (BridgeWhatsapp j c)) =
     (jid_parse E (jid_to_string E j) = Some j \<and> starts_with c ''#'')"
| "printable E (Group (Unbridge c)) = starts_with c ''#''"
| "printable E (Insp (InspRaw l)) = False"
| "printable E _ = True"

lemmas parse_defs =
  admin_parse_def ghost_parse_def modem_parse_def contact_parse_def whatsapp_parse_def
  group_parse_def insp_parse_def parse_bool_def

lemma ascii_lower_letters:
  "ascii_lower (CHR ''A'') = CHR ''a''" "ascii_lower (CHR ''B'') = CHR ''b''" "ascii_lower (CHR ''C'') = CHR ''c''"
  "ascii_lower (CHR ''D'') = CHR ''d''" "ascii_lower (CHR ''E'') = CHR ''e''" "ascii_lower (CHR ''F'') = CHR ''f''"
  "ascii_lower (CHR ''G'') = CHR ''g''" "ascii_lower (CHR ''H'') = CHR ''h''" "ascii_lower (CHR ''I'') = CHR ''i''"
  "ascii_lower (CHR ''J'') = CHR ''j''" "ascii_lower (CHR ''K'') = CHR ''k''" "ascii_lower (CHR ''L'') = CHR ''l''"
  "ascii_lower (CHR ''M'') = CHR ''m''" "ascii_lower (CHR ''N'') = CHR ''n''" "ascii_lower (CHR ''O'') = CHR ''o''"
  "ascii_lower (CHR ''P'') = CHR ''p''" "ascii_lower (CHR ''Q'') = CHR ''q''" "ascii_lower (CHR ''R'') = CHR ''r''"
  "ascii_lower (CHR ''S'') = CHR ''s''" "ascii_lower (CHR ''T'') = CHR ''t''" "ascii_lower (CHR ''U'') = CHR ''u''"
  "ascii_lower (CHR ''V'') = CHR ''v''" "ascii_lower (CHR ''W'') = CHR ''w''" "ascii_lower (CHR ''X'') = CHR ''x''"
  "ascii_lower (CHR ''Y'') = CHR ''y''" "ascii_lower (CHR ''Z'') = CHR ''z''"
  by (simp_all add: ascii_lower_def is_upper_def byte_in_def char_of_eq_nat)

lemma lower_keywords:
  "to_lowercase ''RENAME'' = ''rename''" "to_lowercase ''WHATSAPP'' = ''whatsapp''"
  "to_lowercase ''PRESUB'' = ''presub''" "to_lowercase ''REMOVE'' = ''remove''"
  "to_lowercase ''SIGNAL'' = ''signal''" "to_lowercase ''REGISTRATION'' = ''registration''"
  "to_lowercase ''RESTART'' = ''restart''" "to_lowercase ''PATH'' = ''path''"
  "to_lowercase ''SETUP'' = ''setup''" "to_lowercase ''LOGON'' = ''logon''"
  "to_lowercase ''CHATS'' = ''chats''" "to_lowercase ''REBUILD'' = ''rebuild''"
  "to_lowercase ''RECEIPTS'' = ''receipts''" "to_lowercase ''CONTACT'' = ''contact''"
  "to_lowercase ''SMS'' = ''sms''" "to_lowercase ''GROUP'' = ''group''"
  "to_lowercase ''BRIDGE'' = ''bridge''" "to_lowercase ''UNBRIDGE'' = ''unbridge''"
  "to_lowercase ''MODEM'' = ''modem''" "to_lowercase ''INSP'' = ''insp''"
  "to_lowercase ''UUQUERY'' = ''uuquery''" "to_lowercase ''NICKQUERY'' = ''nickquery''"
  "to_lowercase ''GHOST'' = ''ghost''" "to_lowercase ''HELP'' = ''help''"
  "to_lowercase ''RAW'' = ''raw''"
  by (simp_all add: to_lowercase_ascii ascii_lower_letters)

lemma ghost_parse_words: "ghost_parse (ghost_words gc) = Some gc"
  by (cases gc rule: ghost_words.cases) (simp_all add: ghost_parse_def lower_keywords parse_bool_def bool_word_def)

lemma modem_parse_words: "modem_parse (modem_words m) = Some m"
  by (cases m rule: modem_words.cases) (simp_all add: modem_parse_def lower_keywords)

lemma whatsapp_parse_words: "whatsapp_parse (whatsapp_words w) = Some w"
  by (cases w) (simp_all add: whatsapp_parse_def lower_keywords)

lemma ghost_words_nonempty: "\<exists>x xs. ghost_words gc = x # xs"
  by (cases gc) simp_all

lemma admin_parse_words:
  assumes "printable E c"
  shows "admin_parse E (admin_words E c) = Ok (Some c)"
proof -
  have ghost: "admin_parse E (''GHOST'' # n # ghost_words gc) = Ok (Some (Ghost n gc))" for n gc
    using ghost_parse_words [of gc] ghost_words_nonempty [of gc]
    by (auto simp: admin_parse_def lower_keywords)
  show ?thesis
    using assms ghost
    by (cases "(E, c)" rule: admin_words.cases)
      (auto simp: admin_parse_def lower_keywords contact_parse_def group_parse_def insp_parse_def
        whatsapp_parse_words modem_parse_words)
qed

end
