(* ===== verification/Sender_Common.thy ===== *)
theory Sender_Common
  imports Admin
begin

text \<open>
  \<open>sender_common.rs\<close>: the trait \<open>Sender\<close>, which delivers stored messages over IRC. The splitting of
  a line into IRC-sized chunks is a function of its own; the provided methods take the record of the
  required ones; the laws of an implementation are the locale \<open>sender\<close>.
\<close>

section \<open>Splitting a line\<close>

definition MESSAGE_MAX_LEN :: nat where
  "MESSAGE_MAX_LEN = 350"

text \<open>
  The closure given to \<open>filter_map\<close>, run over the remaining character indices with its captured
  variable \<open>last\<close>. An entry \<^const>\<open>None\<close> is a slice that panics.
\<close>

fun chunk_iter :: "string \<Rightarrow> nat list \<Rightarrow> nat \<Rightarrow> string option list" where
  "chunk_iter line [] lst = []"
| "chunk_iter line (i # is) lst =
     (if i \<ge> lst + MESSAGE_MAX_LEN then str_slice line lst i # chunk_iter line is i
      else if lst + MESSAGE_MAX_LEN \<ge> length line
      then str_slice line lst (length line) # chunk_iter line is (length line)
      else chunk_iter line is lst)"

definition line_chunks :: "string \<Rightarrow> string option list" where
  "line_chunks line = chunk_iter line (char_indices line) 0"

lemma set_char_indices: "i \<in> set (char_indices s) \<longleftrightarrow> i < length s \<and> \<not> is_cont (s ! i)"
  by (auto simp: char_indices_def)

lemma boundary_0 [simp]: "char_boundary s 0"
  by (simp add: char_boundary_def)

lemma boundary_length [simp]: "char_boundary s (length s)"
  by (simp add: char_boundary_def)

lemma boundary_index: "i \<in> set (char_indices s) \<Longrightarrow> char_boundary s i"
  by (simp add: set_char_indices char_boundary_def)

text \<open>The captured variable is always a boundary at or before the end, so no slice panics.\<close>

lemma chunk_iter_total:
  assumes "set is \<subseteq> set (char_indices line)" "char_boundary line lst" "lst \<le> length line"
  shows "None \<notin> set (chunk_iter line is lst)"
  using assms
proof (induction line "is" lst rule: chunk_iter.induct)
  case (2 line i "is" lst)
  have i: "char_boundary line i" "i \<le> length line"
    using 2(4) boundary_index [of i line] by (auto simp: set_char_indices)
  show ?case
    using 2 i by (auto simp: str_slice_def MESSAGE_MAX_LEN_def)
qed simp

lemma line_chunks_total: "None \<notin> set (line_chunks line)"
  unfolding line_chunks_def by (rule chunk_iter_total) simp_all

definition chunks_text :: "string option list \<Rightarrow> string" where
  "chunks_text cs = concat (map the cs)"

lemma chunks_text_simps [simp]:
  "chunks_text [] = []" "chunks_text (c # cs) = the c @ chunks_text cs"
  by (simp_all add: chunks_text_def)

lemma take_add_split: "a \<le> b \<Longrightarrow> take (b - a) (drop a s) @ take k (drop b s) = take (b - a + k) (drop a s)"
  by (simp only: take_add drop_drop le_add_diff_inverse2)

lemma chunk_iter_prefix:
  assumes "set is \<subseteq> set (char_indices line)" "char_boundary line lst" "lst \<le> length line"
  shows "\<exists>k. chunks_text (chunk_iter line is lst) = take k (drop lst line)"
  using assms
proof (induction line "is" lst rule: chunk_iter.induct)
  case (1 line lst)
  then show ?case by (auto intro: exI [of _ 0])
next
  case (2 line i "is" lst)
  have i: "char_boundary line i" "i \<le> length line"
    using 2(4) boundary_index [of i line] by (auto simp: set_char_indices)
  consider "i \<ge> lst + MESSAGE_MAX_LEN" | "\<not> i \<ge> lst + MESSAGE_MAX_LEN" "lst + MESSAGE_MAX_LEN \<ge> length line"
    | "\<not> i \<ge> lst + MESSAGE_MAX_LEN" "\<not> lst + MESSAGE_MAX_LEN \<ge> length line" by blast
  then show ?case
  proof cases
    case 1
    then obtain k where "chunks_text (chunk_iter line is i) = take k (drop i line)"
      using 2(1) 2(4) i by auto
    with 1 i 2(5) have "chunks_text (chunk_iter line (i # is) lst) = take (i - lst + k) (drop lst line)"
      by (simp add: str_slice_def take_add_split)
    then show ?thesis by blast
  next
    case 2
    then obtain k where "chunks_text (chunk_iter line is (length line)) = take k (drop (length line) line)"
      using "2.IH"(2) "2.prems" by auto
    with 2 "2.prems" have "chunks_text (chunk_iter line (i # is) lst) = take (length line) (drop lst line)"
      by (simp add: str_slice_def)
    then show ?thesis by blast
  next
    case 3
    then show ?thesis using "2.IH"(3) "2.prems" by auto
  qed
qed

text \<open>After the second branch only empty chunks follow.\<close>

lemma chunk_iter_end: "set is \<subseteq> set (char_indices line) \<Longrightarrow> chunks_text (chunk_iter line is (length line)) = []"
  by (induction "is") (auto simp: str_slice_def MESSAGE_MAX_LEN_def set_char_indices)

lemma chunk_iter_short:
  assumes "set is \<subseteq> set (char_indices line)" "is \<noteq> []" "length line \<le> lst + MESSAGE_MAX_LEN"
    and "char_boundary line lst" "lst \<le> length line"
  shows "chunks_text (chunk_iter line is lst) = drop lst line"
  using assms by (cases "is") (auto simp: chunk_iter_end str_slice_def set_char_indices)

text \<open>Every line of at most \<open>MESSAGE_MAX_LEN\<close> bytes goes out whole.\<close>

lemma line_chunks_short:
  assumes "length line \<le> MESSAGE_MAX_LEN" and "line \<noteq> [] \<Longrightarrow> \<not> is_cont (line ! 0)"
  shows "chunks_text (line_chunks line) = line"
proof (cases "line = []")
  case True
  then show ?thesis by (simp add: line_chunks_def char_indices_def)
next
  case False
  then have "char_indices line \<noteq> []"
    using assms(2) set_char_indices [of 0 line] by (metis empty_iff empty_set length_greater_0_conv)
  then show ?thesis
    using chunk_iter_short [of "char_indices line" line 0] assms(1) by (simp add: line_chunks_def)
qed

text \<open>ASCII lines: where exactly the last character is lost.\<close>

lemma ascii_not_cont: "is_ascii c \<Longrightarrow> \<not> is_cont c"
  by (simp add: is_ascii_def is_cont_def byte_in_def)

lemma char_indices_ascii: "list_all is_ascii s \<Longrightarrow> char_indices s = [0..<length s]"
  by (auto simp: char_indices_def list_all_length ascii_not_cont intro: filter_True)

lemma chunk_iter_skip:
  assumes "lst + MESSAGE_MAX_LEN < length line"  "s \<le> lst + MESSAGE_MAX_LEN"
  shows "chunk_iter line [s..<length line] lst = chunk_iter line [lst + MESSAGE_MAX_LEN..<length line] lst"
  using assms(2)
proof (induction s rule: inc_induct)
  case (step n)
  then show ?case using assms(1) by (simp add: upt_conv_Cons)
qed simp

lemma take_butlast_drop: "k < length xs \<Longrightarrow> take k xs @ butlast (drop k xs) = butlast xs"
  by (simp add: butlast_conv_take take_drop [symmetric] flip: take_add)

text \<open>A full chunk is sent, and the rest of the line from there on.\<close>

lemma chunk_iter_full:
  assumes "list_all is_ascii line" and "lst + MESSAGE_MAX_LEN < length line"
  shows "chunks_text (chunk_iter line [Suc lst..<length line] lst) = take MESSAGE_MAX_LEN (drop lst line)
    @ chunks_text (chunk_iter line [Suc (lst + MESSAGE_MAX_LEN)..<length line] (lst + MESSAGE_MAX_LEN))"
proof -
  let ?m = "lst + MESSAGE_MAX_LEN"
  have "char_boundary line i" if "i \<le> length line" for i
    using that assms(1) by (auto simp: char_boundary_def list_all_length ascii_not_cont)
  from this [of lst] this [of ?m] have slice: "str_slice line lst ?m = Some (take MESSAGE_MAX_LEN (drop lst line))"
    using assms(2) by (simp add: str_slice_def)
  have "chunk_iter line [Suc lst..<length line] lst = chunk_iter line [?m..<length line] lst"
    using assms(2) by (intro chunk_iter_skip) (simp_all add: MESSAGE_MAX_LEN_def)
  also have "\<dots> = str_slice line lst ?m # chunk_iter line [Suc ?m..<length line] ?m"
    using assms(2) by (simp add: upt_conv_Cons)
  finally show ?thesis by (simp add: slice)
qed

lemma chunk_iter_ascii:
  assumes "list_all is_ascii line" "lst < length line"
  shows "chunks_text (chunk_iter line [Suc lst..<length line] lst) =
     (if (length line - lst) mod MESSAGE_MAX_LEN = 1 then butlast (drop lst line) else drop lst line)"
  using assms(2)
proof (induction "length line - lst" arbitrary: lst rule: less_induct)
  case less
  have bnd: "char_boundary line i" if "i \<le> length line" for i
    using that assms(1) by (auto simp: char_boundary_def list_all_length ascii_not_cont)
  show ?case
  proof (cases "length line \<le> lst + MESSAGE_MAX_LEN")
    case True
    show ?thesis
    proof (cases "length line = Suc lst")
      case True
      then show ?thesis by (simp add: MESSAGE_MAX_LEN_def butlast_conv_take)
    next
      case False
      then have "chunks_text (chunk_iter line [Suc lst..<length line] lst) = drop lst line"
        using True less.prems assms(1) bnd
        by (intro chunk_iter_short) (auto simp: char_indices_ascii)
      moreover have "(length line - lst) mod MESSAGE_MAX_LEN \<noteq> 1"
        using True False less.prems
        by (cases "length line - lst = MESSAGE_MAX_LEN") (auto simp: MESSAGE_MAX_LEN_def)
      ultimately show ?thesis by simp
    qed
  next
    case False
    let ?m = "lst + MESSAGE_MAX_LEN"
    have "chunks_text (chunk_iter line [Suc lst..<length line] lst)
        = take MESSAGE_MAX_LEN (drop lst line) @ chunks_text (chunk_iter line [Suc ?m..<length line] ?m)"
      using assms(1) False by (intro chunk_iter_full) simp_all
    also have "chunks_text (chunk_iter line [Suc ?m..<length line] ?m) =
       (if (length line - ?m) mod MESSAGE_MAX_LEN = 1 then butlast (drop ?m line) else drop ?m line)"
      using False by (intro less.hyps) (auto simp: MESSAGE_MAX_LEN_def)
    also have "(length line - ?m) mod MESSAGE_MAX_LEN = (length line - lst) mod MESSAGE_MAX_LEN"
    proof -
      have "length line - lst = (length line - ?m) + MESSAGE_MAX_LEN" using False by linarith
      then show ?thesis by (metis mod_add_self2)
    qed
    also have "drop ?m line = drop MESSAGE_MAX_LEN (drop lst line)" by (simp add: add.commute)
    finally have "chunks_text (chunk_iter line [Suc lst..<length line] lst)
      = take MESSAGE_MAX_LEN (drop lst line)
        @ (if (length line - lst) mod MESSAGE_MAX_LEN = 1 then butlast (drop MESSAGE_MAX_LEN (drop lst line))
           else drop MESSAGE_MAX_LEN (drop lst line))" .
    moreover have "MESSAGE_MAX_LEN < length (drop lst line)" using False by simp
    ultimately show ?thesis
      by (cases "(length line - lst) mod MESSAGE_MAX_LEN = 1") (simp_all only: take_butlast_drop append_take_drop_id simp_thms if_True if_False)
  qed
qed

lemma line_chunks_ascii:
  assumes "list_all is_ascii line"
  shows "chunks_text (line_chunks line) =
    (if length line > 1 \<and> length line mod MESSAGE_MAX_LEN = 1 then butlast line else line)"
proof (cases "length line \<le> MESSAGE_MAX_LEN")
  case True
  have "length line mod MESSAGE_MAX_LEN \<noteq> 1" if "length line > 1"
    using True that by (cases "length line = MESSAGE_MAX_LEN") (auto simp: MESSAGE_MAX_LEN_def)
  moreover have "chunks_text (line_chunks line) = line"
    using True assms by (intro line_chunks_short) (auto simp: list_all_length ascii_not_cont)
  ultimately show ?thesis by (metis One_nat_def)
next
  case False
  then have "line \<noteq> []" by auto
  from False have "chunk_iter line [0..<length line] 0 = chunk_iter line [Suc 0..<length line] 0"
    using chunk_iter_skip [of 0 line 0] chunk_iter_skip [of 0 line "Suc 0"] by (simp add: MESSAGE_MAX_LEN_def)
  then show ?thesis
    using False \<open>line \<noteq> []\<close> chunk_iter_ascii [OF assms, of 0] drop_0 [of line]
    by (auto simp add: line_chunks_def char_indices_ascii [OF assms] MESSAGE_MAX_LEN_def)
qed


text \<open>How long a chunk can get: consecutive characters start at most four bytes apart.\<close>

fun close_indices :: "nat \<Rightarrow> nat list \<Rightarrow> bool" where
  "close_indices p [] = True"
| "close_indices p (i # is) = (p \<le> i \<and> i \<le> p + 4 \<and> close_indices i is)"

lemma chunk_iter_bound:
  assumes "close_indices p is" "p < lst + MESSAGE_MAX_LEN" "lst \<le> length line"
    "set is \<subseteq> set (char_indices line)" "Some c \<in> set (chunk_iter line is lst)"
  shows "length c \<le> MESSAGE_MAX_LEN + 3"
  using assms
proof (induction line "is" lst arbitrary: p rule: chunk_iter.induct)
  case (2 line i "is" lst)
  consider "i \<ge> lst + MESSAGE_MAX_LEN" | "\<not> i \<ge> lst + MESSAGE_MAX_LEN" "lst + MESSAGE_MAX_LEN \<ge> length line"
    | "\<not> i \<ge> lst + MESSAGE_MAX_LEN" "\<not> lst + MESSAGE_MAX_LEN \<ge> length line" by blast
  then show ?case
  proof cases
    case 1
    then show ?thesis
      using "2.IH"(1) [of i] "2.prems"
      by (auto simp: str_slice_def MESSAGE_MAX_LEN_def set_char_indices split: if_splits)
  next
    case 2
    then show ?thesis
      using "2.IH"(2) [of i] "2.prems" by (auto simp: str_slice_def split: if_splits)
  next
    case 3
    then show ?thesis using "2.IH"(3) [of i] "2.prems" by auto
  qed
qed simp

lemma line_chunks_bound:
  assumes "close_indices 0 (char_indices line)" "Some c \<in> set (line_chunks line)"
  shows "length c \<le> MESSAGE_MAX_LEN + 3"
  using assms by (intro chunk_iter_bound [of 0 "char_indices line" 0 line c])
    (auto simp: line_chunks_def MESSAGE_MAX_LEN_def)

section \<open>The trait\<close>

record 's sender_ops =
  report_error :: "string \<Rightarrow> string \<Rightarrow> ('s, unit) comp"
  sender_db :: "'s \<Rightarrow> db"
  sender_db_put :: "db \<Rightarrow> 's \<Rightarrow> 's"
  private_target :: "('s, string) comp"
  send_irc_message :: "string \<Rightarrow> string \<Rightarrow> string \<Rightarrow> ('s, unit) comp"
  ensure_joined :: "string \<Rightarrow> ('s, unit) comp"
  sender_now :: "'s \<Rightarrow> int"

text \<open>The provided body of \<open>ensure_joined\<close>.\<close>

definition ensure_joined_default :: "string \<Rightarrow> ('s, unit) comp" where
  "ensure_joined_default ch = ret ()"

text \<open>\<open>self.store().method(..)\<close>.\<close>

definition on_db :: "('s, 'z) sender_ops_scheme \<Rightarrow> (db, 'a) comp \<Rightarrow> ('s, 'a) comp" where
  "on_db D = on_field (sender_db D) (sender_db_put D)"

definition send_chunk ::
  "('s, 'z) sender_ops_scheme \<Rightarrow> string \<Rightarrow> string \<Rightarrow> string option \<Rightarrow> ('s, unit) comp" where
  "send_chunk D from_nick dest c = (case c of
      None \<Rightarrow> panic
    | Some chunk \<Rightarrow> if length chunk > 0 then send_irc_message D from_nick dest chunk else ret ())"

definition message_dest :: "('s, 'z) sender_ops_scheme \<Rightarrow> int option \<Rightarrow> ('s, string) comp" where
  "message_dest D group_target = (case group_target of
      Some g \<Rightarrow>
        and_then (on_db D (get_group_by_id g)) (\<lambda>grp.
          then_do (ensure_joined D (g_channel grp)) (ret (g_channel grp)))
    | None \<Rightarrow> private_target D)"

definition send_raw_message ::
  "('s, 'z) sender_ops_scheme \<Rightarrow> string \<Rightarrow> string \<Rightarrow> int option \<Rightarrow> ('s, unit) comp" where
  "send_raw_message D from_nick msg group_target =
     and_then (message_dest D group_target) (\<lambda>dest.
       for_each (str_lines msg) (\<lambda>line. for_each (line_chunks line) (send_chunk D from_nick dest)))"

section \<open>Plain messages\<close>

definition action_prefix :: string where
  "action_prefix = CHR 0x01 # ''ACTION ''"

text \<open>\<open>date\<close> is the day number.\<close>

definition ts_date :: "int \<Rightarrow> int" where
  "ts_date ts = ts div (86400 * 10 ^ 9)"

definition time_prefix :: "('t, 'j) ext \<Rightarrow> int \<Rightarrow> int \<Rightarrow> string" where
  "time_prefix E now ts =
     (if num_seconds (now - ts) > 5
      then colour @ ''15'' @ bold @ ''['' @ bold
           @ (if ts_date now \<noteq> ts_date ts then local_date E ts @ '' '' else [])
           @ local_time E ts @ bold @ '']'' @ bold @ plain @ '' ''
      else [])"

definition plain_output :: "('t, 'j) ext \<Rightarrow> int \<Rightarrow> int \<Rightarrow> string \<Rightarrow> string" where
  "plain_output E now ts txt =
     (if starts_with txt action_prefix
      then action_prefix @ time_prefix E now ts @ drop 8 txt
      else time_prefix E now ts @ txt)"

definition process_msg_plain ::
  "('t, 'j) ext \<Rightarrow> ('s, 'z) sender_ops_scheme \<Rightarrow> string \<Rightarrow> message \<Rightarrow> ('s, unit) comp" where
  "process_msg_plain E D nick msg = (case m_text msg of
      None \<Rightarrow> panic
    | Some txt \<Rightarrow>
        and_then (gets (sender_now D)) (\<lambda>now.
          then_do (send_raw_message D nick (plain_output E now (m_ts msg) txt) (m_group_target msg))
            (on_db D (delete_message (m_id msg)))))"

section \<open>PDU messages\<close>

text \<open>The loop that decodes the parts of a concatenated message.\<close>

fun decode_parts :: "('t, 'j) ext \<Rightarrow> message list \<Rightarrow> gsm_message list outcome" where
  "decode_parts E [] = Ok []"
| "decode_parts E (m # ms) = (case m_pdu m of
      None \<Rightarrow> Panic
    | Some raw \<Rightarrow> (case deliver_try_from E raw of
          None \<Rightarrow> Err PduError
        | Some p \<Rightarrow> (case decode_message p of
              Inl e \<Rightarrow> Err PduError
            | Inr d \<Rightarrow> map_outcome (\<lambda>ds. d # ds) (decode_parts E ms))))"

text \<open>
  \<open>sort_by_key\<close> is stable; its key function unwraps the header, and is called on every element of a
  list of two or more.
\<close>

definition sort_parts :: "gsm_message list \<Rightarrow> gsm_message list outcome" where
  "sort_parts ps =
     (if length ps < 2 then Ok ps
      else if list_all (\<lambda>p. concatenated p \<noteq> None) ps
      then Ok (sort_key (\<lambda>p. sequence (the (concatenated p))) ps)
      else Panic)"

definition process_msg_pdu ::
  "('t, 'j) ext \<Rightarrow> ('s, 'z) sender_ops_scheme \<Rightarrow> string \<Rightarrow> message \<Rightarrow> 't deliver_pdu \<Rightarrow> ('s, unit) comp"
where
  "process_msg_pdu E D nick msg pd = (case decode_message pd of
      Inr m \<Rightarrow> (case concatenated m of
          Some cd \<Rightarrow>
            and_then (on_db D (get_all_concatenated (m_phone_number msg) (int (reference cd)))) (\<lambda>msgs.
              if length msgs \<noteq> parts cd then ret ()
              else
                and_then (lift (decode_parts E msgs)) (\<lambda>pdus.
                and_then (lift (sort_parts pdus)) (\<lambda>sorted_pdus.
                then_do (send_raw_message D nick (concat (map gsm_text sorted_pdus)) (m_group_target msg))
                  (for_each msgs (\<lambda>m. on_db D (delete_message (m_id m)))))))
        | None \<Rightarrow>
            then_do (send_raw_message D nick (gsm_text m) (m_group_target msg))
              (on_db D (delete_message (m_id msg))))
    | Inl e \<Rightarrow> report_error D nick (''indecipherable message: '' @ e))"

section \<open>Preservation through the provided methods\<close>

text \<open>
  An invariant is kept when it survives the deletion of the message itself, and of the parts of longer
  messages from the same number.
\<close>

lemma sender_pres_some:
  assumes ops: "\<And>f x. pres P (report_error D f x)" "pres P (private_target D)"
      "\<And>f t x. pres P (send_irc_message D f t x)" "\<And>ch. pres P (ensure_joined D ch)"
    and dbs: "\<And>g. pres P (on_db D (get_group_by_id g))"
      "\<And>n rf. pres P (on_db D (get_all_concatenated n rf))"
    and dels: "\<And>i. i \<in> I \<Longrightarrow> pres P (on_db D (delete_message i))" "m_id msg \<in> I"
      "\<And>rf s ms t. P s \<Longrightarrow> on_db D (get_all_concatenated (m_phone_number msg) rf) s = (Ok ms, t) \<Longrightarrow> m_id ` set ms \<subseteq> I"
  shows "pres P (process_msg_plain E D nick msg)" and "pres P (process_msg_pdu E D nick msg pd)"
proof -
  have "pres P (send_chunk D f dst c)" for f dst c
    unfolding send_chunk_def by (intro pres ops)
  then have raw: "pres P (send_raw_message D f x gt)" for f x gt
    unfolding send_raw_message_def message_dest_def by (intro pres ops dbs)
  show "pres P (process_msg_plain E D nick msg)"
    unfolding process_msg_plain_def by (intro pres dels raw)
  have parts: "pres P (and_then (on_db D (get_all_concatenated (m_phone_number msg) rf)) k)"
    if k: "\<And>ms. m_id ` set ms \<subseteq> I \<Longrightarrow> pres P (k ms)" for rf and k :: "message list \<Rightarrow> ('a, unit) comp"
  proof (rule presI)
    fix s assume s: "P s"
    obtain r t where t: "on_db D (get_all_concatenated (m_phone_number msg) rf) s = (r, t)"
      by (cases "on_db D (get_all_concatenated (m_phone_number msg) rf) s")
    then have "P t" using presD [OF dbs(2) s t] by simp
    then show "P (snd (and_then (on_db D (get_all_concatenated (m_phone_number msg) rf)) k s))"
      using t dels(3) [OF s] k by (cases r) (auto simp: and_then_def pres_def)
  qed
  show "pres P (process_msg_pdu E D nick msg pd)"
    unfolding process_msg_pdu_def
    by (auto split: sum.split option.split intro!: parts pres ops dbs dels raw)
qed

lemma sender_pres:
  assumes "\<And>f x. pres P (report_error D f x)" "pres P (private_target D)"
      "\<And>f t x. pres P (send_irc_message D f t x)" "\<And>ch. pres P (ensure_joined D ch)"
    and "\<And>g. pres P (on_db D (get_group_by_id g))" "\<And>i. pres P (on_db D (delete_message i))"
      "\<And>n rf. pres P (on_db D (get_all_concatenated n rf))"
  shows "pres P (process_msg_plain E D nick msg)" and "pres P (process_msg_pdu E D nick msg pd)"
  by (rule sender_pres_some [where I = UNIV]; simp add: assms)+

section \<open>What an implementation promises\<close>

text \<open>The lines a text is sent as.\<close>

definition message_chunks :: "string \<Rightarrow> string list" where
  "message_chunks msg =
     concat (map (\<lambda>l. filter (\<lambda>c. c \<noteq> []) (map the (line_chunks l))) (str_lines msg))"

text \<open>
  \<open>sent\<close> is the log of the lines \<open>send_irc_message\<close> has queued; \<open>line\<close> is what one of them looks like
  there, for a sender, a target and a text. Only \<open>on_db\<close> touches the store, and only
  \<open>send_irc_message\<close> the log.
\<close>

lemma send_chunk_simps [simp]:
  "send_chunk D f d (Some []) = ret ()"
  "x \<noteq> [] \<Longrightarrow> send_chunk D f d (Some x) = send_irc_message D f d x"
  by (simp_all add: send_chunk_def)

text \<open>The stored parts of a concatenated message.\<close>

definition concat_parts :: "db \<Rightarrow> string \<Rightarrow> int \<Rightarrow> message list" where
  "concat_parts d num rf = filter (\<lambda>m. m_csms_data m = Some rf \<and> m_phone_number m = num) (messages d)"

lemma sort_parts_Ok:
  assumes "sort_parts ps = Ok ps'"
  shows "mset ps' = mset ps" and "sorted (map (\<lambda>p. sequence (the (concatenated p))) ps')"
proof -
  show "mset ps' = mset ps" using assms by (auto simp: sort_parts_def split: if_splits)
  show "sorted (map (\<lambda>p. sequence (the (concatenated p))) ps')"
  proof (cases "length ps < 2")
    case True
    then show ?thesis
      using assms by (cases ps) (auto simp: sort_parts_def)
  next
    case False
    then show ?thesis
      using assms by (auto simp: sort_parts_def simp del: sort_key_simps split: if_splits)
  qed
qed

locale sender =
  fixes D :: "('s, 'z) sender_ops_scheme"
    and line :: "string \<Rightarrow> string \<Rightarrow> string \<Rightarrow> 'm"
    and sent :: "'s \<Rightarrow> 'm list"
    and target :: "'s \<Rightarrow> string"
  assumes db_put_get: "sender_db D (sender_db_put D d s) = d"
    and db_put_sent: "sent (sender_db_put D d s) = sent s"
    and db_put_target: "target (sender_db_put D d s) = target s"
    and send_db: "sender_db D (snd (send_irc_message D f t x s)) = sender_db D s"
    and send_sent: "sent (snd (send_irc_message D f t x s)) =
       (if fst (send_irc_message D f t x s) = Ok () then sent s @ [line f t x] else sent s)"
    and send_no_panic: "fst (send_irc_message D f t x s) \<noteq> Panic"
    and report_db: "sender_db D (snd (report_error D f x s)) = sender_db D s"
    and report_sent: "sent (snd (report_error D f x s)) = sent s"
    and join_db: "sender_db D (snd (ensure_joined D ch s)) = sender_db D s"
    and join_sent: "sent (snd (ensure_joined D ch s)) = sent s"
    and target_ret: "private_target D s = (Ok (target s), s)"
begin

definition out :: "string \<Rightarrow> string \<Rightarrow> string list \<Rightarrow> 'm list" where
  "out f dest cs = map (line f dest) cs"

lemma out_append [simp]: "out f d (xs @ ys) = out f d xs @ out f d ys"
  by (simp add: out_def)

lemma out_Nil [simp]: "out f d [] = []"
  by (simp add: out_def)

lemma on_db_result:
  "on_db D m s = (r, s') \<Longrightarrow>
     m (sender_db D s) = (r, sender_db D s') \<and> sent s' = sent s \<and> target s' = target s"
  by (auto simp: on_db_def on_field_def db_put_get db_put_sent db_put_target split: prod.splits)

text \<open>A loop of sends queues a prefix of what it was given, all of it when it succeeds.\<close>

lemma send_chunks:
  assumes "for_each cs (send_chunk D f dest) s = (r, s')" "None \<notin> set cs"
  shows "sender_db D s' = sender_db D s \<and> r \<noteq> Panic \<and>
    (\<exists>k. sent s' = sent s @ out f dest (take k (filter (\<lambda>c. c \<noteq> []) (map the cs)))) \<and>
    (r = Ok () \<longrightarrow> sent s' = sent s @ out f dest (filter (\<lambda>c. c \<noteq> []) (map the cs)))"
  using assms
proof (induction cs arbitrary: s)
  case Nil
  then show ?case by (auto simp: ret_def)
next
  case (Cons c cs)
  then obtain x where c: "c = Some x" by (cases c) auto
  show ?case
  proof (cases "x = []")
    case True
    with Cons c show ?thesis by simp
  next
    case False
    obtain r1 s1 where s1: "send_irc_message D f dest x s = (r1, s1)"
      by (cases "send_irc_message D f dest x s")
    have db: "sender_db D s1 = sender_db D s" using send_db [of f dest x s] s1 by simp
    show ?thesis
    proof (cases "r1 = Ok ()")
      case True
      have sent1: "sent s1 = sent s @ [line f dest x]"
        using send_sent [of f dest x s] s1 True by simp
      have "for_each cs (send_chunk D f dest) s1 = (r, s')"
        using Cons.prems(1) s1 c False True by (simp add: then_do_def and_then_def)
      from Cons.IH [OF this] Cons.prems(2) obtain k where
        "sender_db D s' = sender_db D s1" "r \<noteq> Panic"
        "sent s' = sent s1 @ out f dest (take k (filter (\<lambda>c. c \<noteq> []) (map the cs)))"
        "r = Ok () \<longrightarrow> sent s' = sent s1 @ out f dest (filter (\<lambda>c. c \<noteq> []) (map the cs))"
        by auto
      then show ?thesis
        using c False db sent1 by (auto simp: out_def intro!: exI [of _ "Suc k"])
    next
      case nok: False
      moreover have "r1 \<noteq> Panic" using send_no_panic [of f dest x s] s1 by simp
      ultimately obtain e where "r1 = Err e" by (cases r1) auto
      moreover have "sent s1 = sent s" using send_sent [of f dest x s] s1 nok by simp
      ultimately show ?thesis
        using Cons.prems(1) s1 c False db
        by (auto simp: then_do_def and_then_def intro!: exI [of _ 0])
    qed
  qed
qed

lemma send_lines:
  assumes "for_each ls (\<lambda>line. for_each (line_chunks line) (send_chunk D f dest)) s = (r, s')"
  shows "sender_db D s' = sender_db D s \<and> r \<noteq> Panic \<and>
    (r = Ok () \<longrightarrow> sent s' = sent s @
       out f dest (concat (map (\<lambda>l. filter (\<lambda>c. c \<noteq> []) (map the (line_chunks l))) ls)))"
  using assms
proof (induction ls arbitrary: s)
  case Nil
  then show ?case by (auto simp: ret_def)
next
  case (Cons l ls)
  obtain r1 s1 where s1: "for_each (line_chunks l) (send_chunk D f dest) s = (r1, s1)"
    by (cases "for_each (line_chunks l) (send_chunk D f dest) s")
  note one = send_chunks [OF s1 line_chunks_total]
  show ?case
  proof (cases r1)
    case (Ok u)
    then have "for_each ls (\<lambda>line. for_each (line_chunks line) (send_chunk D f dest)) s1 = (r, s')"
      using Cons.prems s1 by (simp add: then_do_def and_then_def)
    from Cons.IH [OF this] one Ok show ?thesis by simp
  qed (use Cons.prems s1 one in \<open>auto simp: then_do_def and_then_def\<close>)
qed

text \<open>
  Where the text goes: to the channel of its group, or to the private target. Neither finding that
  out nor sending touches the stored messages.
\<close>

definition dest_ok :: "int option \<Rightarrow> 's \<Rightarrow> string \<Rightarrow> bool" where
  "dest_ok gt s dest \<longleftrightarrow> (case gt of
      None \<Rightarrow> dest = target s
    | Some g \<Rightarrow> \<exists>grp \<in> set (groups (sender_db D s)). g_id grp = g \<and> g_channel grp = dest)"

lemma get_group_facts:
  "get_group_by_id g d = (r, d') \<Longrightarrow> messages d' = messages d \<and> groups d' = groups d \<and> r \<noteq> Panic \<and>
     (\<forall>grp. r = Ok grp \<longrightarrow> grp \<in> set (groups d) \<and> g_id grp = g)"
  by (auto simp: get_group_by_id_def with_conn_def split: list.splits if_splits option.splits
      dest: first_opt_Some)

lemma message_dest_facts:
  assumes "message_dest D gt s = (r, s')"
  shows "messages (sender_db D s') = messages (sender_db D s) \<and> sent s' = sent s \<and>
    (\<forall>dest. r = Ok dest \<longrightarrow> dest_ok gt s dest)"
proof (cases gt)
  case None
  then show ?thesis using assms by (auto simp: message_dest_def target_ret dest_ok_def)
next
  case (Some g)
  obtain r1 s1 where s1: "on_db D (get_group_by_id g) s = (r1, s1)"
    by (cases "on_db D (get_group_by_id g) s")
  note db = on_db_result [OF s1]
  note facts = get_group_facts [OF conjunct1 [OF db]]
  show ?thesis
  proof (cases r1)
    case (Ok grp)
    obtain r2 s2 where "ensure_joined D (g_channel grp) s1 = (r2, s2)"
      by (cases "ensure_joined D (g_channel grp) s1")
    then show ?thesis
      using assms Some s1 Ok db facts join_db [of "g_channel grp" s1] join_sent [of "g_channel grp" s1]
      by (auto simp: message_dest_def and_then_def then_do_def ret_def dest_ok_def split: outcome.splits)
  qed (use assms Some s1 db facts in \<open>auto simp: message_dest_def and_then_def\<close>)
qed

lemma send_raw_facts:
  assumes "send_raw_message D f msg gt s = (r, s')"
  shows "messages (sender_db D s') = messages (sender_db D s) \<and>
    (r = Ok () \<longrightarrow> (\<exists>dest. dest_ok gt s dest \<and> sent s' = sent s @ out f dest (message_chunks msg)))"
proof -
  obtain r1 s1 where s1: "message_dest D gt s = (r1, s1)" by (cases "message_dest D gt s")
  note dest = message_dest_facts [OF s1]
  show ?thesis
  proof (cases r1)
    case (Ok d)
    then have "for_each (str_lines msg) (\<lambda>line. for_each (line_chunks line) (send_chunk D f d)) s1 = (r, s')"
      using assms s1 by (simp add: send_raw_message_def and_then_def)
    from send_lines [OF this] dest Ok show ?thesis by (auto simp: message_chunks_def)
  qed (use assms s1 dest in \<open>auto simp: send_raw_message_def and_then_def\<close>)
qed

lemma delete_facts:
  "delete_message i d = (r, d') \<Longrightarrow>
     (r = Ok () \<longrightarrow> messages d' = filter (\<lambda>m. m_id m \<noteq> i) (messages d)) \<and>
     (r \<noteq> Ok () \<longrightarrow> messages d' = messages d) \<and> r \<noteq> Panic"
  by (auto simp: delete_message_def with_conn_def split: list.splits if_splits)

text \<open>A plain message is deleted exactly when all of it has been queued.\<close>

lemma plain_facts:
  assumes "process_msg_plain E D nick msg s = (r, s')"
  shows "(r = Ok () \<longrightarrow>
      messages (sender_db D s') = filter (\<lambda>m. m_id m \<noteq> m_id msg) (messages (sender_db D s)) \<and>
      (\<exists>dest txt. m_text msg = Some txt \<and> dest_ok (m_group_target msg) s dest \<and>
         sent s' = sent s @ out nick dest
           (message_chunks (plain_output E (sender_now D s) (m_ts msg) txt)))) \<and>
    (r \<noteq> Ok () \<longrightarrow> messages (sender_db D s') = messages (sender_db D s))"
proof (cases "m_text msg")
  case None
  then show ?thesis using assms by (auto simp: process_msg_plain_def panic_def)
next
  case (Some body)
  let ?o = "plain_output E (sender_now D s) (m_ts msg) body"
  obtain r1 s1 where s1: "send_raw_message D nick ?o (m_group_target msg) s = (r1, s1)"
    by (cases "send_raw_message D nick ?o (m_group_target msg) s")
  note raw = send_raw_facts [OF s1]
  show ?thesis
  proof (cases r1)
    case (Ok u)
    then have del: "on_db D (delete_message (m_id msg)) s1 = (r, s')"
      using assms s1 Some by (simp add: process_msg_plain_def then_do_def and_then_def gets_def)
    show ?thesis
      using on_db_result [OF del] delete_facts [OF conjunct1 [OF on_db_result [OF del]]] raw Ok Some
      by auto
  qed (use assms s1 Some raw in \<open>auto simp: process_msg_plain_def then_do_def and_then_def gets_def\<close>)
qed

lemma deletes_facts:
  assumes "for_each ms (\<lambda>m. on_db D (delete_message (m_id m))) s = (r, s')"
  shows "sent s' = sent s \<and> r \<noteq> Panic \<and>
    (r = Ok () \<longrightarrow> messages (sender_db D s') =
       filter (\<lambda>m. m_id m \<notin> m_id ` set ms) (messages (sender_db D s)))"
  using assms
proof (induction ms arbitrary: s)
  case Nil
  then show ?case by (auto simp: ret_def)
next
  case (Cons m ms)
  obtain r1 s1 where s1: "on_db D (delete_message (m_id m)) s = (r1, s1)"
    by (cases "on_db D (delete_message (m_id m)) s")
  note db = on_db_result [OF s1]
  note del = delete_facts [OF conjunct1 [OF db]]
  show ?case
  proof (cases r1)
    case (Ok u)
    then have "for_each ms (\<lambda>m. on_db D (delete_message (m_id m))) s1 = (r, s')"
      using Cons.prems s1 by (simp add: then_do_def and_then_def)
    from Cons.IH [OF this] db del Ok show ?thesis by (auto intro!: filter_cong)
  qed (use Cons.prems s1 db del in \<open>auto simp: then_do_def and_then_def\<close>)
qed

lemma concatenated_facts:
  assumes "get_all_concatenated num rf d = (r, d')"
  shows "messages d' = messages d \<and> groups d' = groups d \<and> r \<noteq> Panic \<and>
    (\<forall>ms. r = Ok ms \<longrightarrow> ms = filter (\<lambda>m. m_csms_data m = Some rf \<and> m_phone_number m = num) (messages d))"
  using assms by (auto simp: get_all_concatenated_def with_conn_def gets_def split: list.splits if_splits)

text \<open>An incomplete concatenated message waits: nothing is sent and nothing deleted.\<close>

lemma pdu_incomplete:
  assumes "process_msg_pdu E D nick msg pd s = (r, s')"
    and "decode_message pd = Inr m" "concatenated m = Some cd"
    and "length (concat_parts (sender_db D s) (m_phone_number msg) (int (reference cd))) \<noteq> parts cd"
  shows "messages (sender_db D s') = messages (sender_db D s) \<and> sent s' = sent s \<and> r \<noteq> Panic"
proof -
  obtain r1 s1 where s1: "on_db D (get_all_concatenated (m_phone_number msg) (int (reference cd))) s = (r1, s1)"
    by (cases "on_db D (get_all_concatenated (m_phone_number msg) (int (reference cd))) s")
  note db = on_db_result [OF s1]
  note facts = concatenated_facts [OF conjunct1 [OF db]]
  show ?thesis
    using assms s1 db facts
    by (auto simp: process_msg_pdu_def and_then_def ret_def concat_parts_def split: outcome.splits if_splits)
qed

text \<open>A complete one is sent in sequence order, in one piece, and then all its parts are deleted.\<close>

lemma pdu_complete:
  assumes "process_msg_pdu E D nick msg pd s = (Ok (), s')"
    and "decode_message pd = Inr m" "concatenated m = Some cd"
    and "msgs = concat_parts (sender_db D s) (m_phone_number msg) (int (reference cd))"
    and "length msgs = parts cd"
  shows "messages (sender_db D s') =
      filter (\<lambda>m. m_id m \<notin> m_id ` set msgs) (messages (sender_db D s)) \<and>
    (\<exists>dest ds ds'. dest_ok (m_group_target msg) s dest \<and> decode_parts E msgs = Ok ds \<and>
       sort_parts ds = Ok ds' \<and>
       sent s' = sent s @ out nick dest (message_chunks (concat (map gsm_text ds'))))"
proof -
  let ?get = "get_all_concatenated (m_phone_number msg) (int (reference cd))"
  obtain r1 s1 where s1: "on_db D ?get s = (r1, s1)" by (cases "on_db D ?get s")
  note db = on_db_result [OF s1]
  note facts = concatenated_facts [OF conjunct1 [OF db]]
  have r1: "r1 = Ok msgs"
    using assms s1 facts
    by (cases r1) (auto simp: process_msg_pdu_def and_then_def ret_def concat_parts_def)
  from assms(1) obtain ds ds' s2 where ds: "decode_parts E msgs = Ok ds" "sort_parts ds = Ok ds'"
    and send: "send_raw_message D nick (concat (map gsm_text ds')) (m_group_target msg) s1 = (Ok (), s2)"
    and del: "for_each msgs (\<lambda>m. on_db D (delete_message (m_id m))) s2 = (Ok (), s')"
    using assms(2,3,5) s1 r1
    by (auto simp: process_msg_pdu_def and_then_Ok lift_def elim!: and_then_OkE then_do_OkE)
  have "dest_ok (m_group_target msg) s1 = dest_ok (m_group_target msg) s"
    using db facts by (auto simp: dest_ok_def fun_eq_iff split: option.splits)
  then show ?thesis
    using send_raw_facts [OF send] deletes_facts [OF del] db facts ds by auto
qed

lemma pdu_single:
  assumes "process_msg_pdu E D nick msg pd s = (r, s')"
    and "decode_message pd = Inr m" "concatenated m = None"
  shows "(r = Ok () \<longrightarrow>
      messages (sender_db D s') = filter (\<lambda>m. m_id m \<noteq> m_id msg) (messages (sender_db D s)) \<and>
      (\<exists>dest. dest_ok (m_group_target msg) s dest \<and>
         sent s' = sent s @ out nick dest (message_chunks (gsm_text m)))) \<and>
    (r \<noteq> Ok () \<longrightarrow> messages (sender_db D s') = messages (sender_db D s))"
proof -
  obtain r1 s1 where s1: "send_raw_message D nick (gsm_text m) (m_group_target msg) s = (r1, s1)"
    by (cases "send_raw_message D nick (gsm_text m) (m_group_target msg) s")
  note raw = send_raw_facts [OF s1]
  show ?thesis
  proof (cases r1)
    case (Ok u)
    then have del: "on_db D (delete_message (m_id msg)) s1 = (r, s')"
      using assms s1 by (simp add: process_msg_pdu_def then_do_def and_then_def)
    show ?thesis
      using on_db_result [OF del] delete_facts [OF conjunct1 [OF on_db_result [OF del]]] raw Ok
      by auto
  qed (use assms s1 raw in \<open>auto simp: process_msg_pdu_def then_do_def and_then_def\<close>)
qed

text \<open>A message that cannot be decoded is reported and kept.\<close>

lemma pdu_undecodable:
  assumes "process_msg_pdu E D nick msg pd s = (r, s')" "decode_message pd = Inl e"
  shows "sender_db D s' = sender_db D s \<and> sent s' = sent s"
  using assms report_db [of nick "''indecipherable message: '' @ e" s]
    report_sent [of nick "''indecipherable message: '' @ e" s]
  by (simp add: process_msg_pdu_def)

end

text \<open>
  A stored part of a longer message holds a PDU that can be read and has the reference it is stored
  with. Then an implementation whose own methods do not panic does not panic.
\<close>

definition part_ok :: "('t, 'j) ext \<Rightarrow> message \<Rightarrow> bool" where
  "part_ok E m \<longleftrightarrow> (\<forall>rf. m_csms_data m = Some rf \<longrightarrow>
     (\<exists>raw p g c. m_pdu m = Some raw \<and> deliver_try_from E raw = Some p \<and> decode_message p = Inr g \<and>
        concatenated g = Some c \<and> int (reference c) = rf))"

definition parts_ok :: "('t, 'j) ext \<Rightarrow> db \<Rightarrow> bool" where
  "parts_ok E d \<longleftrightarrow> list_all (part_ok E) (messages d)"

lemma decode_parts_ok:
  assumes "list_all (\<lambda>m. part_ok E m \<and> m_csms_data m \<noteq> None) ms"
  shows "\<exists>ps. decode_parts E ms = Ok ps \<and> list_all (\<lambda>p. concatenated p \<noteq> None) ps"
  using assms
proof (induction ms)
  case (Cons m ms)
  then obtain raw p g c where "m_pdu m = Some raw" "deliver_try_from E raw = Some p" "decode_message p = Inr g"
      "concatenated g = Some c" by (auto simp: part_ok_def)
  with Cons show ?case by auto
qed simp

locale quiet_sender = sender D line sent target
  for D :: "('s, 'z) sender_ops_scheme" and line :: "string \<Rightarrow> string \<Rightarrow> string \<Rightarrow> 'm" and sent and target +
  assumes report_no_panic: "fst (report_error D f x s) \<noteq> Panic"
    and join_no_panic: "fst (ensure_joined D ch s) \<noteq> Panic"
begin

lemma message_dest_no_panic: "fst (message_dest D gt s) \<noteq> Panic"
proof (cases gt)
  case (Some g)
  obtain r1 s1 where s1: "on_db D (get_group_by_id g) s = (r1, s1)"
    by (cases "on_db D (get_group_by_id g) s")
  then have "r1 \<noteq> Panic" using get_group_facts on_db_result by blast
  then show ?thesis
    using Some s1 join_no_panic
    by (auto simp: message_dest_def and_then_def then_do_def ret_def split: outcome.splits prod.splits)
      (metis fst_conv)
qed (simp add: message_dest_def target_ret)

lemma send_raw_no_panic: "fst (send_raw_message D f msg gt s) \<noteq> Panic"
proof -
  obtain r1 s1 where s1: "message_dest D gt s = (r1, s1)" by (cases "message_dest D gt s")
  obtain r t where t: "send_raw_message D f msg gt s = (r, t)" by (cases "send_raw_message D f msg gt s")
  show ?thesis
  proof (cases r1)
    case (Ok d)
    then have "for_each (str_lines msg) (\<lambda>line. for_each (line_chunks line) (send_chunk D f d)) s1 = (r, t)"
      using t s1 by (simp add: send_raw_message_def and_then_def)
    from send_lines [OF this] t show ?thesis by simp
  qed (use message_dest_no_panic [of gt s] s1 in \<open>simp_all add: send_raw_message_def and_then_def\<close>)
qed

lemma plain_no_panic:
  assumes "m_text msg \<noteq> None"
  shows "fst (process_msg_plain E D nick msg s) \<noteq> Panic"
proof -
  obtain body where x: "m_text msg = Some body" using assms by auto
  let ?raw = "send_raw_message D nick (plain_output E (sender_now D s) (m_ts msg) body) (m_group_target msg)"
  obtain r1 s1 where s1: "?raw s = (r1, s1)" by (cases "?raw s")
  obtain r2 s2 where s2: "on_db D (delete_message (m_id msg)) s1 = (r2, s2)"
    by (cases "on_db D (delete_message (m_id msg)) s1")
  have "r1 \<noteq> Panic" using send_raw_no_panic s1 by (metis fst_conv)
  moreover have "r2 \<noteq> Panic" using delete_facts on_db_result [OF s2] by blast
  ultimately show ?thesis
    using x s1 s2 by (cases r1) (simp_all add: process_msg_plain_def then_do_def and_then_def gets_def)
qed

lemma pdu_no_panic:
  assumes "parts_ok E (sender_db D s)"
  shows "fst (process_msg_pdu E D nick msg pd s) \<noteq> Panic"
proof (cases "decode_message pd")
  case (Inl e)
  then show ?thesis using report_no_panic by (simp add: process_msg_pdu_def)
next
  case (Inr m)
  show ?thesis
  proof (cases "concatenated m")
    case None
    obtain r1 s1 where s1: "send_raw_message D nick (gsm_text m) (m_group_target msg) s = (r1, s1)"
      by (cases "send_raw_message D nick (gsm_text m) (m_group_target msg) s")
    obtain r2 s2 where s2: "on_db D (delete_message (m_id msg)) s1 = (r2, s2)"
      by (cases "on_db D (delete_message (m_id msg)) s1")
    have "r1 \<noteq> Panic" using send_raw_no_panic s1 by (metis fst_conv)
    moreover have "r2 \<noteq> Panic" using delete_facts on_db_result [OF s2] by blast
    ultimately show ?thesis
      using Inr None s1 s2 by (cases r1) (simp_all add: process_msg_pdu_def then_do_def and_then_def)
  next
    case (Some cd)
    let ?get = "get_all_concatenated (m_phone_number msg) (int (reference cd))"
    obtain r1 s1 where s1: "on_db D ?get s = (r1, s1)" by (cases "on_db D ?get s")
    note facts = concatenated_facts [OF conjunct1 [OF on_db_result [OF s1]]]
    have "r1 \<noteq> Panic" using facts by simp
    moreover have ?thesis if ms: "r1 = Ok ms" for ms
    proof -
      have "list_all (\<lambda>m. part_ok E m \<and> m_csms_data m \<noteq> None) ms"
        using assms facts ms by (auto simp: parts_ok_def list_all_iff)
      then obtain ps where ps: "decode_parts E ms = Ok ps" "list_all (\<lambda>p. concatenated p \<noteq> None) ps"
        using decode_parts_ok by blast
      then obtain qs where qs: "sort_parts ps = Ok qs" by (cases "length ps < 2") (simp_all add: sort_parts_def)
      obtain r2 s2 where s2: "send_raw_message D nick (concat (map gsm_text qs)) (m_group_target msg) s1 = (r2, s2)"
        by (cases "send_raw_message D nick (concat (map gsm_text qs)) (m_group_target msg) s1")
      obtain r3 s3 where s3: "for_each ms (\<lambda>m. on_db D (delete_message (m_id m))) s2 = (r3, s3)"
        by (cases "for_each ms (\<lambda>m. on_db D (delete_message (m_id m))) s2")
      have "r2 \<noteq> Panic" using send_raw_no_panic s2 by (metis fst_conv)
      moreover have "r3 \<noteq> Panic" using deletes_facts [OF s3] by simp
      ultimately show ?thesis
        using Inr Some s1 ms ps qs s2 s3
        by (cases r2) (simp_all add: process_msg_pdu_def then_do_def and_then_def ret_def lift_def)
    qed
    ultimately show ?thesis
      using Inr Some s1 by (cases r1) (simp_all add: process_msg_pdu_def and_then_def)
  qed
qed

end

text \<open>
  Where the last character of a long line starts before \<open>MESSAGE_MAX_LEN\<close> bytes, neither branch is
  ever taken.
\<close>

lemma chunk_iter_none:
  "list_all (\<lambda>i. i < lst + MESSAGE_MAX_LEN) is \<Longrightarrow> lst + MESSAGE_MAX_LEN < length line \<Longrightarrow>
     chunk_iter line is lst = []"
  by (induction "is") auto

end
