(* ===== verification/Control_Common.thy ===== *)
theory Control_Common
  imports Admin
begin

text \<open>
  \<open>control_common.rs\<close>: the trait \<open>ControlCommon\<close>, which turns a line of the administrator into the
  commands of the other components. The trait is a record of its required methods; its provided
  method takes the record. The laws every implementation has to satisfy are a locale.
\<close>

section \<open>The trait\<close>

record ('s, 't, 'j) control_ops =
  wa_send :: "('t, 'j) whatsapp_command \<Rightarrow> ('s, unit) comp"
  cf_send :: "'t contact_factory_command \<Rightarrow> ('s, unit) comp"
  m_send :: "'t modem_command \<Rightarrow> ('s, unit) comp"
  process_insp :: "insp_command \<Rightarrow> ('s, bool) comp"
  control_response :: "string \<Rightarrow> ('s, unit) comp"

text \<open>The provided body of \<open>process_insp\<close>.\<close>

definition process_insp_default :: "insp_command \<Rightarrow> ('s, bool) comp" where
  "process_insp_default ic = ret False"

text \<open>The command of the contact factory a ghost command stands for.\<close>

definition ghost_to_cf :: "string \<Rightarrow> ghost_command \<Rightarrow> 't contact_factory_command" where
  "ghost_to_cf nick gc = (case gc of
      GhostChangeNick n \<Rightarrow> ForwardCommandByNick nick (ChangeNick n NICKSRC_USER)
    | GhostSetWhatsapp n \<Rightarrow> ForwardCommandByNick nick (SetWhatsapp n)
    | GhostPresenceSubscribe \<Rightarrow> SubscribePresenceByNick nick
    | GhostRemove \<Rightarrow> DropContactByNick nick)"

definition modem_to_cts :: "admin_modem_command \<Rightarrow> 't modem_command" where
  "modem_to_cts mc = (case mc of
      GetCsq \<Rightarrow> RequestCsq
    | GetReg \<Rightarrow> RequestReg
    | Reinit \<Rightarrow> ForceReinit
    | TempPath s \<Rightarrow> UpdatePath s)"

definition whatsapp_to_cts :: "admin_whatsapp_command \<Rightarrow> ('t, 'j) whatsapp_command" where
  "whatsapp_to_cts wac = (case wac of
      Setup \<Rightarrow> StartRegistration
    | Logon \<Rightarrow> LogonIfSaved
    | ChatList \<Rightarrow> GroupList
    | UpdateAll \<Rightarrow> GroupUpdateAll
    | AdminPrintAcks \<Rightarrow> PrintAcks)"

definition group_to_cts :: "'j group_command \<Rightarrow> ('t, 'j) whatsapp_command" where
  "group_to_cts gc = (case gc of
      BridgeWhatsapp jid chan \<Rightarrow> GroupAssociate jid chan
    | Unbridge ch \<Rightarrow> GroupRemove ch)"

definition contact_to_cf :: "'t contact_command \<Rightarrow> 't contact_factory_command" where
  "contact_to_cf cc = (case cc of
      NewSms a \<Rightarrow> QueryContact a SOURCE_SMS
    | NewWhatsapp a \<Rightarrow> QueryContact a SOURCE_WA)"

definition run_admin_command ::
  "('s, 't, 'j, 'z) control_ops_scheme \<Rightarrow> ('t, 'j) admin_command \<Rightarrow> ('s, unit) comp" where
  "run_admin_command D ac = (case ac of
      Ghost nick gc \<Rightarrow>
        then_do (cf_send D (ghost_to_cf nick gc)) (control_response D ''Ghost command executed.'')
    | Modem mc \<Rightarrow> m_send D (modem_to_cts mc)
    | Whatsapp wac \<Rightarrow> wa_send D (whatsapp_to_cts wac)
    | Group gc \<Rightarrow> wa_send D (group_to_cts gc)
    | Contact cc \<Rightarrow> cf_send D (contact_to_cf cc)
    | Insp ic \<Rightarrow>
        and_then (process_insp D ic) (\<lambda>done.
          if \<not> done then control_response D ''Error: InspIRCd link inactive!'' else ret ())
    | Help qry \<Rightarrow>
        (case help_page qry of
           Some hp \<Rightarrow> for_each (str_lines hp) (control_response D)
         | None \<Rightarrow> control_response D ''No help page found for that topic.''))"

definition process_admin_command ::
  "('t, 'j) ext \<Rightarrow> ('s, 't, 'j, 'z) control_ops_scheme \<Rightarrow> string \<Rightarrow> ('s, unit) comp" where
  "process_admin_command E D mesg =
     (if length mesg < 1 then ret ()
      else and_then (lift (admin_parse E (split_on (CHR '' '') mesg))) (\<lambda>ac. case ac of
          None \<Rightarrow> control_response D
            (''Invalid command. Try '' @ bold @ ''HELP'' @ plain @ '' for a command listing.'')
        | Some c \<Rightarrow> run_admin_command D c))"

lemma control_pres:
  assumes "\<And>c. pres P (cf_send D c)" "\<And>w. pres P (wa_send D w)" "\<And>m. pres P (m_send D m)"
    "\<And>ic. pres P (process_insp D ic)" "\<And>x. pres P (control_response D x)"
  shows "pres P (process_admin_command E D mesg)"
proof -
  have "pres P (run_admin_command D ac)" for ac
    by (cases ac) (auto simp: run_admin_command_def intro!: pres assms split: option.split)
  then show ?thesis
    unfolding process_admin_command_def by (intro pres assms)
qed

section \<open>What a command asks the other components for\<close>

fun admin_cf :: "('t, 'j) admin_command \<Rightarrow> 't contact_factory_command list" where
  "admin_cf (Ghost nick gc) = [ghost_to_cf nick gc]"
| "admin_cf (Contact cc) = [contact_to_cf cc]"
| "admin_cf _ = []"

fun admin_wa :: "('t, 'j) admin_command \<Rightarrow> ('t, 'j) whatsapp_command list" where
  "admin_wa (Whatsapp w) = [whatsapp_to_cts w]"
| "admin_wa (Group g) = [group_to_cts g]"
| "admin_wa _ = []"

fun admin_m :: "('t, 'j) admin_command \<Rightarrow> 't modem_command list" where
  "admin_m (Modem m) = [modem_to_cts m]"
| "admin_m _ = []"

text \<open>The same for a whole line: nothing where the line does not parse.\<close>

definition line_command :: "('t, 'j) ext \<Rightarrow> string \<Rightarrow> ('t, 'j) admin_command option" where
  "line_command E mesg =
     (if mesg = [] then None
      else case admin_parse E (split_on (CHR '' '') mesg) of Ok c \<Rightarrow> c | _ \<Rightarrow> None)"

definition option_list :: "('a \<Rightarrow> 'b list) \<Rightarrow> 'a option \<Rightarrow> 'b list" where
  "option_list f x = (case x of None \<Rightarrow> [] | Some y \<Rightarrow> f y)"

text \<open>
  An implementation sends commands into three queues that nothing else in the trait writes to, and
  answering the administrator never panics.
\<close>

locale control =
  fixes D :: "('s, 't, 'j, 'z) control_ops_scheme"
    and cf_log :: "'s \<Rightarrow> 't contact_factory_command list"
    and wa_log :: "'s \<Rightarrow> ('t, 'j) whatsapp_command list"
    and m_log :: "'s \<Rightarrow> 't modem_command list"
  assumes cf_send_ok: "fst (cf_send D c s) = Ok ()"
    and cf_send_log: "cf_log (snd (cf_send D c s)) = cf_log s @ [c]"
      "wa_log (snd (cf_send D c s)) = wa_log s" "m_log (snd (cf_send D c s)) = m_log s"
    and wa_send_log: "wa_log (snd (wa_send D w s)) = wa_log s @ [w]"
      "cf_log (snd (wa_send D w s)) = cf_log s" "m_log (snd (wa_send D w s)) = m_log s"
    and wa_send_ok: "fst (wa_send D w s) = Ok ()"
    and m_send_log: "m_log (snd (m_send D m s)) = m_log s @ [m]"
      "cf_log (snd (m_send D m s)) = cf_log s" "wa_log (snd (m_send D m s)) = wa_log s"
    and m_send_ok: "fst (m_send D m s) = Ok ()"
    and response_log: "cf_log (snd (control_response D t s)) = cf_log s"
      "wa_log (snd (control_response D t s)) = wa_log s" "m_log (snd (control_response D t s)) = m_log s"
    and response_no_panic: "fst (control_response D t s) \<noteq> Panic"
    and insp_log: "cf_log (snd (process_insp D ic s)) = cf_log s"
      "wa_log (snd (process_insp D ic s)) = wa_log s" "m_log (snd (process_insp D ic s)) = m_log s"
    and insp_no_panic: "fst (process_insp D ic s) \<noteq> Panic"
begin

lemmas send_logs = cf_send_log wa_send_log m_send_log response_log insp_log

definition logs :: "'s \<Rightarrow> 't contact_factory_command list \<times> ('t, 'j) whatsapp_command list \<times> 't modem_command list"
  where "logs s = (cf_log s, wa_log s, m_log s)"

lemma responses_logs: "logs (snd (for_each ls (control_response D) s)) = logs s"
proof (induction ls arbitrary: s)
  case Nil
  then show ?case by (simp add: ret_def)
next
  case (Cons l ls)
  have one: "logs (snd (control_response D l s)) = logs s"
    by (simp add: logs_def send_logs)
  show ?case
  proof (cases "control_response D l s")
    case (Pair r s1)
    then show ?thesis
      using one Cons.IH [of s1] by (simp add: then_do_def and_then_def split: outcome.splits)
  qed
qed

lemma responses_no_panic: "fst (for_each ls (control_response D) s) \<noteq> Panic"
proof (induction ls arbitrary: s)
  case Nil
  then show ?case by (simp add: ret_def)
next
  case (Cons l ls)
  then show ?case
    using response_no_panic [of l s]
    by (auto simp: then_do_def and_then_def split: prod.splits outcome.splits)
qed

lemma run_logs:
  "logs (snd (run_admin_command D ac s)) =
     (cf_log s @ admin_cf ac, wa_log s @ admin_wa ac, m_log s @ admin_m ac)"
proof (cases ac)
  case (Ghost nick gc)
  obtain s1 where s1: "cf_send D (ghost_to_cf nick gc) s = (Ok (), s1)"
    using cf_send_ok [of "ghost_to_cf nick gc" s] by (metis prod.collapse)
  then have "cf_log s1 = cf_log s @ [ghost_to_cf nick gc] \<and> wa_log s1 = wa_log s \<and> m_log s1 = m_log s"
    using cf_send_log [of "ghost_to_cf nick gc" s] by simp
  with Ghost s1 show ?thesis
    by (simp add: run_admin_command_def then_do_Ok logs_def send_logs)
next
  case (Insp ic)
  obtain r s1 where s1: "process_insp D ic s = (r, s1)" by (cases "process_insp D ic s")
  then have "cf_log s1 = cf_log s \<and> wa_log s1 = wa_log s \<and> m_log s1 = m_log s"
    using insp_log [of ic s] by simp
  with Insp s1 show ?thesis
    by (simp add: run_admin_command_def and_then_def logs_def send_logs ret_def split: outcome.splits)
next
  case (Help q)
  then show ?thesis
    using responses_logs by (simp add: run_admin_command_def logs_def send_logs split: option.splits)
qed (simp_all add: run_admin_command_def logs_def send_logs)

lemma run_no_panic: "fst (run_admin_command D ac s) \<noteq> Panic"
proof (cases ac)
  case (Ghost nick gc)
  then show ?thesis
    using response_no_panic cf_send_ok [of "ghost_to_cf nick gc" s]
    by (auto simp: run_admin_command_def then_do_def and_then_def split: prod.splits outcome.splits)
next
  case (Insp ic)
  then show ?thesis
    using insp_no_panic [of ic s] response_no_panic
    by (auto simp: run_admin_command_def and_then_def ret_def split: prod.splits outcome.splits)
next
  case (Help q)
  then show ?thesis
    using responses_no_panic response_no_panic
    by (auto simp: run_admin_command_def split: option.splits)
qed (simp_all add: run_admin_command_def cf_send_ok wa_send_ok m_send_ok)

lemma process_logs:
  "logs (snd (process_admin_command E D mesg s)) =
     (cf_log s @ option_list admin_cf (line_command E mesg),
      wa_log s @ option_list admin_wa (line_command E mesg),
      m_log s @ option_list admin_m (line_command E mesg))"
  using run_logs
  by (auto simp: process_admin_command_def line_command_def option_list_def and_then_def lift_def
      ret_def logs_def response_log split: outcome.splits option.splits)

lemma process_panics:
  "fst (process_admin_command E D mesg s) = Panic \<longleftrightarrow>
     mesg \<noteq> [] \<and> admin_parse E (split_on (CHR '' '') mesg) = Panic"
  using run_no_panic response_no_panic
  by (auto simp: process_admin_command_def and_then_def lift_def ret_def
      split: outcome.splits option.splits)

end

section \<open>The one parser that panics\<close>

lemma insp_parse_panic: "insp_parse inp = Panic \<longleftrightarrow> (\<exists>c. inp = [c] \<and> to_lowercase c = ''raw'')"
  by (auto simp: insp_parse_def Let_def split: list.splits)

lemma map_outcome_Panic [simp]: "map_outcome f r = Panic \<longleftrightarrow> r = Panic"
  by (cases r) simp_all

lemma admin_parse_panic:
  "admin_parse E inp = Panic \<longleftrightarrow>
     (\<exists>c d. inp = [c, d] \<and> to_lowercase c = ''insp'' \<and> to_lowercase d = ''raw'')"
  by (auto simp: admin_parse_def Let_def insp_parse_panic split: list.splits)

text \<open>The line that is a command whose parser panics.\<close>

definition bare_raw :: "string \<Rightarrow> bool" where
  "bare_raw x \<longleftrightarrow> (\<exists>c d. split_on (CHR '' '') x = [c, d] \<and> to_lowercase c = ''insp'' \<and> to_lowercase d = ''raw'')"

lemma bare_raw_nonempty: "bare_raw x \<Longrightarrow> x \<noteq> []"
  by (auto simp: bare_raw_def)

context control
begin

lemma panics_on_raw: "fst (process_admin_command E D x s) = Panic \<longleftrightarrow> bare_raw x"
  unfolding process_panics admin_parse_panic bare_raw_def [symmetric] using bare_raw_nonempty by blast

end

text \<open>No command asks the modem for a listing's messages.\<close>

lemma admin_m_no_listing: "no_listing (option_list admin_m (line_command E x))"
proof -
  have "no_listing (admin_m c)" for c :: "('t, 'j) admin_command"
    by (cases c) (auto simp: no_listing_def modem_to_cts_def split: admin_modem_command.split)
  then show ?thesis
    by (cases "line_command E x") (auto simp: option_list_def no_listing_def)
qed

end
