(* ===== verification/Insp_User.thy ===== *)
theory Insp_User
  imports Util
begin

text \<open>
  \<open>insp_user.rs\<close>: what is known of a user of the InspIRCd network, and the three ways to make one.
  \<open>now\<close> is the clock in nanoseconds; \<open>timestamp()\<close> is in seconds.
\<close>

record insp_user =
  u_ts :: int
  u_nick :: string
  u_hostname :: string
  u_displayed_hostname :: string
  u_ident :: string
  u_ip :: string
  u_signon_time :: int
  u_modes :: string
  u_gecos :: string
  u_ours :: bool

definition timestamp :: "int \<Rightarrow> int" where
  "timestamp now = now div 10 ^ 9"

text \<open>The fields are parsed in the order they are written in.\<close>

definition new_from_uid_line :: "string list \<Rightarrow> string option \<Rightarrow> (string \<times> insp_user) outcome" where
  "new_from_uid_line args suffix =
     (if length args < 9 then Err (Failure ''UID with invalid args: {:?}'' args)
      else (case suffix of
          None \<Rightarrow> Err (Failure ''UID with no suffix'' [])
        | Some gecos \<Rightarrow>
            (case parse_i64 (args ! 1) of
               None \<Rightarrow> Err ParseError
             | Some ts \<Rightarrow>
                 (case parse_i64 (args ! 7) of
                    None \<Rightarrow> Err ParseError
                  | Some signon \<Rightarrow>
                      Ok (args ! 0,
                          \<lparr>u_ts = ts, u_nick = args ! 2, u_hostname = args ! 3,
                           u_displayed_hostname = args ! 4, u_ident = args ! 5, u_ip = args ! 6,
                           u_signon_time = signon, u_modes = join_str '' '' (drop 8 args),
                           u_gecos = gecos, u_ours = False\<rparr>)))))"

definition new_for_controlbot :: "int \<Rightarrow> string \<Rightarrow> string \<Rightarrow> insp_user" where
  "new_for_controlbot now n host =
     \<lparr>u_ts = timestamp now, u_nick = n, u_hostname = host, u_displayed_hostname = host,
      u_ident = ''~control'', u_ip = ''0.0.0.0'', u_signon_time = timestamp now, u_modes = ''+i'',
      u_gecos = ''sms-irc control bot'', u_ours = True\<rparr>"

definition new_from_recipient ::
  "('t, 'j) ext \<Rightarrow> int \<Rightarrow> 't pdu_address \<Rightarrow> string \<Rightarrow> string \<Rightarrow> insp_user" where
  "new_from_recipient E now a n host =
     \<lparr>u_ts = timestamp now, u_nick = n, u_hostname = host, u_displayed_hostname = host,
      u_ident = string_to_irc_nick E (addr_to_string E a), u_ip = ''0.0.0.0'',
      u_signon_time = timestamp now, u_modes = ''+i'', u_gecos = addr_to_string E a, u_ours = True\<rparr>"

section \<open>A \<open>UID\<close> line is read back\<close>

text \<open>The arguments \<open>make_uid_line\<close> of \<open>insp_s2s.rs\<close> prints for a user.\<close>

definition uid_args :: "string \<Rightarrow> insp_user \<Rightarrow> string list" where
  "uid_args uid u =
     [uid, show_int (u_ts u), u_nick u, u_hostname u, u_displayed_hostname u, u_ident u, u_ip u,
      show_int (u_signon_time u), u_modes u]"

lemma digit_not_sign: "is_digit c \<Longrightarrow> c \<noteq> CHR ''-'' \<and> c \<noteq> CHR ''+''"
  by (auto simp: is_digit_def byte_in_def)

lemma parse_show_int:
  assumes "- (2 ^ 63) \<le> i" and "i < 2 ^ 63"
  shows "parse_i64 (show_int i) = Some i"
proof (cases "i < 0")
  case True
  then show ?thesis
    using assms by (simp add: parse_i64_def show_int_def read_show_nat show_nat_digits)
next
  case False
  obtain c cs where c: "show_nat (nat i) = c # cs"
    using show_nat_nonempty by (cases "show_nat (nat i)") auto
  moreover have "is_digit c" using show_nat_digits [of "nat i"] c by simp
  ultimately show ?thesis
    using False assms digit_not_sign [of c] read_show_nat [of "nat i"] show_nat_digits [of "nat i"]
    by (simp add: parse_i64_def show_int_def)
qed

definition i64 :: "int \<Rightarrow> bool" where
  "i64 i \<longleftrightarrow> - (2 ^ 63) \<le> i \<and> i < 2 ^ 63"

lemma uid_line_read_back:
  assumes "i64 (u_ts u)" and "i64 (u_signon_time u)"
  shows "new_from_uid_line (uid_args uid u) (Some (u_gecos u)) = Ok (uid, u\<lparr>u_ours := False\<rparr>)"
  using assms
  by (simp add: new_from_uid_line_def uid_args_def i64_def parse_show_int numeral_eq_Suc
      del: power_numeral_even power_numeral_odd)

end
