(* ===== verification/Wire.thy ===== *)
theory Wire
  imports Models
begin

text \<open>
  A framed TCP connection as the pollers see it, and the macro \<open>sink_outbox!\<close> of \<open>util.rs\<close>, which
  hands the queued messages of a component to its connection.
\<close>

section \<open>The connection\<close>

text \<open>What one \<open>conn.poll()\<close> yields; a poll that is not ready ends the list of events.\<close>

datatype conn_event = Received in_msg | ConnClosed | ConnFailed

text \<open>
  The answers the sink will give to the next calls of \<open>start_send\<close> and of \<open>poll_complete\<close>; past the
  end of a schedule it accepts everything. \<open>wire\<close> is what it has accepted.
\<close>

datatype send_answer = Ready | NotReady | SendFailed

record sink =
  send_sched :: "send_answer list"
  complete_sched :: "send_answer list"
  wire :: "irc_msg list"

definition start_send :: "irc_msg \<Rightarrow> (sink, bool) comp" where
  "start_send m k = (case send_sched k of
      [] \<Rightarrow> (Ok True, k\<lparr>wire := wire k @ [m]\<rparr>)
    | Ready # as \<Rightarrow> (Ok True, k\<lparr>send_sched := as, wire := wire k @ [m]\<rparr>)
    | NotReady # as \<Rightarrow> (Ok False, k\<lparr>send_sched := as\<rparr>)
    | SendFailed # as \<Rightarrow> (Err IoError, k\<lparr>send_sched := as\<rparr>))"

definition poll_complete :: "(sink, bool) comp" where
  "poll_complete k = (case complete_sched k of
      [] \<Rightarrow> (Ok True, k)
    | Ready # as \<Rightarrow> (Ok True, k\<lparr>complete_sched := as\<rparr>)
    | NotReady # as \<Rightarrow> (Ok False, k\<lparr>complete_sched := as\<rparr>)
    | SendFailed # as \<Rightarrow> (Err IoError, k\<lparr>complete_sched := as\<rparr>))"

section \<open>The macro\<close>

text \<open>On the two fields it is given: the outbox and the connection.\<close>

definition offer :: "irc_msg \<Rightarrow> (irc_msg list \<times> sink, unit) comp" where
  "offer m =
     and_then (on_field snd (\<lambda>k (ob, _). (ob, k)) (start_send m)) (\<lambda>ready.
       if ready then ret () else modify (\<lambda>(ob, k). (ob @ [m], k)))"

definition sink_outbox :: "(irc_msg list \<times> sink, unit) comp" where
  "sink_outbox =
     and_then (gets fst) (\<lambda>msgs.
     then_do (modify (\<lambda>(ob, k). ([], k)))
     (then_do (for_each msgs offer)
       (then_do (on_field snd (\<lambda>k (ob, _). (ob, k)) poll_complete) (ret ()))))"

lemma quiet_sink_outbox: "safe (\<lambda>_. True) sink_outbox"
proof -
  have s: "safe (\<lambda>_. True) (start_send m)" "safe (\<lambda>_. True) poll_complete" for m
    by (auto simp: safe_def start_send_def poll_complete_def split: list.split send_answer.split)
  have f: "safe (\<lambda>_. True) (on_field snd (\<lambda>k (ob, _). (ob, k)) n)" if "safe (\<lambda>_. True) n"
    for n :: "(sink, 'a) comp"
    using that by (auto intro: safe_on_field)
  show ?thesis
    unfolding sink_outbox_def offer_def by (intro safe f s safe_modify) simp_all
qed

section \<open>What happens to the messages\<close>

lemma offers_conserve:
  assumes "for_each ms offer (ob, k) = (Ok (), (ob', k'))"
  shows "mset ob' + mset (wire k') = mset ob + mset (wire k) + mset ms"
  using assms
proof (induction ms arbitrary: ob k)
  case Nil
  then show ?case by (simp add: ret_def)
next
  case (Cons m ms)
  from Cons.prems obtain u p where p: "offer m (ob, k) = (Ok u, p)"
    and rest: "for_each ms offer p = (Ok (), (ob', k'))"
    by (auto elim: then_do_OkE)
  obtain ob1 k1 where p1: "p = (ob1, k1)" by (cases p)
  have "mset ob1 + mset (wire k1) = mset ob + mset (wire k) + {#m#}"
    using p p1
    by (auto simp: offer_def and_then_def on_field_def start_send_def modify_def ret_def
        split: list.splits send_answer.splits)
  with Cons.IH [of ob1 k1] rest p1 show ?case by simp
qed

text \<open>A flush that succeeds loses and duplicates nothing: what the sink refused is queued again.\<close>

lemma sink_outbox_conserves:
  assumes "sink_outbox (ob, k) = (Ok (), (ob', k'))"
  shows "mset ob' + mset (wire k') = mset ob + mset (wire k)"
proof -
  from assms obtain u p b p2 where "for_each ob offer ([], k) = (Ok u, p)"
    and "on_field snd (\<lambda>k (ob, _). (ob, k)) poll_complete p = (Ok b, p2)" "ret () p2 = (Ok (), (ob', k'))"
    by (auto simp: sink_outbox_def gets_def modify_def elim!: and_then_OkE then_do_OkE)
  then have pc: "on_field snd (\<lambda>k (ob, _). (ob, k)) poll_complete p = (Ok b, (ob', k'))"
    by (simp add: ret_def)
  obtain ob1 k1 where p1: "p = (ob1, k1)" by (cases p)
  have "ob' = ob1 \<and> wire k' = wire k1"
    using pc p1
    by (auto simp: on_field_def poll_complete_def split: list.splits prod.splits send_answer.splits)
  then show ?thesis
    using offers_conserve [of ob "[]" k ob1 k1] \<open>for_each ob offer ([], k) = (Ok u, p)\<close> p1 by simp
qed

text \<open>A sink that accepts everything gets the messages in the order they were queued.\<close>

lemma offers_ready:
  "list_all (\<lambda>a. a = Ready) (send_sched k) \<Longrightarrow>
     \<exists>k'. for_each ms offer (ob, k) = (Ok (), (ob, k')) \<and> wire k' = wire k @ ms \<and>
          complete_sched k' = complete_sched k"
proof (induction ms arbitrary: k)
  case Nil
  then show ?case by (simp add: ret_def)
next
  case (Cons m ms)
  obtain k1 where k1: "start_send m k = (Ok True, k1)" "wire k1 = wire k @ [m]"
    "list_all (\<lambda>a. a = Ready) (send_sched k1)" "complete_sched k1 = complete_sched k"
    using Cons.prems by (cases "send_sched k") (auto simp: start_send_def)
  have "offer m (ob, k) = (Ok (), (ob, k1))"
    using k1(1) by (simp add: offer_def and_then_def on_field_def ret_def)
  then show ?case using Cons.IH [OF k1(3)] k1 by (auto simp: then_do_Ok)
qed

lemma sink_outbox_ready:
  assumes "list_all (\<lambda>a. a = Ready) (send_sched k)"
  shows "fst (snd (sink_outbox (ob, k))) = [] \<and> wire (snd (snd (sink_outbox (ob, k)))) = wire k @ ob"
proof -
  obtain k' where "for_each ob offer ([], k) = (Ok (), ([], k'))" "wire k' = wire k @ ob"
    using offers_ready [OF assms] by metis
  then show ?thesis
    by (auto simp: sink_outbox_def then_do_def and_then_def gets_def modify_def on_field_def
        poll_complete_def ret_def split: list.splits send_answer.splits)
qed

end
