(* ===== verification/Instance.thy ===== *)
theory Instance
  imports Util
begin

text \<open>
  A concrete instance of the library interface, small enough to evaluate, on which the witnesses of
  the properties run the model. An address type is its byte, a JID is its string.
\<close>

definition hex_val :: "char \<Rightarrow> nat option" where
  "hex_val c =
     (let n = of_char c in
      if 48 \<le> n \<and> n \<le> 57 then Some (n - 48) else if 65 \<le> n \<and> n \<le> 70 then Some (n - 55) else None)"

fun unhex :: "string \<Rightarrow> 8 word list option" where
  "unhex [] = Some []"
| "unhex [a] = None"
| "unhex (a # b # cs) =
     (case (hex_val a, hex_val b, unhex cs) of
        (Some x, Some y, Some bs) \<Rightarrow> Some (word_of_nat (x * 16 + y) # bs)
      | _ \<Rightarrow> None)"

text \<open>A PDU of four or more bytes starts with its concatenation header; a reference of 0 means none.\<close>

definition ex_deliver :: "8 word list \<Rightarrow> 8 word deliver_pdu option" where
  "ex_deliver bs = (case bs of
      rf # ps # sq # rest \<Rightarrow>
        Some \<lparr>originating_address = \<lparr>type_addr = 0x91, number = [1, 2]\<rparr>,
              decode_message = Inr \<lparr>gsm_text = map (char_of \<circ> unat) rest,
                concatenated = (if rf = 0 then None
                  else Some \<lparr>reference = unat rf, parts = unat ps, sequence = unat sq\<rparr>)\<rparr>\<rparr>
    | _ \<Rightarrow> None)"

definition ex_ext :: "(8 word, string) ext" where
  "ex_ext =
     \<lparr>ton_into_u8 = (\<lambda>t. t), ton_try_from = Some,
      hex_to_string = (\<lambda>bs. concat (map fmt_02X bs)), hex_decode = unhex,
      addr_to_string = (\<lambda>a. CHR ''+'' # map (char_of \<circ> unat) (number a)),
      addr_parse = (\<lambda>s. Some \<lparr>type_addr = 0x91, number = map (word_of_nat \<circ> of_char) s\<rparr>),
      jid_id = (\<lambda>j. j), jid_is_group = (\<lambda>j. CHR ''-'' \<in> set j), jid_to_string = (\<lambda>j. j),
      jid_parse = Some,
      jid_phonenumber = (\<lambda>j. if CHR ''-'' \<in> set j then None else Some j),
      jid_from_phonenumber = Some,
      unidecode = filter is_ascii,
      regex_is_match = (\<lambda>re s. starts_with s ''I''),
      irc_valid = (\<lambda>m. im_command m \<noteq> []),
      irc_parse = (\<lambda>s. if s = [] then Inl ''empty message''
                       else Inr \<lparr>im_prefix = None, im_command = s, im_args = [], im_suffix = None\<rparr>),
      irc_command_str = (\<lambda>c. case c of OtherCommand s \<Rightarrow> s | NICK n \<Rightarrow> ''NICK '' @ n | _ \<Rightarrow> ''CMD''),
      deliver_try_from = ex_deliver,
      debug_str = (\<lambda>s. CHR 0x22 # s @ [CHR 0x22]),
      local_date = (\<lambda>t. ''1970-01-01''), local_time = (\<lambda>t. ''00:00:00''),
      ord_str = (\<lambda>ks. ks), ord_addr = (\<lambda>ks. ks), ord_jid = (\<lambda>ks. ks)\<rparr>"

lemma hex_val_digit: "n < 16 \<Longrightarrow> hex_val (hex_digit n) = Some n"
  by (simp add: hex_val_def hex_digit_def)

lemma unhex_fmt: "unhex (fmt_02X b @ cs) = map_option ((#) b) (unhex cs)"
proof -
  have "unat b < 256" using unsigned_less [of b] by simp
  then have "hex_val (hex_digit (unat b div 16)) = Some (unat b div 16)"
    "hex_val (hex_digit (unat b mod 16)) = Some (unat b mod 16)"
    by (simp_all add: hex_val_digit less_mult_imp_div_less)
  then show ?thesis by (simp add: fmt_02X_def split: option.splits)
qed

lemma unhex_hex: "unhex (concat (map fmt_02X bs)) = Some bs"
  by (induction bs) (simp_all add: unhex_fmt)

lemma ex_hex_ok [simp]: "hex_ok ex_ext"
  by (simp add: hex_ok_def ex_ext_def unhex_hex)

lemma ex_ton_ok [simp]: "ton_ok ex_ext"
  by (simp add: ton_ok_def ex_ext_def)

lemma unhex_nonempty: "3 \<le> length s \<Longrightarrow> unhex s \<noteq> Some []"
  by (induction s rule: unhex.induct) (auto split: option.splits)

lemma ex_decode_ok [simp]: "decode_ok ex_ext"
  by (simp add: decode_ok_def ex_ext_def unhex_nonempty)

lemma ex_ord_ok [simp]: "ord_ok (ord_str ex_ext)" "ord_ok (ord_addr ex_ext)" "ord_ok (ord_jid ex_ext)"
  by (simp_all add: ord_ok_def ex_ext_def)

end
