(* ===== verification/Core_Properties.thy ===== *)
theory Core_Properties
  imports Sender_Common Control_Common Insp_User Wire Instance
begin

text \<open>
  The properties of the parts that do not belong to one connection: addresses and names, the store,
  the command language, the splitting of lines, the \<open>UID\<close> line and the outbox.
\<close>

section \<open>Addresses and names\<close>

text \<open>
  C20: the database form of an address is read back to the address, and two addresses never share one;
  an address with an empty number is the exception, its form cannot be read (\<open>get_addr\<close> then reports
  an invalid address in the database).
\<close>

theorem address_form_roundtrip:
  assumes "hex_ok E" and "ton_ok E"
  shows "un_normalize_address E (normalize_address E a) = Ok (if number a = [] then None else Some a) \<and>
    (normalize_address E a = normalize_address E b \<longleftrightarrow> a = b) \<and>
    get_addr E (normalize_address E a) =
      (if number a = [] then Err (Failure ''invalid address {} in db'' [normalize_address E a]) else Ok a)"
  using un_normalize_normalize [OF assms, of a] normalize_inject [OF assms, of a b]
  by (simp add: get_addr_def)

theorem address_form_roundtrip_witness:
  "get_addr ex_ext (normalize_address ex_ext \<lparr>type_addr = 0x91, number = [0x21, 0x43]\<rparr>)
     = Ok \<lparr>type_addr = 0x91, number = [0x21, 0x43]\<rparr>"
  using address_form_roundtrip [of ex_ext "\<lparr>type_addr = 0x91, number = [0x21, 0x43]\<rparr>"] by simp



section \<open>The store\<close>

text \<open>The database an empty schema starts with.\<close>

definition empty_db :: "int \<Rightarrow> bool list \<Rightarrow> db" where
  "empty_db t fs =
     \<lparr>recipients = [], messages = [], groups = [], wa_persistence = [], wa_msgids = [],
      next_recipient_id = 1, next_message_id = 1, next_group_id = 1, db_clock = t, faults = fs\<rparr>"




text \<open>
  A stored SMS is among the messages of its sender and, in a database with unique keys, of nobody
  else; messages are handed out by timestamp and, for equal timestamps, in the order they were stored.
\<close>

theorem sms_is_retrieved:
  assumes "hex_ok E" "ton_ok E" and "db_inv d" and "store_sms_message E a pd csms d = (Ok m, d')"
    and "faults d' = []"
  shows "\<exists>ms. fst (get_messages_for_recipient E b d') = Ok ms \<and> (m \<in> set ms \<longleftrightarrow> a = b) \<and>
     sorted (map (\<lambda>m. (m_ts m, m_id m)) ms) \<and> m_pdu m = Some pd \<and> m_text m = None"
proof -
  have "messages d' = messages d @ [m]" "m_phone_number m = normalize_address E a"
    "m_pdu m = Some pd" "m_text m = None"
    using assms(4)
    by (auto simp: store_sms_message_def with_conn_def insert_message_def Let_def
        split: list.splits if_splits)
  then show ?thesis
    using assms(5) normalize_inject [OF assms(1,2), of a b]
    by (auto simp: get_messages_for_recipient_def gets_def by_ts_id_def)
qed

theorem sms_is_retrieved_witness:
  "\<exists>m d'. store_sms_message ex_ext \<lparr>type_addr = 0x91, number = [1]\<rparr> [0, 0, 0, 65] None (empty_db 7 [])
       = (Ok m, d') \<and>
     (\<exists>ms. fst (get_messages_for_recipient ex_ext \<lparr>type_addr = 0x91, number = [1]\<rparr> d') = Ok ms \<and> m \<in> set ms)"
proof -
  let ?a = "\<lparr>type_addr = 0x91, number = [1]\<rparr> :: 8 word pdu_address"
  have inv: "db_inv (empty_db 7 [])" by (simp add: db_inv_def empty_db_def key_ok_def hm_wf_def)
  obtain m d' where s: "store_sms_message ex_ext ?a [0, 0, 0, 65] None (empty_db 7 []) = (Ok m, d')"
    and f: "faults d' = []"
    by (simp add: store_sms_message_def with_conn_def insert_message_def Let_def empty_db_def)
  show ?thesis
    using sms_is_retrieved [OF ex_hex_ok ex_ton_ok inv s f, of ?a] s by blast
qed

section \<open>The command language\<close>



text \<open>
  A line of the administrator can make the parser panic in one way only, an \<open>INSP RAW\<close> without
  arguments; every other line is a command, or is answered as invalid.
\<close>

theorem parser_panics_only_on_bare_raw:
  "admin_parse E ws = Panic \<longleftrightarrow>
     (\<exists>x y. ws = [x, y] \<and> to_lowercase x = ''insp'' \<and> to_lowercase y = ''raw'')"
  by (rule admin_parse_panic)

text \<open>
  The word that follows \<open>INSP RAW\<close> is lost: what is sent is the rest of the line.
\<close>

theorem raw_drops_a_word:
  "admin_parse E (''INSP'' # ''RAW'' # w # ws) = Ok (Some (Insp (InspRaw (join_str '' '' ws))))"
  by (simp add: admin_parse_def insp_parse_def lower_keywords)

section \<open>Splitting a line\<close>

text \<open>
  For any line, well-formed or not, no slice of the splitter panics, and what it sends is a prefix
  of the line, in order and without repetition.
\<close>

theorem chunks_are_a_prefix:
  "None \<notin> set (line_chunks line) \<and> (\<exists>k. chunks_text (line_chunks line) = take k line)"
  using line_chunks_total chunk_iter_prefix [of "char_indices line" line 0]
  by (simp add: line_chunks_def)

text \<open>
  C30: no chunk is longer than \<open>MESSAGE_MAX_LEN\<close> and three bytes, for a line whose characters are at
  most four bytes long; and a line of at most \<open>MESSAGE_MAX_LEN\<close> bytes is sent whole.
\<close>

theorem chunk_size_bound:
  assumes "close_indices 0 (char_indices line)" and "line \<noteq> [] \<longrightarrow> \<not> is_cont (hd line)"
    and "Some c \<in> set (line_chunks line)"
  shows "length c \<le> MESSAGE_MAX_LEN + 3 \<and>
    (length line \<le> MESSAGE_MAX_LEN \<longrightarrow> chunks_text (line_chunks line) = line)"
  using line_chunks_bound [OF assms(1,3)] line_chunks_short [of line] assms(2) by (auto simp: hd_conv_nth)

theorem chunk_size_bound_witness:
  "chunks_text (line_chunks [CHR ''a'', CHR 0xC3, CHR 0xA9]) = [CHR ''a'', CHR 0xC3, CHR 0xA9]"
proof -
  have ci: "char_indices [CHR ''a'', CHR 0xC3, CHR 0xA9] = [0, 1]" by code_simp
  have "Some [CHR ''a'', CHR 0xC3, CHR 0xA9] \<in> set (line_chunks [CHR ''a'', CHR 0xC3, CHR 0xA9])"
    by (simp add: line_chunks_def ci MESSAGE_MAX_LEN_def str_slice_def char_boundary_def)
  then show ?thesis
    using chunk_size_bound [of "[CHR ''a'', CHR 0xC3, CHR 0xA9]"] ci
    by (simp add: MESSAGE_MAX_LEN_def is_cont_def byte_in_def)
qed

text \<open>
  C18: of an ASCII line everything is sent, except when its length is 1 more than a multiple of
  \<open>MESSAGE_MAX_LEN\<close>: then the last character is lost.
\<close>

theorem ascii_line_loses_at_most_one:
  assumes "list_all is_ascii line"
  shows "chunks_text (line_chunks line) =
    (if length line > 1 \<and> length line mod MESSAGE_MAX_LEN = 1 then butlast line else line)"
  using assms by (rule line_chunks_ascii)

theorem ascii_line_loses_at_most_one_witness:
  "chunks_text (line_chunks (replicate 351 (CHR ''x''))) = replicate 350 (CHR ''x'')"
proof -
  have "list_all is_ascii (replicate 351 (CHR ''x''))"
    by (simp add: list_all_length is_ascii_def byte_in_def)
  from ascii_line_loses_at_most_one [OF this]
  have "chunks_text (line_chunks (replicate 351 (CHR ''x''))) = butlast (replicate 351 (CHR ''x''))"
    by (simp add: MESSAGE_MAX_LEN_def)
  moreover have "butlast (replicate 351 (CHR ''x'')) = replicate 350 (CHR ''x'')"
    by (simp add: butlast_conv_take del: replicate.simps replicate_Suc)
  ultimately show ?thesis by simp
qed

text \<open>
  A line longer than \<open>MESSAGE_MAX_LEN\<close> bytes whose last character starts before that limit is
  lost as a whole: nothing at all is sent for it.
\<close>

theorem long_line_can_vanish:
  assumes "length line > MESSAGE_MAX_LEN" and "list_all (\<lambda>i. i < MESSAGE_MAX_LEN) (char_indices line)"
  shows "line_chunks line = []"
  using chunk_iter_none [of 0 "char_indices line" line] assms by (simp add: line_chunks_def)

text \<open>349 ASCII characters and one of three bytes.\<close>

theorem long_line_can_vanish_witness:
  "line_chunks (replicate 349 (CHR ''x'') @ [CHR 0xE2, CHR 0x82, CHR 0xAC]) = []"
proof (rule long_line_can_vanish)
  let ?line = "replicate 349 (CHR ''x'') @ [CHR 0xE2, CHR 0x82, CHR 0xAC]"
  show "MESSAGE_MAX_LEN < length ?line" by (simp add: MESSAGE_MAX_LEN_def)
  have "i < 350" if "i < 352" "\<not> is_cont (?line ! i)" for i
  proof (rule ccontr)
    assume "\<not> i < 350"
    then have "i = 350 \<or> i = 351" using that(1) by linarith
    then show False using that(2) by (auto simp: nth_append is_cont_def byte_in_def)
  qed
  then show "list_all (\<lambda>i. i < MESSAGE_MAX_LEN) (char_indices ?line)"
    by (auto simp: list_all_iff set_char_indices MESSAGE_MAX_LEN_def)
qed

section \<open>The lines of users\<close>

text \<open>
  The \<open>UID\<close> line that introduces a user is read back to the same user with the same identifier
  (and not marked as ours), for every timestamp of 64 bits.
\<close>

theorem uid_line_roundtrip:
  assumes "i64 (u_ts u)" and "i64 (u_signon_time u)"
  shows "new_from_uid_line (uid_args uid u) (Some (u_gecos u)) = Ok (uid, u\<lparr>u_ours := False\<rparr>)"
  using assms by (rule uid_line_read_back)

theorem uid_line_roundtrip_witness:
  "new_from_uid_line (uid_args ''00AZ00001'' (new_from_recipient ex_ext (5 * 10 ^ 9)
      \<lparr>type_addr = 0x91, number = [0x31]\<rparr> ''Sam'' ''h'')) (Some ''+1'') =
   Ok (''00AZ00001'', (new_from_recipient ex_ext (5 * 10 ^ 9)
      \<lparr>type_addr = 0x91, number = [0x31]\<rparr> ''Sam'' ''h'')\<lparr>u_ours := False\<rparr>)"
proof -
  let ?u = "new_from_recipient ex_ext (5 * 10 ^ 9) \<lparr>type_addr = 0x91, number = [0x31]\<rparr> ''Sam'' ''h''"
  have g: "u_gecos ?u = ''+1''" and t: "u_ts ?u = 5" "u_signon_time ?u = 5"
    by (simp_all add: new_from_recipient_def ex_ext_def timestamp_def char_of_eq_nat)
  show ?thesis
    using uid_line_roundtrip [of ?u "''00AZ00001''"] g t by (simp add: i64_def)
qed

section \<open>The outbox\<close>

definition quit_msg :: "string \<Rightarrow> irc_msg" where
  "quit_msg u = \<lparr>im_prefix = Some u, im_command = ''QUIT'', im_args = [], im_suffix = None\<rparr>"

text \<open>
  A flush of the outbox that succeeds loses and duplicates nothing, whichever messages the
  connection refuses; and a connection that refuses none gets them all in the order they were queued.
\<close>

theorem outbox_flush:
  "(sink_outbox (ob, k) = (Ok (), (ob', k')) \<longrightarrow> mset ob' + mset (wire k') = mset ob + mset (wire k)) \<and>
   (list_all (\<lambda>a. a = Ready) (send_sched k) \<longrightarrow>
      fst (snd (sink_outbox (ob, k))) = [] \<and> wire (snd (snd (sink_outbox (ob, k)))) = wire k @ ob)"
  using sink_outbox_conserves sink_outbox_ready by blast

theorem outbox_flush_witness:
  "wire (snd (snd (sink_outbox ([quit_msg ''b'', quit_msg ''c''],
      \<lparr>send_sched = [Ready], complete_sched = [], wire = [quit_msg ''a'']\<rparr>))))
     = [quit_msg ''a'', quit_msg ''b'', quit_msg ''c'']"
  using outbox_flush [of "[quit_msg ''b'', quit_msg ''c'']"
      "\<lparr>send_sched = [Ready], complete_sched = [], wire = [quit_msg ''a'']\<rparr>"] by simp

text \<open>
  The order is not kept when the connection refuses one message and accepts the next in the same
  flush: the second one overtakes the first.
\<close>

theorem outbox_can_reorder:
  "let k = \<lparr>send_sched = [NotReady, Ready], complete_sched = [], wire = []\<rparr>;
       (r1, ob1, k1) = sink_outbox ([quit_msg ''a'', quit_msg ''b''], k);
       (r2, ob2, k2) = sink_outbox (ob1, k1)
   in r1 = Ok () \<and> r2 = Ok () \<and> ob2 = [] \<and> wire k2 = [quit_msg ''b'', quit_msg ''a'']"
  by code_simp

end
