(* ===== verification/Contact_Common.thy ===== *)
theory Contact_Common
  imports Store
begin

text \<open>
  \<open>contact_common.rs\<close>: the trait \<open>ContactManagerManager\<close>, which keeps a ghost for every recipient.
  Its methods come in two records, because an implementation of the methods of the second calls
  provided methods that need only the first. The laws of an implementation are a locale.
\<close>

section \<open>The trait\<close>

record ('s, 't, 'j) cmm_base =
  wa_tx_send :: "('t, 'j) whatsapp_command \<Rightarrow> ('s, unit) comp"
  m_tx_send :: "'t modem_command \<Rightarrow> ('s, unit) comp"
  cb_tx_send :: "control_bot_command \<Rightarrow> ('s, unit) comp"
  cmm_db :: "'s \<Rightarrow> db"
  cmm_db_put :: "db \<Rightarrow> 's \<Rightarrow> 's"
  has_contact :: "'t pdu_address \<Rightarrow> 's \<Rightarrow> bool"
  setup_contact_for :: "recipient \<Rightarrow> 't pdu_address \<Rightarrow> ('s, unit) comp"

record ('s, 't, 'j) cmm = "('s, 't, 'j) cmm_base" +
  remove_contact_for :: "'t pdu_address \<Rightarrow> ('s, unit) comp"
  forward_cmd :: "'t pdu_address \<Rightarrow> contact_manager_command \<Rightarrow> ('s, unit) comp"
  resolve_nick :: "string \<Rightarrow> 's \<Rightarrow> 't pdu_address option"

definition cmm_store :: "('s, 't, 'j, 'z) cmm_base_scheme \<Rightarrow> (db, 'a) comp \<Rightarrow> ('s, 'a) comp" where
  "cmm_store M = on_field (cmm_db M) (cmm_db_put M)"

definition setup_recipient ::
  "('t, 'j) ext \<Rightarrow> ('s, 't, 'j, 'z) cmm_base_scheme \<Rightarrow> recipient \<Rightarrow> ('s, unit) comp" where
  "setup_recipient E M recip =
     and_then (lift (get_addr E (r_phone_number recip))) (\<lambda>addr.
     and_then (gets (has_contact M addr)) (\<lambda>has.
       if has then ret () else setup_contact_for M recip addr))"

definition request_contact ::
  "('t, 'j) ext \<Rightarrow> ('s, 't, 'j, 'z) cmm_base_scheme \<Rightarrow> 't pdu_address \<Rightarrow> int \<Rightarrow> ('s, bool) comp" where
  "request_contact E M a src =
     and_then (cmm_store M (get_recipient_by_addr_opt E a)) (\<lambda>ro. case ro of
         Some recip \<Rightarrow> then_do (setup_recipient E M recip) (ret True)
       | None \<Rightarrow>
           then_do
             (if src = SOURCE_SMS then m_tx_send M (ModemMakeContact a)
              else if src = SOURCE_WA then wa_tx_send M (WaMakeContact a)
              else ret ())
             (ret False))"

definition query_contact ::
  "('t, 'j) ext \<Rightarrow> ('s, 't, 'j, 'z) cmm_base_scheme \<Rightarrow> 't pdu_address \<Rightarrow> int \<Rightarrow> ('s, unit) comp" where
  "query_contact E M a src =
     and_then (cmm_store M (get_recipient_by_addr_opt E a)) (\<lambda>ro. case ro of
         Some recip \<Rightarrow>
           then_do (cb_tx_send M (CommandResponse
               (''Ghost exists already; nickname is `'' @ r_nick recip @ ''`.'')))
             (setup_recipient E M recip)
       | None \<Rightarrow>
           then_do (cb_tx_send M (CommandResponse
               (''Setting up a ghost for number `'' @ addr_to_string E a @ ''`...'')))
             (then_do (request_contact E M a src) (ret ())))"

definition setup_contact ::
  "('t, 'j) ext \<Rightarrow> ('s, 't, 'j, 'z) cmm_base_scheme \<Rightarrow> 't pdu_address \<Rightarrow> ('s, unit) comp" where
  "setup_contact E M a =
     and_then (cmm_store M (get_recipient_by_addr_opt E a)) (\<lambda>ro. case ro of
         Some recip \<Rightarrow> setup_recipient E M recip
       | None \<Rightarrow> ret ())"

definition drop_contact ::
  "('t, 'j) ext \<Rightarrow> ('s, 't, 'j, 'z) cmm_scheme \<Rightarrow> 't pdu_address \<Rightarrow> ('s, unit) comp" where
  "drop_contact E M addr =
     then_do (cmm_store M (delete_recipient_with_addr E addr)) (remove_contact_for M addr)"

definition subscribe_presence_by_nick :: "('s, 't, 'j, 'z) cmm_scheme \<Rightarrow> string \<Rightarrow> ('s, unit) comp" where
  "subscribe_presence_by_nick M nick =
     and_then (gets (resolve_nick M nick)) (\<lambda>ao. case ao of
         Some a \<Rightarrow> wa_tx_send M (SubscribePresence a)
       | None \<Rightarrow> ret ())"

definition drop_contact_by_nick ::
  "('t, 'j) ext \<Rightarrow> ('s, 't, 'j, 'z) cmm_scheme \<Rightarrow> string \<Rightarrow> ('s, unit) comp" where
  "drop_contact_by_nick E M nick =
     and_then (gets (resolve_nick M nick)) (\<lambda>ao. case ao of
         Some a \<Rightarrow> drop_contact E M a
       | None \<Rightarrow> ret ())"

definition forward_cmd_by_nick ::
  "('s, 't, 'j, 'z) cmm_scheme \<Rightarrow> string \<Rightarrow> contact_manager_command \<Rightarrow> ('s, unit) comp" where
  "forward_cmd_by_nick M nick cmd =
     and_then (gets (resolve_nick M nick)) (\<lambda>ao. case ao of
         Some a \<Rightarrow> forward_cmd M a cmd
       | None \<Rightarrow> ret ())"

section \<open>Preservation through the provided methods\<close>

text \<open>
  An invariant of the implementation that its own methods and its store keep is kept by the provided
  methods.
\<close>

lemma cmm_base_pres:
  assumes db: "\<And>a. pres P (cmm_store M (get_recipient_by_addr_opt E a))"
    and su: "\<And>r a s. get_addr E (r_phone_number r) = Ok a \<Longrightarrow> P s \<Longrightarrow> \<not> has_contact M a s \<Longrightarrow>
      P (snd (setup_contact_for M r a s))"
    and tx: "\<And>a. pres P (wa_tx_send M (WaMakeContact a))" "\<And>a. pres P (m_tx_send M (ModemMakeContact a))" "\<And>c. pres P (cb_tx_send M c)"
  shows "pres P (setup_recipient E M r)" and "pres P (request_contact E M a src)"
    and "pres P (query_contact E M a src)" and "pres P (setup_contact E M a)"
proof -
  have sr: "pres P (setup_recipient E M r)" for r
  proof (rule presI)
    fix s assume "P s"
    then show "P (snd (setup_recipient E M r s))"
      using su by (cases "get_addr E (r_phone_number r)")
        (auto simp: setup_recipient_def and_then_def lift_def gets_def ret_def attempt_def pres_def)
  qed
  show "pres P (setup_recipient E M r)" by (rule sr)
  have rq: "pres P (request_contact E M a src)" for a src
    unfolding request_contact_def by (intro pres db sr tx)
  show "pres P (request_contact E M a src)" by (rule rq)
  show "pres P (query_contact E M a src)"
    unfolding query_contact_def by (intro pres db sr tx rq)
  show "pres P (setup_contact E M a)"
    unfolding setup_contact_def by (intro pres db sr)
qed

lemma cmm_base_safe:
  assumes db: "\<And>a. safe P (cmm_store M (get_recipient_by_addr_opt E a))"
    and addr: "\<And>n. get_addr E n \<noteq> Panic"
    and su: "\<And>r a s. get_addr E (r_phone_number r) = Ok a \<Longrightarrow> P s \<Longrightarrow> \<not> has_contact M a s \<Longrightarrow>
      fst (setup_contact_for M r a s) \<noteq> Panic \<and> P (snd (setup_contact_for M r a s))"
    and tx: "\<And>c. safe P (wa_tx_send M c)" "\<And>a. safe P (m_tx_send M (ModemMakeContact a))" "\<And>c. safe P (cb_tx_send M c)"
  shows "safe P (setup_recipient E M r)" and "safe P (request_contact E M a src)"
    and "safe P (query_contact E M a src)" and "safe P (setup_contact E M a)"
proof -
  have sr: "safe P (setup_recipient E M r)" for r
    unfolding safe_def
  proof (intro allI impI)
    fix s assume "P s"
    then show "fst (setup_recipient E M r s) \<noteq> Panic \<and> P (snd (setup_recipient E M r s))"
      using su addr [of "r_phone_number r"] by (cases "get_addr E (r_phone_number r)")
        (auto simp: setup_recipient_def and_then_def lift_def gets_def ret_def)
  qed
  show "safe P (setup_recipient E M r)" by (rule sr)
  have rq: "safe P (request_contact E M a src)" for a src
    unfolding request_contact_def by (intro safe db sr tx)
  show "safe P (request_contact E M a src)" by (rule rq)
  show "safe P (query_contact E M a src)"
    unfolding query_contact_def by (intro safe db sr tx rq)
  show "safe P (setup_contact E M a)"
    unfolding setup_contact_def by (intro safe db sr)
qed

lemma get_addr_of_normal:
  "hex_ok E \<Longrightarrow> ton_ok E \<Longrightarrow> get_addr E (normalize_address E a) = Ok b \<Longrightarrow> b = a"
  by (auto simp: get_addr_def un_normalize_normalize split: if_splits)

section \<open>What an implementation promises\<close>

text \<open>
  The channels and the store are separate from the table of contacts; a successful set-up makes the
  contact, and no set-up removes one.
\<close>

locale contact_provider =
  fixes E :: "('t, 'j) ext" and M :: "('s, 't, 'j, 'z) cmm_scheme"
  assumes db_put_get: "cmm_db M (cmm_db_put M d s) = d"
    and db_put_has: "has_contact M b (cmm_db_put M d s) = has_contact M b s"
    and tx_db: "cmm_db M (snd (wa_tx_send M w s)) = cmm_db M s"
      "cmm_db M (snd (m_tx_send M m s)) = cmm_db M s" "cmm_db M (snd (cb_tx_send M c s)) = cmm_db M s"
    and tx_has: "has_contact M b (snd (wa_tx_send M w s)) = has_contact M b s"
      "has_contact M b (snd (m_tx_send M m s)) = has_contact M b s"
      "has_contact M b (snd (cb_tx_send M c s)) = has_contact M b s"
    and setup_has: "setup_contact_for M r a s = (Ok (), s') \<Longrightarrow> has_contact M a s'"
    and setup_keeps: "has_contact M b s \<Longrightarrow> has_contact M b (snd (setup_contact_for M r a s))"
    and remove_db: "recipients (cmm_db M (snd (remove_contact_for M a s))) = recipients (cmm_db M s)"
begin

lemma store_result:
  "cmm_store M m s = (r, s') \<Longrightarrow>
     m (cmm_db M s) = (r, cmm_db M s') \<and> has_contact M b s' = has_contact M b s"
  by (auto simp: cmm_store_def on_field_def db_put_get db_put_has split: prod.splits)

lemma by_addr_facts:
  assumes "get_recipient_by_addr_opt E a d = (r, d')"
  shows "recipients d' = recipients d \<and> r \<noteq> Panic \<and>
    (\<forall>x. r = Ok (Some x) \<longrightarrow> x \<in> set (recipients d) \<and> r_phone_number x = normalize_address E a) \<and>
    (r = Ok None \<longrightarrow> normalize_address E a \<notin> r_phone_number ` set (recipients d))"
  using assms
  by (auto simp: get_recipient_by_addr_opt_def with_conn_def gets_def first_opt_None
      dest!: first_opt_Some split: list.splits if_splits)

text \<open>A successful set-up leaves the contact in the table, whether it was there before or not.\<close>

lemma setup_recipient_has:
  assumes "setup_recipient E M r s = (Ok (), s')"
  shows "\<exists>a. get_addr E (r_phone_number r) = Ok a \<and> has_contact M a s'"
  using assms
  by (auto simp: setup_recipient_def lift_def gets_def ret_def elim!: and_then_OkE
      intro: setup_has split: if_splits)

lemma setup_recipient_keeps:
  "has_contact M b s \<Longrightarrow> has_contact M b (snd (setup_recipient E M r s))"
  by (cases "get_addr E (r_phone_number r)")
    (auto simp: setup_recipient_def and_then_def lift_def gets_def ret_def intro: setup_keeps)

lemma setup_recipient_again:
  "get_addr E (r_phone_number r) = Ok a \<Longrightarrow> has_contact M a s \<Longrightarrow> setup_recipient E M r s = (Ok (), s)"
  by (simp add: setup_recipient_def and_then_def lift_def gets_def ret_def)

text \<open>So the caller of a successful request may look the contact up.\<close>

lemma request_contact_has:
  assumes "hex_ok E" "ton_ok E" and "request_contact E M a src s = (Ok True, s')"
  shows "has_contact M a s'"
proof -
  from assms(3) obtain ro s1 where s1: "cmm_store M (get_recipient_by_addr_opt E a) s = (Ok ro, s1)"
    and rest: "(case ro of
         Some recip \<Rightarrow> then_do (setup_recipient E M recip) (ret True)
       | None \<Rightarrow> then_do (if src = SOURCE_SMS then m_tx_send M (ModemMakeContact a)
              else if src = SOURCE_WA then wa_tx_send M (WaMakeContact a) else ret ()) (ret False)) s1
      = (Ok True, s')"
    unfolding request_contact_def by (rule and_then_OkE)
  from rest obtain r where ro: "ro = Some r" and "setup_recipient E M r s1 = (Ok (), s')"
    by (cases ro) (auto simp: ret_def elim!: then_do_OkE)
  from setup_recipient_has [OF this(2)] obtain b where
    b: "get_addr E (r_phone_number r) = Ok b" "has_contact M b s'" by blast
  have "r_phone_number r = normalize_address E a"
    using by_addr_facts [OF conjunct1 [OF store_result [OF s1]]] ro by simp
  with b get_addr_of_normal [OF assms(1,2), of a b] show ?thesis by simp
qed

lemma request_contact_unknown:
  assumes "request_contact E M a src s = (Ok False, s')"
  shows "normalize_address E a \<notin> r_phone_number ` set (recipients (cmm_db M s)) \<and>
    (\<forall>b. has_contact M b s' = has_contact M b s) \<and>
    recipients (cmm_db M s') = recipients (cmm_db M s)"
proof -
  from assms obtain ro s1 where s1: "cmm_store M (get_recipient_by_addr_opt E a) s = (Ok ro, s1)"
    and rest: "(case ro of
         Some recip \<Rightarrow> then_do (setup_recipient E M recip) (ret True)
       | None \<Rightarrow> then_do (if src = SOURCE_SMS then m_tx_send M (ModemMakeContact a)
              else if src = SOURCE_WA then wa_tx_send M (WaMakeContact a) else ret ()) (ret False)) s1
      = (Ok False, s')"
    unfolding request_contact_def by (rule and_then_OkE)
  note db = store_result [OF s1]
  note facts = by_addr_facts [OF conjunct1 [OF db]]
  from rest have ro: "ro = None"
    by (cases ro) (auto simp: ret_def elim!: then_do_OkE)
  have "s' = s1 \<or> (\<exists>m. s' = snd (m_tx_send M m s1)) \<or> (\<exists>w. s' = snd (wa_tx_send M w s1))"
    using rest ro by (auto simp: ret_def elim!: then_do_OkE split: if_splits) (metis snd_conv)+
  then show ?thesis using db facts ro by (auto simp: tx_db tx_has)
qed

lemma delete_recipient_facts:
  "delete_recipient_with_addr E a d = (Ok (), d') \<Longrightarrow>
     recipients d' = filter (\<lambda>r. r_phone_number r \<noteq> normalize_address E a) (recipients d)"
  by (auto simp: delete_recipient_with_addr_def with_conn_def Let_def split: list.splits if_splits)

text \<open>Dropping a contact removes its row.\<close>

lemma drop_contact_row:
  assumes "drop_contact E M a s = (Ok (), s')"
  shows "normalize_address E a \<notin> r_phone_number ` set (recipients (cmm_db M s'))"
proof -
  from assms obtain u s1 where s1: "cmm_store M (delete_recipient_with_addr E a) s = (Ok u, s1)"
    and rm: "remove_contact_for M a s1 = (Ok (), s')"
    unfolding drop_contact_def by (rule then_do_OkE)
  have "normalize_address E a \<notin> r_phone_number ` set (recipients (cmm_db M s1))"
    using delete_recipient_facts [of a "cmm_db M s" "cmm_db M s1"] store_result [OF s1] by auto
  then show ?thesis using remove_db [of a s1] rm by simp
qed

end

text \<open>An implementation whose removal really takes the contact away drops its ghost too.\<close>

locale contact_manager = contact_provider E M
  for E :: "('t, 'j) ext" and M :: "('s, 't, 'j, 'z) cmm_scheme" +
  assumes remove_gone: "remove_contact_for M a s = (Ok (), s') \<Longrightarrow> \<not> has_contact M a s'"
begin

lemma drop_contact_gone:
  assumes "drop_contact E M a s = (Ok (), s')"
  shows "\<not> has_contact M a s' \<and> normalize_address E a \<notin> r_phone_number ` set (recipients (cmm_db M s'))"
proof -
  from assms obtain u s1 where s1: "cmm_store M (delete_recipient_with_addr E a) s = (Ok u, s1)"
    and rm: "remove_contact_for M a s1 = (Ok (), s')"
    unfolding drop_contact_def by (rule then_do_OkE)
  show ?thesis using remove_gone [OF rm] drop_contact_row [OF assms] by simp
qed

end

end
