(* ===== verification/Insp_Link.thy ===== *)
theory Insp_Link
  imports Sender_Common Control_Common Contact_Common Insp_User Wire
begin

text \<open>
  \<open>insp_s2s.rs\<close>: the link to an InspIRCd network as a server of its own. Every recipient is a ghost
  user of that server. The state is the fields of \<open>InspLink\<close>; the queues the component sends into
  (\<open>cf_tx\<close> and \<open>cb_tx\<close> are the other ends of its own \<open>cf_rx\<close> and \<open>cb_rx\<close>) are lists.
\<close>

section \<open>State\<close>

datatype link_state = TcpConnected | ServerSent | BurstSent | Linked

record insp_contact =
  c_uuid :: string
  c_channels :: "string list"
  c_wa_mode :: bool

record ('t, 'j) insp_link =
  cfg :: insp_config
  control_uuid :: string
  next_user_id :: nat
  remote_sid :: string
  cf_rx :: "'t contact_factory_command list"
  cb_rx :: "control_bot_command list"
  wa_tx :: "('t, 'j) whatsapp_command list"
  m_tx :: "'t modem_command list"
  users :: "(string, insp_user) hash_map"
  contacts :: "('t pdu_address, insp_contact) hash_map"
  contacts_uuid_pdua :: "(string, 't pdu_address) hash_map"
  channel_topics :: "(string, string) hash_map"
  store :: db
  outbox :: "irc_msg list"
  channels :: "string set"
  state :: link_state
  conn :: sink
  clock :: int

text \<open>\<open>InspLink::new\<close> once the connection is there.\<close>

definition insp_new ::
  "insp_config \<Rightarrow> 't contact_factory_command list \<Rightarrow> control_bot_command list \<Rightarrow> db \<Rightarrow> sink \<Rightarrow> int
   \<Rightarrow> ('t, 'j) insp_link" where
  "insp_new c cfq cbq d k t =
     \<lparr>cfg = c, control_uuid = sid c @ ''A00000'', next_user_id = 1, remote_sid = ''XXX'',
      cf_rx = cfq, cb_rx = cbq, wa_tx = [], m_tx = [], users = [], contacts = [],
      contacts_uuid_pdua = [], channel_topics = [], store = d, outbox = [], channels = {},
      state = TcpConnected, conn = k, clock = t\<rparr>"

section \<open>Sending\<close>

definition send :: "irc_msg \<Rightarrow> (('t, 'j) insp_link, unit) comp" where
  "send m = modify (\<lambda>l. l\<lparr>outbox := outbox l @ [m]\<rparr>)"

text \<open>\<open>self.outbox.push(Message::new(..)?)\<close>.\<close>

definition push_new ::
  "('t, 'j) ext \<Rightarrow> string \<Rightarrow> string \<Rightarrow> string list \<Rightarrow> string option \<Rightarrow> (('t, 'j) insp_link, unit) comp" where
  "push_new E pre cmd args suffix = and_then (lift (new_message E (Some pre) cmd args suffix)) send"

definition send_sid_line ::
  "('t, 'j) ext \<Rightarrow> string \<Rightarrow> string list \<Rightarrow> string option \<Rightarrow> (('t, 'j) insp_link, unit) comp" where
  "send_sid_line E cmd args suffix =
     and_then (gets (sid \<circ> cfg)) (\<lambda>sd. push_new E sd cmd args suffix)"

definition insp_store :: "(db, 'a) comp \<Rightarrow> (('t, 'j) insp_link, 'a) comp" where
  "insp_store = on_field store (\<lambda>d l. l\<lparr>store := d\<rparr>)"

definition insp_wa_send :: "('t, 'j) whatsapp_command \<Rightarrow> (('t, 'j) insp_link, unit) comp" where
  "insp_wa_send c = modify (\<lambda>l. l\<lparr>wa_tx := wa_tx l @ [c]\<rparr>)"

definition insp_m_send :: "'t modem_command \<Rightarrow> (('t, 'j) insp_link, unit) comp" where
  "insp_m_send c = modify (\<lambda>l. l\<lparr>m_tx := m_tx l @ [c]\<rparr>)"

definition insp_cf_send :: "'t contact_factory_command \<Rightarrow> (('t, 'j) insp_link, unit) comp" where
  "insp_cf_send c = modify (\<lambda>l. l\<lparr>cf_rx := cf_rx l @ [c]\<rparr>)"

definition insp_cb_send :: "control_bot_command \<Rightarrow> (('t, 'j) insp_link, unit) comp" where
  "insp_cb_send c = modify (\<lambda>l. l\<lparr>cb_rx := cb_rx l @ [c]\<rparr>)"

section \<open>Nicks\<close>

definition host_for_wa :: "bool \<Rightarrow> ('t, 'j) insp_link \<Rightarrow> string" where
  "host_for_wa wa l = (if wa then ''wa.'' @ server_name (cfg l) else ''s.'' @ server_name (cfg l))"

definition nick_exists :: "('t, 'j) insp_link \<Rightarrow> string \<Rightarrow> bool" where
  "nick_exists l nick \<longleftrightarrow> list_ex (\<lambda>(_, u). u_nick u = nick) (users l) \<or> nick = admin_nick (cfg l)"

lemma finite_nicks: "finite {n. nick_exists l n}"
proof -
  have "{n. nick_exists l n} \<subseteq> insert (admin_nick (cfg l)) (u_nick ` snd ` set (users l))"
    by (force simp: nick_exists_def list_ex_iff)
  then show ?thesis by (rule finite_subset) simp
qed

lemma finite_taken: "finite {i. k \<le> i \<and> nick_exists l (nick @ show_nat i)}"
proof -
  have "inj (\<lambda>i. nick @ show_nat i)" by (auto intro: injI simp: show_nat_inject)
  then have "finite ((\<lambda>i. nick @ show_nat i) -` {n. nick_exists l n})"
    by (intro finite_vimageI finite_nicks)
  then show ?thesis by (rule rev_finite_subset) auto
qed

text \<open>The loop that looks for a free number; it ends because the network has finitely many users.\<close>

function collision_nick :: "('t, 'j) insp_link \<Rightarrow> string \<Rightarrow> nat \<Rightarrow> string" where
  "collision_nick l nick idx =
     (let newnick = nick @ show_nat idx
      in if nick_exists l newnick then collision_nick l nick (idx + 1) else newnick)"
  by pat_completeness auto

termination
proof (relation "measure (\<lambda>(l, nick, k). card {i. k \<le> i \<and> nick_exists l (nick @ show_nat i)})")
  fix l :: "('t, 'j) insp_link" and nick :: string and idx :: nat and newnick
  assume *: "newnick = nick @ show_nat idx" "nick_exists l newnick"
  let ?T = "\<lambda>k. {i. k \<le> i \<and> nick_exists l (nick @ show_nat i)}"
  have "idx \<in> ?T idx" using * by simp
  moreover have "idx \<notin> ?T (idx + 1)" by simp
  moreover have "?T (idx + 1) \<subseteq> ?T idx" by auto
  ultimately have "?T (idx + 1) \<subset> ?T idx" by blast
  then show "((l, nick, idx + 1), l, nick, idx)
      \<in> measure (\<lambda>(l, nick, k). card {i. k \<le> i \<and> nick_exists l (nick @ show_nat i)})"
    by (simp add: psubset_card_mono finite_taken)
qed simp

declare collision_nick.simps [simp del]

definition check_nick_for_collisions :: "('t, 'j) insp_link \<Rightarrow> string \<Rightarrow> string option" where
  "check_nick_for_collisions l nick =
     (if nick_exists l nick then Some (collision_nick l nick 0) else None)"

text \<open>The first user with the administrator's nick, in the order of the iteration.\<close>

definition admin_uuid :: "('t, 'j) ext \<Rightarrow> ('t, 'j) insp_link \<Rightarrow> string option" where
  "admin_uuid E l =
     map_option fst (find (\<lambda>(_, u). u_nick u = admin_nick (cfg l)) (hm_iter (ord_str E) (users l)))"

section \<open>New users\<close>

definition get_uuid :: "(('t, 'j) insp_link, string) comp" where
  "get_uuid =
     and_then (gets next_user_id) (\<lambda>i.
       if i > 99999 then err (Failure ''UUIDs exhausted'' [])
       else and_then (gets (sid \<circ> cfg)) (\<lambda>sd.
         then_do (modify (\<lambda>l. l\<lparr>next_user_id := i + 1\<rparr>)) (ret (sd @ ''Z'' @ pad5 i))))"

definition make_uid_line :: "('t, 'j) ext \<Rightarrow> string \<Rightarrow> (('t, 'j) insp_link, irc_msg) comp" where
  "make_uid_line E uid =
     and_then (gets id) (\<lambda>l. case hm_get (users l) uid of
         Some u \<Rightarrow> lift (new_message E (Some (sid (cfg l))) ''UID'' (uid_args uid u) (Some (u_gecos u)))
       | None \<Rightarrow> err (Failure ''no user found in make_uid_line()'' []))"

definition put_user :: "string \<Rightarrow> insp_user \<Rightarrow> (('t, 'j) insp_link, unit) comp" where
  "put_user uid u = modify (\<lambda>l. l\<lparr>users := hm_insert uid u (users l)\<rparr>)"

definition new_user :: "('t, 'j) ext \<Rightarrow> insp_user \<Rightarrow> (('t, 'j) insp_link, string) comp" where
  "new_user E user =
     and_then get_uuid (\<lambda>uuid.
     then_do (put_user uuid user)
     (and_then (make_uid_line E uuid) (\<lambda>line.
     then_do (send line) (ret uuid))))"

section \<open>Groups\<close>

definition put_contact :: "'t pdu_address \<Rightarrow> insp_contact \<Rightarrow> (('t, 'j) insp_link, unit) comp" where
  "put_contact a ct = modify (\<lambda>l. l\<lparr>contacts := hm_insert a ct (contacts l)\<rparr>)"

definition join_groups :: "('t, 'j) ext \<Rightarrow> string \<Rightarrow> group list \<Rightarrow> (('t, 'j) insp_link, unit) comp" where
  "join_groups E uuid grps =
     for_each grps (\<lambda>grp.
       then_do (push_new E uuid ''JOIN'' [g_channel grp] None)
         (modify (\<lambda>l. l\<lparr>channels := insert (g_channel grp) (channels l)\<rparr>)))"

definition part_left :: "('t, 'j) ext \<Rightarrow> string \<Rightarrow> string list \<Rightarrow> string list \<Rightarrow> (('t, 'j) insp_link, unit) comp" where
  "part_left E uuid chans old =
     for_each old (\<lambda>ch.
       if ch \<in> set chans then ret () else push_new E uuid ''PART'' [ch] (Some ''Left group''))"

text \<open>The channels of the groups, and the log channel once.\<close>

definition with_log :: "string list \<Rightarrow> string \<Rightarrow> string list" where
  "with_log chs lc = (if lc \<in> set chs then chs else chs @ [lc])"

definition process_groups_for_recipient ::
  "('t, 'j) ext \<Rightarrow> 't pdu_address \<Rightarrow> (('t, 'j) insp_link, unit) comp" where
  "process_groups_for_recipient E a =
     and_then (gets (\<lambda>l. hm_get (contacts l) a)) (\<lambda>co. case co of
         None \<Rightarrow> panic
       | Some ct \<Rightarrow>
           and_then (insp_store (get_groups_for_recipient E a)) (\<lambda>grps.
           then_do (join_groups E (c_uuid ct) grps)
           (and_then (gets (log_chan \<circ> cfg)) (\<lambda>lc.
           then_do (if lc \<in> set (map g_channel grps) then ret ()
                    else push_new E (c_uuid ct) ''JOIN'' [lc] None)
           (then_do (put_contact a (ct\<lparr>c_channels := with_log (map g_channel grps) lc\<rparr>))
             (part_left E (c_uuid ct) (with_log (map g_channel grps) lc) (c_channels ct)))))))"

definition participant_mode ::
  "('t, 'j) ext \<Rightarrow> group \<Rightarrow> int \<Rightarrow> (('t, 'j) insp_link, unit) comp" where
  "participant_mode E grp part =
     and_then (insp_store (get_recipient_by_id_opt part)) (\<lambda>ro. case ro of
         None \<Rightarrow> ret ()
       | Some recip \<Rightarrow>
           and_then (lift (get_addr E (r_phone_number recip))) (\<lambda>num.
           and_then (gets (\<lambda>l. hm_get (contacts l) num)) (\<lambda>co. case co of
               None \<Rightarrow> ret ()
             | Some ct \<Rightarrow>
                 send_sid_line E ''MODE''
                   [g_channel grp, if part \<in> set (g_admins grp) then ''+o'' else ''-o'', c_uuid ct]
                   None)))"

definition put_topic :: "string \<Rightarrow> string \<Rightarrow> (('t, 'j) insp_link, unit) comp" where
  "put_topic ch tp = modify (\<lambda>l. l\<lparr>channel_topics := hm_insert ch tp (channel_topics l)\<rparr>)"

definition group_topic :: "('t, 'j) ext \<Rightarrow> group \<Rightarrow> (('t, 'j) insp_link, unit) comp" where
  "group_topic E grp =
     and_then (gets id) (\<lambda>l.
       if \<not> set_topics (cfg l) then ret ()
       else
         (let known = hm_get (channel_topics l) (g_channel grp);
              topic = (case known of None \<Rightarrow> [] | Some tp \<Rightarrow> tp)
          in then_do (if known = None then put_topic (g_channel grp) [] else ret ())
               (if topic = [] \<or> clobber_topics (cfg l) \<and> topic \<noteq> g_topic grp
                then then_do (send_sid_line E ''TOPIC'' [g_channel grp] (Some (g_topic grp)))
                       (put_topic (g_channel grp) (g_topic grp))
                else ret ())))"

definition insp_process_groups :: "('t, 'j) ext \<Rightarrow> (('t, 'j) insp_link, unit) comp" where
  "insp_process_groups E =
     then_do (modify (\<lambda>l. l\<lparr>channels := {}\<rparr>))
     (and_then (gets (\<lambda>l. map fst (hm_iter (ord_addr E) (contacts l)))) (\<lambda>addrs.
     then_do (for_each addrs (process_groups_for_recipient E))
     (and_then (insp_store get_all_groups) (\<lambda>grps.
        for_each grps (\<lambda>grp.
          then_do (for_each (g_participants grp) (participant_mode E grp)) (group_topic E grp))))))"

section \<open>\<open>ContactManagerManager\<close> for the link\<close>

definition insp_has_contact :: "'t pdu_address \<Rightarrow> ('t, 'j) insp_link \<Rightarrow> bool" where
  "insp_has_contact a l \<longleftrightarrow> hm_get (contacts l) a \<noteq> None"

definition choose_nick ::
  "('t, 'j) ext \<Rightarrow> 't pdu_address \<Rightarrow> string \<Rightarrow> (('t, 'j) insp_link, string) comp" where
  "choose_nick E addr nick =
     and_then (gets (\<lambda>l. check_nick_for_collisions l nick)) (\<lambda>clash. case clash of
         Some n \<Rightarrow> then_do (insp_store (update_recipient_nick E addr n NICKSRC_COLLISION)) (ret n)
       | None \<Rightarrow> ret nick)"

definition register_ghost ::
  "('t, 'j) ext \<Rightarrow> 't pdu_address \<Rightarrow> bool \<Rightarrow> string \<Rightarrow> (('t, 'j) insp_link, unit) comp" where
  "register_ghost E addr wa uuid =
     then_do (put_contact addr \<lparr>c_uuid = uuid, c_channels = [], c_wa_mode = wa\<rparr>)
     (then_do (modify (\<lambda>l. l\<lparr>contacts_uuid_pdua := hm_insert uuid addr (contacts_uuid_pdua l)\<rparr>))
     (and_then (gets state) (\<lambda>st.
        if st = Linked then process_groups_for_recipient E addr else ret ())))"

definition insp_setup_contact_for ::
  "('t, 'j) ext \<Rightarrow> recipient \<Rightarrow> 't pdu_address \<Rightarrow> (('t, 'j) insp_link, unit) comp" where
  "insp_setup_contact_for E recip addr =
     and_then (gets (host_for_wa (r_whatsapp recip))) (\<lambda>host.
     and_then (choose_nick E addr (r_nick recip)) (\<lambda>nick.
     and_then (gets clock) (\<lambda>t.
     and_then (new_user E (new_from_recipient E t addr nick host)) (\<lambda>uuid.
       register_ghost E addr (r_whatsapp recip) uuid))))"

definition insp_base :: "('t, 'j) ext \<Rightarrow> (('t, 'j) insp_link, 't, 'j) cmm_base" where
  "insp_base E =
     \<lparr>wa_tx_send = insp_wa_send, m_tx_send = insp_m_send, cb_tx_send = insp_cb_send,
      cmm_db = store, cmm_db_put = (\<lambda>d l. l\<lparr>store := d\<rparr>), has_contact = insp_has_contact,
      setup_contact_for = insp_setup_contact_for E\<rparr>"

definition remove_user :: "('t, 'j) ext \<Rightarrow> string \<Rightarrow> bool \<Rightarrow> (('t, 'j) insp_link, unit) comp" where
  "remove_user E uuid recreate =
     and_then (gets (\<lambda>l. hm_get (contacts_uuid_pdua l) uuid)) (\<lambda>addr.
     then_do (case addr of
           Some a \<Rightarrow> modify (\<lambda>l. l\<lparr>contacts := hm_remove a (contacts l)\<rparr>)
         | None \<Rightarrow> ret ())
     (then_do (modify (\<lambda>l. l\<lparr>contacts_uuid_pdua := hm_remove uuid (contacts_uuid_pdua l)\<rparr>))
     (then_do (modify (\<lambda>l. l\<lparr>users := hm_remove uuid (users l)\<rparr>))
       (case addr of
          Some a \<Rightarrow> if recreate then setup_contact E (insp_base E) a else ret ()
        | None \<Rightarrow> ret ()))))"

definition insp_remove_contact_for ::
  "('t, 'j) ext \<Rightarrow> 't pdu_address \<Rightarrow> (('t, 'j) insp_link, unit) comp" where
  "insp_remove_contact_for E addr =
     and_then (gets (\<lambda>l. hm_get (contacts l) addr)) (\<lambda>co.
     then_do (case co of
           Some ct \<Rightarrow> then_do (push_new E (c_uuid ct) ''QUIT'' [] (Some ''Contact removed''))
                       (remove_user E (c_uuid ct) False)
         | None \<Rightarrow> ret ())
     (modify (\<lambda>l. l\<lparr>contacts := hm_remove addr (contacts l),
        contacts_uuid_pdua := filter (\<lambda>(_, v). v \<noteq> addr) (contacts_uuid_pdua l)\<rparr>)))"

text \<open>The first ghost of that nick, in the order of the iteration.\<close>

definition insp_resolve_nick :: "('t, 'j) ext \<Rightarrow> string \<Rightarrow> ('t, 'j) insp_link \<Rightarrow> 't pdu_address option" where
  "insp_resolve_nick E nick l =
     (case List.map_filter (\<lambda>(uuid, u).
             if u_nick u = nick then hm_get (contacts_uuid_pdua l) uuid else None)
           (hm_iter (ord_str E) (users l)) of
        [] \<Rightarrow> None | a # _ \<Rightarrow> Some a)"

definition set_wa_state :: "('t, 'j) ext \<Rightarrow> 't pdu_address \<Rightarrow> bool \<Rightarrow> (('t, 'j) insp_link, unit) comp" where
  "set_wa_state E addr wa =
     and_then (gets (\<lambda>l. hm_get (contacts l) addr)) (\<lambda>co. case co of
         None \<Rightarrow> panic
       | Some ct \<Rightarrow>
           then_do (put_contact addr (ct\<lparr>c_wa_mode := wa\<rparr>))
           (then_do (insp_store (update_recipient_wa E addr wa))
           (and_then (gets (host_for_wa wa)) (\<lambda>host.
           then_do (push_new E (c_uuid ct) ''FHOST'' [host] None)
             (modify (\<lambda>l. case hm_get (users l) (c_uuid ct) of
                 Some u \<Rightarrow> l\<lparr>users := hm_insert (c_uuid ct) (u\<lparr>u_displayed_hostname := host\<rparr>) (users l)\<rparr>
               | None \<Rightarrow> l))))))"

definition insp_change_nick ::
  "('t, 'j) ext \<Rightarrow> 't pdu_address \<Rightarrow> insp_contact \<Rightarrow> string \<Rightarrow> int \<Rightarrow> (('t, 'j) insp_link, unit) comp" where
  "insp_change_nick E a ct st osrc =
     and_then (gets (\<lambda>l. hm_get (users l) (c_uuid ct))) (\<lambda>uo. case uo of
         None \<Rightarrow> panic
       | Some u \<Rightarrow>
           if u_nick u = st then ret ()
           else
             and_then (gets (\<lambda>l. check_nick_for_collisions l st)) (\<lambda>clash.
               let (nick, src) = (case clash of Some n \<Rightarrow> (n, NICKSRC_COLLISION) | None \<Rightarrow> (st, osrc))
               in then_do (put_user (c_uuid ct) (u\<lparr>u_nick := nick\<rparr>))
                  (and_then (gets clock) (\<lambda>t.
                  then_do (push_new E (c_uuid ct) ''NICK'' [nick, show_int (timestamp t)] None)
                    (insp_store (update_recipient_nick E a nick src))))))"

definition insp_forward_cmd ::
  "('t, 'j) ext \<Rightarrow> 't pdu_address \<Rightarrow> contact_manager_command \<Rightarrow> (('t, 'j) insp_link, unit) comp" where
  "insp_forward_cmd E a cmd =
     and_then (gets (\<lambda>l. hm_get (contacts l) a)) (\<lambda>co. case co of
         None \<Rightarrow> ret ()
       | Some ct \<Rightarrow>
           (case cmd of
              UpdateAway txt' \<Rightarrow> push_new E (c_uuid ct) ''AWAY'' [] txt'
            | ChangeNick st osrc \<Rightarrow> insp_change_nick E a ct st osrc
            | SetWhatsapp wam \<Rightarrow>
                then_do (put_contact a (ct\<lparr>c_wa_mode := wam\<rparr>)) (set_wa_state E a wam)
            | CmProcessMessages \<Rightarrow> ret ()
            | CmProcessGroups \<Rightarrow> ret ()))"

definition insp_cmm :: "('t, 'j) ext \<Rightarrow> (('t, 'j) insp_link, 't, 'j) cmm" where
  "insp_cmm E =
     \<lparr>wa_tx_send = insp_wa_send, m_tx_send = insp_m_send, cb_tx_send = insp_cb_send,
      cmm_db = store, cmm_db_put = (\<lambda>d l. l\<lparr>store := d\<rparr>), has_contact = insp_has_contact,
      setup_contact_for = insp_setup_contact_for E,
      remove_contact_for = insp_remove_contact_for E, forward_cmd = insp_forward_cmd E,
      resolve_nick = insp_resolve_nick E\<rparr>"

section \<open>\<open>ControlCommon\<close> for the link\<close>

definition insp_control_response :: "('t, 'j) ext \<Rightarrow> string \<Rightarrow> (('t, 'j) insp_link, unit) comp" where
  "insp_control_response E msg =
     and_then (gets (admin_uuid E)) (\<lambda>au. case au of
         Some admu \<Rightarrow>
           and_then (gets control_uuid) (\<lambda>cu. push_new E cu ''NOTICE'' [admu] (Some msg))
       | None \<Rightarrow> ret ())"

text \<open>
  \<open>format!("{:#?}", ..)\<close> and \<open>format!("{:?}", ..)\<close> of the optional values that are printed, in the
  layout of the derived \<open>Debug\<close> instances.
\<close>

definition debug_bool :: "bool \<Rightarrow> string" where
  "debug_bool b = (if b then ''true'' else ''false'')"

definition debug_user_lines :: "('t, 'j) ext \<Rightarrow> insp_user option \<Rightarrow> string list" where
  "debug_user_lines E uo = (case uo of
      None \<Rightarrow> [''None'']
    | Some u \<Rightarrow>
        [''Some('', ''    InspUser {'',
         ''        ts: '' @ show_int (u_ts u) @ '','',
         ''        nick: '' @ debug_str E (u_nick u) @ '','',
         ''        hostname: '' @ debug_str E (u_hostname u) @ '','',
         ''        displayed_hostname: '' @ debug_str E (u_displayed_hostname u) @ '','',
         ''        ident: '' @ debug_str E (u_ident u) @ '','',
         ''        ip: '' @ debug_str E (u_ip u) @ '','',
         ''        signon_time: '' @ show_int (u_signon_time u) @ '','',
         ''        modes: '' @ debug_str E (u_modes u) @ '','',
         ''        gecos: '' @ debug_str E (u_gecos u) @ '','',
         ''        ours: '' @ debug_bool (u_ours u) @ '','',
         ''    },'', '')''])"

definition debug_opt_str :: "('t, 'j) ext \<Rightarrow> string option \<Rightarrow> string" where
  "debug_opt_str E so = (case so of None \<Rightarrow> ''None'' | Some s \<Rightarrow> ''Some('' @ debug_str E s @ '')'')"

text \<open>The last user of that nick, in the order of the iteration.\<close>

definition query_nick_uuid :: "('t, 'j) ext \<Rightarrow> string \<Rightarrow> ('t, 'j) insp_link \<Rightarrow> string option" where
  "query_nick_uuid E qnu l =
     fold (\<lambda>(uuid, u) nick. if u_nick u = qnu then Some uuid else nick)
       (hm_iter (ord_str E) (users l)) None"

definition insp_process_insp :: "('t, 'j) ext \<Rightarrow> insp_command \<Rightarrow> (('t, 'j) insp_link, bool) comp" where
  "insp_process_insp E ic = (case ic of
      InspRaw msg \<Rightarrow>
        (case irc_parse E msg of
           Inr m \<Rightarrow> then_do (send m) (ret True)
         | Inl e \<Rightarrow> then_do (insp_control_response E (''parse err: '' @ e)) (ret True))
    | QueryUuid uu \<Rightarrow>
        and_then (gets (\<lambda>l. hm_get (users l) uu)) (\<lambda>uo.
          then_do (for_each (debug_user_lines E uo) (insp_control_response E)) (ret True))
    | QueryNickUuid qnu \<Rightarrow>
        and_then (gets (query_nick_uuid E qnu)) (\<lambda>nick.
          then_do (insp_control_response E (''result = '' @ debug_opt_str E nick)) (ret True)))"

definition insp_control :: "('t, 'j) ext \<Rightarrow> (('t, 'j) insp_link, 't, 'j) control_ops" where
  "insp_control E =
     \<lparr>wa_send = insp_wa_send, cf_send = insp_cf_send, m_send = insp_m_send,
      process_insp = insp_process_insp E, control_response = insp_control_response E\<rparr>"

section \<open>\<open>Sender\<close> for the link\<close>

definition contact_message ::
  "('t, 'j) ext \<Rightarrow> string \<Rightarrow> string \<Rightarrow> string \<Rightarrow> string \<Rightarrow> (('t, 'j) insp_link, unit) comp" where
  "contact_message E uid kind dest msg =
     and_then (gets id) (\<lambda>l.
       if hm_get (users l) uid = None
       then err (Failure ''contact_message called with unknown uid {}'' [uid])
       else if \<not> starts_with uid (sid (cfg l))
       then err (Failure ''Got contact_message for uid {} that isn't owned by us'' [uid])
       else push_new E uid kind [dest] (Some msg))"

definition insp_ensure_joined :: "('t, 'j) ext \<Rightarrow> string \<Rightarrow> (('t, 'j) insp_link, unit) comp" where
  "insp_ensure_joined E ch =
     and_then (gets id) (\<lambda>l.
       if \<not> cfg_ensure_joined (cfg l) then ret ()
       else (case admin_uuid E l of
           Some admu \<Rightarrow> send_sid_line E ''SVSJOIN'' [admu, ch] None
         | None \<Rightarrow> ret ()))"

definition insp_private_target :: "('t, 'j) ext \<Rightarrow> ('t, 'j) insp_link \<Rightarrow> string" where
  "insp_private_target E l = (case admin_uuid E l of Some u \<Rightarrow> u | None \<Rightarrow> log_chan (cfg l))"

definition insp_sender :: "('t, 'j) ext \<Rightarrow> ('t, 'j) insp_link sender_ops" where
  "insp_sender E =
     \<lparr>report_error = (\<lambda>uid e. and_then (gets (admin_nick \<circ> cfg)) (\<lambda>an. contact_message E uid ''NOTICE'' an e)),
      sender_db = store, sender_db_put = (\<lambda>d l. l\<lparr>store := d\<rparr>),
      private_target = gets (insp_private_target E),
      send_irc_message = (\<lambda>uid. contact_message E uid ''PRIVMSG''),
      ensure_joined = insp_ensure_joined E, sender_now = clock\<rparr>"

section \<open>Messages\<close>

text \<open>A message of the other transport switches the ghost over.\<close>

definition switch_mode ::
  "('t, 'j) ext \<Rightarrow> string \<Rightarrow> 't pdu_address \<Rightarrow> insp_contact \<Rightarrow> bool \<Rightarrow> string \<Rightarrow> (('t, 'j) insp_link, unit) comp" where
  "switch_mode E auid addr ct wa notice =
     (if c_wa_mode ct \<noteq> wa
      then then_do (set_wa_state E addr wa) (contact_message E (c_uuid ct) ''NOTICE'' auid notice)
      else ret ())"

definition deliver_message ::
  "('t, 'j) ext \<Rightarrow> string \<Rightarrow> message \<Rightarrow> 't pdu_address \<Rightarrow> insp_contact \<Rightarrow> (('t, 'j) insp_link, unit) comp" where
  "deliver_message E auid msg addr ct = (case m_pdu msg of
      Some raw \<Rightarrow>
        (case deliver_try_from E raw of
           None \<Rightarrow> err PduError
         | Some p \<Rightarrow>
             then_do (switch_mode E auid addr ct False ''Notice: SMS mode automatically enabled.'')
               (process_msg_pdu E (insp_sender E) (c_uuid ct) msg p))
    | None \<Rightarrow>
        then_do (switch_mode E auid addr ct True ''Notice: WhatsApp mode automatically enabled.'')
          (process_msg_plain E (insp_sender E) (c_uuid ct) msg))"

definition process_message :: "('t, 'j) ext \<Rightarrow> string \<Rightarrow> message \<Rightarrow> (('t, 'j) insp_link, unit) comp" where
  "process_message E auid msg =
     and_then (lift (get_addr E (m_phone_number msg))) (\<lambda>addr.
     and_then (gets (insp_has_contact addr)) (\<lambda>has.
     and_then (if has then ret True else request_contact E (insp_base E) addr (m_source msg)) (\<lambda>go.
       if \<not> go then ret ()
       else and_then (gets (\<lambda>l. hm_get (contacts l) addr)) (\<lambda>co. case co of
           None \<Rightarrow> panic
         | Some ct \<Rightarrow> deliver_message E auid msg addr ct))))"

definition insp_process_messages :: "('t, 'j) ext \<Rightarrow> (('t, 'j) insp_link, unit) comp" where
  "insp_process_messages E =
     and_then (gets (admin_uuid E)) (\<lambda>au. case au of
         None \<Rightarrow> ret ()
       | Some auid \<Rightarrow>
           and_then (insp_store get_all_messages) (\<lambda>msgs. for_each msgs (process_message E auid)))"

section \<open>The server protocol\<close>

definition INSP_PROTOCOL_CAPAB :: string where
  "INSP_PROTOCOL_CAPAB = ''PROTOCOL=1202''"

definition INSP_PROTOCOL_VERSION :: string where
  "INSP_PROTOCOL_VERSION = ''1202''"

definition capabs :: "string list" where
  "capabs = [INSP_PROTOCOL_CAPAB, ''NICKMAX=100'', ''CHANMAX=100'', ''MAXMODES=100'', ''IDENTMAX=100'',
     ''MAXQUIT=100'', ''MAXTOPIC=100'', ''MAXKICK=100'', ''MAXGECOS=100'', ''MAXAWAY=100'']"

definition do_capab_and_server :: "('t, 'j) ext \<Rightarrow> (('t, 'j) insp_link, unit) comp" where
  "do_capab_and_server E =
     then_do (send_sid_line E ''CAPAB'' [''START'', INSP_PROTOCOL_VERSION] None)
     (then_do (for_each capabs (\<lambda>capab. send_sid_line E ''CAPAB'' [''CAPABILITIES''] (Some capab)))
     (then_do (send_sid_line E ''CAPAB'' [''END''] None)
       (and_then (gets cfg) (\<lambda>c.
          push_new E (sid c) ''SERVER'' [server_name c, sendpass c, ''0'', sid c] (Some (server_desc c))))))"

definition do_burst :: "('t, 'j) ext \<Rightarrow> (('t, 'j) insp_link, unit) comp" where
  "do_burst E =
     and_then (gets clock) (\<lambda>t.
     then_do (send_sid_line E ''BURST'' [show_int (timestamp t)] None)
     (and_then (gets id) (\<lambda>l.
     then_do (put_user (control_uuid l) (new_for_controlbot t (control_nick (cfg l)) (server_name (cfg l))))
     (and_then (make_uid_line E (control_uuid l)) (\<lambda>line.
     then_do (send line) (send_sid_line E ''ENDBURST'' [] None))))))"

definition do_quasiburst :: "('t, 'j) ext \<Rightarrow> (('t, 'j) insp_link, unit) comp" where
  "do_quasiburst E =
     and_then (insp_store get_all_recipients) (\<lambda>rs. for_each rs (setup_recipient E (insp_base E)))"

definition on_linked :: "('t, 'j) ext \<Rightarrow> (('t, 'j) insp_link, unit) comp" where
  "on_linked E =
     and_then (gets id) (\<lambda>l.
     then_do (push_new E (control_uuid l) ''JOIN'' [log_chan (cfg l)] None)
     (then_do (insp_process_groups E) (insp_process_messages E)))"

text \<open>
  \<open>SERVER\<close>. The \<open>suffix.unwrap()\<close> is an argument of the logging macro and is evaluated at the level
  \<open>info\<close>, the default of the configuration.
\<close>

definition handle_server ::
  "('t, 'j) ext \<Rightarrow> string list \<Rightarrow> string option \<Rightarrow> (('t, 'j) insp_link, unit) comp" where
  "handle_server E args suffix =
     and_then (gets (recvpass \<circ> cfg)) (\<lambda>pw.
       if length args \<noteq> 4 then err (Failure ''Received invalid 1-to-1 SERVER: {:?}'' args)
       else if args ! 1 \<noteq> pw then err (Failure ''Invalid password from remote server'' [])
       else if args ! 2 \<noteq> ''0'' then err (Failure ''Received 1-to-1 SERVER with hopcount != 0: {:?}'' args)
       else if suffix = None then panic
       else then_do (modify (\<lambda>l. l\<lparr>remote_sid := args ! 3\<rparr>))
         (then_do (do_burst E) (modify (\<lambda>l. l\<lparr>state := BurstSent\<rparr>))))"

definition handle_unprefixed :: "('t, 'j) ext \<Rightarrow> irc_command \<Rightarrow> (('t, 'j) insp_link, unit) comp" where
  "handle_unprefixed E c = (case c of
      ERROR details \<Rightarrow> err (Failure ''Error from server: {}'' [details])
    | Raw cmd args suffix \<Rightarrow> if cmd = ''SERVER'' then handle_server E args suffix else ret ()
    | _ \<Rightarrow> ret ())"

definition handle_privmsg ::
  "('t, 'j) ext \<Rightarrow> string \<Rightarrow> string \<Rightarrow> string \<Rightarrow> (('t, 'j) insp_link, unit) comp" where
  "handle_privmsg E pre tgt msg =
     and_then (gets id) (\<lambda>l.
       if Some pre \<noteq> admin_uuid E l then ret ()
       else if tgt = control_uuid l then process_admin_command E (insp_control E) msg
       else if tgt \<in> channels l then insp_wa_send (SendGroupMessage tgt msg)
       else (case hm_get (contacts_uuid_pdua l) tgt of
           None \<Rightarrow> ret ()
         | Some addr \<Rightarrow>
             (case hm_get (contacts l) addr of
                None \<Rightarrow> ret ()
              | Some ct \<Rightarrow>
                  if c_wa_mode ct then insp_wa_send (SendDirectMessage addr msg)
                  else insp_m_send (SendMessage addr msg))))"

definition handle_raw ::
  "('t, 'j) ext \<Rightarrow> string \<Rightarrow> string \<Rightarrow> string list \<Rightarrow> string option \<Rightarrow> (('t, 'j) insp_link, unit) comp" where
  "handle_raw E pre cmd args suffix =
     (if cmd = ''UID'' then
        and_then (lift (new_from_uid_line args suffix)) (\<lambda>(uuid, user).
        and_then (gets (admin_nick \<circ> cfg)) (\<lambda>an.
        then_do (put_user uuid user)
          (if u_nick user = an then insp_process_messages E else ret ())))
      else if cmd = ''NICK'' then
        (case args of
           [] \<Rightarrow> ret ()
         | n # _ \<Rightarrow> modify (\<lambda>l. case hm_get (users l) pre of
               Some u \<Rightarrow> l\<lparr>users := hm_insert pre (u\<lparr>u_nick := n\<rparr>) (users l)\<rparr>
             | None \<Rightarrow> l))
      else if cmd = ''FTOPIC'' then
        (case suffix of
           None \<Rightarrow> ret ()
         | Some topic \<Rightarrow> if length args < 3 then ret () else put_topic (args ! 0) topic)
      else if cmd = ''FHOST'' then
        (case args of
           [] \<Rightarrow> ret ()
         | h # _ \<Rightarrow> modify (\<lambda>l. case hm_get (users l) pre of
               Some u \<Rightarrow> l\<lparr>users := hm_insert pre (u\<lparr>u_displayed_hostname := h\<rparr>) (users l)\<rparr>
             | None \<Rightarrow> l))
      else if cmd = ''ENDBURST'' then
        and_then (gets remote_sid) (\<lambda>rs.
          if rs = pre
          then then_do (do_quasiburst E)
            (then_do (modify (\<lambda>l. l\<lparr>state := Linked\<rparr>)) (on_linked E))
          else ret ())
      else ret ())"

definition handle_remote_message :: "('t, 'j) ext \<Rightarrow> in_msg \<Rightarrow> (('t, 'j) insp_link, unit) comp" where
  "handle_remote_message E m = (case prefix m of
      None \<Rightarrow> handle_unprefixed E (command m)
    | Some pre \<Rightarrow> (case command m of
          PRIVMSG tgt msg \<Rightarrow> handle_privmsg E pre tgt msg
        | ERROR details \<Rightarrow> err (Failure ''Error from server: {}'' [details])
        | KILL uuid reason \<Rightarrow> remove_user E uuid True
        | QUIT reason \<Rightarrow> remove_user E pre True
        | PING dest_data None \<Rightarrow> send_sid_line E ''PONG'' [dest_data] None
        | PING src (Some dest) \<Rightarrow> send_sid_line E ''PONG'' [dest, src] None
        | SQUIT server reason \<Rightarrow>
            modify (\<lambda>l. l\<lparr>users := filter (\<lambda>(k, _). \<not> starts_with k server) (users l)\<rparr>)
        | Raw cmd args suffix \<Rightarrow> handle_raw E pre cmd args suffix
        | _ \<Rightarrow> ret ()))"

section \<open>Commands of the other components\<close>

definition handle_cf_command ::
  "('t, 'j) ext \<Rightarrow> 't contact_factory_command \<Rightarrow> (('t, 'j) insp_link, unit) comp" where
  "handle_cf_command E cfc = (case cfc of
      ProcessMessages \<Rightarrow> insp_process_messages E
    | ProcessGroups \<Rightarrow> insp_process_groups E
    | SetupContact a \<Rightarrow> setup_contact E (insp_base E) a
    | QueryContact a src \<Rightarrow> query_contact E (insp_base E) a src
    | DropContact a \<Rightarrow> drop_contact E (insp_cmm E) a
    | DropContactByNick n \<Rightarrow> drop_contact_by_nick E (insp_cmm E) n
    | LoadRecipients \<Rightarrow> ret ()
    | ForwardCommand a cmd \<Rightarrow> insp_forward_cmd E a cmd
    | ForwardCommandByNick n cmd \<Rightarrow> forward_cmd_by_nick (insp_cmm E) n cmd
    | SubscribePresenceByNick n \<Rightarrow> subscribe_presence_by_nick (insp_cmm E) n
    | ProcessAvatars \<Rightarrow> ret ())"

definition handle_cb_command :: "('t, 'j) ext \<Rightarrow> control_bot_command \<Rightarrow> (('t, 'j) insp_link, unit) comp" where
  "handle_cb_command E cbc = (case cbc of
      Log line \<Rightarrow>
        and_then (gets cfg) (\<lambda>c. push_new E (sid c) ''NOTICE'' [log_chan c] (Some line))
    | ReportFailure fl \<Rightarrow>
        and_then (gets id) (\<lambda>l. case admin_uuid E l of
            Some admu \<Rightarrow> push_new E (sid (cfg l)) ''PRIVMSG'' [admu]
              (Some (admin_nick (cfg l) @ '': '' @ bold @ colour @ ''04'' @ fl @ plain))
          | None \<Rightarrow> ret ())
    | CommandResponse resp \<Rightarrow> insp_control_response E resp
    | CbProcessGroups \<Rightarrow> insp_process_groups E)"

text \<open>
  The loops over the two receivers. The handlers do not send to the queue they are called from, so
  its length at the start of the loop is enough fuel (\<open>drain_cb_empties\<close>, \<open>drain_cf_empties\<close>).
\<close>

fun drain_cb :: "('t, 'j) ext \<Rightarrow> nat \<Rightarrow> (('t, 'j) insp_link, unit) comp" where
  "drain_cb E 0 = ret ()"
| "drain_cb E (Suc n) =
     and_then (gets cb_rx) (\<lambda>q. case q of
         [] \<Rightarrow> ret ()
       | c # cs \<Rightarrow> then_do (modify (\<lambda>l. l\<lparr>cb_rx := cs\<rparr>))
           (then_do (handle_cb_command E c) (drain_cb E n)))"

fun drain_cf :: "('t, 'j) ext \<Rightarrow> nat \<Rightarrow> (('t, 'j) insp_link, unit) comp" where
  "drain_cf E 0 = ret ()"
| "drain_cf E (Suc n) =
     and_then (gets cf_rx) (\<lambda>q. case q of
         [] \<Rightarrow> ret ()
       | c # cs \<Rightarrow> then_do (modify (\<lambda>l. l\<lparr>cf_rx := cs\<rparr>))
           (then_do (handle_cf_command E c) (drain_cf E n)))"

definition handle_event :: "('t, 'j) ext \<Rightarrow> conn_event \<Rightarrow> (('t, 'j) insp_link, unit) comp" where
  "handle_event E ev = (case ev of
      Received m \<Rightarrow> handle_remote_message E m
    | ConnClosed \<Rightarrow> err (Failure ''disconnected'' [])
    | ConnFailed \<Rightarrow> err IoError)"

text \<open>One call of \<open>poll\<close>; \<open>evs\<close> is what the connection yields before it is not ready.\<close>

definition insp_poll :: "('t, 'j) ext \<Rightarrow> conn_event list \<Rightarrow> (('t, 'j) insp_link, unit) comp" where
  "insp_poll E evs =
     and_then (gets state) (\<lambda>st0.
     then_do (if st0 = TcpConnected
        then then_do (do_capab_and_server E) (modify (\<lambda>l. l\<lparr>state := ServerSent\<rparr>)) else ret ())
     (then_do (for_each evs (handle_event E))
     (and_then (gets state) (\<lambda>st1.
     then_do (if st1 = Linked
        then then_do (and_then (gets (length \<circ> cb_rx)) (drain_cb E))
               (and_then (gets (length \<circ> cf_rx)) (drain_cf E))
        else ret ())
       (on_field (\<lambda>l. (outbox l, conn l)) (\<lambda>(ob, k) l. l\<lparr>outbox := ob, conn := k\<rparr>) sink_outbox)))))"

section \<open>Rules for the primitive steps\<close>

lemma safe_send: "(\<And>l ob. P l \<Longrightarrow> P (l\<lparr>outbox := ob\<rparr>)) \<Longrightarrow> safe P (send m)"
  by (simp add: send_def safe_modify)

lemma new_message_no_panic [simp]: "new_message E pre c a sf \<noteq> Panic"
  by (simp add: new_message_def Let_def)

lemma safe_push_new: "(\<And>l ob. P l \<Longrightarrow> P (l\<lparr>outbox := ob\<rparr>)) \<Longrightarrow> safe P (push_new E pre c a sf)"
  unfolding push_new_def by (intro safe safe_lift safe_send) auto

lemma safe_send_sid_line: "(\<And>l ob. P l \<Longrightarrow> P (l\<lparr>outbox := ob\<rparr>)) \<Longrightarrow> safe P (send_sid_line E c a sf)"
  unfolding send_sid_line_def by (intro safe safe_push_new) auto

text \<open>A store operation, for a predicate that does not look at the store.\<close>

lemma safe_insp_store:
  "safe (\<lambda>_. True) m \<Longrightarrow> (\<And>l d. P l \<Longrightarrow> P (l\<lparr>store := d\<rparr>)) \<Longrightarrow> safe P (insp_store m)"
  unfolding insp_store_def by (rule safe_on_field) auto

lemma safe_control_response:
  "(\<And>l ob. P l \<Longrightarrow> P (l\<lparr>outbox := ob\<rparr>)) \<Longrightarrow> safe P (insp_control_response E t)"
  unfolding insp_control_response_def by (intro safe safe_push_new) auto

lemma safe_process_insp:
  "(\<And>l ob. P l \<Longrightarrow> P (l\<lparr>outbox := ob\<rparr>)) \<Longrightarrow> safe P (insp_process_insp E ic)"
  unfolding insp_process_insp_def
  by (cases ic) (auto intro!: safe safe_send safe_control_response)

lemma safe_contact_message:
  assumes "\<And>l ob. P l \<Longrightarrow> P (l\<lparr>outbox := ob\<rparr>)"
  shows "safe P (contact_message E u k dst msg)"
  unfolding contact_message_def by (intro safe safe_push_new assms)

lemma safe_ensure_joined:
  assumes "\<And>l ob. P l \<Longrightarrow> P (l\<lparr>outbox := ob\<rparr>)"
  shows "safe P (insp_ensure_joined E ch)"
  unfolding insp_ensure_joined_def by (intro safe safe_send_sid_line assms)

section \<open>The link implements \<open>ControlCommon\<close>\<close>

interpretation ictl: control "insp_control E" cf_rx wa_tx m_tx for E :: "('t, 'j) ext"
proof
  fix c t ic w m and s :: "('t, 'j) insp_link"
  let ?P = "\<lambda>l. cf_rx l = cf_rx s \<and> wa_tx l = wa_tx s \<and> m_tx l = m_tx s"
  have r: "safe ?P (insp_control_response E t)" "safe ?P (insp_process_insp E ic)"
    by (auto intro: safe_control_response safe_process_insp)
  show "cf_rx (snd (control_response (insp_control E) t s)) = cf_rx s"
    "wa_tx (snd (control_response (insp_control E) t s)) = wa_tx s"
    "m_tx (snd (control_response (insp_control E) t s)) = m_tx s"
    "fst (control_response (insp_control E) t s) \<noteq> Panic"
    "cf_rx (snd (process_insp (insp_control E) ic s)) = cf_rx s"
    "wa_tx (snd (process_insp (insp_control E) ic s)) = wa_tx s"
    "m_tx (snd (process_insp (insp_control E) ic s)) = m_tx s"
    "fst (process_insp (insp_control E) ic s) \<noteq> Panic"
    using r by (auto simp: insp_control_def safe_def)
qed (simp_all add: insp_control_def insp_cf_send_def insp_wa_send_def insp_m_send_def modify_def)

section \<open>The link implements \<open>Sender\<close>\<close>

text \<open>The lines of the outbox that carry a message.\<close>

definition privmsgs :: "irc_msg list \<Rightarrow> (string \<times> string \<times> string) list" where
  "privmsgs ms = List.map_filter (\<lambda>m. case (im_prefix m, im_args m, im_suffix m) of
       (Some f, [to], Some x) \<Rightarrow> if im_command m = ''PRIVMSG'' then Some (f, to, x) else None
     | _ \<Rightarrow> None) ms"

lemma privmsgs_append [simp]: "privmsgs (xs @ ys) = privmsgs xs @ privmsgs ys"
  by (simp add: privmsgs_def map_filter_def)

lemma privmsgs_other: "im_command m \<noteq> ''PRIVMSG'' \<Longrightarrow> privmsgs [m] = []"
  by (simp add: privmsgs_def map_filter_def split: option.splits list.splits)

abbreviation insp_sent :: "('t, 'j) insp_link \<Rightarrow> (string \<times> string \<times> string) list" where
  "insp_sent l \<equiv> privmsgs (outbox l)"

lemma push_new_result:
  "push_new E pre c a sf l =
     (if irc_valid E \<lparr>im_prefix = Some pre, im_command = c, im_args = a, im_suffix = sf\<rparr>
      then (Ok (), l\<lparr>outbox := outbox l @ [\<lparr>im_prefix = Some pre, im_command = c, im_args = a, im_suffix = sf\<rparr>]\<rparr>)
      else (Err IrcError, l))"
  by (simp add: push_new_def new_message_def send_def and_then_def lift_def modify_def Let_def)

lemma contact_message_result:
  "contact_message E u k dst msg l = (r, l') \<Longrightarrow>
     (l' = l \<and> (\<exists>e. r = Err e)) \<or>
     (r = Ok () \<and> hm_get (users l) u \<noteq> None \<and> starts_with u (sid (cfg l)) \<and>
      l' = l\<lparr>outbox := outbox l @ [\<lparr>im_prefix = Some u, im_command = k, im_args = [dst], im_suffix = Some msg\<rparr>]\<rparr>)"
  by (auto simp: contact_message_def and_then_def gets_def push_new_result err_def split: if_splits)

lemma ensure_joined_result:
  "insp_ensure_joined E ch l = (r, l') \<Longrightarrow>
     l' = l \<or> (\<exists>u. l' = l\<lparr>outbox := outbox l @
       [\<lparr>im_prefix = Some (sid (cfg l)), im_command = ''SVSJOIN'', im_args = [u, ch], im_suffix = None\<rparr>]\<rparr>)"
  by (auto simp: insp_ensure_joined_def and_then_def gets_def send_sid_line_def push_new_result ret_def
      split: if_splits option.splits)

interpretation isnd: sender "insp_sender E" "\<lambda>f t x. (f, t, x)" insp_sent "insp_private_target E" for E :: "('t, 'j) ext"
proof
  fix f t x ch :: string and s :: "('t, 'j) insp_link"
  obtain r l' where r: "contact_message E f ''PRIVMSG'' t x s = (r, l')"
    by (cases "contact_message E f ''PRIVMSG'' t x s")
  show "sender_db (insp_sender E) (snd (send_irc_message (insp_sender E) f t x s)) = sender_db (insp_sender E) s"
    "fst (send_irc_message (insp_sender E) f t x s) \<noteq> Panic"
    "insp_sent (snd (send_irc_message (insp_sender E) f t x s)) =
       (if fst (send_irc_message (insp_sender E) f t x s) = Ok () then insp_sent s @ [(f, t, x)] else insp_sent s)"
    using contact_message_result [OF r] r
    by (auto simp: insp_sender_def privmsgs_def map_filter_def)
  obtain r' l'' where r': "contact_message E f ''NOTICE'' (admin_nick (cfg s)) x s = (r', l'')"
    by (cases "contact_message E f ''NOTICE'' (admin_nick (cfg s)) x s")
  show "sender_db (insp_sender E) (snd (report_error (insp_sender E) f x s)) = sender_db (insp_sender E) s"
    "insp_sent (snd (report_error (insp_sender E) f x s)) = insp_sent s"
    using contact_message_result [OF r'] r' by (auto simp: insp_sender_def privmsgs_other)
  obtain r3 l3 where r3: "insp_ensure_joined E ch s = (r3, l3)"
    by (cases "insp_ensure_joined E ch s")
  show "sender_db (insp_sender E) (snd (ensure_joined (insp_sender E) ch s)) = sender_db (insp_sender E) s"
    "insp_sent (snd (ensure_joined (insp_sender E) ch s)) = insp_sent s"
    using ensure_joined_result [OF r3] r3 by (auto simp: insp_sender_def privmsgs_other)
next
  fix d and s :: "('t, 'j) insp_link"
  show "insp_private_target E (sender_db_put (insp_sender E) d s) = insp_private_target E s"
    by (simp add: insp_sender_def insp_private_target_def admin_uuid_def split: option.split)
qed (simp_all add: insp_sender_def gets_def)

end
