(* ===== verification/Insp_Inv.thy ===== *)
theory Insp_Inv
  imports Insp_Link
begin

text \<open>
  The invariant of the InspIRCd link: the table of ghosts, its inverse, and the allocation of user
  identifiers, through every handler, whether it succeeds, fails half way or panics.
\<close>

section \<open>The invariant\<close>

definition ghost_uuid :: "insp_config \<Rightarrow> nat \<Rightarrow> string" where
  "ghost_uuid c i = sid c @ ''Z'' @ pad5 i"

definition contact_uuid :: "('t, 'j) insp_link \<Rightarrow> 't pdu_address \<Rightarrow> string option" where
  "contact_uuid l a = map_option c_uuid (hm_get (contacts l) a)"

text \<open>
  The two tables are inverse to each other and the identifiers in them have been allocated. With the
  flag set, every ghost is also a user that the link knows; a \<open>SQUIT\<close> of a server whose name is a
  prefix of the link's own identifiers is what can break that part.
\<close>

definition insp_inv :: "bool \<Rightarrow> insp_config \<Rightarrow> ('t, 'j) insp_link \<Rightarrow> bool" where
  "insp_inv k c l \<longleftrightarrow>
     hm_wf (users l) \<and> hm_wf (contacts l) \<and> hm_wf (contacts_uuid_pdua l)
   \<and> (\<forall>a u. contact_uuid l a = Some u \<longleftrightarrow> hm_get (contacts_uuid_pdua l) u = Some a)
   \<and> (\<forall>u a. hm_get (contacts_uuid_pdua l) u = Some a \<longrightarrow> (\<exists>i < next_user_id l. u = ghost_uuid c i))
   \<and> cfg l = c \<and> control_uuid l = sid c @ ''A00000''
   \<and> next_user_id l \<le> 100000
   \<and> (k \<longrightarrow> (\<forall>u a. hm_get (contacts_uuid_pdua l) u = Some a \<longrightarrow> hm_get (users l) u \<noteq> None))"

text \<open>The same with the ghosts fixed: what the handlers keep that make and remove no ghost.\<close>

definition same_ghosts :: "('t pdu_address \<Rightarrow> string option) \<Rightarrow> bool \<Rightarrow> insp_config \<Rightarrow> ('t, 'j) insp_link \<Rightarrow> bool" where
  "same_ghosts F k c l \<longleftrightarrow> insp_inv k c l \<and> contact_uuid l = F"

lemma insp_inv_iff:
  "insp_inv k c l \<Longrightarrow> contact_uuid l a = Some u \<longleftrightarrow> hm_get (contacts_uuid_pdua l) u = Some a"
  by (simp add: insp_inv_def)

lemma insp_inv_blind [simp]:
  "insp_inv k c (l\<lparr>outbox := ob\<rparr>) = insp_inv k c l"
  "insp_inv k c (l\<lparr>store := d\<rparr>) = insp_inv k c l"
  "insp_inv k c (l\<lparr>channels := cs\<rparr>) = insp_inv k c l"
  "insp_inv k c (l\<lparr>channel_topics := tp\<rparr>) = insp_inv k c l"
  "insp_inv k c (l\<lparr>remote_sid := rs\<rparr>) = insp_inv k c l"
  "insp_inv k c (l\<lparr>state := st\<rparr>) = insp_inv k c l"
  "insp_inv k c (l\<lparr>wa_tx := w\<rparr>) = insp_inv k c l"
  "insp_inv k c (l\<lparr>m_tx := m\<rparr>) = insp_inv k c l"
  "insp_inv k c (l\<lparr>cf_rx := f\<rparr>) = insp_inv k c l"
  "insp_inv k c (l\<lparr>cb_rx := b\<rparr>) = insp_inv k c l"
  "insp_inv k c (l\<lparr>conn := cn\<rparr>) = insp_inv k c l"
  by (simp_all add: insp_inv_def contact_uuid_def)

lemma contact_uuid_blind [simp]:
  "contact_uuid (l\<lparr>outbox := ob\<rparr>) = contact_uuid l"
  "contact_uuid (l\<lparr>store := d\<rparr>) = contact_uuid l"
  "contact_uuid (l\<lparr>channels := cs\<rparr>) = contact_uuid l"
  "contact_uuid (l\<lparr>channel_topics := tp\<rparr>) = contact_uuid l"
  "contact_uuid (l\<lparr>users := us\<rparr>) = contact_uuid l"
  "contact_uuid (l\<lparr>next_user_id := n\<rparr>) = contact_uuid l"
  "contact_uuid (l\<lparr>wa_tx := w\<rparr>) = contact_uuid l"
  "contact_uuid (l\<lparr>m_tx := m\<rparr>) = contact_uuid l"
  "contact_uuid (l\<lparr>cf_rx := f\<rparr>) = contact_uuid l"
  "contact_uuid (l\<lparr>cb_rx := b\<rparr>) = contact_uuid l"
  "contact_uuid (l\<lparr>state := st\<rparr>) = contact_uuid l"
  "contact_uuid (l\<lparr>remote_sid := rs\<rparr>) = contact_uuid l"
  "contact_uuid (l\<lparr>contacts_uuid_pdua := cu\<rparr>) = contact_uuid l"
  by (simp_all add: contact_uuid_def fun_eq_iff)

lemma same_ghosts_blind [simp]:
  "same_ghosts F k c (l\<lparr>outbox := ob\<rparr>) = same_ghosts F k c l"
  "same_ghosts F k c (l\<lparr>store := d\<rparr>) = same_ghosts F k c l"
  "same_ghosts F k c (l\<lparr>channels := cs\<rparr>) = same_ghosts F k c l"
  "same_ghosts F k c (l\<lparr>channel_topics := tp\<rparr>) = same_ghosts F k c l"
  "same_ghosts F k c (l\<lparr>wa_tx := w\<rparr>) = same_ghosts F k c l"
  "same_ghosts F k c (l\<lparr>m_tx := m\<rparr>) = same_ghosts F k c l"
  "same_ghosts F k c (l\<lparr>cf_rx := f\<rparr>) = same_ghosts F k c l"
  "same_ghosts F k c (l\<lparr>cb_rx := b\<rparr>) = same_ghosts F k c l"
  by (simp_all add: same_ghosts_def)

text \<open>New, changed and forgotten users.\<close>

lemma insp_inv_put_user:
  "insp_inv k c l \<Longrightarrow> insp_inv k c (l\<lparr>users := hm_insert u x (users l)\<rparr>)"
  by (auto simp: insp_inv_def hm_get_insert)

lemma same_ghosts_put_user:
  "same_ghosts F k c l \<Longrightarrow> same_ghosts F k c (l\<lparr>users := hm_insert u x (users l)\<rparr>)"
  by (simp add: same_ghosts_def insp_inv_put_user)

text \<open>A contact that keeps its identifier.\<close>

lemma contact_uuid_put [simp]:
  "contact_uuid (l\<lparr>contacts := hm_insert a ct (contacts l)\<rparr>) = (contact_uuid l)(a \<mapsto> c_uuid ct)"
  by (auto simp: contact_uuid_def hm_get_insert fun_eq_iff)

lemma same_ghosts_put_contact:
  assumes "same_ghosts F k c l" "F a = Some (c_uuid ct)"
  shows "same_ghosts F k c (l\<lparr>contacts := hm_insert a ct (contacts l)\<rparr>)"
proof -
  have "(contact_uuid l)(a \<mapsto> c_uuid ct) = contact_uuid l"
    using assms by (intro fun_upd_idem) (auto simp: same_ghosts_def)
  then show ?thesis
    using assms by (auto simp: same_ghosts_def insp_inv_def)
qed

lemma same_ghosts_contact:
  "same_ghosts F k c l \<Longrightarrow> hm_get (contacts l) a = Some ct \<Longrightarrow> F a = Some (c_uuid ct)"
  by (auto simp: same_ghosts_def contact_uuid_def)

lemma same_ghosts_present:
  "same_ghosts F k c l \<Longrightarrow> F a \<noteq> None \<Longrightarrow> \<exists>ct. hm_get (contacts l) a = Some ct"
  by (auto simp: same_ghosts_def contact_uuid_def)

section \<open>Handlers that keep the ghosts\<close>

lemma safe_insp_tx [safe]:
  "safe (same_ghosts F k c) (insp_wa_send w)" "safe (same_ghosts F k c) (insp_m_send m)"
  "safe (same_ghosts F k c) (insp_cf_send cf)" "safe (same_ghosts F k c) (insp_cb_send b)"
  "safe (insp_inv k c) (insp_wa_send w)" "safe (insp_inv k c) (insp_m_send m)"
  "safe (insp_inv k c) (insp_cf_send cf)" "safe (insp_inv k c) (insp_cb_send b)"
  by (auto simp: insp_wa_send_def insp_m_send_def insp_cf_send_def insp_cb_send_def intro!: safe_modify)

lemma safe_ghosts_push [safe]:
  "safe (same_ghosts F k c) (send m)"
  "safe (same_ghosts F k c) (push_new E pre cm a sf)"
  "safe (same_ghosts F k c) (send_sid_line E cm a sf)"
  "safe (same_ghosts F k c) (insp_control_response E x)"
  "safe (same_ghosts F k c) (contact_message E u kd dst x)"
  "safe (same_ghosts F k c) (insp_ensure_joined E ch)"
  by (auto intro: safe_send safe_push_new safe_send_sid_line safe_control_response
      safe_contact_message safe_ensure_joined)

lemma safe_ghosts_store [safe]: "safe (\<lambda>_. True) m \<Longrightarrow> safe (same_ghosts F k c) (insp_store m)"
  by (rule safe_insp_store) auto

lemma safe_put_user [safe]: "safe (same_ghosts F k c) (put_user u x)"
  unfolding put_user_def by (intro safe_modify same_ghosts_put_user)

lemma safe_put_topic [safe]: "safe (same_ghosts F k c) (put_topic ch x)"
  unfolding put_topic_def by (auto intro: safe_modify)

lemma safe_put_contact: "F a = Some (c_uuid ct) \<Longrightarrow> safe (same_ghosts F k c) (put_contact a ct)"
  unfolding put_contact_def by (intro safe_modify same_ghosts_put_contact)

lemma safe_channels: "safe (same_ghosts F k c) (modify (\<lambda>l. l\<lparr>channels := f l\<rparr>))"
  by (auto intro: safe_modify)

text \<open>Reading a contact that is there.\<close>

lemma safe_gets_contact:
  fixes f :: "insp_contact \<Rightarrow> (('t, 'j) insp_link, 'r) comp"
  assumes "F a \<noteq> None" and "\<And>ct. F a = Some (c_uuid ct) \<Longrightarrow> safe (same_ghosts F k c) (f ct)"
  shows "safe (same_ghosts F k c) (and_then (gets (\<lambda>l. hm_get (contacts l) a))
     (\<lambda>co. case co of None \<Rightarrow> m | Some ct \<Rightarrow> f ct))"
proof (rule safe_gets_then)
  fix l :: "('t, 'j) insp_link" assume l: "same_ghosts F k c l"
  then obtain ct where ct: "hm_get (contacts l) a = Some ct" using same_ghosts_present assms(1) by blast
  with l assms(2) [OF same_ghosts_contact [OF l ct]]
  show "fst ((case hm_get (contacts l) a of None \<Rightarrow> m | Some ct \<Rightarrow> f ct) l) \<noteq> Panic \<and>
     same_ghosts F k c (snd ((case hm_get (contacts l) a of None \<Rightarrow> m | Some ct \<Rightarrow> f ct) l))"
    by (simp add: safe_def)
qed

lemma safe_gets_contact_opt:
  fixes f :: "insp_contact \<Rightarrow> (('t, 'j) insp_link, 'r) comp"
  assumes "\<And>ct. F a = Some (c_uuid ct) \<Longrightarrow> safe (same_ghosts F k c) (f ct)" and "safe (same_ghosts F k c) m"
  shows "safe (same_ghosts F k c) (and_then (gets (\<lambda>l. hm_get (contacts l) a))
     (\<lambda>co. case co of None \<Rightarrow> m | Some ct \<Rightarrow> f ct))"
proof (rule safe_gets_then)
  fix l :: "('t, 'j) insp_link" assume l: "same_ghosts F k c l"
  show "fst ((case hm_get (contacts l) a of None \<Rightarrow> m | Some ct \<Rightarrow> f ct) l) \<noteq> Panic \<and>
     same_ghosts F k c (snd ((case hm_get (contacts l) a of None \<Rightarrow> m | Some ct \<Rightarrow> f ct) l))"
    using assms l same_ghosts_contact [OF l] by (auto simp: safe_def split: option.splits)
qed

lemma safe_pgfr: "F a \<noteq> None \<Longrightarrow> safe (same_ghosts F k c) (process_groups_for_recipient E a)"
  unfolding process_groups_for_recipient_def join_groups_def part_left_def
  by (intro safe_gets_contact safe safe_put_contact safe_channels) auto

lemma safe_participant_mode:
  "decode_ok E \<Longrightarrow> safe (same_ghosts F k c) (participant_mode E grp part)"
  unfolding participant_mode_def
  by (intro safe safe_lift get_addr_no_panic safe_gets_contact_opt) auto

lemma safe_group_topic [safe]: "safe (same_ghosts F k c) (group_topic E grp)"
  unfolding group_topic_def Let_def by (intro safe)

lemma contact_keys:
  assumes "same_ghosts F k c l" "ord_ok (ord_addr E)"
  shows "a \<in> set (map fst (hm_iter (ord_addr E) (contacts l))) \<longleftrightarrow> F a \<noteq> None"
proof -
  have "hm_wf (contacts l)" using assms(1) by (simp add: same_ghosts_def insp_inv_def)
  then have "set (hm_iter (ord_addr E) (contacts l)) = set (contacts l)"
    using set_hm_iter assms(2) by blast
  then show ?thesis
    using assms(1) map_of_eq_None_iff [of "contacts l" a] by (auto simp: same_ghosts_def contact_uuid_def)
qed

lemma safe_process_groups:
  fixes E :: "('t, 'j) ext"
  assumes "decode_ok E" "ord_ok (ord_addr E)"
  shows "safe (same_ghosts F k c) (insp_process_groups E)"
proof -
  have "safe (same_ghosts F k c)
    (and_then (gets (\<lambda>l. map fst (hm_iter (ord_addr E) (contacts l)))) (\<lambda>addrs.
     then_do (for_each addrs (process_groups_for_recipient E))
     (and_then (insp_store get_all_groups) (\<lambda>grps.
        for_each grps (\<lambda>grp.
          then_do (for_each (g_participants grp) (participant_mode E grp)) (group_topic E grp))))))"
    (is "safe _ (and_then (gets ?f) ?g)")
  proof (rule safe_gets_then)
    fix l :: "('t, 'j) insp_link" assume l: "same_ghosts F k c l"
    have "safe (same_ghosts F k c) (?g (?f l))"
      using contact_keys [OF l assms(2)] assms(1)
      by (intro safe safe_pgfr safe_participant_mode) auto
    then show "fst (?g (?f l) l) \<noteq> Panic \<and> same_ghosts F k c (snd (?g (?f l) l))"
      using l by (simp add: safe_def)
  qed
  then show ?thesis
    unfolding insp_process_groups_def by (intro safe_then_do safe_modify) auto
qed

lemma safe_set_wa_state: "F a \<noteq> None \<Longrightarrow> safe (same_ghosts F k c) (set_wa_state E a wa)"
  unfolding set_wa_state_def
  by (intro safe_gets_contact safe safe_put_contact safe_modify)
    (auto simp: same_ghosts_put_user split: option.splits)


text \<open>A ghost's user is there, as long as no \<open>SQUIT\<close> has taken it away.\<close>

lemma safe_gets_user:
  fixes f :: "insp_user \<Rightarrow> (('t, 'j) insp_link, 'r) comp"
  assumes "F a = Some u" and f: "\<And>x. safe (same_ghosts F True c) (f x)"
  shows "safe (same_ghosts F True c) (and_then (gets (\<lambda>l. hm_get (users l) u))
     (\<lambda>uo. case uo of None \<Rightarrow> m | Some x \<Rightarrow> f x))"
proof (rule safe_gets_then)
  fix l :: "('t, 'j) insp_link" assume l: "same_ghosts F True c l"
  then have "hm_get (contacts_uuid_pdua l) u = Some a"
    using assms(1) by (auto simp: same_ghosts_def insp_inv_def)
  then obtain x where "hm_get (users l) u = Some x"
    using l by (auto simp: same_ghosts_def insp_inv_def)
  with f [of x] l show "fst ((case hm_get (users l) u of None \<Rightarrow> m | Some x \<Rightarrow> f x) l) \<noteq> Panic \<and>
     same_ghosts F True c (snd ((case hm_get (users l) u of None \<Rightarrow> m | Some x \<Rightarrow> f x) l))"
    by (simp add: safe_def)
qed

lemma safe_change_nick:
  "F a = Some (c_uuid ct) \<Longrightarrow> safe (same_ghosts F True c) (insp_change_nick E a ct st osrc)"
  unfolding insp_change_nick_def Let_def by (intro safe_gets_user safe)

lemma safe_forward_cmd: "safe (same_ghosts F True c) (insp_forward_cmd E a cmd)"
  unfolding insp_forward_cmd_def
proof (rule safe_gets_contact_opt)
  fix ct :: insp_contact assume ct: "F a = Some (c_uuid ct)"
  then have "safe (same_ghosts F True c) (put_contact a (ct\<lparr>c_wa_mode := w\<rparr>))" for w
    by (intro safe_put_contact) simp
  with ct show "safe (same_ghosts F True c) (case cmd of
      UpdateAway txt' \<Rightarrow> push_new E (c_uuid ct) ''AWAY'' [] txt'
    | ChangeNick st osrc \<Rightarrow> insp_change_nick E a ct st osrc
    | SetWhatsapp wam \<Rightarrow> then_do (put_contact a (ct\<lparr>c_wa_mode := wam\<rparr>)) (set_wa_state E a wam)
    | CmProcessMessages \<Rightarrow> ret () | CmProcessGroups \<Rightarrow> ret ())"
    by (cases cmd) (auto intro!: safe safe_change_nick safe_set_wa_state)
qed (intro safe)

section \<open>New ghosts\<close>

lemma ghost_uuid_inject [simp]: "ghost_uuid c i = ghost_uuid c j \<longleftrightarrow> i = j"
  by (simp add: ghost_uuid_def pad5_inject)

lemma make_uid_line_state: "make_uid_line E u l = (r, l') \<Longrightarrow> l' = l \<and> r \<noteq> Panic"
  by (auto simp: make_uid_line_def and_then_def gets_def lift_def err_def split: option.splits)

lemma pres_make_uid_line: "pres P (make_uid_line E u)"
proof (rule presI)
  fix l assume "P l"
  then show "P (snd (make_uid_line E u l))"
    using make_uid_line_state [of E u l] by (cases "make_uid_line E u l") auto
qed

lemma new_user_result:
  assumes "new_user E x l = (r, l')"
  shows "r \<noteq> Panic \<and> contacts l' = contacts l \<and> contacts_uuid_pdua l' = contacts_uuid_pdua l \<and>
    cfg l' = cfg l \<and> store l' = store l \<and> (insp_inv k c l \<longrightarrow> insp_inv k c l') \<and>
    (\<forall>u. r = Ok u \<longrightarrow> u = ghost_uuid (cfg l) (next_user_id l) \<and> next_user_id l' = next_user_id l + 1 \<and>
        next_user_id l \<le> 99999 \<and> users l' = hm_insert u x (users l))"
proof (cases "next_user_id l > 99999")
  case True
  then show ?thesis
    using assms by (auto simp: new_user_def get_uuid_def and_then_def gets_def err_def)
next
  case False
  let ?u = "ghost_uuid (cfg l) (next_user_id l)"
  let ?l1 = "l\<lparr>next_user_id := next_user_id l + 1, users := hm_insert ?u x (users l)\<rparr>"
  have uid: "get_uuid l = (Ok ?u, l\<lparr>next_user_id := next_user_id l + 1\<rparr>)"
    using False by (simp add: get_uuid_def and_then_def then_do_def gets_def ret_def modify_def ghost_uuid_def)
  obtain r1 l2 where mk: "make_uid_line E ?u ?l1 = (r1, l2)" by (cases "make_uid_line E ?u ?l1")
  have inv: "insp_inv k c l \<longrightarrow> insp_inv k c ?l1"
    using False by (auto simp: insp_inv_def hm_get_insert less_Suc_eq)
  have "new_user E x l = (case r1 of Ok line \<Rightarrow> (Ok ?u, ?l1\<lparr>outbox := outbox l @ [line]\<rparr>)
     | Err e \<Rightarrow> (Err e, ?l1) | Panic \<Rightarrow> (Panic, ?l1))"
    using mk make_uid_line_state [OF mk]
    by (simp add: new_user_def uid put_user_def and_then_def then_do_def modify_def
        send_def ret_def split: outcome.splits)
  then show ?thesis
    using assms make_uid_line_state [OF mk] inv False
    by (auto split: outcome.splits)
qed

lemma insp_inv_add_ghost:
  assumes inv: "insp_inv k c l" and a: "contact_uuid l a = None"
    and u: "u = ghost_uuid (cfg l) i" "i < next_user_id l" "hm_get (contacts_uuid_pdua l) u = None"
    and ux: "hm_get (users l) u \<noteq> None" and ct: "c_uuid ct = u"
  shows "insp_inv k c (l\<lparr>contacts := hm_insert a ct (contacts l),
      contacts_uuid_pdua := hm_insert u a (contacts_uuid_pdua l)\<rparr>)"
proof -
  have "((contact_uuid l)(a \<mapsto> u)) b = Some v \<longleftrightarrow> ((hm_get (contacts_uuid_pdua l))(u \<mapsto> a)) v = Some b" for b v
    using a u(3) insp_inv_iff [OF inv, of a v] insp_inv_iff [OF inv, of b u] insp_inv_iff [OF inv, of b v]
    by auto
  moreover have "hm_get (contacts_uuid_pdua l) v \<noteq> Some a" for v
    using insp_inv_iff [OF inv, of a v] a by simp
  ultimately show ?thesis
    using inv u ux ct by (auto simp: insp_inv_def hm_get_insert)
qed

lemma new_user_fresh:
  assumes inv: "insp_inv k c l" and nu: "new_user E x l = (Ok u, l')"
  shows "hm_get (contacts_uuid_pdua l') u = None"
proof (rule ccontr)
  note nr = new_user_result [OF nu, of k c]
  assume "hm_get (contacts_uuid_pdua l') u \<noteq> None"
  then obtain b where "hm_get (contacts_uuid_pdua l) u = Some b" using nr by auto
  then obtain i where "i < next_user_id l" "u = ghost_uuid c i" "cfg l = c"
    using inv unfolding insp_inv_def by blast
  then show False using nr by simp
qed

lemma choose_nick_result:
  "choose_nick E a n0 l = (r, l1) \<Longrightarrow> r \<noteq> Panic \<and> (\<exists>d. l1 = l\<lparr>store := d\<rparr>) \<and>
     (\<forall>n. r = Ok n \<longrightarrow> (case check_nick_for_collisions l n0 of Some m \<Rightarrow> m | None \<Rightarrow> n0) = n)"
  using safe_no_panic [OF quiet_writes(8) [of E a]]
  by (cases "check_nick_for_collisions l n0")
    (auto simp: choose_nick_def insp_store_def on_field_def and_then_def then_do_def gets_def ret_def
      intro: exI [of _ "store l"] split: prod.splits outcome.splits, metis fst_conv)

text \<open>Entering a new user into the two tables.\<close>

lemma register_ghost_result:
  assumes inv: "insp_inv k c l" and a: "contact_uuid l a = None"
    and u: "u = ghost_uuid c i" "i < next_user_id l" "hm_get (contacts_uuid_pdua l) u = None"
    and ux: "hm_get (users l) u \<noteq> None"
    and res: "register_ghost E a wa u l = (r, l')"
  shows "r \<noteq> Panic \<and> insp_inv k c l' \<and> contact_uuid l' = (contact_uuid l)(a \<mapsto> u)"
proof -
  define l3 where "l3 = l\<lparr>contacts := hm_insert a \<lparr>c_uuid = u, c_channels = [], c_wa_mode = wa\<rparr> (contacts l),
     contacts_uuid_pdua := hm_insert u a (contacts_uuid_pdua l)\<rparr>"
  let ?m = "and_then (gets state) (\<lambda>st. if st = Linked then process_groups_for_recipient E a else ret ())"
  let ?F = "(contact_uuid l)(a \<mapsto> u)"
  have "cfg l = c" using inv by (simp add: insp_inv_def)
  then have "insp_inv k c l3"
    unfolding l3_def using assms by (intro insp_inv_add_ghost [where i = i]) auto
  moreover have "contact_uuid l3 = ?F" by (simp add: l3_def)
  ultimately have "same_ghosts ?F k c l3" by (simp add: same_ghosts_def)
  moreover have "?m l3 = (r, l')"
    using res by (simp add: register_ghost_def l3_def put_contact_def del: and_then_gets)
  moreover have "safe (same_ghosts ?F k c) ?m" by (intro safe safe_pgfr) simp
  ultimately have "r \<noteq> Panic \<and> same_ghosts ?F k c l'"
    unfolding safe_def by (metis fst_conv snd_conv)
  then show ?thesis by (simp add: same_ghosts_def)
qed

lemma setup_contact_for_result:
  fixes E :: "('t, 'j) ext"
  assumes inv: "insp_inv k c l" and a: "contact_uuid l a = None"
    and res: "insp_setup_contact_for E rc a l = (r, l')"
  shows "r \<noteq> Panic \<and> insp_inv k c l' \<and> (r = Ok () \<longrightarrow> contact_uuid l' a \<noteq> None) \<and>
    (contact_uuid l' = contact_uuid l \<or> (\<exists>u. contact_uuid l' = (contact_uuid l)(a \<mapsto> u)))"
proof -
  obtain r1 l1 where s1: "choose_nick E a (r_nick rc) l = (r1, l1)" by (cases "choose_nick E a (r_nick rc) l")
  note cn = choose_nick_result [OF s1]
  have l1: "insp_inv k c l1" "contact_uuid l1 = contact_uuid l" using cn inv by auto
  show ?thesis
  proof (cases r1)
    case (Ok n)
    let ?x = "new_from_recipient E (clock l1) a n (host_for_wa (r_whatsapp rc) l)"
    obtain r2 l2 where s2: "new_user E ?x l1 = (r2, l2)" by (cases "new_user E ?x l1")
    note nu = new_user_result [OF s2, of k c]
    have F2: "contact_uuid l2 = contact_uuid l" using nu l1(2) by (simp add: contact_uuid_def fun_eq_iff)
    show ?thesis
    proof (cases r2)
      case (Ok u)
      have "register_ghost E a (r_whatsapp rc) u l2 = (r, l')"
        using res s1 s2 Ok \<open>r1 = Ok n\<close> by (simp add: insp_setup_contact_for_def and_then_def gets_def)
      then have "r \<noteq> Panic \<and> insp_inv k c l' \<and> contact_uuid l' = (contact_uuid l2)(a \<mapsto> u)"
      proof (rule register_ghost_result [rotated 6])
        show "u = ghost_uuid c (next_user_id l1)" using nu Ok l1(1) by (simp add: insp_inv_def)
        show "hm_get (contacts_uuid_pdua l2) u = None" using new_user_fresh [OF l1(1)] s2 Ok by simp
      qed (use nu Ok l1 F2 a in \<open>auto simp: hm_get_insert\<close>)
      then show ?thesis using F2 by auto
    qed (use res s1 s2 Ok nu l1 F2 in \<open>auto simp: insp_setup_contact_for_def and_then_def gets_def\<close>)
  qed (use res s1 cn l1 in \<open>auto simp: insp_setup_contact_for_def and_then_def gets_def\<close>)
qed

text \<open>Whatever keeps the ghosts keeps the invariant.\<close>

lemma safe_inv_of_ghosts: "(\<And>F. safe (same_ghosts F k c) m) \<Longrightarrow> safe (insp_inv k c) m"
  by (fastforce simp: safe_def same_ghosts_def)

lemma pres_inv_of_ghosts: "(\<And>F. pres (same_ghosts F k c) m) \<Longrightarrow> pres (insp_inv k c) m"
  by (fastforce simp: pres_def same_ghosts_def)

lemma safe_inv_push [safe]:
  "safe (insp_inv k c) (send m)"
  "safe (insp_inv k c) (push_new E pre cm a sf)"
  "safe (insp_inv k c) (send_sid_line E cm a sf)"
  "safe (insp_inv k c) (insp_control_response E x)"
  "safe (insp_inv k c) (contact_message E u kd dst x)"
  "safe (insp_inv k c) (insp_ensure_joined E ch)"
  "safe (insp_inv k c) (put_user u y)"
  "safe (insp_inv k c) (put_topic ch x)"
  by (rule safe_inv_of_ghosts, intro safe)+

lemma safe_inv_store [safe]: "safe (\<lambda>_. True) m \<Longrightarrow> safe (insp_inv k c) (insp_store m)"
  by (rule safe_inv_of_ghosts) (rule safe_ghosts_store)

lemma safe_cmm_store: "cmm_store (insp_base E) = insp_store" "cmm_store (insp_cmm E) = insp_store"
  by (simp_all add: cmm_store_def insp_base_def insp_cmm_def insp_store_def)

lemma insp_base_safe:
  assumes "decode_ok E"
  shows "safe (insp_inv k c) (setup_recipient E (insp_base E) r)"
    and "safe (insp_inv k c) (request_contact E (insp_base E) a src)"
    and "safe (insp_inv k c) (query_contact E (insp_base E) a src)"
    and "safe (insp_inv k c) (setup_contact E (insp_base E) a)"
proof -
  have db: "safe (insp_inv k c) (cmm_store (insp_base E) (get_recipient_by_addr_opt E a))" for a
    unfolding safe_cmm_store by (intro safe)
  have tx: "safe (insp_inv k c) (wa_tx_send (insp_base E) w)" "safe (insp_inv k c) (m_tx_send (insp_base E) m)"
    "safe (insp_inv k c) (cb_tx_send (insp_base E) b)" for w m b
    by (simp_all add: insp_base_def safe)
  have su: "fst (setup_contact_for (insp_base E) r a l) \<noteq> Panic \<and>
      insp_inv k c (snd (setup_contact_for (insp_base E) r a l))"
    if l: "insp_inv k c l" and a: "\<not> has_contact (insp_base E) a l" for r a l
  proof -
    have "contact_uuid l a = None"
      using a by (auto simp: insp_base_def insp_has_contact_def contact_uuid_def)
    with l show ?thesis
      using setup_contact_for_result [of k c l a E r]
      by (cases "insp_setup_contact_for E r a l") (auto simp: insp_base_def)
  qed
  note rules = cmm_base_safe [of "insp_inv k c" "insp_base E" E, OF db get_addr_no_panic [OF assms] su tx]
  show "safe (insp_inv k c) (setup_recipient E (insp_base E) r)"
    and "safe (insp_inv k c) (request_contact E (insp_base E) a src)"
    and "safe (insp_inv k c) (query_contact E (insp_base E) a src)"
    and "safe (insp_inv k c) (setup_contact E (insp_base E) a)"
    by (rule rules; assumption)+
qed

section \<open>Ghosts that go\<close>

lemma contact_uuid_remove [simp]:
  "contact_uuid (l\<lparr>contacts := hm_remove a (contacts l)\<rparr>) = (contact_uuid l)(a := None)"
  by (auto simp: contact_uuid_def hm_get_remove fun_eq_iff)

lemma insp_inv_remove:
  assumes inv: "insp_inv k c l" and u: "hm_get (contacts_uuid_pdua l) u = Some a"
  shows "insp_inv k c (l\<lparr>contacts := hm_remove a (contacts l),
      contacts_uuid_pdua := hm_remove u (contacts_uuid_pdua l), users := hm_remove u (users l)\<rparr>)"
proof -
  have "((contact_uuid l)(a := None)) b = Some v \<longleftrightarrow> ((hm_get (contacts_uuid_pdua l))(u := None)) v = Some b"
    for b v
    using u insp_inv_iff [OF inv, of a u] insp_inv_iff [OF inv, of a v] insp_inv_iff [OF inv, of b v] by auto
  then show ?thesis
    using inv by (auto simp: insp_inv_def hm_get_remove)
qed

lemma insp_inv_forget:
  "insp_inv k c l \<Longrightarrow> hm_get (contacts_uuid_pdua l) u = None \<Longrightarrow>
   insp_inv k c (l\<lparr>contacts_uuid_pdua := hm_remove u (contacts_uuid_pdua l), users := hm_remove u (users l)\<rparr>)"
  by (auto simp: insp_inv_def hm_get_remove)

lemma remove_user_inv:
  fixes E :: "('t, 'j) ext"
  assumes "decode_ok E"
  shows "safe (insp_inv k c) (remove_user E u recreate)"
  unfolding safe_def
proof (intro allI impI)
  fix l :: "('t, 'j) insp_link" assume l: "insp_inv k c l"
  note sc = insp_base_safe(4) [OF assms, of k c]
  show "fst (remove_user E u recreate l) \<noteq> Panic \<and> insp_inv k c (snd (remove_user E u recreate l))"
  proof (cases "hm_get (contacts_uuid_pdua l) u")
    case None
    then show ?thesis
      using insp_inv_forget [OF l None] by (simp add: remove_user_def ret_def)
  next
    case (Some a)
    let ?l1 = "l\<lparr>contacts := hm_remove a (contacts l),
      contacts_uuid_pdua := hm_remove u (contacts_uuid_pdua l), users := hm_remove u (users l)\<rparr>"
    have "remove_user E u recreate l = (if recreate then setup_contact E (insp_base E) a else ret ()) ?l1"
      using Some by (simp add: remove_user_def)
    then show ?thesis
      using insp_inv_remove [OF l Some] sc [of a] by (auto simp: safe_def ret_def)
  qed
qed

lemma remove_contact_for_inv:
  assumes "decode_ok E"
  shows "safe (insp_inv k c) (insp_remove_contact_for E a)"
proof -
  have last: "insp_inv k c (l\<lparr>contacts := hm_remove a (contacts l),
        contacts_uuid_pdua := filter (\<lambda>(_, v). v \<noteq> a) (contacts_uuid_pdua l)\<rparr>)" if l: "insp_inv k c l"
    for l :: "('a, 'b) insp_link"
  proof -
    have wf: "hm_wf (contacts_uuid_pdua l)" using l by (simp add: insp_inv_def)
    have "((contact_uuid l)(a := None)) b = Some v \<longleftrightarrow>
        hm_get (filter (\<lambda>(_, v). v \<noteq> a) (contacts_uuid_pdua l)) v = Some b" for b v
      using insp_inv_iff [OF l, of b v] by (auto simp: hm_get_filter [OF wf] split: option.splits)
    moreover have "hm_get (contacts_uuid_pdua l) v = Some b"
      if "hm_get (filter (\<lambda>(_, v). v \<noteq> a) (contacts_uuid_pdua l)) v = Some b" for v b
      using that by (auto simp: hm_get_filter [OF wf] split: option.splits if_splits)
    ultimately show ?thesis using l by (fastforce simp: insp_inv_def)
  qed
  show ?thesis
    unfolding insp_remove_contact_for_def
    by (intro safe remove_user_inv [OF assms] safe_modify last)
qed

section \<open>The link implements \<open>ContactManagerManager\<close>\<close>

abbreviation has_b :: "'t pdu_address \<Rightarrow> ('t, 'j) insp_link \<Rightarrow> bool" where
  "has_b b \<equiv> (\<lambda>l. hm_get (contacts l) b \<noteq> None)"

lemma has_b_push: "pres (has_b b) (push_new E pre cm a sf)" "pres (has_b b) (send m)"
  "pres (has_b b) (insp_store m')"
  by (auto simp: pres_def push_new_result send_def modify_def insp_store_def on_field_def split: prod.splits)

lemma has_b_put: "pres (has_b b) (put_contact a ct)"
  by (auto simp: pres_def put_contact_def modify_def hm_get_insert)

lemma has_b_pgfr: "pres (has_b b) (process_groups_for_recipient E a)"
  unfolding process_groups_for_recipient_def join_groups_def part_left_def
  by (intro pres has_b_push has_b_put pres_modify) auto

lemma new_user_contacts: "new_user E x l = (r, l') \<Longrightarrow> contacts l' = contacts l"
  by (rule new_user_result [THEN conjunct2, THEN conjunct1])

lemma has_b_new_user: "pres (has_b b) (new_user E x)"
proof (rule presI)
  fix l :: "('a, 'b) insp_link" assume "has_b b l"
  then show "has_b b (snd (new_user E x l))"
    using new_user_contacts [of E x l] by (cases "new_user E x l") auto
qed

lemma has_b_tail:
  "pres (has_b b) (and_then (gets state) (\<lambda>st. if st = Linked then process_groups_for_recipient E a else ret ()))"
  by (intro pres has_b_pgfr)

lemma has_b_setup: "pres (has_b b) (insp_setup_contact_for E r a)"
  unfolding insp_setup_contact_for_def choose_nick_def register_ghost_def
  by (intro pres has_b_push has_b_put has_b_tail has_b_new_user pres_modify) auto

lemma setup_contact_for_has:
  assumes "insp_setup_contact_for E r a l = (Ok (), l')"
  shows "hm_get (contacts l') a \<noteq> None"
proof -
  from assms obtain u l2 where "register_ghost E a (r_whatsapp r) u l2 = (Ok (), l')"
    unfolding insp_setup_contact_for_def by (auto elim!: and_then_OkE)
  define l3 where "l3 = l2\<lparr>contacts := hm_insert a \<lparr>c_uuid = u, c_channels = [], c_wa_mode = r_whatsapp r\<rparr> (contacts l2),
     contacts_uuid_pdua := hm_insert u a (contacts_uuid_pdua l2)\<rparr>"
  have "has_b a l3" by (simp add: l3_def hm_get_insert)
  moreover have "and_then (gets state)
      (\<lambda>st. if st = Linked then process_groups_for_recipient E a else ret ()) l3 = (Ok (), l')"
    using \<open>register_ghost E a (r_whatsapp r) u l2 = (Ok (), l')\<close>
    by (simp add: register_ghost_def put_contact_def l3_def del: and_then_gets)
  ultimately show ?thesis using presD [OF has_b_tail] by blast
qed

lemma remove_contact_for_store: "pres (\<lambda>l. store l = d) (insp_remove_contact_for E a)"
proof -
  have "pres (\<lambda>l. store l = d) (push_new E pre cm as sf)" for pre cm as sf
    by (auto simp: pres_def push_new_result)
  moreover have "pres (\<lambda>l. store l = d) (remove_user E u False)" for u
    unfolding remove_user_def by (intro pres pres_modify) auto
  ultimately show ?thesis
    unfolding insp_remove_contact_for_def by (intro pres pres_modify) auto
qed

interpretation icm: contact_manager E "insp_cmm E" for E :: "('t, 'j) ext"
proof
  fix r a b and s s' :: "('t, 'j) insp_link"
  show "setup_contact_for (insp_cmm E) r a s = (Ok (), s') \<Longrightarrow> has_contact (insp_cmm E) a s'"
    using setup_contact_for_has by (simp add: insp_cmm_def insp_base_def insp_has_contact_def)
  show "has_contact (insp_cmm E) b s \<Longrightarrow>
      has_contact (insp_cmm E) b (snd (setup_contact_for (insp_cmm E) r a s))"
    using has_b_setup [of b E r a]
    by (simp add: insp_cmm_def insp_base_def insp_has_contact_def pres_def)
next
  fix a and s s' :: "('t, 'j) insp_link"
  assume "remove_contact_for (insp_cmm E) a s = (Ok (), s')"
  then show "\<not> has_contact (insp_cmm E) a s'"
    by (auto simp: insp_cmm_def insp_base_def insp_has_contact_def
        insp_remove_contact_for_def modify_def hm_get_remove elim!: and_then_OkE then_do_OkE)
next
  fix a and s :: "('t, 'j) insp_link"
  show "recipients (cmm_db (insp_cmm E) (snd (remove_contact_for (insp_cmm E) a s))) =
      recipients (cmm_db (insp_cmm E) s)"
    using remove_contact_for_store [of "store s" E a]
    by (simp add: insp_cmm_def insp_base_def pres_def)
qed (auto simp: insp_cmm_def insp_base_def insp_has_contact_def insp_wa_send_def
    insp_m_send_def insp_cb_send_def modify_def)

section \<open>The invariant through every handler\<close>

lemma pres_gets_contact:
  fixes f :: "insp_contact \<Rightarrow> (('t, 'j) insp_link, 'r) comp"
  assumes "\<And>ct. F a = Some (c_uuid ct) \<Longrightarrow> pres (same_ghosts F k c) (f ct)" and "pres (same_ghosts F k c) m"
  shows "pres (same_ghosts F k c) (and_then (gets (\<lambda>l. hm_get (contacts l) a))
     (\<lambda>co. case co of None \<Rightarrow> m | Some ct \<Rightarrow> f ct))"
proof (rule pres_gets_then)
  fix l :: "('t, 'j) insp_link" assume l: "same_ghosts F k c l"
  show "same_ghosts F k c (snd ((case hm_get (contacts l) a of None \<Rightarrow> m | Some ct \<Rightarrow> f ct) l))"
    using assms l same_ghosts_contact [OF l] by (auto simp: pres_def split: option.splits)
qed

lemmas ghosts_pres = safe_ghosts_push [THEN safe_pres] safe_ghosts_store [THEN safe_pres]
  safe_put_user [THEN safe_pres] safe_put_contact [THEN safe_pres]

lemma pres_set_wa_state: "pres (same_ghosts F k c) (set_wa_state E a wa)"
  unfolding set_wa_state_def
  by (intro pres_gets_contact pres ghosts_pres safe pres_modify)
    (auto simp: same_ghosts_put_user split: option.splits)

lemma pres_forward_cmd: "pres (same_ghosts F k c) (insp_forward_cmd E a cmd)"
proof -
  have "pres (same_ghosts F k c) (insp_change_nick E a ct st osrc)" for ct st osrc
    unfolding insp_change_nick_def Let_def by (intro pres ghosts_pres safe)
  moreover have "pres (same_ghosts F k c) (put_contact a (ct\<lparr>c_wa_mode := w\<rparr>))"
    if "F a = Some (c_uuid ct)" for ct :: insp_contact and w
    using that by (intro safe_put_contact [THEN safe_pres]) simp
  ultimately show ?thesis
    unfolding insp_forward_cmd_def
    by (intro pres_gets_contact) (auto intro!: pres ghosts_pres pres_set_wa_state split: contact_manager_command.split)
qed

lemma inv_pres_push:
  "pres (insp_inv k c) (push_new E pre cm a sf)" "pres (insp_inv k c) (send_sid_line E cm a sf)"
  "pres (insp_inv k c) (send m)" "pres (insp_inv k c) (insp_control_response E x)"
  "pres (insp_inv k c) (contact_message E u kd dst x)" "pres (insp_inv k c) (insp_ensure_joined E ch)"
  "pres (insp_inv k c) (put_user u y)" "pres (insp_inv k c) (put_topic ch tp)"
  "pres (insp_inv k c) (insp_wa_send w)" "pres (insp_inv k c) (insp_m_send mc)"
  "pres (insp_inv k c) (insp_cf_send cf)" "pres (insp_inv k c) (insp_cb_send cb)"
  by (rule safe_pres, intro safe)+

lemma inv_pres_store: "safe (\<lambda>_. True) m \<Longrightarrow> pres (insp_inv k c) (insp_store m)"
  by (intro safe_pres safe)

lemma inv_pres_sender:
  "pres (insp_inv k c) (process_msg_plain E (insp_sender E) u msg)"
  "pres (insp_inv k c) (process_msg_pdu E (insp_sender E) u msg pd)"
proof -
  have on: "on_db (insp_sender E) = insp_store" by (simp add: on_db_def insp_sender_def insp_store_def)
  have "pres (insp_inv k c) (report_error (insp_sender E) f x)"
    "pres (insp_inv k c) (private_target (insp_sender E))"
    "pres (insp_inv k c) (send_irc_message (insp_sender E) f t x)"
    "pres (insp_inv k c) (ensure_joined (insp_sender E) ch)" for f t x ch
    by (simp_all add: insp_sender_def pres inv_pres_push)
  note ops = this
  have "pres (insp_inv k c) (on_db (insp_sender E) (get_group_by_id g))"
    "pres (insp_inv k c) (on_db (insp_sender E) (delete_message i))"
    "pres (insp_inv k c) (on_db (insp_sender E) (get_all_concatenated n rf))" for g i n rf
    unfolding on by (intro inv_pres_store safe)+
  note rules = sender_pres [of "insp_inv k c" "insp_sender E", OF ops this]
  show "pres (insp_inv k c) (process_msg_plain E (insp_sender E) u msg)"
    "pres (insp_inv k c) (process_msg_pdu E (insp_sender E) u msg pd)"
    by (rule rules)+
qed

lemma inv_process_message:
  assumes "decode_ok E"
  shows "pres (insp_inv k c) (process_message E auid msg)"
proof -
  have "pres (insp_inv k c) (set_wa_state E a wa)" for a wa
    by (rule pres_inv_of_ghosts) (rule pres_set_wa_state)
  then show ?thesis
    unfolding process_message_def deliver_message_def switch_mode_def
    by (intro pres inv_pres_push inv_pres_sender insp_base_safe [OF assms, THEN safe_pres])
qed

lemma inv_process_messages: "decode_ok E \<Longrightarrow> pres (insp_inv k c) (insp_process_messages E)"
  unfolding insp_process_messages_def by (intro pres inv_pres_store inv_process_message safe)

lemma inv_process_groups:
  "decode_ok E \<Longrightarrow> ord_ok (ord_addr E) \<Longrightarrow> pres (insp_inv k c) (insp_process_groups E)"
  by (rule safe_pres, rule safe_inv_of_ghosts) (rule safe_process_groups)

lemma inv_drop_contact: "decode_ok E \<Longrightarrow> pres (insp_inv k c) (drop_contact E (insp_cmm E) a)"
proof -
  assume "decode_ok E"
  then have "pres (insp_inv k c) (remove_contact_for (insp_cmm E) a)"
    using remove_contact_for_inv [THEN safe_pres] by (simp add: insp_cmm_def)
  then show ?thesis
    unfolding drop_contact_def safe_cmm_store by (intro pres inv_pres_store safe)
qed

lemma inv_forward_cmd: "pres (insp_inv k c) (insp_forward_cmd E a cmd)"
  by (rule pres_inv_of_ghosts) (rule pres_forward_cmd)

lemma inv_handle_cf:
  assumes "decode_ok E" "ord_ok (ord_addr E)"
  shows "pres (insp_inv k c) (handle_cf_command E cf)"
proof -
  have "pres (insp_inv k c) (forward_cmd (insp_cmm E) a cmd)" "pres (insp_inv k c) (wa_tx_send (insp_cmm E) w)" for a cmd w
    by (simp_all add: insp_cmm_def insp_base_def inv_forward_cmd inv_pres_push)
  then have "pres (insp_inv k c) (forward_cmd_by_nick (insp_cmm E) n cmd)"
    "pres (insp_inv k c) (subscribe_presence_by_nick (insp_cmm E) n)"
    "pres (insp_inv k c) (drop_contact_by_nick E (insp_cmm E) n)" for n cmd
    unfolding forward_cmd_by_nick_def subscribe_presence_by_nick_def drop_contact_by_nick_def
    by (auto intro!: pres inv_drop_contact assms)
  then show ?thesis
    using assms
    by (cases cf) (auto simp: handle_cf_command_def intro!: pres inv_process_messages inv_process_groups
        insp_base_safe [THEN safe_pres] inv_drop_contact inv_forward_cmd)
qed

lemma inv_handle_cb:
  assumes "decode_ok E" "ord_ok (ord_addr E)"
  shows "pres (insp_inv k c) (handle_cb_command E cb)"
  using assms
  by (cases cb) (auto simp: handle_cb_command_def intro!: pres inv_process_groups inv_pres_push)

lemma inv_drains:
  assumes "decode_ok E" "ord_ok (ord_addr E)"
  shows "pres (insp_inv k c) (drain_cb E n)" and "pres (insp_inv k c) (drain_cf E n)"
  by (induction n) (auto intro!: pres pres_modify inv_handle_cb inv_handle_cf assms)

lemma inv_admin_command: "pres (insp_inv k c) (process_admin_command E (insp_control E) mesg)"
proof (rule control_pres)
  have "pres (insp_inv k c) (insp_process_insp E ic)" for ic
    unfolding insp_process_insp_def by (cases ic) (auto intro!: pres inv_pres_push)
  then show "pres (insp_inv k c) (process_insp (insp_control E) ic)" for ic
    by (simp add: insp_control_def)
qed (simp_all add: insp_control_def inv_pres_push)

text \<open>
  A \<open>SQUIT\<close> is harmless when the name of the server is not a prefix of an identifier of our own.
\<close>

definition squit_ok :: "insp_config \<Rightarrow> in_msg \<Rightarrow> bool" where
  "squit_ok c m = (case command m of
      SQUIT server reason \<Rightarrow> \<not> starts_with (sid c @ ''Z'') server \<and> \<not> starts_with server (sid c @ ''Z'')
    | _ \<Rightarrow> True)"

lemma starts_with_linear: "starts_with s p \<Longrightarrow> starts_with s q \<Longrightarrow> starts_with p q \<or> starts_with q p"
  by (metis append_eq_append_conv2 starts_with_iff)

lemma squit_ghost:
  assumes "\<not> starts_with (sid c @ ''Z'') server \<and> \<not> starts_with server (sid c @ ''Z'')"
  shows "\<not> starts_with (ghost_uuid c i) server"
proof
  assume "starts_with (ghost_uuid c i) server"
  moreover have "starts_with (ghost_uuid c i) (sid c @ ''Z'')"
    by (simp add: ghost_uuid_def starts_with_def)
  ultimately show False using starts_with_linear assms by blast
qed

lemma inv_squit:
  assumes "insp_inv k c l" and "k \<longrightarrow> \<not> starts_with (sid c @ ''Z'') server \<and> \<not> starts_with server (sid c @ ''Z'')"
  shows "insp_inv k c (l\<lparr>users := filter (\<lambda>(u, _). \<not> starts_with u server) (users l)\<rparr>)"
proof -
  have wf: "hm_wf (users l)" using assms(1) by (simp add: insp_inv_def)
  have "hm_get (filter (\<lambda>(u, _). \<not> starts_with u server) (users l)) u \<noteq> None"
    if u: "k" "hm_get (contacts_uuid_pdua l) u = Some a" for u a
  proof -
    obtain i where i: "u = ghost_uuid c i" using assms(1) u
      by (auto simp: insp_inv_def)
    obtain x where "hm_get (users l) u = Some x" using assms(1) u by (auto simp: insp_inv_def)
    then show ?thesis
      using squit_ghost [of c server i] assms(2) \<open>k\<close> i by (simp add: hm_get_filter [OF wf])
  qed
  then show ?thesis using assms(1) by (auto simp: insp_inv_def)
qed

lemma inv_update_user:
  "pres (insp_inv k c) (modify (\<lambda>l. case hm_get (users l) pre of
      Some u \<Rightarrow> l\<lparr>users := hm_insert pre (f u) (users l)\<rparr> | None \<Rightarrow> l))"
  by (intro pres_modify) (auto intro: insp_inv_put_user split: option.split)

lemma inv_handle_raw:
  assumes "decode_ok E" "ord_ok (ord_addr E)"
  shows "pres (insp_inv k c) (handle_raw E pre cmd args suffix)"
proof -
  have "pres (insp_inv k c) (on_linked E)" "pres (insp_inv k c) (do_quasiburst E)"
    unfolding on_linked_def do_quasiburst_def
    by (intro pres inv_pres_push inv_pres_store inv_process_groups inv_process_messages assms safe
        insp_base_safe [OF assms(1), THEN safe_pres])+
  then show ?thesis
    unfolding handle_raw_def
    by (intro pres inv_pres_push inv_process_messages inv_update_user pres_modify assms) auto
qed

lemma inv_handle_remote:
  assumes "decode_ok E" "ord_ok (ord_addr E)" and "k \<longrightarrow> squit_ok c m"
  shows "pres (insp_inv k c) (handle_remote_message E m)"
proof -
  have burst: "pres (insp_inv k c) (do_burst E)"
    unfolding do_burst_def
    by (intro pres inv_pres_push pres_make_uid_line)
  have srv: "pres (insp_inv k c) (handle_server E args sf)" for args sf
    unfolding handle_server_def by (intro pres pres_modify burst) auto
  have "pres (insp_inv k c) (handle_unprefixed E cmd)" for cmd
    unfolding handle_unprefixed_def by (cases cmd) (auto intro!: pres srv)
  moreover have "pres (insp_inv k c) (handle_privmsg E pre tgt msg)" for pre tgt msg
    unfolding handle_privmsg_def by (intro pres inv_pres_push inv_admin_command)
  moreover have "pres (insp_inv k c) (modify (\<lambda>l. l\<lparr>users := filter (\<lambda>(u, _). \<not> starts_with u server) (users l)\<rparr>))"
    if "command m = SQUIT server reason" for server reason
    using that assms(3) by (intro pres_modify inv_squit) (auto simp: squit_ok_def)
  ultimately show ?thesis
    unfolding handle_remote_message_def
    by (cases "prefix m"; cases "command m")
      (auto intro!: pres inv_pres_push inv_handle_raw assms(1,2) remove_user_inv [THEN safe_pres]
        split: option.split)
qed

text \<open>The same for a list of events of the connection, and for a whole poll.\<close>

definition event_ok :: "insp_config \<Rightarrow> conn_event \<Rightarrow> bool" where
  "event_ok c ev = (case ev of Received m \<Rightarrow> squit_ok c m | _ \<Rightarrow> True)"

lemma inv_poll:
  assumes "decode_ok E" "ord_ok (ord_addr E)" and "k \<longrightarrow> list_all (event_ok c) evs"
  shows "pres (insp_inv k c) (insp_poll E evs)"
proof -
  have "pres (insp_inv k c) (do_capab_and_server E)"
    unfolding do_capab_and_server_def by (intro pres inv_pres_push)
  moreover have "pres (insp_inv k c) (handle_event E ev)" if "ev \<in> set evs" for ev
    using assms that unfolding handle_event_def
    by (cases ev) (auto intro!: pres inv_handle_remote simp: event_ok_def list_all_iff)
  moreover have "pres (insp_inv k c) (on_field (\<lambda>l. (outbox l, conn l))
      (\<lambda>(ob, k) l. l\<lparr>outbox := ob, conn := k\<rparr>) sink_outbox)"
    by (rule pres_on_field [where Q = "\<lambda>_. True"]) (auto simp: pres_def)
  ultimately show ?thesis
    unfolding insp_poll_def
    by (intro pres pres_modify inv_drains assms(1,2)) auto
qed

lemma insp_inv_new: "insp_inv k c (insp_new c cfq cbq d s t)"
  by (simp add: insp_inv_def insp_new_def contact_uuid_def hm_wf_def)

text \<open>The provided methods do not tell the two records apart.\<close>

lemma insp_selectors:
  "has_contact (insp_cmm E) = insp_has_contact" "has_contact (insp_base E) = insp_has_contact"
  "setup_contact_for (insp_cmm E) = insp_setup_contact_for E"
  "setup_contact_for (insp_base E) = insp_setup_contact_for E"
  "m_tx_send (insp_cmm E) = insp_m_send" "m_tx_send (insp_base E) = insp_m_send"
  "wa_tx_send (insp_cmm E) = insp_wa_send" "wa_tx_send (insp_base E) = insp_wa_send"
  by (simp_all add: insp_cmm_def insp_base_def)

lemma insp_base_cmm:
  "setup_recipient E (insp_cmm E) = setup_recipient E (insp_base E)"
  "request_contact E (insp_cmm E) = request_contact E (insp_base E)"
proof -
  show s: "setup_recipient E (insp_cmm E) = setup_recipient E (insp_base E)"
    by (rule ext) (simp only: setup_recipient_def insp_selectors)
  show "request_contact E (insp_cmm E) = request_contact E (insp_base E)"
    by (rule ext)+ (simp only: request_contact_def s safe_cmm_store insp_selectors)
qed

end
