(* ===== verification/Insp_Protocol.thy ===== *)
theory Insp_Protocol
  imports Insp_Inv
begin

text \<open>
  How the link behaves towards its peer: the state machine of the handshake, the free nick of a new
  ghost, the channels of a ghost, the routing of what the administrator writes, and the two command
  loops.
\<close>

section \<open>Frames\<close>

text \<open>Predicates that do not look at what the group handlers change, or at what any handler of ghosts changes.\<close>

definition group_blind :: "(('t, 'j) insp_link \<Rightarrow> bool) \<Rightarrow> bool" where
  "group_blind P \<longleftrightarrow> (\<forall>l ob d cs tp ct. P l \<longrightarrow>
     P (l\<lparr>outbox := ob\<rparr>) \<and> P (l\<lparr>store := d\<rparr>) \<and> P (l\<lparr>channels := cs\<rparr>) \<and> P (l\<lparr>channel_topics := tp\<rparr>)
     \<and> P (l\<lparr>contacts := ct\<rparr>))"

definition ghost_blind :: "(('t, 'j) insp_link \<Rightarrow> bool) \<Rightarrow> bool" where
  "ghost_blind P \<longleftrightarrow> group_blind P \<and> (\<forall>l us cu n w m cb. P l \<longrightarrow>
     P (l\<lparr>users := us\<rparr>) \<and> P (l\<lparr>contacts_uuid_pdua := cu\<rparr>) \<and> P (l\<lparr>next_user_id := n\<rparr>)
     \<and> P (l\<lparr>wa_tx := w\<rparr>) \<and> P (l\<lparr>m_tx := m\<rparr>) \<and> P (l\<lparr>cb_rx := cb\<rparr>))"

lemma ghost_blind_group: "ghost_blind P \<Longrightarrow> group_blind P"
  by (simp add: ghost_blind_def)

lemma group_frame:
  assumes P: "group_blind P"
  shows "pres P (send m)" "pres P (push_new E pre cm a sf)" "pres P (send_sid_line E cm a sf)"
    "pres P (insp_store st)" "pres P (put_topic ch x)" "pres P (put_contact ad ct)"
    "pres P (insp_control_response E y)" "pres P (contact_message E u kd dst y)"
    "pres P (insp_ensure_joined E ch)"
proof -
  show s: "pres P (send m)" for m
    using P unfolding send_def by (intro pres_modify) (simp add: group_blind_def)
  show p: "pres P (push_new E pre cm a sf)" for pre cm a sf
    unfolding push_new_def by (intro pres s)
  show q: "pres P (send_sid_line E cm a sf)" for cm a sf
    unfolding send_sid_line_def by (intro pres p)
  show "pres P (insp_store st)"
    unfolding insp_store_def
    by (rule pres_on_field [where Q = "\<lambda>_. True"]) (use P in \<open>auto simp: group_blind_def pres_def\<close>)
  show "pres P (put_topic ch x)" "pres P (put_contact ad ct)"
    using P unfolding put_topic_def put_contact_def by (auto simp: group_blind_def intro!: pres_modify)
  show "pres P (insp_control_response E y)"
    unfolding insp_control_response_def by (intro pres p)
  show "pres P (contact_message E u kd dst y)"
    unfolding contact_message_def by (intro pres p)
  show "pres P (insp_ensure_joined E ch)"
    unfolding insp_ensure_joined_def by (intro pres q)
qed

lemma group_frame_groups:
  assumes P: "group_blind P"
  shows "pres P (process_groups_for_recipient E a)" and "pres P (insp_process_groups E)"
proof -
  have ch: "pres P (modify (\<lambda>l. l\<lparr>channels := f l\<rparr>))" for f
    using P by (intro pres_modify) (simp add: group_blind_def)
  show p: "pres P (process_groups_for_recipient E a)" for a
    unfolding process_groups_for_recipient_def join_groups_def part_left_def by (intro pres group_frame [OF P] ch)
  have "pres P (participant_mode E grp part)" "pres P (group_topic E grp)" for grp part
    unfolding participant_mode_def group_topic_def Let_def by (intro pres group_frame [OF P])+
  then show "pres P (insp_process_groups E)"
    unfolding insp_process_groups_def by (intro pres group_frame [OF P] p ch)
qed

lemma group_frame_cb:
  assumes P: "group_blind P"
  shows "pres P (handle_cb_command E cb)"
  by (cases cb) (auto simp: handle_cb_command_def intro!: pres group_frame [OF P] group_frame_groups [OF P])

lemma ghost_frame_steps:
  assumes P: "ghost_blind P"
  shows "pres P (put_user u y)" "pres P (insp_wa_send w)" "pres P (insp_m_send mc)" "pres P (insp_cb_send cb)"
    "pres P (new_user E y)" "pres P (insp_setup_contact_for E r ad)" "pres P (set_wa_state E ad b)"
    "pres P (insp_forward_cmd E ad cmd)"
proof -
  note g = group_frame [OF ghost_blind_group [OF P]] group_frame_groups [OF ghost_blind_group [OF P]]
  show pu: "pres P (put_user u y)" for u y
    using P unfolding put_user_def by (intro pres_modify) (simp add: ghost_blind_def)
  show "pres P (insp_wa_send w)" "pres P (insp_m_send mc)" "pres P (insp_cb_send cb)"
    using P unfolding insp_wa_send_def insp_m_send_def insp_cb_send_def
    by (auto intro!: pres_modify simp: ghost_blind_def)
  have "pres P get_uuid"
    using P unfolding get_uuid_def by (intro pres pres_modify) (simp add: ghost_blind_def)
  then show nu: "pres P (new_user E y)" for y
    unfolding new_user_def by (intro pres pu g pres_make_uid_line)
  show "pres P (insp_setup_contact_for E r ad)"
    using P unfolding insp_setup_contact_for_def choose_nick_def register_ghost_def by (intro pres pres_modify nu g) (simp add: ghost_blind_def)
  show sw: "pres P (set_wa_state E ad b)" for ad b
    using P unfolding set_wa_state_def
    by (intro pres pres_modify g) (auto simp: ghost_blind_def split: option.split)
  have "pres P (insp_change_nick E ad ct st osrc)" for ct st osrc
    unfolding insp_change_nick_def Let_def by (intro pres pu g)
  then show "pres P (insp_forward_cmd E ad cmd)"
    unfolding insp_forward_cmd_def by (cases cmd) (auto intro!: pres g sw)
qed

lemma ghost_frame_messages:
  assumes P: "ghost_blind P" and rq: "\<And>ad src. pres P (request_contact E (insp_base E) ad src)"
  shows "pres P (insp_process_messages E)"
proof -
  note g = group_frame [OF ghost_blind_group [OF P]] group_frame_groups [OF ghost_blind_group [OF P]]
  have "pres P (process_msg_plain E (insp_sender E) u msg)" "pres P (process_msg_pdu E (insp_sender E) u msg pd)"
    for u msg pd
    by (intro sender_pres; simp add: insp_sender_def on_db_def insp_store_def [symmetric] pres g)+
  then have "pres P (process_message E auid msg)" for auid msg
    unfolding process_message_def deliver_message_def switch_mode_def
    by (intro pres g ghost_frame_steps [OF P] rq)
  then show ?thesis
    unfolding insp_process_messages_def by (intro pres g)
qed

lemma ghost_frame:
  assumes P: "ghost_blind P"
  shows "pres P (setup_recipient E (insp_base E) r)" "pres P (request_contact E (insp_base E) ad src)"
    "pres P (query_contact E (insp_base E) ad src)" "pres P (setup_contact E (insp_base E) ad)"
    "pres P (remove_user E u rec)" "pres P (drop_contact E (insp_cmm E) ad)"
    "pres P (insp_process_messages E)" "pres P (handle_cf_command E cf)" "pres P (do_quasiburst E)"
    "pres P (do_burst E)" "pres P (on_linked E)"
proof -
  note g = group_frame [OF ghost_blind_group [OF P]] group_frame_groups [OF ghost_blind_group [OF P]]
  note s = ghost_frame_steps [OF P]
  have db: "pres P (cmm_store (insp_base E) (get_recipient_by_addr_opt E a))" for a
    unfolding safe_cmm_store by (rule g)
  have tx: "pres P (wa_tx_send (insp_base E) w)" "pres P (m_tx_send (insp_base E) mc)"
    "pres P (cb_tx_send (insp_base E) cb)" for w mc cb
    by (simp_all add: insp_base_def s)
  have su: "P (snd (setup_contact_for (insp_base E) r a l))" if "P l" for r a l
    using s(6) that by (simp add: insp_base_def pres_def)
  note base = cmm_base_pres [of P "insp_base E" E, OF db su tx]
  show sr: "pres P (setup_recipient E (insp_base E) r)"
    and rq: "pres P (request_contact E (insp_base E) ad src)"
    and qc: "pres P (query_contact E (insp_base E) ad src)"
    and sc: "pres P (setup_contact E (insp_base E) ad)" for r ad src
    by (rule base; assumption)+
  show ru: "pres P (remove_user E u rec)" for u rec
    using P unfolding remove_user_def
    by (intro pres sc pres_modify) (auto simp: ghost_blind_def group_blind_def)
  have "pres P (insp_remove_contact_for E ad)" for ad
    using P unfolding insp_remove_contact_for_def
    by (intro pres ru g pres_modify) (auto simp: ghost_blind_def group_blind_def)
  then show dc: "pres P (drop_contact E (insp_cmm E) ad)" for ad
    unfolding drop_contact_def safe_cmm_store
    by (intro pres g) (simp add: insp_cmm_def)
  show pm: "pres P (insp_process_messages E)" by (rule ghost_frame_messages [OF P rq])
  show "pres P (handle_cf_command E cf)"
    unfolding handle_cf_command_def forward_cmd_by_nick_def subscribe_presence_by_nick_def
      drop_contact_by_nick_def
    by (cases cf) (auto simp: insp_cmm_def insp_base_def intro!: pres pm g s
        dc [unfolded insp_cmm_def insp_base_def, simplified]
        sc [unfolded insp_base_def] qc [unfolded insp_base_def])
  show "pres P (do_quasiburst E)" unfolding do_quasiburst_def by (intro pres g sr)
  show "pres P (do_burst E)" unfolding do_burst_def by (intro pres g s pres_make_uid_line)
  show "pres P (on_linked E)" unfolding on_linked_def by (intro pres g pm)
qed

section \<open>The command loops end with empty queues\<close>

lemma cb_queue_blind: "group_blind (\<lambda>l. cb_rx l = q)"
  by (simp add: group_blind_def)

lemma cf_queue_blind: "ghost_blind (\<lambda>l. cf_rx l = q)"
  by (simp add: ghost_blind_def group_blind_def)

lemma drain_cb_empties:
  assumes "drain_cb E n l = (Ok (), l')" and "length (cb_rx l) \<le> n"
  shows "cb_rx l' = []"
  using assms
proof (induction n arbitrary: l)
  case 0
  then show ?case by (auto simp: ret_def)
next
  case (Suc n)
  show ?case
  proof (cases "cb_rx l")
    case Nil
    then show ?thesis using Suc.prems by (auto simp: ret_def)
  next
    case (Cons c cs)
    with Suc.prems obtain u l1 where h: "handle_cb_command E c (l\<lparr>cb_rx := cs\<rparr>) = (Ok u, l1)"
      and rest: "drain_cb E n l1 = (Ok (), l')"
      by (auto elim: then_do_OkE)
    have "cb_rx l1 = cs"
      using presD [OF group_frame_cb [OF cb_queue_blind [of cs]] _ h] by simp
    then show ?thesis using Suc.IH [OF rest] Suc.prems(2) Cons by simp
  qed
qed

lemma drain_cf_empties:
  assumes "drain_cf E n l = (Ok (), l')" and "length (cf_rx l) \<le> n"
  shows "cf_rx l' = []"
  using assms
proof (induction n arbitrary: l)
  case 0
  then show ?case by (auto simp: ret_def)
next
  case (Suc n)
  show ?case
  proof (cases "cf_rx l")
    case Nil
    then show ?thesis using Suc.prems by (auto simp: ret_def)
  next
    case (Cons c cs)
    with Suc.prems obtain u l1 where h: "handle_cf_command E c (l\<lparr>cf_rx := cs\<rparr>) = (Ok u, l1)"
      and rest: "drain_cf E n l1 = (Ok (), l')"
      by (auto elim: then_do_OkE)
    have "cf_rx l1 = cs"
      using presD [OF ghost_frame(8) [OF cf_queue_blind [of cs]] _ h] by simp
    then show ?thesis using Suc.IH [OF rest] Suc.prems(2) Cons by simp
  qed
qed

section \<open>The handshake\<close>

text \<open>
  Nothing but the handshake itself changes the state of the link and the name of its peer: every other
  handler keeps any predicate of the configuration, the state and the peer's name.
\<close>

definition not_linked :: "insp_config \<Rightarrow> ('t, 'j) insp_link \<Rightarrow> bool" where
  "not_linked c l \<longleftrightarrow> cfg l = c \<and> remote_sid l = ''XXX'' \<and> state l \<in> {TcpConnected, ServerSent}"

lemma not_linked_blind: "ghost_blind (not_linked c)"
  by (simp add: ghost_blind_def group_blind_def not_linked_def)

text \<open>The message that authenticates the peer, and the one that stands in for it.\<close>

definition good_server :: "insp_config \<Rightarrow> in_msg \<Rightarrow> bool" where
  "good_server c m \<longleftrightarrow> prefix m = None \<and>
     (case command m of
        Raw cmd args suffix \<Rightarrow> cmd = ''SERVER'' \<and> length args = 4 \<and> args ! 1 = recvpass c \<and> args ! 2 = ''0''
      | _ \<Rightarrow> False)"

definition placeholder_endburst :: "in_msg \<Rightarrow> bool" where
  "placeholder_endburst m \<longleftrightarrow> prefix m = Some ''XXX'' \<and>
     (case command m of Raw cmd args suffix \<Rightarrow> cmd = ''ENDBURST'' | _ \<Rightarrow> False)"

lemma admin_command_frame:
  assumes P: "ghost_blind P" and cf: "\<And>l q. P l \<Longrightarrow> P (l\<lparr>cf_rx := q\<rparr>)"
  shows "pres P (process_admin_command E (insp_control E) mesg)"
proof (rule control_pres)
  note g = group_frame [OF ghost_blind_group [OF P]]
  have "pres P (insp_process_insp E ic)" for ic
    unfolding insp_process_insp_def by (cases ic) (auto intro!: pres g)
  then show "pres P (process_insp (insp_control E) ic)" for ic by (simp add: insp_control_def)
  show "pres P (cf_send (insp_control E) cm)" for cm
    using cf by (simp add: insp_control_def insp_cf_send_def pres_modify)
qed (simp_all add: insp_control_def ghost_frame_steps [OF P] group_frame [OF ghost_blind_group [OF P]])

lemma modify_user_frame:
  "ghost_blind P \<Longrightarrow> pres P (modify (\<lambda>l. case hm_get (users l) pre of
      Some u \<Rightarrow> l\<lparr>users := f l u\<rparr> | None \<Rightarrow> l))"
  by (rule pres_modify) (auto simp: ghost_blind_def split: option.split)

lemma not_linked_unprefixed:
  assumes "\<not> good_server c m" and "prefix m = None"
  shows "pres (not_linked c) (handle_unprefixed E (command m))"
proof (cases "command m")
  case (Raw cmd args suffix)
  show ?thesis
  proof (cases "cmd = ''SERVER''")
    case True
    have "not_linked c (snd (handle_server E args suffix l))" if "not_linked c l" for l :: "('a, 'b) insp_link"
      using assms Raw True that
      by (auto simp: handle_server_def good_server_def not_linked_def and_then_def gets_def err_def)
    then show ?thesis using Raw True by (simp add: handle_unprefixed_def pres_def)
  qed (use Raw in \<open>simp add: handle_unprefixed_def pres\<close>)
qed (simp_all add: handle_unprefixed_def pres)

lemma not_linked_raw:
  assumes "\<not> placeholder_endburst m" and "prefix m = Some pre" "command m = Raw cmd args suffix"
  shows "pres (not_linked c) (handle_raw E pre cmd args suffix)"
proof (cases "cmd = ''ENDBURST''")
  case True
  have "not_linked c (snd (handle_raw E pre cmd args suffix l))" if "not_linked c l" for l :: "('a, 'b) insp_link"
    using assms True that
    by (auto simp: handle_raw_def placeholder_endburst_def not_linked_def and_then_def gets_def ret_def)
  then show ?thesis by (simp add: pres_def)
next
  case False
  note P = not_linked_blind [of c]
  show ?thesis
    using False unfolding handle_raw_def
    by (auto intro!: pres group_frame [OF ghost_blind_group [OF P]] ghost_frame [OF P] ghost_frame_steps [OF P]
        modify_user_frame [OF P])
qed

lemma not_linked_remote:
  assumes "\<not> good_server c m" and "\<not> placeholder_endburst m"
  shows "pres (not_linked c) (handle_remote_message E m)"
proof -
  let ?P = "not_linked c"
  note P = not_linked_blind [of c]
  note g = group_frame [OF ghost_blind_group [OF P]]
  have ad: "pres ?P (process_admin_command E (insp_control E) mesg)" for mesg
    by (rule admin_command_frame [OF P]) (simp add: not_linked_def)
  then have pm: "pres ?P (handle_privmsg E pre tgt msg)" for pre tgt msg
    unfolding handle_privmsg_def by (intro pres ghost_frame_steps [OF P])
  have sq: "pres ?P (modify (\<lambda>l. l\<lparr>users := f l\<rparr>))" for f
    by (rule pres_modify) (simp add: not_linked_def)
  show ?thesis
  proof (cases "prefix m")
    case None
    then show ?thesis using not_linked_unprefixed [OF assms(1)] by (simp add: handle_remote_message_def)
  next
    case (Some pre)
    then show ?thesis
      unfolding handle_remote_message_def
      by (cases "command m") (auto intro!: pres g pm sq not_linked_raw [OF assms(2)] ghost_frame [OF P] split: option.split)
  qed
qed

definition unauthenticated :: "insp_config \<Rightarrow> conn_event \<Rightarrow> bool" where
  "unauthenticated c ev = (case ev of
      Received m \<Rightarrow> \<not> good_server c m \<and> \<not> placeholder_endburst m
    | _ \<Rightarrow> True)"

lemma not_linked_poll:
  assumes "list_all (unauthenticated c) evs"
  shows "pres (not_linked c) (insp_poll E evs)"
proof -
  note P = not_linked_blind [of c]
  note g = group_frame [OF ghost_blind_group [OF P]]
  have capab: "pres (not_linked c) (do_capab_and_server E)"
    unfolding do_capab_and_server_def by (intro pres g)
  have ss: "pres (not_linked c) (modify (\<lambda>l. l\<lparr>state := ServerSent\<rparr>))"
    by (rule pres_modify) (simp add: not_linked_def)
  have ev: "pres (not_linked c) (handle_event E ev)" if "ev \<in> set evs" for ev
    using assms that unfolding handle_event_def
    by (cases ev) (auto intro!: pres not_linked_remote simp: unauthenticated_def list_all_iff)
  have sk: "pres (not_linked c) (on_field (\<lambda>l. (outbox l, conn l))
      (\<lambda>(ob, k) l. l\<lparr>outbox := ob, conn := k\<rparr>) sink_outbox)"
    by (rule pres_on_field [where Q = "\<lambda>_. True"]) (auto simp: pres_def not_linked_def)
  have drains: "pres (not_linked c) (if st = Linked then then_do (and_then (gets (length \<circ> cb_rx)) (drain_cb E))
               (and_then (gets (length \<circ> cf_rx)) (drain_cf E)) else ret ())" for st
  proof -
    have "pres (not_linked c) (drain_cb E n)" "pres (not_linked c) (drain_cf E n)" for n
      by (induction n) (auto intro!: pres pres_modify group_frame_cb [OF ghost_blind_group [OF P]]
          ghost_frame [OF P] simp: not_linked_def)
    then show ?thesis by (intro pres)
  qed
  show ?thesis
    unfolding insp_poll_def by (intro pres capab ss ev sk drains)
qed

section \<open>Nicks\<close>

text \<open>The loop finds the first number that makes the nick free.\<close>

lemma collision_nick_first:
  "\<exists>i \<ge> k. collision_nick l nick k = nick @ show_nat i \<and> \<not> nick_exists l (nick @ show_nat i) \<and>
     (\<forall>j. k \<le> j \<and> j < i \<longrightarrow> nick_exists l (nick @ show_nat j))"
proof (induction l nick k rule: collision_nick.induct)
  case (1 l nick idx)
  show ?case
  proof (cases "nick_exists l (nick @ show_nat idx)")
    case True
    obtain i where i: "i \<ge> idx + 1" "collision_nick l nick (idx + 1) = nick @ show_nat i"
      "\<not> nick_exists l (nick @ show_nat i)"
      "\<forall>j. idx + 1 \<le> j \<and> j < i \<longrightarrow> nick_exists l (nick @ show_nat j)"
      using 1 [OF refl True] by blast
    have "nick_exists l (nick @ show_nat j)" if "idx \<le> j" "j < i" for j
      using that True i(4) by (cases "j = idx") auto
    moreover have "collision_nick l nick idx = nick @ show_nat i"
      using True i(2) by (subst collision_nick.simps) simp
    ultimately show ?thesis using i(1,3) by (intro exI [of _ i]) auto
  next
    case False
    then have "collision_nick l nick idx = nick @ show_nat idx" by (subst collision_nick.simps) simp
    with False show ?thesis by (intro exI [of _ idx]) auto
  qed
qed

lemma not_nick_existsD: "\<not> nick_exists l n \<Longrightarrow> hm_get (users l) u = Some x \<Longrightarrow> u_nick x \<noteq> n"
  by (auto simp: nick_exists_def list_ex_iff dest: map_of_SomeD)

lemma chosen_nick_free:
  "(case check_nick_for_collisions l nick of Some n \<Rightarrow> n | None \<Rightarrow> nick) = n \<Longrightarrow> \<not> nick_exists l n"
  using collision_nick_first [of 0 l nick]
  by (auto simp: check_nick_for_collisions_def split: if_splits)

lemma users_blind_group: "group_blind (\<lambda>l. users l = us)"
  by (simp add: group_blind_def)

lemma register_ghost_users: "register_ghost E a wa u l = (r, l') \<Longrightarrow> users l' = users l"
proof -
  have "pres (\<lambda>l'. users l' = users l) (register_ghost E a wa u)"
    unfolding register_ghost_def
    by (intro pres pres_modify group_frame_groups group_frame users_blind_group) auto
  then show "register_ghost E a wa u l = (r, l') \<Longrightarrow> users l' = users l" by (rule presD) simp
qed

text \<open>A new ghost shares its nick with no other user, and never has the administrator's nick.\<close>

lemma setup_contact_for_nick:
  assumes inv: "insp_inv k c l" and a: "contact_uuid l a = None"
    and res: "insp_setup_contact_for E r a l = (Ok (), l')"
  shows "\<exists>u x. contact_uuid l' a = Some u \<and> hm_get (users l') u = Some x \<and> u_ours x \<and>
     u_nick x \<noteq> admin_nick c \<and>
     (\<forall>v y. v \<noteq> u \<longrightarrow> hm_get (users l') v = Some y \<longrightarrow> u_nick y \<noteq> u_nick x)"
proof -
  from res obtain n l1 u l2 where s1: "choose_nick E a (r_nick r) l = (Ok n, l1)"
    and s2: "new_user E (new_from_recipient E (clock l1) a n (host_for_wa (r_whatsapp r) l)) l1 = (Ok u, l2)"
    and s3: "register_ghost E a (r_whatsapp r) u l2 = (Ok (), l')"
    unfolding insp_setup_contact_for_def by (auto simp: gets_def elim!: and_then_OkE)
  let ?x = "new_from_recipient E (clock l1) a n (host_for_wa (r_whatsapp r) l)"
  note cn = choose_nick_result [OF s1] and nr = new_user_result [OF s2, of k c]
  have l1: "insp_inv k c l1" "contact_uuid l1 a = None" "users l1 = users l"
    using cn inv a by auto
  have "cfg l1 = c" using l1(1) by (simp add: insp_inv_def)
  have "contact_uuid l' a = Some u"
    using register_ghost_result [OF _ _ _ _ _ _ s3, of k c "next_user_id l1"] nr l1 \<open>cfg l1 = c\<close>
      new_user_fresh [OF l1(1) s2] by (auto simp: hm_get_insert contact_uuid_def)
  moreover have users: "users l' = hm_insert u ?x (users l)"
    using register_ghost_users [OF s3] nr l1 by simp
  moreover have free: "\<not> nick_exists l n" using chosen_nick_free cn by blast
  moreover have "n \<noteq> admin_nick c" using free inv by (auto simp: nick_exists_def insp_inv_def)
  ultimately show ?thesis
    using not_nick_existsD [OF free]
    by (intro exI [of _ u] exI [of _ ?x])
      (auto simp: hm_get_insert new_from_recipient_def split: if_splits)
qed

section \<open>The channels of a ghost\<close>

definition join_line :: "string \<Rightarrow> string \<Rightarrow> irc_msg" where
  "join_line u ch = \<lparr>im_prefix = Some u, im_command = ''JOIN'', im_args = [ch], im_suffix = None\<rparr>"

definition part_line :: "string \<Rightarrow> string \<Rightarrow> irc_msg" where
  "part_line u ch = \<lparr>im_prefix = Some u, im_command = ''PART'', im_args = [ch], im_suffix = Some ''Left group''\<rparr>"

lemma push_new_Ok:
  "push_new E u cm as sf l = (Ok (), l') \<Longrightarrow>
     l' = l\<lparr>outbox := outbox l @ [\<lparr>im_prefix = Some u, im_command = cm, im_args = as, im_suffix = sf\<rparr>]\<rparr>"
  by (simp add: push_new_result split: if_splits)

lemma join_groups_Ok:
  "join_groups E u grps l = (Ok (), l') \<Longrightarrow>
   l' = l\<lparr>outbox := outbox l @ map (join_line u) (map g_channel grps),
          channels := channels l \<union> set (map g_channel grps)\<rparr>"
proof (induction grps arbitrary: l)
  case (Cons g gs)
  then obtain l1 where j: "push_new E u ''JOIN'' [g_channel g] None l = (Ok (), l1)"
    and rest: "join_groups E u gs (l1\<lparr>channels := insert (g_channel g) (channels l1)\<rparr>) = (Ok (), l')"
    by (auto simp: join_groups_def modify_iff elim!: then_do_OkE)
  show ?case using Cons.IH [OF rest] push_new_Ok [OF j] by (simp add: join_line_def)
qed (simp add: join_groups_def ret_iff)

lemma part_left_Ok:
  "part_left E u keep old l = (Ok (), l') \<Longrightarrow>
   l' = l\<lparr>outbox := outbox l @ map (part_line u) (filter (\<lambda>ch. ch \<notin> set keep) old)\<rparr>"
proof (induction old arbitrary: l)
  case (Cons c cs)
  then obtain l1 where
    p: "(if c \<in> set keep then ret () else push_new E u ''PART'' [c] (Some ''Left group'')) l = (Ok (), l1)"
    and rest: "part_left E u keep cs l1 = (Ok (), l')"
    by (auto simp: part_left_def elim!: then_do_OkE)
  have "l1 = (if c \<in> set keep then l else l\<lparr>outbox := outbox l @ [part_line u c]\<rparr>)"
    using p by (auto simp: part_line_def ret_iff dest!: push_new_Ok split: if_splits)
  then show ?case using Cons.IH [OF rest] by auto
qed (simp add: part_left_def ret_iff)

text \<open>
  What a successful run leaves: the ghost's channels are those of its groups and the log channel, it
  joins them all and leaves exactly the old ones that are no longer among them.
\<close>

lemma process_groups_for_recipient_Ok:
  assumes "process_groups_for_recipient E a l = (Ok (), l')" and ct: "hm_get (contacts l) a = Some ct"
  shows "\<exists>grps d chans.
     get_groups_for_recipient E a (store l) = (Ok grps, d) \<and>
     chans = with_log (map g_channel grps) (log_chan (cfg l)) \<and>
     l' = l\<lparr>store := d,
        outbox := outbox l @ map (join_line (c_uuid ct)) chans
          @ map (part_line (c_uuid ct)) (filter (\<lambda>ch. ch \<notin> set chans) (c_channels ct)),
        channels := channels l \<union> set (map g_channel grps),
        contacts := hm_insert a (ct\<lparr>c_channels := chans\<rparr>) (contacts l)\<rparr>"
proof -
  let ?u = "c_uuid ct" and ?lc = "log_chan (cfg l)"
  from assms obtain grps l1 l2 l3 where
    s1: "insp_store (get_groups_for_recipient E a) l = (Ok grps, l1)"
    and s2: "join_groups E ?u grps l1 = (Ok (), l2)"
    and s3: "(if log_chan (cfg l2) \<in> set (map g_channel grps) then ret ()
       else push_new E ?u ''JOIN'' [log_chan (cfg l2)] None) l2 = (Ok (), l3)"
    and s4: "part_left E ?u (with_log (map g_channel grps) (log_chan (cfg l2))) (c_channels ct)
        (l3\<lparr>contacts := hm_insert a (ct\<lparr>c_channels := with_log (map g_channel grps) (log_chan (cfg l2))\<rparr>)
           (contacts l3)\<rparr>) = (Ok (), l')"
    by (auto simp: process_groups_for_recipient_def put_contact_def gets_def modify_iff
        elim!: and_then_OkE then_do_OkE)
  obtain d where d: "get_groups_for_recipient E a (store l) = (Ok grps, d)" "l1 = l\<lparr>store := d\<rparr>"
    using s1 by (auto simp: insp_store_def on_field_def split: prod.splits)
  note l2 = join_groups_Ok [OF s2]
  have l3: "l3 = l2\<lparr>outbox := outbox l2 @ (if ?lc \<in> set (map g_channel grps) then [] else [join_line ?u ?lc])\<rparr>"
    using s3 l2 d(2) by (auto simp: join_line_def ret_iff dest!: push_new_Ok split: if_splits)
  show ?thesis
    using d l2 l3 part_left_Ok [OF s4]
    by (intro exI [of _ grps] exI [of _ d] exI [of _ "with_log (map g_channel grps) ?lc"])
      (simp add: with_log_def)
qed

section \<open>Where a line of the administrator goes\<close>

datatype 't destination = ToControl | ToGroup | ToGhost "'t pdu_address" bool | Nowhere

text \<open>What the target of a line names, in the order the code looks it up.\<close>

definition destination_of :: "('t, 'j) insp_link \<Rightarrow> string \<Rightarrow> 't destination" where
  "destination_of l tgt =
     (if tgt = control_uuid l then ToControl
      else if tgt \<in> channels l then ToGroup
      else (case hm_get (contacts_uuid_pdua l) tgt of
          None \<Rightarrow> Nowhere
        | Some a \<Rightarrow> (case hm_get (contacts l) a of None \<Rightarrow> Nowhere | Some ct \<Rightarrow> ToGhost a (c_wa_mode ct))))"

definition routed_wa :: "('t, 'j) ext \<Rightarrow> 't destination \<Rightarrow> string \<Rightarrow> string \<Rightarrow> ('t, 'j) whatsapp_command list" where
  "routed_wa E dst tgt msg = (case dst of
      ToControl \<Rightarrow> option_list admin_wa (line_command E msg)
    | ToGroup \<Rightarrow> [SendGroupMessage tgt msg]
    | ToGhost a wa \<Rightarrow> if wa then [SendDirectMessage a msg] else []
    | Nowhere \<Rightarrow> [])"

definition routed_m :: "('t, 'j) ext \<Rightarrow> 't destination \<Rightarrow> string \<Rightarrow> 't modem_command list" where
  "routed_m E dst msg = (case dst of
      ToControl \<Rightarrow> option_list admin_m (line_command E msg)
    | ToGhost a wa \<Rightarrow> if wa then [] else [SendMessage a msg]
    | _ \<Rightarrow> [])"

definition routed_cf :: "('t, 'j) ext \<Rightarrow> 't destination \<Rightarrow> string \<Rightarrow> 't contact_factory_command list" where
  "routed_cf E dst msg = (case dst of
      ToControl \<Rightarrow> option_list admin_cf (line_command E msg)
    | _ \<Rightarrow> [])"

lemma privmsg_routing:
  assumes "handle_remote_message E \<lparr>prefix = Some p, command = PRIVMSG tgt msg\<rparr> l = (r, l')"
  shows "admin_uuid E l \<noteq> Some p \<longrightarrow> r = Ok () \<and> l' = l"
    and "admin_uuid E l = Some p \<longrightarrow>
      wa_tx l' = wa_tx l @ routed_wa E (destination_of l tgt) tgt msg \<and>
      m_tx l' = m_tx l @ routed_m E (destination_of l tgt) msg \<and>
      cf_rx l' = cf_rx l @ routed_cf E (destination_of l tgt) msg"
proof -
  have h: "handle_privmsg E p tgt msg l = (r, l')"
    using assms by (simp add: handle_remote_message_def)
  show "admin_uuid E l \<noteq> Some p \<longrightarrow> r = Ok () \<and> l' = l"
    using h by (auto simp: handle_privmsg_def ret_iff and_then_def gets_def)
  show "admin_uuid E l = Some p \<longrightarrow>
      wa_tx l' = wa_tx l @ routed_wa E (destination_of l tgt) tgt msg \<and>
      m_tx l' = m_tx l @ routed_m E (destination_of l tgt) msg \<and>
      cf_rx l' = cf_rx l @ routed_cf E (destination_of l tgt) msg"
  proof (cases "tgt = control_uuid l")
    case True
    have "ictl.logs (snd (process_admin_command E (insp_control E) msg l)) =
     (cf_rx l @ option_list admin_cf (line_command E msg),
      wa_tx l @ option_list admin_wa (line_command E msg),
      m_tx l @ option_list admin_m (line_command E msg))" by (rule ictl.process_logs)
    then show ?thesis
      using h True
      by (auto simp: handle_privmsg_def and_then_def gets_def ictl.logs_def destination_of_def
          routed_wa_def routed_m_def routed_cf_def)
  next
    case False
    then show ?thesis
      using h
      by (auto simp: handle_privmsg_def and_then_def gets_def destination_of_def routed_wa_def
          routed_m_def routed_cf_def insp_wa_send_def insp_m_send_def modify_iff ret_iff
          split: option.splits if_splits)
  qed
qed

section \<open>Replies go out on the transport of the last message\<close>

lemma contacts_keep:
  "pres (\<lambda>l. contacts l = C) (insp_store st)"
  "pres (\<lambda>l. contacts l = C) (push_new E u cm as sf)"
  "pres (\<lambda>l. contacts l = C) (contact_message E u kd dst y)"
  "pres (\<lambda>l. contacts l = C) (insp_ensure_joined E ch)"
proof -
  show p: "pres (\<lambda>l. contacts l = C) (push_new E u cm as sf)" for u cm as sf
    by (auto simp: pres_def push_new_result)
  show "pres (\<lambda>l. contacts l = C) (insp_store st)"
    unfolding insp_store_def by (rule pres_on_field [where Q = "\<lambda>_. True"]) (auto simp: pres_def)
  show "pres (\<lambda>l. contacts l = C) (contact_message E u kd dst y)"
    unfolding contact_message_def by (intro pres p)
  show "pres (\<lambda>l. contacts l = C) (insp_ensure_joined E ch)"
    unfolding insp_ensure_joined_def send_sid_line_def by (intro pres p)
qed

lemma contacts_keep_sender:
  "pres (\<lambda>l. contacts l = C) (process_msg_plain E (insp_sender E) u msg)"
  "pres (\<lambda>l. contacts l = C) (process_msg_pdu E (insp_sender E) u msg pd)"
  by (intro sender_pres; simp add: insp_sender_def on_db_def insp_store_def [symmetric] pres contacts_keep)+

lemma set_wa_state_mode:
  assumes "set_wa_state E a wa l = (Ok (), l')"
  shows "\<exists>ct. hm_get (contacts l) a = Some ct \<and> contacts l' = hm_insert a (ct\<lparr>c_wa_mode := wa\<rparr>) (contacts l)"
proof -
  from assms obtain ct where ct: "hm_get (contacts l) a = Some ct"
    by (auto simp: set_wa_state_def gets_def panic_def elim!: and_then_OkE split: option.splits)
  let ?C = "hm_insert a (ct\<lparr>c_wa_mode := wa\<rparr>) (contacts l)"
  let ?m = "then_do (insp_store (update_recipient_wa E a wa))
           (and_then (gets (host_for_wa wa)) (\<lambda>host.
           then_do (push_new E (c_uuid ct) ''FHOST'' [host] None)
             (modify (\<lambda>l. case hm_get (users l) (c_uuid ct) of
                 Some u \<Rightarrow> l\<lparr>users := hm_insert (c_uuid ct) (u\<lparr>u_displayed_hostname := host\<rparr>) (users l)\<rparr>
               | None \<Rightarrow> l))))"
  have keep: "pres (\<lambda>l. contacts l = ?C) ?m"
    by (intro pres contacts_keep pres_modify) (simp split: option.split)
  have run: "?m (l\<lparr>contacts := ?C\<rparr>) = (Ok (), l')"
    using assms ct by (simp add: set_wa_state_def put_contact_def)
  have "contacts l' = ?C" by (rule presD [OF keep _ run]) simp
  with ct show ?thesis by blast
qed

lemma switch_mode_result:
  assumes "switch_mode E auid a ct wa nt l = (Ok (), l')" and "hm_get (contacts l) a = Some ct"
  shows "\<exists>ct'. hm_get (contacts l') a = Some ct' \<and> c_wa_mode ct' = wa"
proof (cases "c_wa_mode ct = wa")
  case True
  then show ?thesis using assms by (auto simp: switch_mode_def ret_iff)
next
  case False
  with assms(1) obtain l1 where s1: "set_wa_state E a wa l = (Ok (), l1)"
    and s2: "contact_message E (c_uuid ct) ''NOTICE'' auid nt l1 = (Ok (), l')"
    by (auto simp: switch_mode_def elim!: then_do_OkE)
  have "contacts l' = contacts l1" using contact_message_result [OF s2] by auto
  then show ?thesis using set_wa_state_mode [OF s1] by (auto simp: hm_get_insert)
qed

lemma deliver_message_mode:
  assumes "deliver_message E auid msg a ct l = (Ok (), l')" and "hm_get (contacts l) a = Some ct"
  shows "\<exists>ct'. hm_get (contacts l') a = Some ct' \<and> c_wa_mode ct' = (m_pdu msg = None)"
proof (cases "m_pdu msg")
  case None
  with assms(1) obtain l1 where s1: "switch_mode E auid a ct True ''Notice: WhatsApp mode automatically enabled.'' l = (Ok (), l1)"
    and s2: "process_msg_plain E (insp_sender E) (c_uuid ct) msg l1 = (Ok (), l')"
    by (auto simp: deliver_message_def elim!: then_do_OkE)
  show ?thesis
    using switch_mode_result [OF s1 assms(2)] presD [OF contacts_keep_sender(1) refl s2] None by simp
next
  case (Some raw)
  with assms(1) obtain p l1 where s1: "switch_mode E auid a ct False ''Notice: SMS mode automatically enabled.'' l = (Ok (), l1)"
    and s2: "process_msg_pdu E (insp_sender E) (c_uuid ct) msg p l1 = (Ok (), l')"
    by (auto simp: deliver_message_def err_def elim!: then_do_OkE split: option.splits)
  show ?thesis
    using switch_mode_result [OF s1 assms(2)] presD [OF contacts_keep_sender(2) refl s2] Some by simp
qed

lemma process_message_mode:
  assumes "process_message E auid msg l = (Ok (), l')" and "get_addr E (m_phone_number msg) = Ok a"
    and "hm_get (contacts l') a = Some ct"
  shows "c_wa_mode ct = (m_pdu msg = None)"
proof -
  from assms(1,2) obtain go l1 where
    go: "(if insp_has_contact a l then ret True else request_contact E (insp_base E) a (m_source msg)) l = (Ok go, l1)"
    and rest: "(if \<not> go then ret () else and_then (gets (\<lambda>l. hm_get (contacts l) a)) (\<lambda>co. case co of
           None \<Rightarrow> panic | Some ct \<Rightarrow> deliver_message E auid msg a ct)) l1 = (Ok (), l')"
    by (auto simp: process_message_def lift_def gets_def elim!: and_then_OkE)
  show ?thesis
  proof (cases go)
    case True
    then obtain ct1 where "hm_get (contacts l1) a = Some ct1" "deliver_message E auid msg a ct1 l1 = (Ok (), l')"
      using rest by (auto simp: panic_def split: option.splits)
    then show ?thesis using deliver_message_mode assms(3) by fastforce
  next
    case False
    then have "\<not> insp_has_contact a l" and req: "request_contact E (insp_cmm E) a (m_source msg) l = (Ok False, l1)"
      using go by (auto simp: insp_base_cmm ret_iff split: if_splits)
    then have "\<not> insp_has_contact a l1"
      using icm.request_contact_unknown [OF req]
      by (simp add: insp_cmm_def insp_base_def)
    then show ?thesis using rest False assms(3) by (auto simp: ret_iff insp_has_contact_def)
  qed
qed

end
