(* ===== verification/Db_Ok.thy ===== *)
theory Db_Ok
  imports Sender_Common
begin

text \<open>
  What all components that share the database rely on: besides its integrity, that the stored parts of
  longer messages can be read and the JIDs of the groups parsed. Which operation keeps it is shown once.
\<close>

section \<open>A property of every message and every group\<close>

definition rows_ok :: "(message \<Rightarrow> bool) \<Rightarrow> (group \<Rightarrow> bool) \<Rightarrow> db \<Rightarrow> bool" where
  "rows_ok pm pg d \<longleftrightarrow> list_all pm (messages d) \<and> list_all pg (groups d)"

lemma fault_blind_rows [simp]: "fault_blind (rows_ok pm pg)"
  by (simp add: fault_blind_def rows_ok_def)

text \<open>Queries, deletions and whatever concerns recipients and the WhatsApp session keep it.\<close>

lemmas rows_reads =
  pres_reads [OF fault_blind_rows] pres_get_group_by_id [OF fault_blind_rows]
  pres_get_groups_for_recipient [OF fault_blind_rows]

lemma rows_writes:
  "pres (rows_ok pm pg) (update_recipient_notify E a ntf)" "pres (rows_ok pm pg) (update_recipient_nick E a nk src)"
  "pres (rows_ok pm pg) (update_recipient_wa E a wa)" "pres (rows_ok pm pg) (delete_recipient_with_addr E a)"
  "pres (rows_ok pm pg) (store_recipient E a nk)" "pres (rows_ok pm pg) (store_wa_recipient E a nk ntf src)"
  "pres (rows_ok pm pg) (store_wa_msgid mid)" "pres (rows_ok pm pg) (store_wa_persistence p)"
  "pres (rows_ok pm pg) (delete_message i)" "pres (rows_ok pm pg) (delete_group_with_id i)"
  unfolding update_recipient_notify_def update_recipient_nick_def update_recipient_wa_def update_recipients_def
    delete_recipient_with_addr_def store_recipient_def store_wa_recipient_def store_wa_msgid_def
    store_wa_persistence_def delete_message_def delete_group_with_id_def
  by (rule pres_with_conn;
      auto simp: pres_def modify_def insert_recipient_def Let_def rows_ok_def list_all_iff)+

text \<open>New rows have to have the property.\<close>

lemma rows_insert:
  assumes "\<And>i. pm (m\<lparr>m_id := i\<rparr>)"
  shows "pres (rows_ok pm pg) (insert_message m)"
  using assms by (auto simp: pres_def insert_message_def Let_def rows_ok_def)

lemma rows_store_sms:
  assumes "\<And>i t. pm \<lparr>m_id = i, m_phone_number = normalize_address E a, m_pdu = Some pd, m_csms_data = csms,
      m_group_target = None, m_text = None, m_source = SOURCE_SMS, m_ts = t\<rparr>"
  shows "pres (rows_ok pm pg) (store_sms_message E a pd csms)"
proof -
  have "pres (rows_ok pm pg) (\<lambda>d. insert_message
       \<lparr>m_id = 0, m_phone_number = normalize_address E a, m_pdu = Some pd, m_csms_data = csms,
        m_group_target = None, m_text = None, m_source = SOURCE_SMS, m_ts = db_clock d\<rparr> d)"
    by (rule presI, rule pres_snd [OF rows_insert]) (simp_all add: assms)
  then show ?thesis
    unfolding store_sms_message_def by (rule pres_with_conn) (simp add: rows_ok_def)
qed

lemma rows_store_wa:
  assumes "\<And>i. pm \<lparr>m_id = i, m_phone_number = normalize_address E a, m_pdu = None, m_csms_data = None,
      m_group_target = gt, m_text = Some txt, m_source = SOURCE_WA, m_ts = ts\<rparr>"
  shows "pres (rows_ok pm pg) (store_wa_message E a txt gt ts)"
  unfolding store_wa_message_def
  by (rule pres_with_conn, rule rows_insert) (simp_all add: assms rows_ok_def)

lemma rows_store_group:
  assumes "\<And>i. pg \<lparr>g_id = i, g_jid = jid_to_string E j, g_channel = c, g_participants = ps, g_admins = as, g_topic = t\<rparr>"
  shows "pres (rows_ok pm pg) (store_group E j c ps as t)"
  unfolding store_group_def
  by (rule pres_with_conn) (auto simp: pres_def Let_def rows_ok_def assms)

lemma rows_update_group:
  assumes "\<And>g. pg g \<Longrightarrow> pg (g\<lparr>g_participants := ps, g_admins := as, g_topic := t\<rparr>)"
  shows "pres (rows_ok pm pg) (update_group E j ps as t)"
  unfolding update_group_def
  by (rule pres_with_conn) (auto simp: pres_def Let_def rows_ok_def list_all_iff assms split: option.split)

section \<open>The database the components share\<close>

definition group_parses :: "('t, 'j) ext \<Rightarrow> group \<Rightarrow> bool" where
  "group_parses E g \<longleftrightarrow> jid_parse E (g_jid g) \<noteq> None"

definition db_ok :: "('t, 'j) ext \<Rightarrow> db \<Rightarrow> bool" where
  "db_ok E d \<longleftrightarrow> db_inv d \<and> rows_ok (part_ok E) (group_parses E) d"

lemma db_ok_parts: "db_ok E d \<Longrightarrow> parts_ok E d"
  by (simp add: db_ok_def rows_ok_def parts_ok_def)

lemma fault_blind_db_ok [simp]: "fault_blind (db_ok E)"
  using fault_blind_inv fault_blind_rows [of "part_ok E" "group_parses E"] by (simp add: fault_blind_def db_ok_def)

lemma db_ok_pres: "pres db_inv m \<Longrightarrow> pres (rows_ok (part_ok E) (group_parses E)) m \<Longrightarrow> pres (db_ok E) m"
  unfolding db_ok_def by (rule pres_conj)

lemma db_ok_guarded: "pres (db_ok E) m \<Longrightarrow> safe (\<lambda>_. True) m \<Longrightarrow> guarded True (db_ok E) m"
  by (rule guarded_of_quiet)

lemmas db_ok_reads =
  pres_reads [OF fault_blind_db_ok] pres_get_group_by_id [OF fault_blind_db_ok]
  pres_get_groups_for_recipient [OF fault_blind_db_ok]

lemma db_ok_writes:
  "pres (db_ok E) (update_recipient_notify E a ntf)" "pres (db_ok E) (update_recipient_nick E a nk src)"
  "pres (db_ok E) (update_recipient_wa E a wa)" "pres (db_ok E) (delete_recipient_with_addr E a)"
  "pres (db_ok E) (store_recipient E a nk)" "pres (db_ok E) (store_wa_recipient E a nk ntf src)"
  "pres (db_ok E) (store_wa_msgid mid)" "pres (db_ok E) (store_wa_persistence p)"
  "pres (db_ok E) (delete_message i)" "pres (db_ok E) (delete_group_with_id i)"
  "pres (db_ok E) (store_wa_message E a txt gt ts)" "pres (db_ok E) (update_group E j ps as t)"
  by (intro db_ok_pres pres rows_writes rows_store_wa rows_update_group; simp add: part_ok_def group_parses_def)+

text \<open>
  A group is stored under the JID that is printed for it; an SMS with its PDU and the reference that
  is read from it.
\<close>

lemma db_ok_store_group: "jid_ok E \<Longrightarrow> pres (db_ok E) (store_group E j c ps as t)"
  by (intro db_ok_pres pres rows_store_group) (simp add: group_parses_def jid_ok_def)

lemma db_ok_store_sms:
  assumes "deliver_try_from E raw = Some p"
    and "csms = (case decode_message p of
      Inr m \<Rightarrow> map_option (\<lambda>c. int (reference c)) (concatenated m) | Inl e \<Rightarrow> None)"
  shows "pres (db_ok E) (store_sms_message E a raw csms)"
  by (intro db_ok_pres pres rows_store_sms) (use assms in \<open>auto simp: part_ok_def split: sum.splits\<close>)

end
