(* ===== verification/Link_Ok.thy ===== *)
theory Link_Ok
  imports Insp_Inv Db_Ok
begin

text \<open>
  The InspIRCd link among the other components: what it keeps of the shared database, what it sends to
  the modem, and that no poll of it panics where the peer behaves.
\<close>

section \<open>The database and the commands for the modem\<close>

definition link_db :: "('t, 'j) ext \<Rightarrow> ('t, 'j) insp_link \<Rightarrow> bool" where
  "link_db E l \<longleftrightarrow> db_ok E (store l) \<and> no_listing (m_tx l)"

lemma link_db_simps [simp]:
  "link_db E (l\<lparr>outbox := ob\<rparr>) = link_db E l" "link_db E (l\<lparr>channels := cs\<rparr>) = link_db E l"
  "link_db E (l\<lparr>channel_topics := tp\<rparr>) = link_db E l" "link_db E (l\<lparr>remote_sid := rs\<rparr>) = link_db E l"
  "link_db E (l\<lparr>state := st\<rparr>) = link_db E l" "link_db E (l\<lparr>wa_tx := w\<rparr>) = link_db E l"
  "link_db E (l\<lparr>cf_rx := f\<rparr>) = link_db E l" "link_db E (l\<lparr>cb_rx := b\<rparr>) = link_db E l"
  "link_db E (l\<lparr>conn := cn\<rparr>) = link_db E l" "link_db E (l\<lparr>users := us\<rparr>) = link_db E l"
  "link_db E (l\<lparr>contacts := ct\<rparr>) = link_db E l" "link_db E (l\<lparr>contacts_uuid_pdua := cu\<rparr>) = link_db E l"
  "link_db E (l\<lparr>next_user_id := n\<rparr>) = link_db E l" "link_db E (l\<lparr>clock := t\<rparr>) = link_db E l"
  by (simp_all add: link_db_def)

lemma db_push:
  "pres (link_db E) (send m)" "pres (link_db E) (push_new E' pre cm a sf)"
  "pres (link_db E) (send_sid_line E' cm a sf)" "pres (link_db E) (insp_control_response E' x)"
  "pres (link_db E) (contact_message E' u kd dst x)" "pres (link_db E) (insp_ensure_joined E' ch)"
  by (rule safe_pres, (rule safe_send safe_push_new safe_send_sid_line safe_control_response
        safe_contact_message safe_ensure_joined); simp)+

lemma db_steps:
  "pres (link_db E) (put_user u y)" "pres (link_db E) (put_topic ch tp)" "pres (link_db E) (put_contact a ct)"
  "pres (link_db E) (insp_wa_send w)" "pres (link_db E) (insp_cf_send cf)" "pres (link_db E) (insp_cb_send cb)"
  "(\<forall>ms. mc \<noteq> CmglComplete ms) \<Longrightarrow> pres (link_db E) (insp_m_send mc)"
  "pres (link_db E) (make_uid_line E' u)" "pres (link_db E) get_uuid"
  by (auto simp: put_user_def put_topic_def put_contact_def insp_wa_send_def insp_cf_send_def insp_cb_send_def
      insp_m_send_def get_uuid_def pres_make_uid_line intro!: pres pres_modify) (simp add: link_db_def)

lemma db_store: "pres (db_ok E) m \<Longrightarrow> pres (link_db E) (insp_store m)"
  unfolding insp_store_def by (rule pres_on_field) (simp_all add: link_db_def)

lemmas db_rules = db_push db_steps db_store db_ok_reads db_ok_writes

lemma db_update_user:
  "pres (link_db E) (modify (\<lambda>l. case hm_get (users l) u of
      Some x \<Rightarrow> l\<lparr>users := hm_insert u (f x) (users l)\<rparr> | None \<Rightarrow> l))"
  by (intro pres_modify) (simp split: option.split)

section \<open>Ghosts, groups and messages\<close>

lemma db_pgfr: "pres (link_db E) (process_groups_for_recipient E a)"
  unfolding process_groups_for_recipient_def join_groups_def part_left_def
  by (intro pres db_rules pres_modify) simp

lemma db_process_groups: "pres (link_db E) (insp_process_groups E)"
  unfolding insp_process_groups_def participant_mode_def group_topic_def Let_def
  by (intro pres db_rules db_pgfr pres_modify) simp

lemma db_setup_for: "pres (link_db E) (insp_setup_contact_for E r a)"
  unfolding insp_setup_contact_for_def choose_nick_def new_user_def register_ghost_def
  by (intro pres db_rules db_pgfr pres_modify) simp

lemma db_base:
  "pres (link_db E) (setup_recipient E (insp_base E) r)" "pres (link_db E) (request_contact E (insp_base E) a src)"
  "pres (link_db E) (query_contact E (insp_base E) a src)" "pres (link_db E) (setup_contact E (insp_base E) a)"
proof -
  have db: "pres (link_db E) (cmm_store (insp_base E) (get_recipient_by_addr_opt E b))" for b
    unfolding safe_cmm_store by (intro db_rules)
  have su: "link_db E (snd (setup_contact_for (insp_base E) r' b l))" if "link_db E l" for r' b l
    using pres_snd [OF db_setup_for that] by (simp add: insp_base_def)
  have tx: "pres (link_db E) (wa_tx_send (insp_base E) w)" "pres (link_db E) (m_tx_send (insp_base E) (ModemMakeContact b))"
    "pres (link_db E) (cb_tx_send (insp_base E) cb)" for w cb b
    by (simp_all add: insp_base_def db_steps)
  show "pres (link_db E) (setup_recipient E (insp_base E) r)"
    "pres (link_db E) (request_contact E (insp_base E) a src)"
    "pres (link_db E) (query_contact E (insp_base E) a src)" "pres (link_db E) (setup_contact E (insp_base E) a)"
    by (rule cmm_base_pres [of "link_db E" "insp_base E" E, OF db su tx]; assumption)+
qed

lemma db_remove_user: "pres (link_db E) (remove_user E u recreate)"
  unfolding remove_user_def by (intro pres db_base pres_modify) simp_all

lemma db_drop: "pres (link_db E) (drop_contact E (insp_cmm E) a)"
proof -
  have "pres (link_db E) (remove_contact_for (insp_cmm E) b)" for b
    unfolding insp_cmm_def cmm.simps insp_remove_contact_for_def
    by (intro pres db_rules db_remove_user pres_modify) simp
  then show ?thesis
    unfolding drop_contact_def safe_cmm_store by (intro pres db_rules)
qed

lemma db_set_wa: "pres (link_db E) (set_wa_state E a wa)"
  unfolding set_wa_state_def by (intro pres db_rules db_update_user)

lemma db_forward: "pres (link_db E) (insp_forward_cmd E a cmd)"
  unfolding insp_forward_cmd_def insp_change_nick_def Let_def
  by (cases cmd) (auto intro!: pres db_rules db_set_wa)

lemma db_sender:
  "pres (link_db E) (process_msg_plain E (insp_sender E) u msg)"
  "pres (link_db E) (process_msg_pdu E (insp_sender E) u msg pd)"
proof -
  have on: "on_db (insp_sender E) = insp_store" by (simp add: on_db_def insp_sender_def insp_store_def)
  have ops: "pres (link_db E) (report_error (insp_sender E) f x)" "pres (link_db E) (private_target (insp_sender E))"
    "pres (link_db E) (send_irc_message (insp_sender E) f t x)" "pres (link_db E) (ensure_joined (insp_sender E) ch)"
    for f t x ch
    by (simp_all add: insp_sender_def pres db_push)
  have dbs: "pres (link_db E) (on_db (insp_sender E) (get_group_by_id g))"
    "pres (link_db E) (on_db (insp_sender E) (delete_message i))"
    "pres (link_db E) (on_db (insp_sender E) (get_all_concatenated n rf))" for g i n rf
    unfolding on by (intro db_rules)+
  show "pres (link_db E) (process_msg_plain E (insp_sender E) u msg)"
    "pres (link_db E) (process_msg_pdu E (insp_sender E) u msg pd)"
    by (rule sender_pres [OF ops dbs])+
qed

lemma db_messages: "pres (link_db E) (process_message E auid msg)"
  unfolding process_message_def deliver_message_def switch_mode_def
  by (intro pres db_rules db_sender db_base db_set_wa)

lemma db_process_messages: "pres (link_db E) (insp_process_messages E)"
  unfolding insp_process_messages_def by (intro pres db_rules db_messages)

section \<open>Every handler\<close>

lemma db_handle_cf: "pres (link_db E) (handle_cf_command E cf)"
proof -
  have fc: "pres (link_db E) (forward_cmd (insp_cmm E) a cmd)" "pres (link_db E) (wa_tx_send (insp_cmm E) w)" for a cmd w
    by (simp_all add: insp_cmm_def db_forward db_steps)
  have by_nick: "pres (link_db E) (forward_cmd_by_nick (insp_cmm E) n cmd)"
    "pres (link_db E) (subscribe_presence_by_nick (insp_cmm E) n)"
    "pres (link_db E) (drop_contact_by_nick E (insp_cmm E) n)" for n cmd
    unfolding forward_cmd_by_nick_def subscribe_presence_by_nick_def drop_contact_by_nick_def
    by (intro pres fc db_drop)+
  show ?thesis
    by (cases cf) (simp_all add: handle_cf_command_def pres db_process_messages db_process_groups db_base
        db_drop db_forward by_nick)
qed

lemma db_handle_cb: "pres (link_db E) (handle_cb_command E cb)"
  unfolding handle_cb_command_def
  by (cases cb) (auto intro!: pres db_process_groups db_push)

lemma db_drains: "pres (link_db E) (drain_cb E n)" "pres (link_db E) (drain_cf E n)"
  by (induction n) (auto intro!: pres pres_modify db_handle_cb db_handle_cf)

lemma db_admin: "pres (link_db E) (process_admin_command E (insp_control E) x)"
proof -
  have "pres (\<lambda>l. db_ok E (store l)) (process_admin_command E (insp_control E) x)"
  proof -
    have P: "pres (\<lambda>l. db_ok E (store l)) (push_new E pre cm a sf)" for pre cm a sf
      by (auto simp: pres_def push_new_result)
    then have r: "pres (\<lambda>l. db_ok E (store l)) (insp_control_response E y)" for y
      unfolding insp_control_response_def by (intro pres)
    then have "pres (\<lambda>l. db_ok E (store l)) (insp_process_insp E ic)" for ic
      unfolding insp_process_insp_def send_def by (cases ic) (auto intro!: pres pres_modify)
    with r show ?thesis
      by (intro control_pres)
        (simp_all add: insp_control_def insp_wa_send_def insp_cf_send_def insp_m_send_def pres_modify)
  qed
  moreover have "pres (\<lambda>l. no_listing (m_tx l)) (process_admin_command E (insp_control E) x)"
    by (rule presI) (use ictl.process_logs [of E E x] admin_m_no_listing [of E x] in \<open>simp add: ictl.logs_def\<close>)
  ultimately have "pres (\<lambda>l. db_ok E (store l) \<and> no_listing (m_tx l)) (process_admin_command E (insp_control E) x)"
    by (rule pres_conj)
  then show ?thesis by (simp add: link_db_def [abs_def])
qed

lemma db_handle_raw: "pres (link_db E) (handle_raw E pre cmd args suffix)"
proof -
  have "pres (link_db E) (on_linked E)" "pres (link_db E) (do_quasiburst E)"
    unfolding on_linked_def do_quasiburst_def
    by (intro pres db_rules db_process_groups db_process_messages db_base)+
  then show ?thesis
    unfolding handle_raw_def
    by (intro pres db_rules db_process_messages db_update_user pres_modify) simp_all
qed

lemma db_handle_remote: "pres (link_db E) (handle_remote_message E m)"
proof -
  have burst: "pres (link_db E) (do_burst E)"
    unfolding do_burst_def by (intro pres db_rules)
  have "pres (link_db E) (handle_server E args sf)" for args sf
    unfolding handle_server_def by (intro pres burst pres_modify) simp_all
  then have "pres (link_db E) (handle_unprefixed E cmd)" for cmd
    unfolding handle_unprefixed_def by (cases cmd) (auto intro!: pres)
  moreover have "pres (link_db E) (handle_privmsg E pre tgt x)" for pre tgt x
    unfolding handle_privmsg_def by (intro pres db_rules db_admin) simp
  moreover have "pres (link_db E) (modify (\<lambda>l. l\<lparr>users := f l\<rparr>))" for f
    by (intro pres_modify) simp
  ultimately show ?thesis
    unfolding handle_remote_message_def
    by (cases "prefix m"; cases "command m")
      (auto intro!: pres db_push db_handle_raw db_remove_user split: option.split)
qed

lemma db_poll: "pres (link_db E) (insp_poll E evs)"
proof -
  have "pres (link_db E) (do_capab_and_server E)"
    unfolding do_capab_and_server_def by (intro pres db_rules)
  moreover have "pres (link_db E) (handle_event E ev)" for ev
    unfolding handle_event_def by (cases ev) (auto intro!: pres db_handle_remote)
  moreover have "pres (link_db E) (on_field (\<lambda>l. (outbox l, conn l))
      (\<lambda>(ob, k) l. l\<lparr>outbox := ob, conn := k\<rparr>) sink_outbox)"
    by (rule pres_on_field [where Q = "\<lambda>_. True"]) (auto simp: pres_def)
  ultimately show ?thesis
    unfolding insp_poll_def by (intro pres pres_modify db_drains) simp_all
qed

section \<open>No panic\<close>

definition link_ok :: "('t, 'j) ext \<Rightarrow> insp_config \<Rightarrow> ('t, 'j) insp_link \<Rightarrow> bool" where
  "link_ok E c l \<longleftrightarrow> insp_inv True c l \<and> link_db E l"

lemma link_guarded: "safe (insp_inv True c) m \<Longrightarrow> pres (link_db E) m \<Longrightarrow> guarded b (link_ok E c) m"
  by (auto simp: guarded_def safe_def pres_def link_ok_def)

lemma insp_inv_clock [simp]: "insp_inv k c (l\<lparr>clock := t\<rparr>) = insp_inv k c l"
  by (simp add: insp_inv_def contact_uuid_def)

text \<open>The line that is a command whose parser panics, and the greeting without a description.\<close>

definition upsetting :: "conn_event \<Rightarrow> bool" where
  "upsetting ev \<longleftrightarrow> (\<exists>m. ev = Received m \<and>
     ((\<exists>t x. command m = PRIVMSG t x \<and> bare_raw x) \<or>
      prefix m = None \<and> (\<exists>args. command m = Raw ''SERVER'' args None)))"

interpretation iqs: quiet_sender "insp_sender E" "\<lambda>f t x. (f, t, x)" insp_sent "insp_private_target E" for E :: "('t, 'j) ext"
proof
  fix f x ch :: string and s :: "('t, 'j) insp_link"
  show "fst (report_error (insp_sender E) f x s) \<noteq> Panic"
    using safe_no_panic [OF safe_contact_message [where P = "\<lambda>_. True"]] by (simp add: insp_sender_def)
  show "fst (ensure_joined (insp_sender E) ch s) \<noteq> Panic"
    using safe_no_panic [OF safe_ensure_joined [where P = "\<lambda>_. True"]] by (simp add: insp_sender_def)
qed

text \<open>Delivering a message to a contact that is there.\<close>

lemma link_sender:
  "m_text msg \<noteq> None \<Longrightarrow> guarded b (link_ok E c) (process_msg_plain E (insp_sender E) u msg)"
  "guarded b (link_ok E c) (process_msg_pdu E (insp_sender E) u msg pd)"
proof -
  have kept: "link_ok E c (snd (process_msg_plain E (insp_sender E) u msg l))"
    "link_ok E c (snd (process_msg_pdu E (insp_sender E) u msg pd l))" if "link_ok E c l" for l
    using that unfolding link_ok_def
    by (blast intro: pres_snd [OF inv_pres_sender(1)] pres_snd [OF inv_pres_sender(2)]
      pres_snd [OF db_sender(1)] pres_snd [OF db_sender(2)])+
  then show "m_text msg \<noteq> None \<Longrightarrow> guarded b (link_ok E c) (process_msg_plain E (insp_sender E) u msg)"
    by (intro guardedI conjI impI iqs.plain_no_panic)
  have "parts_ok E (sender_db (insp_sender E) l)" if "link_ok E c l" for l
    using that by (simp add: link_ok_def link_db_def db_ok_parts insp_sender_def)
  with kept show "guarded b (link_ok E c) (process_msg_pdu E (insp_sender E) u msg pd)"
    by (intro guardedI conjI impI iqs.pdu_no_panic)
qed

lemma link_switch_mode:
  assumes "link_ok E c l" and "hm_get (contacts l) a \<noteq> None"
  shows "link_ok E c (snd (switch_mode E auid a ct wa x l)) \<and> fst (switch_mode E auid a ct wa x l) \<noteq> Panic"
proof -
  have ghosts: "same_ghosts (contact_uuid l) True c l"
    using assms(1) by (simp add: same_ghosts_def link_ok_def)
  have "contact_uuid l a \<noteq> None" using assms(2) by (simp add: contact_uuid_def)
  then have "safe (same_ghosts (contact_uuid l) True c) (switch_mode E auid a ct wa x)"
    unfolding switch_mode_def by (intro safe safe_set_wa_state)
  with ghosts have "insp_inv True c (snd (switch_mode E auid a ct wa x l)) \<and> fst (switch_mode E auid a ct wa x l) \<noteq> Panic"
    by (auto simp: safe_def same_ghosts_def)
  moreover have "pres (link_db E) (switch_mode E auid a ct wa x)"
    unfolding switch_mode_def by (intro pres db_set_wa db_push)
  ultimately show ?thesis using assms(1) by (simp add: link_ok_def pres_def)
qed

lemma link_deliver:
  assumes "link_ok E c l" and "hm_get (contacts l) a \<noteq> None" and "m_pdu msg = None \<longrightarrow> m_text msg \<noteq> None"
  shows "link_ok E c (snd (deliver_message E auid msg a ct l)) \<and> fst (deliver_message E auid msg a ct l) \<noteq> Panic"
proof -
  have seq: "link_ok E c (snd (then_do (switch_mode E auid a ct wa x) m l)) \<and>
      fst (then_do (switch_mode E auid a ct wa x) m l) \<noteq> Panic"
    if "guarded True (link_ok E c) m" for wa x and m :: "(('a, 'b) insp_link, unit) comp"
    using link_switch_mode [OF assms(1,2), of auid ct wa x] guardedD [OF that]
    by (auto simp: then_do_def and_then_def split: prod.split outcome.split)
  show ?thesis
  proof (cases "m_pdu msg")
    case None
    then show ?thesis using seq [OF link_sender(1)] assms(3) by (simp add: deliver_message_def)
  next
    case (Some raw)
    then show ?thesis
      using seq [OF link_sender(2)] assms(1) by (cases "deliver_try_from E raw") (simp_all add: deliver_message_def err_def)
  qed
qed

text \<open>A message: the request answers yes only when the contact is there afterwards.\<close>

lemma link_process_message:
  fixes E :: "('t, 'j) ext"
  assumes "decode_ok E" "hex_ok E" "ton_ok E" and "m_pdu msg = None \<longrightarrow> m_text msg \<noteq> None"
  shows "guarded True (link_ok E c) (process_message E auid msg)"
proof -
  have one: "guarded True (link_ok E c) (and_then (and_then (gets (insp_has_contact a))
      (\<lambda>has. if has then ret True else request_contact E (insp_base E) a (m_source msg))) (\<lambda>go.
        if \<not> go then ret ()
        else and_then (gets (\<lambda>l. hm_get (contacts l) a)) (\<lambda>co. case co of
            None \<Rightarrow> panic | Some ct \<Rightarrow> deliver_message E auid msg a ct)))" (is "guarded True _ (and_then ?ask ?go)") for a
  proof (rule guarded_and_then_post [where R = "\<lambda>go l. go \<longrightarrow> hm_get (contacts l) a \<noteq> None"])
    show "guarded True (link_ok E c) ?ask"
      by (intro guarded_and_then guarded_basic guarded_rules(4) link_guarded insp_base_safe db_base assms(1))
    show "go \<longrightarrow> hm_get (contacts l') a \<noteq> None" if "link_ok E c l" "?ask l = (Ok go, l')" for l go and l' :: "('t, 'j) insp_link"
      using that(2) icm.request_contact_has [OF assms(2,3), of a "m_source msg" l l']
      by (auto simp: ret_def insp_has_contact_def insp_base_cmm insp_selectors split: if_splits)
    show "link_ok E c (snd (?go go l)) \<and> (True \<longrightarrow> fst (?go go l) \<noteq> Panic)"
      if "link_ok E c l" "go \<longrightarrow> hm_get (contacts l) a \<noteq> None" for go and l :: "('t, 'j) insp_link"
      using that link_deliver [of E c l a msg auid] assms(4) by (cases go) (auto simp: ret_def)
  qed
  show ?thesis
    unfolding process_message_def
    by (intro guarded_and_then [OF guarded_lift] get_addr_no_panic [OF assms(1)])
      (use one in \<open>simp only: and_then_assoc\<close>)
qed

text \<open>The messages a query returns are rows of the database.\<close>

lemma all_messages_rows:
  assumes "insp_store get_all_messages l = (Ok ms, l')"
  shows "set ms = set (messages (store l))"
  using assms
  by (auto simp: insp_store_def on_field_def get_all_messages_def with_conn_def gets_def by_ts_id_def
      split: list.splits if_splits prod.splits)

lemma link_process_messages:
  fixes E :: "('t, 'j) ext"
  assumes "decode_ok E" "hex_ok E" "ton_ok E"
  shows "guarded True (link_ok E c) (insp_process_messages E)"
proof -
  let ?R = "\<lambda>ms (l :: ('t, 'j) insp_link). \<forall>m \<in> set ms. m_pdu m = None \<longrightarrow> m_text m \<noteq> None"
  have "guarded True (link_ok E c) (and_then (insp_store get_all_messages) (\<lambda>ms. for_each ms (process_message E u)))" for u
  proof (rule guarded_and_then_post [where R = ?R])
    show "guarded True (link_ok E c) (insp_store get_all_messages)"
      by (intro link_guarded safe db_rules)
    show "?R ms l'" if "link_ok E c l" "insp_store get_all_messages l = (Ok ms, l')" for l ms and l' :: "('t, 'j) insp_link"
      using that(1) all_messages_rows [OF that(2)]
      by (auto simp: link_ok_def link_db_def db_ok_def db_inv_def list_all_iff message_ok_iff)
    show "link_ok E c (snd (for_each ms (process_message E u) l)) \<and>
        (True \<longrightarrow> fst (for_each ms (process_message E u) l) \<noteq> Panic)" if "link_ok E c l" "?R ms l" for ms l
      by (rule guarded_at [where P = "link_ok E c"], rule that(1), intro guarded link_process_message assms)
        (use that(2) in blast)
  qed
  then show ?thesis
    unfolding insp_process_messages_def by (intro guarded_gets_then guarded_rules(5) guarded_basic(1))
qed

section \<open>A whole poll\<close>

lemma safe_handle_cf:
  assumes "decode_ok E" "ord_ok (ord_addr E)" "cf \<noteq> ProcessMessages"
  shows "safe (insp_inv True c) (handle_cf_command E cf)"
proof -
  have fc: "safe (insp_inv True c) (insp_forward_cmd E a cmd)" for a cmd
    by (rule safe_inv_of_ghosts) (rule safe_forward_cmd)
  have dc: "safe (insp_inv True c) (drop_contact E (insp_cmm E) a)" for a
    unfolding drop_contact_def safe_cmm_store using remove_contact_for_inv [OF assms(1)]
    by (intro safe) (simp add: insp_cmm_def)
  have fn: "safe (insp_inv True c) (forward_cmd_by_nick (insp_cmm E) n cmd)" for n cmd
    unfolding forward_cmd_by_nick_def using fc
    by (intro safe) (simp add: insp_cmm_def)
  have sn: "safe (insp_inv True c) (subscribe_presence_by_nick (insp_cmm E) n)" for n
    unfolding subscribe_presence_by_nick_def insp_selectors by (intro safe)
  have dn: "safe (insp_inv True c) (drop_contact_by_nick E (insp_cmm E) n)" for n
    unfolding drop_contact_by_nick_def by (intro safe dc)
  have pg: "safe (insp_inv True c) (insp_process_groups E)"
    by (rule safe_inv_of_ghosts) (rule safe_process_groups [OF assms(1,2)])
  show ?thesis
    using assms(3)
    by (cases cf) (simp_all add: handle_cf_command_def pg fc dc fn sn dn safe insp_base_safe [OF assms(1)])
qed

definition link_lib :: "('t, 'j) ext \<Rightarrow> bool" where
  "link_lib E \<longleftrightarrow> decode_ok E \<and> hex_ok E \<and> ton_ok E \<and> ord_ok (ord_addr E)"

lemma link_process_groups:
  "decode_ok E \<Longrightarrow> ord_ok (ord_addr E) \<Longrightarrow> guarded b (link_ok E c) (insp_process_groups E)"
  by (intro link_guarded safe_inv_of_ghosts safe_process_groups db_process_groups)

lemma link_commands:
  assumes "link_lib E"
  shows "guarded True (link_ok E c) (handle_cf_command E cf)" "guarded True (link_ok E c) (handle_cb_command E cb)"
proof -
  have lib: "decode_ok E" "hex_ok E" "ton_ok E" "ord_ok (ord_addr E)" using assms by (simp_all add: link_lib_def)
  show "guarded True (link_ok E c) (handle_cf_command E cf)"
  proof (cases "cf = ProcessMessages")
    case True
    then show ?thesis using link_process_messages [OF lib(1-3)] by (simp add: handle_cf_command_def)
  next
    case False
    then show ?thesis by (intro link_guarded safe_handle_cf db_handle_cf lib)
  qed
  have "safe (insp_inv True c) (handle_cb_command E cb)" if "cb \<noteq> CbProcessGroups"
    using that by (cases cb) (auto simp: handle_cb_command_def intro!: safe)
  then show "guarded True (link_ok E c) (handle_cb_command E cb)"
    using link_process_groups [OF lib(1,4)] link_guarded [OF _ db_handle_cb]
    by (cases "cb = CbProcessGroups") (simp_all add: handle_cb_command_def [of E CbProcessGroups])
qed

lemma link_drains:
  assumes "link_lib E"
  shows "guarded True (link_ok E c) (drain_cb E n)" "guarded True (link_ok E c) (drain_cf E n)"
proof -
  have "link_ok E c (l\<lparr>cb_rx := cs\<rparr>) = link_ok E c l" "link_ok E c (l\<lparr>cf_rx := cs'\<rparr>) = link_ok E c l" for cs cs' l
    by (simp_all add: link_ok_def)
  then show "guarded True (link_ok E c) (drain_cb E n)" "guarded True (link_ok E c) (drain_cf E n)"
    by (induction n) (auto intro!: guarded guarded_modify link_commands assms split: list.split)
qed

lemma guarded_list:
  "guarded b P m \<Longrightarrow> (\<And>x ys. guarded b P (f x ys)) \<Longrightarrow> guarded b P (case xs of [] \<Rightarrow> m | x # ys \<Rightarrow> f x ys)"
  by (cases xs) simp_all

lemma link_raw:
  assumes "link_lib E"
  shows "guarded True (link_ok E c) (handle_raw E pre cmd args suffix)"
proof -
  have lib: "decode_ok E" "hex_ok E" "ton_ok E" "ord_ok (ord_addr E)" using assms by (simp_all add: link_lib_def)
  have st: "guarded True (link_ok E c) (modify (\<lambda>l. l\<lparr>state := Linked\<rparr>))"
    by (rule guarded_modify) (simp add: link_ok_def)
  have push: "guarded True (link_ok E c) (push_new E p cm a sf)" for p cm a sf
    by (intro link_guarded safe db_push)
  have "guarded True (link_ok E c) (do_quasiburst E)"
    unfolding do_quasiburst_def
    by (intro guarded link_guarded safe insp_base_safe db_base db_rules lib)
  moreover have "guarded True (link_ok E c) (on_linked E)"
    unfolding on_linked_def by (intro guarded push link_process_groups link_process_messages lib)
  moreover have "guarded True (link_ok E c) (modify (\<lambda>l. case hm_get (users l) pre of
      Some u \<Rightarrow> l\<lparr>users := hm_insert pre (f u) (users l)\<rparr> | None \<Rightarrow> l))" for f
    by (intro guarded_modify) (auto simp: link_ok_def intro: insp_inv_put_user split: option.split)
  moreover have "guarded True (link_ok E c) (lift (new_from_uid_line args suffix))"
    by (rule guarded_lift) (auto simp: new_from_uid_line_def split: option.splits if_splits)
  moreover have "guarded True (link_ok E c) (put_user u x)" "guarded True (link_ok E c) (put_topic ch tp)" for u x ch tp
    by (intro link_guarded safe db_steps)+
  moreover have "guarded True (link_ok E c) (insp_process_messages E)"
    by (rule link_process_messages [OF lib(1-3)])
  ultimately show ?thesis
    unfolding handle_raw_def by (intro guarded guarded_list st)
qed

lemma link_server:
  "guarded (sf \<noteq> None) (link_ok E c) (handle_server E args sf)"
proof -
  have "safe (insp_inv True c) (make_uid_line E u)" for u
    unfolding safe_def by (metis make_uid_line_state prod.collapse)
  then have "safe (insp_inv True c) (do_burst E)"
    unfolding do_burst_def by (intro safe)
  moreover have "pres (link_db E) (do_burst E)"
    unfolding do_burst_def by (intro pres db_rules)
  ultimately have "guarded (sf \<noteq> None) (link_ok E c) (do_burst E)" by (rule link_guarded)
  then show ?thesis
    unfolding handle_server_def
    by (intro guarded guarded_panic guarded_modify) (simp_all add: link_ok_def)
qed

lemma link_privmsg:
  "guarded (\<not> bare_raw x) (link_ok E c) (handle_privmsg E pre tgt x)"
proof -
  have "guarded (\<not> bare_raw x) (link_ok E c) (process_admin_command E (insp_control E) x)"
  proof (rule guardedI)
    fix l assume "link_ok E c l"
    then have "link_ok E c (snd (process_admin_command E (insp_control E) x l))"
      unfolding link_ok_def by (blast intro: pres_snd [OF inv_admin_command] pres_snd [OF db_admin])
    then show "link_ok E c (snd (process_admin_command E (insp_control E) x l)) \<and>
        (\<not> bare_raw x \<longrightarrow> fst (process_admin_command E (insp_control E) x l) \<noteq> Panic)"
      using ictl.panics_on_raw [of E E x l] by simp
  qed
  moreover have "guarded (\<not> bare_raw x) (link_ok E c) (insp_wa_send w)"
    "guarded (\<not> bare_raw x) (link_ok E c) (insp_m_send (SendMessage a y))" for w a y
    by (rule link_guarded; intro safe db_steps; simp)+
  ultimately show ?thesis
    unfolding handle_privmsg_def by (intro guarded)
qed

lemma link_remote:
  assumes "link_lib E" and "squit_ok c m"
  shows "guarded (\<not> upsetting (Received m)) (link_ok E c) (handle_remote_message E m)"
proof (rule guardedI)
  let ?b = "\<not> upsetting (Received m)"
  have lib: "decode_ok E" "ord_ok (ord_addr E)" using assms(1) by (simp_all add: link_lib_def)
  fix l assume l: "link_ok E c l"
  have "fst (handle_remote_message E m l) \<noteq> Panic" if ?b
  proof (cases "prefix m")
    case None
    have "handle_unprefixed E (command m) l = (r, l') \<Longrightarrow> r \<noteq> Panic" for r l'
      using guarded_at [OF l link_server] that None
      by (cases "command m") (auto simp: handle_unprefixed_def err_def ret_def upsetting_def split: if_splits, metis fst_conv)
    then show ?thesis using None by (cases "handle_unprefixed E (command m) l") (simp add: handle_remote_message_def)
  next
    case (Some pre)
    have inv: "insp_inv True c l" using l by (simp add: link_ok_def)
    have raw: "fst (handle_raw E pre cmd args sf l) \<noteq> Panic" for cmd args sf
      using guarded_at [OF l link_raw [OF assms(1)]] by simp
    have pm: "fst (handle_privmsg E pre t x l) \<noteq> Panic" if "command m = PRIVMSG t x" for t x
      using guarded_at [OF l link_privmsg] \<open>?b\<close> that by (auto simp: upsetting_def)
    have ru: "fst (remove_user E u True l) \<noteq> Panic" for u
      using remove_user_inv [OF lib(1), of True c u True] inv by (simp add: safe_def)
    have pong: "fst (send_sid_line E ''PONG'' a None l) \<noteq> Panic" for a
      using safe_no_panic [OF safe_inv_push(3) inv] .
    show ?thesis
      using Some raw pm ru pong
      by (cases "command m") (simp_all add: handle_remote_message_def ret_def err_def modify_def split: option.split)
  qed
  moreover have "link_ok E c (snd (handle_remote_message E m l))"
    using l pres_snd [OF inv_handle_remote [OF lib]] assms(2) pres_snd [OF db_handle_remote]
    unfolding link_ok_def by blast
  ultimately show "link_ok E c (snd (handle_remote_message E m l)) \<and>
      (?b \<longrightarrow> fst (handle_remote_message E m l) \<noteq> Panic)" by blast
qed

lemma link_poll_guarded:
  assumes "link_lib E" and "list_all (event_ok c) evs"
  shows "guarded (\<not> list_ex upsetting evs) (link_ok E c) (insp_poll E evs)"
proof -
  let ?b = "\<not> list_ex upsetting evs"
  have weak: "guarded True P m \<Longrightarrow> guarded ?b P m" for P and m :: "(('a, 'b) insp_link, 'c) comp"
    by (simp add: guarded_def)
  have ev: "guarded ?b (link_ok E c) (handle_event E ev)" if "ev \<in> set evs" for ev
  proof (cases ev)
    case (Received m)
    have "squit_ok c m" using assms(2) that Received by (auto simp: list_all_iff event_ok_def)
    from link_remote [OF assms(1) this] show ?thesis
      using that Received by (auto simp: handle_event_def guarded_def list_ex_iff)
  qed (simp_all add: handle_event_def guarded)
  have "guarded ?b (link_ok E c) (do_capab_and_server E)"
    unfolding do_capab_and_server_def by (intro guarded link_guarded safe db_push)
  moreover have "guarded ?b (link_ok E c) (on_field (\<lambda>l. (outbox l, conn l))
      (\<lambda>(ob, k) l. l\<lparr>outbox := ob, conn := k\<rparr>) sink_outbox)"
    by (rule guarded_on_field [where Q = "\<lambda>_. True"])
      (auto simp: guarded_def pres_def safe_def safe_no_panic [OF quiet_sink_outbox] link_ok_def)
  moreover have "guarded ?b (link_ok E c) (drain_cb E n)" "guarded ?b (link_ok E c) (drain_cf E n)" for n
    by (intro weak link_drains assms(1))+
  moreover have "guarded ?b (link_ok E c) (modify (\<lambda>l. l\<lparr>state := ServerSent\<rparr>))"
    by (rule guarded_modify) (simp add: link_ok_def)
  ultimately show ?thesis
    unfolding insp_poll_def by (intro guarded ev)
qed

end
