(* ===== verification/Link_Properties.thy ===== *)
theory Link_Properties
  imports Insp_Protocol Link_Ok Instance
begin

text \<open>
  The properties of the InspIRCd link, and of the traits it implements, on the states the link can
  reach.
\<close>

section \<open>Reachable states\<close>

text \<open>
  A link starts fresh; it is polled with any events of the connection, whatever the outcome; and
  between two polls the rest of the program fills its queues, changes the database and lets time pass.
  With the flag set, no event is a \<open>SQUIT\<close> of a server whose name is a prefix of our identifiers.
\<close>

inductive link_reachable :: "bool \<Rightarrow> ('t, 'j) ext \<Rightarrow> insp_config \<Rightarrow> ('t, 'j) insp_link \<Rightarrow> bool"
  for k :: bool and E :: "('t, 'j) ext" and c :: insp_config where
  fresh: "link_reachable k E c (insp_new c cfq cbq d s t)"
| poll: "link_reachable k E c l \<Longrightarrow> k \<longrightarrow> list_all (event_ok c) evs \<Longrightarrow>
     link_reachable k E c (snd (insp_poll E evs l))"
| environment: "link_reachable k E c l \<Longrightarrow>
     link_reachable k E c (l\<lparr>store := d, cf_rx := cfq, cb_rx := cbq, conn := s, clock := t\<rparr>)"

lemma link_reachable_inv:
  assumes "link_reachable k E c l" and "decode_ok E" and "ord_ok (ord_addr E)"
  shows "insp_inv k c l"
  using assms(1)
proof (induction rule: link_reachable.induct)
  case (fresh cfq cbq d s t)
  show ?case by (rule insp_inv_new)
next
  case (poll l evs)
  then show ?case using pres_snd [OF inv_poll [OF assms(2,3)]] by blast
qed simp

definition ex_cfg :: insp_config where
  "ex_cfg = \<lparr>sid = ''00A'', control_nick = ''smsctl'', admin_nick = ''admin'', sendpass = ''s'',
     recvpass = ''r'', server_desc = ''sms'', server_name = ''sms.example'', log_chan = ''#log'',
     set_topics = True, clobber_topics = False, cfg_ensure_joined = True\<rparr>"

definition ex_sink :: sink where
  "ex_sink = \<lparr>send_sched = [], complete_sched = [], wire = []\<rparr>"

text \<open>A database with one recipient, and the link over it.\<close>

definition ex_addr :: "8 word pdu_address" where
  "ex_addr = \<lparr>type_addr = 0x91, number = [0x31]\<rparr>"

definition ex_recipient :: recipient where
  "ex_recipient = \<lparr>r_id = 1, r_phone_number = normalize_address ex_ext ex_addr, r_nick = ''Sam'',
     r_whatsapp = False, r_avatar_url = None, r_notify = None, r_nicksrc = NICKSRC_AUTO\<rparr>"

definition ex_db :: db where
  "ex_db = \<lparr>recipients = [ex_recipient], messages = [], groups = [], wa_persistence = [], wa_msgids = [],
     next_recipient_id = 2, next_message_id = 1, next_group_id = 1, db_clock = 0, faults = []\<rparr>"

definition ex_link :: "(8 word, string) insp_link" where
  "ex_link = insp_new ex_cfg [] [] ex_db ex_sink 0"

lemma ex_link_reachable: "link_reachable k ex_ext ex_cfg ex_link"
  unfolding ex_link_def by (rule link_reachable.fresh)



section \<open>The commands of the other components\<close>

text \<open>
  In a reachable state none of the commands the other components send (setting up, dropping and
  renaming ghosts, switching their transport, processing groups) can make the link panic; all its
  unchecked lookups are of contacts and users that are there. \<open>ProcessMessages\<close>, which decodes stored
  PDUs, needs the integrity of the database as well (\<open>link_process_messages\<close>).
\<close>

theorem commands_do_not_panic:
  assumes "link_reachable True E c l" and "decode_ok E" and "ord_ok (ord_addr E)"
    and "cf \<noteq> ProcessMessages"
  shows "fst (handle_cf_command E cf l) \<noteq> Panic"
  using safe_no_panic [OF safe_handle_cf [OF assms(2,3,4)]] link_reachable_inv [OF assms(1,2,3)] .

theorem commands_do_not_panic_witness:
  "fst (handle_cf_command ex_ext (ForwardCommand ex_addr (ChangeNick ''Bob'' NICKSRC_USER)) ex_link) \<noteq> Panic"
  by (rule commands_do_not_panic [OF ex_link_reachable]) simp_all

text \<open>
  The hypothesis on \<open>SQUIT\<close> is needed. After a \<open>SQUIT\<close> whose server name is a prefix of the
  identifier of a ghost (our own, or the empty name), the ghost is no longer a user, and the next
  command to rename it panics.
\<close>

theorem squit_of_ourselves_panics:
  assumes "hm_get (contacts l) a = Some ct" and "starts_with (c_uuid ct) server"
  shows "fst (insp_forward_cmd E a (ChangeNick n src)
     (snd (handle_remote_message E \<lparr>prefix = Some p, command = SQUIT server reason\<rparr> l))) = Panic"
proof -
  let ?us = "filter (\<lambda>(k, _). \<not> starts_with k server) (users l)"
  have "hm_get ?us (c_uuid ct) = None"
    using assms(2) by (auto simp: map_of_eq_None_iff)
  then show ?thesis
    using assms(1) by (simp add: handle_remote_message_def insp_forward_cmd_def insp_change_nick_def
        modify_def panic_def)
qed

theorem squit_of_ourselves_panics_witness:
  "fst (insp_forward_cmd ex_ext ex_addr (ChangeNick ''Bob'' NICKSRC_USER)
     (snd (handle_remote_message ex_ext \<lparr>prefix = Some ''00B'', command = SQUIT ''00A'' ''split''\<rparr>
       (ex_link\<lparr>contacts := [(ex_addr, \<lparr>c_uuid = ''00AZ00001'', c_channels = [], c_wa_mode = False\<rparr>)]\<rparr>)))) = Panic"
  by (rule squit_of_ourselves_panics [where ct = "\<lparr>c_uuid = ''00AZ00001'', c_channels = [], c_wa_mode = False\<rparr>"])
    (simp_all add: starts_with_def)

text \<open>
  C28: the loops over the two command queues end with the queue empty when they succeed: the handlers
  never send to the queue they are called from, so its length is fuel enough.
\<close>

theorem command_loops_empty_the_queues:
  "(drain_cb E (length (cb_rx l)) l = (Ok (), l') \<longrightarrow> cb_rx l' = []) \<and>
   (drain_cf E (length (cf_rx l)) l = (Ok (), l') \<longrightarrow> cf_rx l' = [])"
  using drain_cb_empties drain_cf_empties by blast

theorem command_loops_empty_the_queues_witness:
  "cf_rx (snd (drain_cf ex_ext 2 (ex_link\<lparr>cf_rx := [LoadRecipients, ProcessAvatars]\<rparr>))) = []"
proof -
  let ?l = "ex_link\<lparr>cf_rx := [LoadRecipients, ProcessAvatars]\<rparr>"
  have "drain_cf ex_ext 2 ?l = (Ok (), ?l\<lparr>cf_rx := []\<rparr>)"
    by (simp add: numeral_2_eq_2 handle_cf_command_def ret_def)
  then show ?thesis
    using command_loops_empty_the_queues [of ex_ext ?l "?l\<lparr>cf_rx := []\<rparr>"]
    by (simp add: numeral_2_eq_2)
qed

section \<open>Ghosts\<close>

text \<open>
  A new user gets the identifier of the next number, which has the length of a server identifier
  and six more characters and belongs to no ghost; numbers run out after 99999 and then the request
  fails without any change.
\<close>

theorem new_users_get_fresh_identifiers:
  assumes "insp_inv k c l" and "new_user E x l = (r, l')"
  shows "case r of
      Ok u \<Rightarrow> u = sid c @ ''Z'' @ pad5 (next_user_id l) \<and> length u = length (sid c) + 6 \<and>
        hm_get (contacts_uuid_pdua l) u = None \<and> hm_get (users l') u = Some x \<and>
        next_user_id l' = next_user_id l + 1
    | Err e \<Rightarrow> contacts l' = contacts l \<and> contacts_uuid_pdua l' = contacts_uuid_pdua l \<and>
        (next_user_id l > 99999 \<longrightarrow> l' = l)
    | Panic \<Rightarrow> False"
proof (cases r)
  case (Ok u)
  then show ?thesis
    using new_user_result [OF assms(2), of k c] new_user_fresh [OF assms(1), of E x u l'] assms
    by (auto simp: insp_inv_def ghost_uuid_def length_pad5 hm_get_insert)
next
  case (Err e)
  have "next_user_id l > 99999 \<Longrightarrow> l' = l"
    using assms(2) by (auto simp: new_user_def get_uuid_def and_then_def gets_def err_def)
  then show ?thesis using new_user_result [OF assms(2), of k c] Err by simp
next
  case Panic
  then show ?thesis using new_user_result [OF assms(2), of k c] by simp
qed

theorem new_users_get_fresh_identifiers_witness:
  "fst (new_user ex_ext (new_for_controlbot 0 ''x'' ''h'') ex_link) = Ok ''00AZ00001''"
proof -
  obtain r l' where nu: "new_user ex_ext (new_for_controlbot 0 ''x'' ''h'') ex_link = (r, l')"
    by (cases "new_user ex_ext (new_for_controlbot 0 ''x'' ''h'') ex_link")
  have inv: "insp_inv True ex_cfg ex_link" unfolding ex_link_def by (rule insp_inv_new)
  have ok: "\<exists>u. r = Ok u"
    using nu by (auto simp: ex_link_def insp_new_def new_user_def get_uuid_def put_user_def make_uid_line_def
        new_message_def ex_ext_def send_def comp_simps Let_def)
  have "sid ex_cfg @ ''Z'' @ pad5 1 = ''00AZ00001''"
    by code_simp
  then show ?thesis
    using new_users_get_fresh_identifiers [OF inv nu] ok nu by (auto simp: ex_link_def insp_new_def)
qed

text \<open>
  C22: setting up a contact that is not there yet gives it a user with a nick that no other user of the
  network has, and not the administrator's, by adding the first free number to a nick that is taken.
\<close>

theorem ghost_nicks_are_unique:
  assumes "insp_inv k c l" and "\<not> insp_has_contact a l"
    and "insp_setup_contact_for E r a l = (Ok (), l')"
  shows "\<exists>u x. contact_uuid l' a = Some u \<and> hm_get (users l') u = Some x \<and> u_ours x \<and>
     u_nick x \<noteq> admin_nick c \<and>
     (\<forall>v y. v \<noteq> u \<longrightarrow> hm_get (users l') v = Some y \<longrightarrow> u_nick y \<noteq> u_nick x)"
  using assms by (intro setup_contact_for_nick) (auto simp: insp_has_contact_def contact_uuid_def)

lemma ex_setup: "fst (insp_setup_contact_for ex_ext ex_recipient ex_addr ex_link) = Ok ()"
  by (simp add: ex_link_def insp_new_def insp_setup_contact_for_def choose_nick_def
      check_nick_for_collisions_def nick_exists_def ex_recipient_def ex_cfg_def register_ghost_def
      put_contact_def new_user_def get_uuid_def put_user_def make_uid_line_def new_message_def
      ex_ext_def send_def comp_simps Let_def)

theorem ghost_nicks_are_unique_witness:
  "\<exists>u x l'. insp_setup_contact_for ex_ext ex_recipient ex_addr ex_link = (Ok (), l') \<and>
     hm_get (users l') u = Some x \<and> u_nick x \<noteq> ''admin''"
proof -
  have inv: "insp_inv True ex_cfg ex_link" unfolding ex_link_def by (rule insp_inv_new)
  have no: "\<not> insp_has_contact ex_addr ex_link"
    by (simp add: insp_has_contact_def ex_link_def insp_new_def)
  obtain l' where run: "insp_setup_contact_for ex_ext ex_recipient ex_addr ex_link = (Ok (), l')"
    using ex_setup by (cases "insp_setup_contact_for ex_ext ex_recipient ex_addr ex_link") auto
  from ghost_nicks_are_unique [OF inv no run] run show ?thesis by (auto simp: ex_cfg_def)
qed

text \<open>
  C23: processing the groups of a ghost, when it succeeds, leaves it in exactly the channels of its
  groups and the log channel: it joins all of them, leaves the old ones that are not among them, and
  the link remembers the group channels as the ones it relays.
\<close>

theorem ghost_channels_follow_groups:
  assumes "process_groups_for_recipient E a l = (Ok (), l')" and "hm_get (contacts l) a = Some ct"
  shows "\<exists>grps d chans.
     get_groups_for_recipient E a (store l) = (Ok grps, d) \<and>
     chans = with_log (map g_channel grps) (log_chan (cfg l)) \<and>
     l' = l\<lparr>store := d,
        outbox := outbox l @ map (join_line (c_uuid ct)) chans
          @ map (part_line (c_uuid ct)) (filter (\<lambda>ch. ch \<notin> set chans) (c_channels ct)),
        channels := channels l \<union> set (map g_channel grps),
        contacts := hm_insert a (ct\<lparr>c_channels := chans\<rparr>) (contacts l)\<rparr>"
  using assms by (rule process_groups_for_recipient_Ok)

definition ex_contact :: insp_contact where
  "ex_contact = \<lparr>c_uuid = ''00AZ00001'', c_channels = [''#old''], c_wa_mode = False\<rparr>"

definition ex_linked :: "(8 word, string) insp_link" where
  "ex_linked = ex_link\<lparr>contacts := [(ex_addr, ex_contact)],
     contacts_uuid_pdua := [(''00AZ00001'', ex_addr)],
     users := [(''00BAAAAAA'', new_for_controlbot 0 ''admin'' ''h''),
               (''00AZ00001'', new_for_controlbot 0 ''Sam'' ''h'')],
     state := Linked\<rparr>"

lemmas ex_defs = ex_linked_def ex_link_def insp_new_def ex_contact_def ex_db_def ex_recipient_def

theorem ghost_channels_follow_groups_witness:
  "\<exists>l'. process_groups_for_recipient ex_ext ex_addr ex_linked = (Ok (), l') \<and>
     outbox l' = [join_line ''00AZ00001'' ''#log'', part_line ''00AZ00001'' ''#old'']"
proof -
  have ct: "hm_get (contacts ex_linked) ex_addr = Some ex_contact" by (simp add: ex_linked_def)
  have db: "get_groups_for_recipient ex_ext ex_addr (store ex_linked) = (Ok [], ex_db)"
    by (simp add: ex_defs get_groups_for_recipient_def get_recipient_by_addr_opt_def comp_simps first_opt_def)
  have "fst (process_groups_for_recipient ex_ext ex_addr ex_linked) = Ok ()"
    by code_simp
  then obtain l' where run: "process_groups_for_recipient ex_ext ex_addr ex_linked = (Ok (), l')"
    by (cases "process_groups_for_recipient ex_ext ex_addr ex_linked") auto
  then show ?thesis
    using ghost_channels_follow_groups [OF run ct] db
    by (auto simp: with_log_def ex_contact_def ex_linked_def ex_link_def insp_new_def ex_cfg_def)
qed

text \<open>
  After a stored message has been processed, the transport of its ghost is that of the message:
  SMS for a PDU, WhatsApp for a text, so that a reply goes back the way the message came.
\<close>

theorem replies_use_the_last_transport:
  assumes "process_message E auid msg l = (Ok (), l')" and "get_addr E (m_phone_number msg) = Ok a"
    and "hm_get (contacts l') a = Some ct"
  shows "c_wa_mode ct = (m_pdu msg = None)"
  using assms by (rule process_message_mode)

definition ex_message :: message where
  "ex_message = \<lparr>m_id = 1, m_phone_number = normalize_address ex_ext ex_addr, m_pdu = None,
     m_csms_data = None, m_group_target = None, m_text = Some ''hi'', m_source = SOURCE_WA, m_ts = 0\<rparr>"

lemma ex_get_addr: "get_addr ex_ext (normalize_address ex_ext ex_addr) = Ok ex_addr"
  by (rule get_addr_normalize) (simp_all add: ex_addr_def)

definition ex_inbox :: "(8 word, string) insp_link" where
  "ex_inbox = ex_linked\<lparr>store := ex_db\<lparr>messages := [ex_message], next_message_id := 2\<rparr>\<rparr>"

text \<open>The message is delivered and the ghost, in SMS mode before, is in WhatsApp mode after it.\<close>

lemma ex_delivery:
  "fst (process_message ex_ext ''00BAAAAAA'' ex_message ex_inbox) = Ok () \<and>
   hm_get (contacts (snd (process_message ex_ext ''00BAAAAAA'' ex_message ex_inbox))) ex_addr \<noteq> None"
  by code_simp

theorem replies_use_the_last_transport_witness:
  "\<exists>l' ct. process_message ex_ext ''00BAAAAAA'' ex_message ex_inbox = (Ok (), l') \<and>
     hm_get (contacts l') ex_addr = Some ct \<and> c_wa_mode ct"
proof -
  obtain l' where run: "process_message ex_ext ''00BAAAAAA'' ex_message ex_inbox = (Ok (), l')"
    using ex_delivery by (cases "process_message ex_ext ''00BAAAAAA'' ex_message ex_inbox") auto
  moreover obtain ct where "hm_get (contacts l') ex_addr = Some ct"
    using ex_delivery run by auto
  moreover have "get_addr ex_ext (m_phone_number ex_message) = Ok ex_addr"
    by (simp add: ex_message_def ex_get_addr)
  ultimately have "c_wa_mode ct = (m_pdu ex_message = None)"
    by (intro replies_use_the_last_transport)
  with run \<open>hm_get (contacts l') ex_addr = Some ct\<close> show ?thesis by (auto simp: ex_message_def)
qed

text \<open>
  C24: asking for a contact answers yes only when the contact is then in the table, so the lookup that
  follows cannot fail; it answers no only for an address without a recipient, and then changes no
  ghost. Dropping a contact removes its ghost and its row.
\<close>

theorem requested_contacts_exist:
  fixes E :: "('t, 'j) ext" and l :: "('t, 'j) insp_link"
  assumes "hex_ok E" "ton_ok E"
  shows "(request_contact E (insp_cmm E) a src l = (Ok True, l') \<longrightarrow> insp_has_contact a l') \<and>
    (request_contact E (insp_cmm E) a src l = (Ok False, l') \<longrightarrow>
       normalize_address E a \<notin> r_phone_number ` set (recipients (store l)) \<and>
       (\<forall>b. insp_has_contact b l' = insp_has_contact b l)) \<and>
    (drop_contact E (insp_cmm E) a l = (Ok (), l') \<longrightarrow>
       \<not> insp_has_contact a l' \<and> normalize_address E a \<notin> r_phone_number ` set (recipients (store l')))"
proof -
  have s: "cmm_db (insp_cmm E) = store" by (simp add: insp_cmm_def insp_base_def)
  have "request_contact E (insp_cmm E) a src l = (Ok True, l') \<Longrightarrow> insp_has_contact a l'"
    by (drule icm.request_contact_has [OF assms]) (simp add: insp_selectors)
  moreover have "request_contact E (insp_cmm E) a src l = (Ok False, l') \<Longrightarrow>
      normalize_address E a \<notin> r_phone_number ` set (recipients (store l)) \<and>
       (\<forall>b. insp_has_contact b l' = insp_has_contact b l)"
    by (drule icm.request_contact_unknown) (simp add: insp_selectors s)
  moreover have "drop_contact E (insp_cmm E) a l = (Ok (), l') \<Longrightarrow>
      \<not> insp_has_contact a l' \<and> normalize_address E a \<notin> r_phone_number ` set (recipients (store l'))"
    by (drule icm.drop_contact_gone) (simp add: insp_selectors s)
  ultimately show ?thesis by blast
qed

theorem requested_contacts_exist_witness:
  "insp_has_contact ex_addr (snd (request_contact ex_ext (insp_cmm ex_ext) ex_addr SOURCE_SMS ex_link))"
proof -
  have "get_recipient_by_addr_opt ex_ext ex_addr ex_db = (Ok (Some ex_recipient), ex_db)"
    by (simp add: get_recipient_by_addr_opt_def ex_db_def gets_def first_opt_def ex_recipient_def)
  then have db: "cmm_store (insp_cmm ex_ext) (get_recipient_by_addr_opt ex_ext ex_addr) ex_link
      = (Ok (Some ex_recipient), ex_link)"
    by (simp add: safe_cmm_store insp_store_def on_field_def ex_link_def insp_new_def)
  have "setup_recipient ex_ext (insp_cmm ex_ext) ex_recipient ex_link
      = insp_setup_contact_for ex_ext ex_recipient ex_addr ex_link"
    using ex_get_addr
    by (simp add: setup_recipient_def insp_selectors and_then_def lift_def gets_def insp_has_contact_def
        ex_recipient_def ex_link_def insp_new_def)
  then have "fst (request_contact ex_ext (insp_cmm ex_ext) ex_addr SOURCE_SMS ex_link) = Ok True"
    using db ex_setup
    by (cases "insp_setup_contact_for ex_ext ex_recipient ex_addr ex_link")
      (simp add: request_contact_def and_then_def then_do_def ret_def)
  then obtain l' where run: "request_contact ex_ext (insp_cmm ex_ext) ex_addr SOURCE_SMS ex_link = (Ok True, l')"
    by (cases "request_contact ex_ext (insp_cmm ex_ext) ex_addr SOURCE_SMS ex_link") auto
  then show ?thesis
    using requested_contacts_exist [OF ex_hex_ok ex_ton_ok, of ex_addr SOURCE_SMS ex_link l'] by simp
qed

section \<open>Messages\<close>

lemma insp_sender_sel: "sender_db (insp_sender E) = store" "sender_now (insp_sender E) = clock"
  by (simp_all add: insp_sender_def)

text \<open>
  C5: a text message is deleted exactly when every line of it has been queued, in order, to its
  destination; when sending fails the message stays stored, so nothing is lost and nothing is deleted
  half way.
\<close>

theorem plain_message_is_deleted_when_sent:
  fixes E :: "('t, 'j) ext" and l :: "('t, 'j) insp_link"
  assumes "process_msg_plain E (insp_sender E) u msg l = (r, l')"
  shows "(r = Ok () \<longrightarrow>
      messages (store l') = filter (\<lambda>m. m_id m \<noteq> m_id msg) (messages (store l)) \<and>
      (\<exists>dest tx. m_text msg = Some tx \<and>
         insp_sent l' = insp_sent l @ map (\<lambda>c. (u, dest, c))
           (message_chunks (plain_output E (clock l) (m_ts msg) tx)) \<and>
         (m_group_target msg = None \<longrightarrow> dest = insp_private_target E l))) \<and>
    (r \<noteq> Ok () \<longrightarrow> messages (store l') = messages (store l))"
  using isnd.plain_facts [OF assms] by (fastforce simp: isnd.out_def isnd.dest_ok_def insp_sender_sel)

theorem plain_message_is_deleted_when_sent_witness:
  "messages (store (snd (process_msg_plain ex_ext (insp_sender ex_ext) ''00AZ00001'' ex_message ex_inbox))) = []"
proof -
  have "fst (process_msg_plain ex_ext (insp_sender ex_ext) ''00AZ00001'' ex_message ex_inbox) = Ok ()"
    by code_simp
  then obtain l' where run:
    "process_msg_plain ex_ext (insp_sender ex_ext) ''00AZ00001'' ex_message ex_inbox = (Ok (), l')"
    by (cases "process_msg_plain ex_ext (insp_sender ex_ext) ''00AZ00001'' ex_message ex_inbox") auto
  have "messages (store ex_inbox) = [ex_message]" by (simp add: ex_inbox_def)
  then show ?thesis
    using plain_message_is_deleted_when_sent [OF run] run by simp
qed

text \<open>
  C6: a part of a concatenated SMS waits: while the number of stored parts with its reference differs
  from the number its header announces, nothing is sent and nothing deleted. When it is equal and the
  delivery succeeds, the text sent is that of the parts sorted by their sequence number, and exactly
  the stored parts are deleted.
\<close>

theorem concatenated_message_is_sent_when_complete:
  fixes E :: "('t, 'j) ext" and l :: "('t, 'j) insp_link"
  assumes run: "process_msg_pdu E (insp_sender E) u msg pd l = (r, l')"
    and "decode_message pd = Inr m" "concatenated m = Some cd"
    and ms: "ms = concat_parts (store l) (m_phone_number msg) (int (reference cd))"
  shows "(length ms \<noteq> parts cd \<longrightarrow> messages (store l') = messages (store l) \<and> insp_sent l' = insp_sent l) \<and>
    (length ms = parts cd \<longrightarrow> r = Ok () \<longrightarrow>
      messages (store l') = filter (\<lambda>m. m_id m \<notin> m_id ` set ms) (messages (store l)) \<and>
      (\<exists>dest ds ds'. decode_parts E ms = Ok ds \<and> mset ds' = mset ds \<and>
         sorted (map (\<lambda>p. sequence (the (concatenated p))) ds') \<and>
         insp_sent l' = insp_sent l @ map (\<lambda>c. (u, dest, c)) (message_chunks (concat (map gsm_text ds')))))"
proof -
  note db = insp_sender_sel
  have inc: "length ms \<noteq> parts cd \<Longrightarrow> messages (store l') = messages (store l) \<and> insp_sent l' = insp_sent l"
    using isnd.pdu_incomplete [OF run assms(2,3)] ms by (simp add: db)
  have comp: "messages (store l') = filter (\<lambda>m. m_id m \<notin> m_id ` set ms) (messages (store l)) \<and>
      (\<exists>dest ds ds'. decode_parts E ms = Ok ds \<and> mset ds' = mset ds \<and>
         sorted (map (\<lambda>p. sequence (the (concatenated p))) ds') \<and>
         insp_sent l' = insp_sent l @ map (\<lambda>c. (u, dest, c)) (message_chunks (concat (map gsm_text ds'))))"
    if "length ms = parts cd" "r = Ok ()"
  proof -
    have r: "process_msg_pdu E (insp_sender E) u msg pd l = (Ok (), l')" using run that(2) by simp
    have m: "ms = concat_parts (sender_db (insp_sender E) l) (m_phone_number msg) (int (reference cd))"
      using ms by (simp add: db)
    note pc = isnd.pdu_complete [OF r assms(2,3) m that(1), unfolded isnd.out_def db]
    then obtain dest ds ds' where "decode_parts E ms = Ok ds" and s: "sort_parts ds = Ok ds'"
      and "messages (store l') = filter (\<lambda>m. m_id m \<notin> m_id ` set ms) (messages (store l))"
      and "insp_sent l' = insp_sent l @ map (\<lambda>c. (u, dest, c)) (message_chunks (concat (map gsm_text ds')))"
      by blast
    then show ?thesis using sort_parts_Ok [OF s] by blast
  qed
  show ?thesis using inc comp by blast
qed

text \<open>Two parts, stored in the wrong order.\<close>

definition ex_part :: "int \<Rightarrow> 8 word list \<Rightarrow> message" where
  "ex_part i bs = \<lparr>m_id = i, m_phone_number = normalize_address ex_ext ex_addr, m_pdu = Some bs,
     m_csms_data = Some 9, m_group_target = None, m_text = None, m_source = SOURCE_SMS, m_ts = 0\<rparr>"

definition ex_parts :: "(8 word, string) insp_link" where
  "ex_parts = ex_linked\<lparr>store := ex_db\<lparr>messages := [ex_part 1 [9, 2, 2, 66], ex_part 2 [9, 2, 1, 65]]\<rparr>\<rparr>"

theorem concatenated_message_is_sent_when_complete_witness:
  "messages (store (snd (process_msg_pdu ex_ext (insp_sender ex_ext) ''00AZ00001'' (ex_part 1 [9, 2, 2, 66])
     (the (ex_deliver [9, 2, 2, 66])) ex_parts))) = []"
proof -
  let ?run = "process_msg_pdu ex_ext (insp_sender ex_ext) ''00AZ00001'' (ex_part 1 [9, 2, 2, 66])
     (the (ex_deliver [9, 2, 2, 66])) ex_parts"
  have ok: "fst ?run = Ok ()" by code_simp
  obtain l' where run: "?run = (Ok (), l')" using ok by (cases ?run) auto
  let ?m = "\<lparr>gsm_text = ''B'', concatenated = Some \<lparr>reference = 9, parts = 2, sequence = 2\<rparr>\<rparr>"
  have d: "decode_message (the (ex_deliver [9, 2, 2, 66])) = Inr ?m"
    by (simp add: ex_deliver_def char_of_eq_nat)
  have c: "concat_parts (store ex_parts) (m_phone_number (ex_part 1 [9, 2, 2, 66])) (int 9)
     = [ex_part 1 [9, 2, 2, 66], ex_part 2 [9, 2, 1, 65]]"
    by (simp add: concat_parts_def ex_parts_def ex_part_def)
  show ?thesis
    using concatenated_message_is_sent_when_complete [OF run d _ refl] c run
    by (simp add: ex_parts_def ex_part_def)
qed

section \<open>The peer\<close>

text \<open>The state after a list of polls, each with the events it finds.\<close>

definition polls :: "('t, 'j) ext \<Rightarrow> conn_event list list \<Rightarrow> ('t, 'j) insp_link \<Rightarrow> ('t, 'j) insp_link" where
  "polls E evss l = fold (\<lambda>evs l. snd (insp_poll E evs l)) evss l"

lemma not_linked_polls:
  "list_all (list_all (unauthenticated c)) evss \<Longrightarrow> not_linked c l \<Longrightarrow> not_linked c (polls E evss l)"
  unfolding polls_def
  by (induction evss arbitrary: l) (auto intro: pres_snd [OF not_linked_poll])

text \<open>
  C12: a link does not come up for a peer that has not sent a \<open>SERVER\<close> line with the configured
  password, however many lines it sends; the placeholder name \<open>XXX\<close> must not be used by the peer.
\<close>

theorem no_link_without_password:
  fixes E :: "('t, 'j) ext"
  assumes "list_all (list_all (unauthenticated c)) evss"
  shows "state (polls E evss (insp_new c cfq cbq d s t)) \<noteq> Linked \<and>
    remote_sid (polls E evss (insp_new c cfq cbq d s t)) = ''XXX''"
proof -
  have "not_linked c (insp_new c cfq cbq d s t :: ('t, 'j) insp_link)"
    by (simp add: not_linked_def insp_new_def)
  from not_linked_polls [OF assms this, of E] show ?thesis by (auto simp: not_linked_def)
qed

definition server_line :: "string \<Rightarrow> conn_event" where
  "server_line pw = Received \<lparr>prefix = None,
     command = Raw ''SERVER'' [''irc.example'', pw, ''0'', ''00B''] (Some ''hub'')\<rparr>"

definition endburst_line :: "string \<Rightarrow> conn_event" where
  "endburst_line who = Received \<lparr>prefix = Some who, command = Raw ''ENDBURST'' [] None\<rparr>"

theorem no_link_without_password_witness:
  "state (polls ex_ext [[server_line ''wrong'', endburst_line ''00B'']]
     (insp_new ex_cfg [] [] ex_db ex_sink 0)) \<noteq> Linked"
proof -
  have "list_all (list_all (unauthenticated ex_cfg)) [[server_line ''wrong'', endburst_line ''00B'']]"
    by (simp add: unauthenticated_def good_server_def placeholder_endburst_def server_line_def
        endburst_line_def ex_cfg_def)
  from no_link_without_password [OF this] show ?thesis by blast
qed

text \<open>
  The exception is real: an \<open>ENDBURST\<close> from the placeholder name brings a fresh link up, with no
  password and no \<open>SERVER\<close> line from the peer.
\<close>

theorem placeholder_brings_link_up:
  assumes "fst (do_quasiburst E (insp_new c cfq cbq d s t)) = Ok ()"
  shows "state (snd (handle_event E (endburst_line ''XXX'') (insp_new c cfq cbq d s t))) = Linked"
proof -
  let ?l = "insp_new c cfq cbq d s t :: ('a, 'b) insp_link"
  have rs: "remote_sid ?l = ''XXX''" by (simp add: insp_new_def)
  obtain l1 where l1: "do_quasiburst E ?l = (Ok (), l1)"
    using assms by (cases "do_quasiburst E ?l") auto
  have "ghost_blind (\<lambda>l. state l = Linked)" by (simp add: ghost_blind_def group_blind_def)
  from pres_snd [OF ghost_frame(11) [OF this], of "l1\<lparr>state := Linked\<rparr>" E]
  have "state (snd (on_linked E (l1\<lparr>state := Linked\<rparr>))) = Linked" by simp
  then show ?thesis
    using rs l1
    by (simp add: handle_event_def endburst_line_def handle_remote_message_def handle_raw_def then_do_Ok)
qed

theorem placeholder_brings_link_up_witness:
  "state (snd (handle_event ex_ext (endburst_line ''XXX'')
     (insp_new ex_cfg [] [] (ex_db\<lparr>recipients := []\<rparr>) ex_sink 0))) = Linked"
  by (rule placeholder_brings_link_up)
    (simp add: do_quasiburst_def insp_store_def on_field_def and_then_def get_all_recipients_def gets_def
      insp_new_def ex_db_def ret_def)

definition admin_uid_line :: conn_event where
  "admin_uid_line = Received \<lparr>prefix = Some ''00B'', command = Raw ''UID''
     [''00BAAAAAA'', ''1'', ''admin'', ''h'', ''h'', ''i'', ''0.0.0.0'', ''1'', ''+i''] (Some ''g'')\<rparr>"

definition admin_command_line :: conn_event where
  "admin_command_line = Received \<lparr>prefix = Some ''00BAAAAAA'',
     command = PRIVMSG ''00AA00000'' ''WHATSAPP LOGON''\<rparr>"

lemma ex_admin_uid:
  "handle_event ex_ext admin_uid_line ex_link = (Ok (), ex_link\<lparr>users := [(''00BAAAAAA'',
     \<lparr>u_ts = 1, u_nick = ''admin'', u_hostname = ''h'', u_displayed_hostname = ''h'', u_ident = ''i'',
      u_ip = ''0.0.0.0'', u_signon_time = 1, u_modes = ''+i'', u_gecos = ''g'', u_ours = False\<rparr>)]\<rparr>)"
proof -
  have "parse_i64 ''1'' = Some 1" by code_simp
  then show ?thesis
    by (simp add: handle_event_def admin_uid_line_def handle_remote_message_def handle_raw_def
      new_from_uid_line_def lift_def and_then_def gets_def then_do_def put_user_def modify_def
      insp_process_messages_def admin_uuid_def hm_iter_def insp_store_def on_field_def
      get_all_messages_def by_ts_id_def ret_def ex_link_def insp_new_def ex_cfg_def ex_db_def ex_ext_def numeral_eq_Suc)
qed

text \<open>
  Commands are obeyed before the peer has authenticated: a peer that has sent nothing but a \<open>UID\<close>
  line with the administrator's nick can send commands in that user's name.
\<close>

theorem commands_before_authentication:
  "let l = snd (for_each [admin_uid_line, admin_command_line] (handle_event ex_ext) ex_link)
   in state l = TcpConnected \<and> wa_tx l = [LogonIfSaved]"
proof -
  obtain l1 where l1: "handle_event ex_ext admin_uid_line ex_link = (Ok (), l1)"
    and u: "admin_uuid ex_ext l1 = Some ''00BAAAAAA''" and st: "state l1 = TcpConnected"
    and q: "wa_tx l1 = []" "control_uuid l1 = ''00AA00000''"
    using ex_admin_uid
    by (simp add: admin_uuid_def hm_iter_def ex_ext_def ex_link_def insp_new_def ex_cfg_def)
  let ?m = "\<lparr>prefix = Some ''00BAAAAAA'', command = PRIVMSG ''00AA00000'' ''WHATSAPP LOGON''\<rparr>"
  obtain r l2 where l2: "handle_remote_message ex_ext ?m l1 = (r, l2)"
    by (cases "handle_remote_message ex_ext ?m l1")
  have cmd: "line_command ex_ext ''WHATSAPP LOGON'' = Some (Whatsapp Logon)"
    by (simp add: line_command_def admin_parse_def whatsapp_parse_def lower_keywords)
  have "ghost_blind (\<lambda>l. state l = TcpConnected)" by (simp add: ghost_blind_def group_blind_def)
  from pres_snd [OF admin_command_frame [OF this, of ex_ext "''WHATSAPP LOGON''"] st]
  have "state l2 = TcpConnected"
    using l2 u q by (simp add: handle_remote_message_def handle_privmsg_def)
  moreover have "wa_tx l2 = [LogonIfSaved]"
    using privmsg_routing(2) [OF l2] u q cmd
    by (simp add: destination_of_def routed_wa_def option_list_def whatsapp_to_cts_def)
  moreover have "snd (for_each [admin_uid_line, admin_command_line] (handle_event ex_ext) ex_link) = l2"
    using l1 l2
    by (cases r) (auto simp: then_do_def and_then_def admin_command_line_def handle_event_def [of _ "Received _"] ret_def)
  ultimately show ?thesis by simp
qed

text \<open>
  C7: a private message has no effect at all unless it comes from the user that has the
  administrator's nick; from that user it adds to the queues of the other components exactly the
  commands it stands for: those of the command line when it is for the control user, one group message
  when it is for a bridged channel, one direct message by the ghost's transport when it is for a ghost.
\<close>

theorem private_messages_are_routed:
  assumes "handle_remote_message E \<lparr>prefix = Some p, command = PRIVMSG tgt msg\<rparr> l = (r, l')"
  shows "(admin_uuid E l \<noteq> Some p \<longrightarrow> r = Ok () \<and> l' = l) \<and>
    (admin_uuid E l = Some p \<longrightarrow>
      wa_tx l' = wa_tx l @ routed_wa E (destination_of l tgt) tgt msg \<and>
      m_tx l' = m_tx l @ routed_m E (destination_of l tgt) msg \<and>
      cf_rx l' = cf_rx l @ routed_cf E (destination_of l tgt) msg)"
  using privmsg_routing [OF assms] by blast

theorem private_messages_are_routed_witness:
  "m_tx (snd (handle_remote_message ex_ext
     \<lparr>prefix = Some ''00BAAAAAA'', command = PRIVMSG ''00AZ00001'' ''hello''\<rparr> ex_linked))
   = [SendMessage ex_addr ''hello'']"
proof -
  let ?m = "\<lparr>prefix = Some ''00BAAAAAA'', command = PRIVMSG ''00AZ00001'' ''hello''\<rparr>"
  obtain r l' where run: "handle_remote_message ex_ext ?m ex_linked = (r, l')"
    by (cases "handle_remote_message ex_ext ?m ex_linked")
  have "admin_uuid ex_ext ex_linked = Some ''00BAAAAAA''" by code_simp
  moreover have "destination_of ex_linked ''00AZ00001'' = ToGhost ex_addr False"
    by (simp add: destination_of_def ex_linked_def ex_link_def insp_new_def ex_cfg_def ex_contact_def)
  moreover have "m_tx ex_linked = []" by (simp add: ex_linked_def ex_link_def insp_new_def)
  ultimately show ?thesis
    using private_messages_are_routed [OF run] run by (simp add: routed_m_def)
qed

text \<open>
  The password is what a \<open>SERVER\<close> line is judged by: with another password (or the wrong number
  of arguments, or a hop count that is not 0) it is an error and nothing changes; with the right one
  the link takes the peer's name, introduces its control user between \<open>BURST\<close> and \<open>ENDBURST\<close> and
  waits for the peer's burst.
\<close>

theorem server_line_is_judged_by_password:
  assumes "\<And>m. irc_valid E m"
  shows "(\<not> (length args = 4 \<and> args ! 1 = recvpass (cfg l) \<and> args ! 2 = ''0'') \<longrightarrow>
       (\<exists>e. handle_server E args suffix l = (Err e, l))) \<and>
    (length args = 4 \<and> args ! 1 = recvpass (cfg l) \<and> args ! 2 = ''0'' \<and> suffix \<noteq> None \<longrightarrow>
       fst (handle_server E args suffix l) = Ok () \<and>
       state (snd (handle_server E args suffix l)) = BurstSent \<and>
       remote_sid (snd (handle_server E args suffix l)) = args ! 3 \<and>
       map im_command (outbox (snd (handle_server E args suffix l)))
         = map im_command (outbox l) @ [''BURST'', ''UID'', ''ENDBURST''] \<and>
       users (snd (handle_server E args suffix l)) = hm_insert (control_uuid l)
         (new_for_controlbot (clock l) (control_nick (cfg l)) (server_name (cfg l))) (users l))"
proof -
  have push: "push_new E pre cm a sf l = (Ok (), l\<lparr>outbox := outbox l @
      [\<lparr>im_prefix = Some pre, im_command = cm, im_args = a, im_suffix = sf\<rparr>]\<rparr>)" for pre cm a sf and l :: "('a, 'b) insp_link"
    using assms by (simp add: push_new_result)
  show ?thesis
    using assms
    by (auto simp: handle_server_def gets_def and_then_def then_do_def err_def modify_def do_burst_def
        send_sid_line_def push put_user_def make_uid_line_def new_message_def lift_def send_def
        hm_get_insert Let_def)
qed

theorem server_line_is_judged_by_password_witness:
  "state (snd (handle_server (ex_ext\<lparr>irc_valid := \<lambda>_. True\<rparr>) [''hub'', ''r'', ''0'', ''0HB'']
     (Some ''a hub'') ex_link)) = BurstSent"
proof -
  have "\<And>m. irc_valid (ex_ext\<lparr>irc_valid := \<lambda>_. True\<rparr>) m" by simp
  from server_line_is_judged_by_password [OF this, of "[''hub'', ''r'', ''0'', ''0HB'']" ex_link "Some ''a hub''"]
  moreover have "recvpass (cfg ex_link) = ''r''" by (simp add: ex_defs ex_cfg_def)
  ultimately show ?thesis by simp
qed

end
