(* ===== verification/Irc_Registration.thy ===== *)
theory Irc_Registration
  imports Wire
begin

text \<open>
  \<open>irc_s2c_registration.rs\<close> and \<open>irc_s2c_v3.rs\<close>: a client of the IRC server until it has registered.
  What the handler of the lines computes is compared with a specification on the whole history.
\<close>

section \<open>Capabilities\<close>

definition SUPPORTED_CAPS :: string where
  "SUPPORTED_CAPS = ''away-notify''"

datatype irc_cap = AwayNotify

definition cap_name :: "irc_cap \<Rightarrow> string" where
  "cap_name c = (case c of AwayNotify \<Rightarrow> ''away-notify'')"

definition from_cap_name :: "string \<Rightarrow> irc_cap option" where
  "from_cap_name cn = (if cn = ''away-notify'' then Some AwayNotify else None)"

lemma from_cap_name_name [simp]: "from_cap_name (cap_name c) = Some c"
  by (cases c) (simp add: cap_name_def from_cap_name_def)

section \<open>State\<close>

definition SERVER_NAME :: string where
  "SERVER_NAME = ''sms-irc.''"

record reg_info =
  ri_nick :: string
  ri_user :: string
  ri_realname :: string
  ri_caps :: "irc_cap list"

text \<open>
  The handle on the store, which a pending connection only passes on, is left out; \<open>pc_arrivals\<close> is
  what polls of the socket will yield before it is not ready.
\<close>

record pending_conn =
  pc_sock :: sink
  pc_arrivals :: "conn_event list"
  pc_addr :: string
  pc_cap_ended :: bool
  pc_nick :: "string option"
  pc_user :: "string option"
  pc_realname :: "string option"
  pc_caps :: "irc_cap list"
  pc_outbox :: "irc_msg list"
  pc_new :: bool

definition from_incoming :: "sink \<Rightarrow> conn_event list \<Rightarrow> string \<Rightarrow> pending_conn" where
  "from_incoming ts evs sa =
     \<lparr>pc_sock = ts, pc_arrivals = evs, pc_addr = sa, pc_cap_ended = True, pc_nick = None,
      pc_user = None, pc_realname = None, pc_caps = [], pc_outbox = [], pc_new = True\<rparr>"

section \<open>Handling a line\<close>

definition pc_reply ::
  "('t, 'j) ext \<Rightarrow> string \<Rightarrow> string list \<Rightarrow> string option \<Rightarrow> (pending_conn, unit) comp" where
  "pc_reply E cmd args suffix =
     and_then (lift (new_message E (Some SERVER_NAME) cmd (''*'' # args) suffix)) (\<lambda>m.
       modify (\<lambda>p. p\<lparr>pc_outbox := pc_outbox p @ [m]\<rparr>))"

definition pc_on_new :: "('t, 'j) ext \<Rightarrow> (pending_conn, unit) comp" where
  "pc_on_new E = pc_reply E ''NOTICE'' [] (Some ''sms-irc initialized, please go on'')"

definition pc_unregistered :: "('t, 'j) ext \<Rightarrow> (pending_conn, unit) comp" where
  "pc_unregistered E = pc_reply E ''451'' [] (Some ''You have not registered'')"

text \<open>One word of a \<open>CAP REQ\<close>.\<close>

definition pc_request_cap :: "('t, 'j) ext \<Rightarrow> string \<Rightarrow> (pending_conn, unit) comp" where
  "pc_request_cap E cap = (case from_cap_name cap of
      Some c \<Rightarrow>
        then_do (modify (\<lambda>p. p\<lparr>pc_caps := pc_caps p @ [c]\<rparr>)) (pc_reply E ''CAP'' [''ACK''] (Some cap))
    | None \<Rightarrow> pc_reply E ''CAP'' [''NAK''] (Some cap))"

definition pc_cap ::
  "('t, 'j) ext \<Rightarrow> cap_sub_command \<Rightarrow> string option \<Rightarrow> string option \<Rightarrow> (pending_conn, unit) comp" where
  "pc_cap E sub a b = (case (sub, a, b) of
      (LS, _, _) \<Rightarrow>
        then_do (modify (\<lambda>p. p\<lparr>pc_cap_ended := False\<rparr>))
          (pc_reply E ''CAP'' [''LS''] (Some SUPPORTED_CAPS))
    | (REQ, Some caps, None) \<Rightarrow> for_each (split_on (CHR '' '') caps) (pc_request_cap E)
    | (REQ, None, Some caps) \<Rightarrow> for_each (split_on (CHR '' '') caps) (pc_request_cap E)
    | (LIST, _, _) \<Rightarrow>
        and_then (gets (\<lambda>p. join_str '' '' (map cap_name (pc_caps p)))) (\<lambda>caps.
          pc_reply E ''CAP'' [''LIST''] (Some caps))
    | (END, _, _) \<Rightarrow> modify (\<lambda>p. p\<lparr>pc_cap_ended := True\<rparr>)
    | _ \<Rightarrow> pc_unregistered E)"

definition pc_set_user :: "string \<Rightarrow> string \<Rightarrow> (pending_conn, unit) comp" where
  "pc_set_user user realname = modify (\<lambda>p. p\<lparr>pc_user := Some user, pc_realname := Some realname\<rparr>)"

definition pc_handle :: "('t, 'j) ext \<Rightarrow> irc_command \<Rightarrow> (pending_conn, unit) comp" where
  "pc_handle E c = (case c of
      NICK name \<Rightarrow> modify (\<lambda>p. p\<lparr>pc_nick := Some name\<rparr>)
    | USER user _ realname \<Rightarrow> pc_set_user user realname
    | CAP sub a b \<Rightarrow> pc_cap E sub a b
    | PASS _ \<Rightarrow> ret ()
    | QUIT _ \<Rightarrow> err (Failure ''Client quit'' [])
    | Raw cmd args trailing \<Rightarrow>
        if cmd = ''USER'' \<and> length args > 1
        then (case trailing of
            None \<Rightarrow> pc_set_user (args ! 0) (last args)
          | Some t \<Rightarrow> pc_set_user (args ! 0) t)
        else pc_unregistered E
    | _ \<Rightarrow> pc_unregistered E)"

section \<open>Polling\<close>

definition pc_event :: "('t, 'j) ext \<Rightarrow> conn_event \<Rightarrow> (pending_conn, unit) comp" where
  "pc_event E ev = (case ev of
      Received m \<Rightarrow> pc_handle E (command m)
    | ConnClosed \<Rightarrow> err (Failure ''Socket disconnected'' [])
    | ConnFailed \<Rightarrow> err IoError)"

text \<open>The short-circuit \<open>&&\<close>: the socket is only flushed when everything else is there.\<close>

definition pc_is_done :: "(pending_conn, bool) comp" where
  "pc_is_done =
     and_then (gets (\<lambda>p. pc_cap_ended p \<and> pc_nick p \<noteq> None \<and> pc_user p \<noteq> None \<and> pc_realname p \<noteq> None))
       (\<lambda>ready. if ready then on_field pc_sock (\<lambda>k p. p\<lparr>pc_sock := k\<rparr>) poll_complete else ret False)"

definition pc_poll :: "('t, 'j) ext \<Rightarrow> (pending_conn, bool) comp" where
  "pc_poll E =
     and_then (gets pc_new) (\<lambda>new.
     then_do (if new then then_do (modify (\<lambda>p. p\<lparr>pc_new := False\<rparr>)) (pc_on_new E) else ret ())
     (and_then (gets pc_arrivals) (\<lambda>evs.
     then_do (modify (\<lambda>p. p\<lparr>pc_arrivals := []\<rparr>))
     (then_do (for_each evs (pc_event E))
     (then_do (on_field (\<lambda>p. (pc_outbox p, pc_sock p))
         (\<lambda>(ob, k) p. p\<lparr>pc_outbox := ob, pc_sock := k\<rparr>) sink_outbox)
       pc_is_done)))))"

text \<open>The unwraps of the finished registration.\<close>

definition pc_reginfo :: "pending_conn \<Rightarrow> reg_info outcome" where
  "pc_reginfo p = (case (pc_nick p, pc_user p, pc_realname p) of
      (Some n, Some u, Some r) \<Rightarrow> Ok \<lparr>ri_nick = n, ri_user = u, ri_realname = r, ri_caps = pc_caps p\<rparr>
    | _ \<Rightarrow> Panic)"

text \<open>
  \<open>PendingIrcConnectionWrapper::poll\<close>: the connection is taken out of the wrapper when it is done,
  and polling the empty wrapper panics.
\<close>

definition wrapper_poll ::
  "('t, 'j) ext \<Rightarrow> (pending_conn option, (sink \<times> string \<times> reg_info) option) comp" where
  "wrapper_poll E w = (case w of
      None \<Rightarrow> (Panic, None)
    | Some p \<Rightarrow>
        (case pc_poll E p of
           (Ok True, q) \<Rightarrow>
             (case pc_reginfo q of
                Ok ri \<Rightarrow> (Ok (Some (pc_sock q, pc_addr q, ri)), None)
              | Err e \<Rightarrow> (Err e, None)
              | Panic \<Rightarrow> (Panic, None))
         | (Ok False, q) \<Rightarrow> (Ok None, Some q)
         | (Err e, q) \<Rightarrow> (Err e, Some q)
         | (Panic, q) \<Rightarrow> (Panic, Some q)))"

section \<open>The registration a history stands for\<close>

text \<open>The last value a function yields on a history.\<close>

definition last_of :: "('a \<Rightarrow> 'b option) \<Rightarrow> 'a list \<Rightarrow> 'b option" where
  "last_of f xs = (let ys = List.map_filter f xs in if ys = [] then None else Some (last ys))"

fun nick_given :: "irc_command \<Rightarrow> string option" where
  "nick_given (NICK n) = Some n"
| "nick_given _ = None"

fun user_given :: "irc_command \<Rightarrow> (string \<times> string) option" where
  "user_given (USER u _ r) = Some (u, r)"
| "user_given (Raw cmd args t) =
     (if cmd = ''USER'' \<and> length args > 1
      then Some (args ! 0, case t of None \<Rightarrow> last args | Some r \<Rightarrow> r) else None)"
| "user_given _ = None"

fun caps_given :: "irc_command \<Rightarrow> irc_cap list" where
  "caps_given (CAP REQ (Some cs) None) = List.map_filter from_cap_name (split_on (CHR '' '') cs)"
| "caps_given (CAP REQ None (Some cs)) = List.map_filter from_cap_name (split_on (CHR '' '') cs)"
| "caps_given _ = []"

fun negotiation :: "irc_command \<Rightarrow> bool option" where
  "negotiation (CAP LS _ _) = Some False"
| "negotiation (CAP END _ _) = Some True"
| "negotiation _ = None"

definition is_quit :: "irc_command \<Rightarrow> bool" where
  "is_quit c \<longleftrightarrow> (case c of QUIT _ \<Rightarrow> True | _ \<Rightarrow> False)"

text \<open>
  The specification: the last nick and the last user line count, a negotiation that was opened last
  holds the registration back, and the capabilities are those that were ever requested.
\<close>

definition reg_spec :: "irc_command list \<Rightarrow> reg_info option" where
  "reg_spec cs =
     (if last_of negotiation cs = Some False then None
      else case (last_of nick_given cs, last_of user_given cs) of
          (Some n, Some (u, r)) \<Rightarrow>
            Some \<lparr>ri_nick = n, ri_user = u, ri_realname = r, ri_caps = concat (map caps_given cs)\<rparr>
        | _ \<Rightarrow> None)"

text \<open>What the state of a connection says about the history it has seen.\<close>

definition reg_abs :: "irc_command list \<Rightarrow> pending_conn \<Rightarrow> bool" where
  "reg_abs cs p \<longleftrightarrow>
     pc_cap_ended p = (last_of negotiation cs \<noteq> Some False) \<and>
     pc_nick p = last_of nick_given cs \<and>
     pc_user p = map_option fst (last_of user_given cs) \<and>
     pc_realname p = map_option snd (last_of user_given cs) \<and>
     pc_caps p = concat (map caps_given cs)"

lemma last_of_Nil [simp]: "last_of f [] = None"
  by (simp add: last_of_def map_filter_def)

lemma map_filter_snoc: "List.map_filter f (xs @ [x]) = List.map_filter f xs @ (case f x of None \<Rightarrow> [] | Some y \<Rightarrow> [y])"
  by (simp add: map_filter_def split: option.split)

lemma last_of_snoc: "last_of f (xs @ [x]) = (case f x of None \<Rightarrow> last_of f xs | Some y \<Rightarrow> Some y)"
  unfolding last_of_def map_filter_snoc by (auto simp: Let_def split: option.splits)

text \<open>Replies change the outbox only; the rest of the state is its core.\<close>

definition pc_core :: "pending_conn \<Rightarrow> pending_conn" where
  "pc_core p = p\<lparr>pc_outbox := []\<rparr>"

lemma pc_core_simps [simp]:
  "pc_cap_ended (pc_core p) = pc_cap_ended p" "pc_nick (pc_core p) = pc_nick p"
  "pc_user (pc_core p) = pc_user p" "pc_realname (pc_core p) = pc_realname p"
  "pc_caps (pc_core p) = pc_caps p" "pc_sock (pc_core p) = pc_sock p"
  "pc_addr (pc_core p) = pc_addr p" "pc_arrivals (pc_core p) = pc_arrivals p"
  by (simp_all add: pc_core_def)

definition core_step :: "(pending_conn, unit) comp \<Rightarrow> (pending_conn \<Rightarrow> pending_conn) \<Rightarrow> bool" where
  "core_step m f \<longleftrightarrow> (\<forall>p. fst (m p) = Ok () \<and> pc_core (snd (m p)) = f (pc_core p))"

lemma core_step_modify: "(\<And>p. pc_core (f p) = g (pc_core p)) \<Longrightarrow> core_step (modify f) g"
  by (simp add: core_step_def modify_def)

lemma core_step_then: "core_step m f \<Longrightarrow> core_step n g \<Longrightarrow> core_step (then_do m n) (g \<circ> f)"
  unfolding core_step_def
proof (intro allI)
  fix p assume m: "\<forall>p. fst (m p) = Ok () \<and> pc_core (snd (m p)) = f (pc_core p)"
    and n: "\<forall>p. fst (n p) = Ok () \<and> pc_core (snd (n p)) = g (pc_core p)"
  obtain q where "m p = (Ok (), q)" "pc_core q = f (pc_core p)"
    using m by (metis prod.collapse)
  then show "fst (then_do m n p) = Ok () \<and> pc_core (snd (then_do m n p)) = (g \<circ> f) (pc_core p)"
    using n by (simp add: then_do_Ok)
qed

lemma core_step_cong: "core_step m f \<Longrightarrow> (\<And>p. f p = g p) \<Longrightarrow> core_step m g"
  by (simp add: core_step_def)

lemma core_step_reply:
  assumes "\<And>m. irc_valid E m"
  shows "core_step (pc_reply E cmd args sf) id"
  using assms
  by (simp add: core_step_def pc_reply_def new_message_def lift_def and_then_def modify_def pc_core_def)

lemma core_step_caps:
  assumes valid: "\<And>m. irc_valid E m"
  shows "core_step (for_each caps (pc_request_cap E))
     (\<lambda>p. p\<lparr>pc_caps := pc_caps p @ List.map_filter from_cap_name caps\<rparr>)"
proof (induction caps)
  case Nil
  show ?case by (simp add: core_step_def ret_def map_filter_def)
next
  case (Cons c cs)
  have one: "core_step (pc_request_cap E c)
      (\<lambda>p. p\<lparr>pc_caps := pc_caps p @ List.map_filter from_cap_name [c]\<rparr>)"
  proof (cases "from_cap_name c")
    case None
    show ?thesis
      unfolding pc_request_cap_def None option.case
      by (rule core_step_cong [OF core_step_reply [OF valid]]) (simp add: map_filter_def None)
  next
    case (Some k)
    have "core_step (modify (\<lambda>p. p\<lparr>pc_caps := pc_caps p @ [k]\<rparr>)) (\<lambda>p. p\<lparr>pc_caps := pc_caps p @ [k]\<rparr>)"
      by (rule core_step_modify) (simp add: pc_core_def)
    from core_step_then [OF this core_step_reply [OF valid]] show ?thesis
      by (simp add: pc_request_cap_def Some map_filter_def comp_def)
  qed
  show ?case
    unfolding for_each.simps
    by (rule core_step_cong [OF core_step_then [OF one Cons.IH]]) (simp add: map_filter_def)
qed

text \<open>One line as a function of the core: the handler succeeds, on everything but a \<open>QUIT\<close>.\<close>

definition reg_step :: "irc_command \<Rightarrow> pending_conn \<Rightarrow> pending_conn" where
  "reg_step c p = p
     \<lparr>pc_cap_ended := (case negotiation c of None \<Rightarrow> pc_cap_ended p | Some b \<Rightarrow> b),
      pc_nick := (case nick_given c of None \<Rightarrow> pc_nick p | Some n \<Rightarrow> Some n),
      pc_user := (case user_given c of None \<Rightarrow> pc_user p | Some (u, r) \<Rightarrow> Some u),
      pc_realname := (case user_given c of None \<Rightarrow> pc_realname p | Some (u, r) \<Rightarrow> Some r),
      pc_caps := pc_caps p @ caps_given c\<rparr>"

lemma pc_cap_step:
  assumes valid: "\<And>m. irc_valid E m"
  shows "core_step (pc_cap E sub a b) (reg_step (CAP sub a b))"
proof -
  note reply = core_step_reply [OF valid]
  have unreg: "core_step (pc_unregistered E) id" unfolding pc_unregistered_def by (rule reply)
  have ls: "core_step (pc_cap E LS a b) (reg_step (CAP LS a b))"
  proof -
    have "core_step (modify (\<lambda>p. p\<lparr>pc_cap_ended := False\<rparr>)) (\<lambda>p. p\<lparr>pc_cap_ended := False\<rparr>)"
      by (rule core_step_modify) (simp add: pc_core_def)
    from core_step_then [OF this reply]
    have "core_step (pc_cap E LS a b) (id \<circ> (\<lambda>p. p\<lparr>pc_cap_ended := False\<rparr>))"
      by (simp add: pc_cap_def)
    then show ?thesis by (rule core_step_cong) (simp add: reg_step_def)
  qed
  have en: "core_step (pc_cap E END a b) (reg_step (CAP END a b))"
    by (simp add: pc_cap_def core_step_def modify_def pc_core_def reg_step_def)
  have li: "core_step (pc_cap E LIST a b) (reg_step (CAP LIST a b))"
    using reply by (simp add: pc_cap_def core_step_def reg_step_def)
  have req: "core_step (pc_cap E REQ a b) (reg_step (CAP REQ a b))"
    using core_step_caps [OF valid] unreg
    by (cases a; cases b) (simp_all add: pc_cap_def reg_step_def core_step_def)
  have oth: "core_step (pc_cap E CapOther a b) (reg_step (CAP CapOther a b))"
    using unreg by (simp add: pc_cap_def reg_step_def core_step_def)
  show ?thesis using ls en li req oth by (cases sub) simp_all
qed

lemma pc_handle_step:
  assumes valid: "\<And>m. irc_valid E m" and "\<not> is_quit c"
  shows "core_step (pc_handle E c) (reg_step c)"
proof -
  have unreg: "core_step (pc_unregistered E) id"
    unfolding pc_unregistered_def by (rule core_step_reply [OF valid])
  note simps = pc_handle_def reg_step_def core_step_def pc_set_user_def modify_def ret_def pc_core_def
  show ?thesis
  proof (cases c)
    case (CAP sub a b)
    then show ?thesis using pc_cap_step [OF valid] by (simp add: pc_handle_def)
  next
    case (Raw cmd args t)
    then show ?thesis
      using unreg by (cases "cmd = ''USER'' \<and> length args > 1") (auto simp: simps split: option.splits)
  qed (use assms unreg in \<open>auto simp: simps is_quit_def\<close>)
qed

lemma reg_step_abs: "reg_abs cs p \<Longrightarrow> reg_abs (cs @ [c]) (reg_step c p)"
  by (auto simp: reg_abs_def reg_step_def last_of_snoc split: option.splits)

lemma reg_step_frame [simp]:
  "pc_sock (reg_step c p) = pc_sock p" "pc_addr (reg_step c p) = pc_addr p"
  "pc_arrivals (reg_step c p) = pc_arrivals p"
  by (simp_all add: reg_step_def)

lemma reg_abs_core [simp]: "reg_abs cs (pc_core p) = reg_abs cs p"
  by (simp add: reg_abs_def)

lemma pc_events_refine:
  assumes "\<And>m. irc_valid E m" and "reg_abs cs p" and "list_all (\<lambda>m. \<not> is_quit (command m)) ms"
  shows "\<exists>q. for_each (map Received ms) (pc_event E) p = (Ok (), q) \<and> reg_abs (cs @ map command ms) q \<and>
    pc_sock q = pc_sock p \<and> pc_addr q = pc_addr p \<and> pc_arrivals q = pc_arrivals p"
  using assms(2,3)
proof (induction ms arbitrary: cs p)
  case Nil
  then show ?case by (simp add: ret_def)
next
  case (Cons m ms)
  have "core_step (pc_handle E (command m)) (reg_step (command m))"
    using pc_handle_step [OF assms(1)] Cons.prems(2) by simp
  then obtain q where q: "pc_handle E (command m) p = (Ok (), q)"
    and core: "pc_core q = reg_step (command m) (pc_core p)"
    by (metis core_step_def prod.collapse)
  have "reg_abs (cs @ [command m]) q"
    using reg_step_abs [of cs "pc_core p" "command m"] Cons.prems(1) core reg_abs_core by metis
  moreover have "pc_sock q = pc_sock p" "pc_addr q = pc_addr p" "pc_arrivals q = pc_arrivals p"
    using core pc_core_simps reg_step_frame by metis+
  ultimately show ?case
    using Cons.IH [of "cs @ [command m]" q] Cons.prems(2) q
    by (auto simp: then_do_def and_then_def pc_event_def)
qed

text \<open>A poll after which the specification has a registration hands over exactly that one.\<close>

definition seen :: "irc_command list \<Rightarrow> pending_conn \<Rightarrow> bool" where
  "seen cs p \<longleftrightarrow> reg_abs cs p \<and> list_all (\<lambda>a. a = Ready) (send_sched (pc_sock p)) \<and>
     complete_sched (pc_sock p) = []"

lemma seen_fresh: "send_sched k = [] \<Longrightarrow> complete_sched k = [] \<Longrightarrow> seen [] (from_incoming k evs a)"
  by (simp add: seen_def reg_abs_def from_incoming_def)

lemma sink_outbox_ready_full:
  assumes "list_all (\<lambda>a. a = Ready) (send_sched k)" and "complete_sched k = []"
  shows "\<exists>k'. sink_outbox (ob, k) = (Ok (), ([], k')) \<and> wire k' = wire k @ ob \<and>
    list_all (\<lambda>a. a = Ready) (send_sched k') \<and> complete_sched k' = []"
proof -
  have "\<exists>k'. for_each ms offer (ob, k) = (Ok (), (ob, k')) \<and> wire k' = wire k @ ms \<and>
      list_all (\<lambda>a. a = Ready) (send_sched k') \<and> complete_sched k' = []"
    if "list_all (\<lambda>a. a = Ready) (send_sched k)" "complete_sched k = []" for ms ob and k :: sink
    using that
  proof (induction ms arbitrary: k)
    case Nil
    then show ?case by (simp add: ret_def)
  next
    case (Cons m ms)
    obtain k1 where k1: "offer m (ob, k) = (Ok (), (ob, k1))" "wire k1 = wire k @ [m]"
      "list_all (\<lambda>a. a = Ready) (send_sched k1)" "complete_sched k1 = []"
      using Cons.prems
      by (cases "send_sched k") (auto simp: offer_def and_then_def on_field_def start_send_def ret_def)
    then show ?case using Cons.IH [OF k1(3,4)] by (auto simp: then_do_Ok)
  qed
  then obtain k' where "for_each ob offer ([], k) = (Ok (), ([], k'))" "wire k' = wire k @ ob"
    "list_all (\<lambda>a. a = Ready) (send_sched k')" "complete_sched k' = []"
    using assms by blast
  then show ?thesis
    by (simp add: sink_outbox_def then_do_def and_then_def gets_def modify_def on_field_def
        poll_complete_def ret_def)
qed

lemma wrapper_poll_spec:
  assumes valid: "\<And>m. irc_valid E m" and p: "seen cs p" "pc_arrivals p = map Received ms"
    and noquit: "list_all (\<lambda>m. \<not> is_quit (command m)) ms"
  shows "case reg_spec (cs @ map command ms) of
      None \<Rightarrow> \<exists>q. wrapper_poll E (Some p) = (Ok None, Some q) \<and> seen (cs @ map command ms) q \<and>
        pc_arrivals q = []
    | Some ri \<Rightarrow> \<exists>k. wrapper_poll E (Some p) = (Ok (Some (k, pc_addr p, ri)), None)"
proof -
  let ?hello = "if pc_new p then then_do (modify (\<lambda>p. p\<lparr>pc_new := False\<rparr>)) (pc_on_new E) else ret ()"
  let ?cs = "cs @ map command ms"
  have "core_step (pc_on_new E) id"
    unfolding pc_on_new_def by (rule core_step_reply [OF valid])
  moreover have "core_step (modify (\<lambda>p. p\<lparr>pc_new := False\<rparr>)) (\<lambda>p. p\<lparr>pc_new := False\<rparr>)"
    by (rule core_step_modify) (simp add: pc_core_def)
  ultimately have "core_step (then_do (modify (\<lambda>p. p\<lparr>pc_new := False\<rparr>)) (pc_on_new E)) (\<lambda>p. p\<lparr>pc_new := False\<rparr>)"
    using core_step_then by fastforce
  then have hello: "fst (?hello p) = Ok () \<and> pc_core (snd (?hello p)) = (pc_core p)\<lparr>pc_new := False\<rparr>"
    by (auto simp: core_step_def ret_def pc_core_def)
  then obtain p1 where p1: "?hello p = (Ok (), p1)" and core1: "pc_core p1 = (pc_core p)\<lparr>pc_new := False\<rparr>"
    by (metis prod.collapse)
  have "reg_abs cs p1"
    using p(1) core1 reg_abs_core [of cs p1] by (simp add: seen_def reg_abs_def)
  moreover have "pc_sock p1 = pc_sock p" "pc_addr p1 = pc_addr p" "pc_arrivals p1 = pc_arrivals p"
    using core1 pc_core_simps [of p1] by simp_all
  ultimately have p1s: "reg_abs cs p1" "pc_sock p1 = pc_sock p" "pc_addr p1 = pc_addr p"
    "pc_arrivals p1 = pc_arrivals p" by simp_all
  have abs1: "reg_abs cs (p1\<lparr>pc_arrivals := []\<rparr>)" using p1s(1) by (simp add: reg_abs_def)
  obtain p2 where p2: "for_each (map Received ms) (pc_event E) (p1\<lparr>pc_arrivals := []\<rparr>) = (Ok (), p2)"
    "reg_abs ?cs p2" "pc_sock p2 = pc_sock p" "pc_addr p2 = pc_addr p" "pc_arrivals p2 = []"
    using pc_events_refine [OF valid abs1 noquit] p1s by auto
  obtain k where k: "sink_outbox (pc_outbox p2, pc_sock p2) = (Ok (), ([], k))"
    "list_all (\<lambda>a. a = Ready) (send_sched k)" "complete_sched k = []"
    using sink_outbox_ready_full [of "pc_sock p2" "pc_outbox p2"] p(1) p2(3) by (auto simp: seen_def)
  let ?q = "p2\<lparr>pc_outbox := [], pc_sock := k\<rparr>"
  have q: "reg_abs ?cs ?q" "pc_addr ?q = pc_addr p" using p2 by (simp_all add: reg_abs_def)
  have run: "pc_poll E p = pc_is_done ?q"
    using p1 p1s p2(1) k(1) p(2)
    by (simp add: pc_poll_def then_do_def and_then_def gets_def modify_def on_field_def)
  have fin: "pc_is_done ?q = (Ok (reg_spec ?cs \<noteq> None), ?q)"
    using q(1) k(3)
    by (auto simp: pc_is_done_def reg_abs_def reg_spec_def on_field_def poll_complete_def ret_def
        split: option.splits)
  show ?thesis
    using run fin q p2(5) k
    by (auto simp: wrapper_poll_def seen_def pc_reginfo_def reg_abs_def reg_spec_def
        split: option.splits if_splits)
qed

end
