(* ===== verification/Irc_Server.thy ===== *)
theory Irc_Server
  imports Irc_Registration Sender_Common Control_Common
begin

text \<open>
  \<open>irc_s2c.rs\<close>: the bridge as an IRC server of its own. Every registered client is a connection that
  implements \<open>ControlCommon\<close> and \<open>Sender\<close>; the server accepts clients, hands the commands of the other
  components to all of them and collects theirs.
\<close>

section \<open>Connections\<close>

definition USER_MODES :: string where "USER_MODES = ''i''"
definition CHANNEL_MODES :: string where "CHANNEL_MODES = ''nt''"
definition PKG_VERSION :: string where "PKG_VERSION = ''0.2.0''"

definition MOTD :: string where
  "MOTD = join_str [newline]
     [''Welcome to sms-irc!'',
      '''',
      ''This is the experimental IRC server backend.'',
      ''Please refer to https://git.theta.eu.org/sms-irc.git/about/'',
      ''for more information about sms-irc.'',
      '''',
      ''Alternatively, come and chat to us in #sms-irc on chat.freenode.net'',
      ''if you have comments or want help using the software!'']"

text \<open>
  \<open>ic_store\<close> is the database behind the connection's handle and \<open>ic_clock\<close> the time; the server
  brings both up to date before it runs a connection.
\<close>

record ('t, 'j) irc_connection =
  ic_sock :: sink
  ic_arrivals :: "conn_event list"
  ic_addr :: string
  ic_reginfo :: reg_info
  ic_outbox :: "irc_msg list"
  ic_store :: db
  ic_joined_groups :: "(string, group) hash_map"
  ic_wa_outbox :: "('t, 'j) whatsapp_command list"
  ic_m_outbox :: "'t modem_command list"
  ic_cf_outbox :: "'t contact_factory_command list"
  ic_new :: bool
  ic_clock :: int

definition from_pending ::
  "sink \<Rightarrow> conn_event list \<Rightarrow> string \<Rightarrow> db \<Rightarrow> int \<Rightarrow> reg_info \<Rightarrow> ('t, 'j) irc_connection" where
  "from_pending k evs a d t ri =
     \<lparr>ic_sock = k, ic_arrivals = evs, ic_addr = a, ic_reginfo = ri, ic_outbox = [], ic_store = d,
      ic_joined_groups = [], ic_wa_outbox = [], ic_m_outbox = [], ic_cf_outbox = [], ic_new = True,
      ic_clock = t\<rparr>"

definition ic_nick :: "('t, 'j) irc_connection \<Rightarrow> string" where
  "ic_nick c = ri_nick (ic_reginfo c)"

definition ic_store_op :: "(db, 'a) comp \<Rightarrow> (('t, 'j) irc_connection, 'a) comp" where
  "ic_store_op = on_field ic_store (\<lambda>d c. c\<lparr>ic_store := d\<rparr>)"

section \<open>Replies\<close>

definition ic_push ::
  "('t, 'j) ext \<Rightarrow> string \<Rightarrow> string \<Rightarrow> string list \<Rightarrow> string option \<Rightarrow> (('t, 'j) irc_connection, unit) comp" where
  "ic_push E pre cmd args suffix =
     and_then (lift (new_message E (Some pre) cmd args suffix)) (\<lambda>m.
       modify (\<lambda>c. c\<lparr>ic_outbox := ic_outbox c @ [m]\<rparr>))"

definition reply_s2c ::
  "('t, 'j) ext \<Rightarrow> string \<Rightarrow> string list \<Rightarrow> string option \<Rightarrow> (('t, 'j) irc_connection, unit) comp" where
  "reply_s2c E cmd args suffix =
     and_then (gets ic_nick) (\<lambda>n. ic_push E SERVER_NAME cmd (n # args) suffix)"

definition reply_from_user ::
  "('t, 'j) ext \<Rightarrow> string \<Rightarrow> string list \<Rightarrow> string option \<Rightarrow> (('t, 'j) irc_connection, unit) comp" where
  "reply_from_user E cmd args suffix =
     and_then (gets (\<lambda>c. ic_nick c @ ''!'' @ ri_user (ic_reginfo c) @ ''@'' @ ic_addr c)) (\<lambda>host.
       ic_push E host cmd args suffix)"

definition nick_host :: "string \<Rightarrow> string" where
  "nick_host n = n @ ''!'' @ n @ ''@sms-irc.''"

definition reply_from_nick ::
  "('t, 'j) ext \<Rightarrow> string \<Rightarrow> string \<Rightarrow> string list \<Rightarrow> string option \<Rightarrow> (('t, 'j) irc_connection, unit) comp" where
  "reply_from_nick E n cmd args suffix = ic_push E (nick_host n) cmd args suffix"

definition from_root :: "('t, 'j) ext \<Rightarrow> string \<Rightarrow> (('t, 'j) irc_connection, unit) comp" where
  "from_root E msg = ic_push E ''root'' ''PRIVMSG'' [''&smsirc''] (Some msg)"

section \<open>The traits\<close>

definition ic_control :: "('t, 'j) ext \<Rightarrow> (('t, 'j) irc_connection, 't, 'j) control_ops" where
  "ic_control E =
     \<lparr>wa_send = (\<lambda>w. modify (\<lambda>c. c\<lparr>ic_wa_outbox := ic_wa_outbox c @ [w]\<rparr>)),
      cf_send = (\<lambda>f. modify (\<lambda>c. c\<lparr>ic_cf_outbox := ic_cf_outbox c @ [f]\<rparr>)),
      m_send = (\<lambda>m. modify (\<lambda>c. c\<lparr>ic_m_outbox := ic_m_outbox c @ [m]\<rparr>)),
      process_insp = process_insp_default, control_response = from_root E\<rparr>"

definition ic_sender :: "('t, 'j) ext \<Rightarrow> ('t, 'j) irc_connection sender_ops" where
  "ic_sender E =
     \<lparr>report_error = (\<lambda>n e. and_then (gets ic_nick) (\<lambda>me. reply_from_nick E n ''NOTICE'' [me] (Some e))),
      sender_db = ic_store, sender_db_put = (\<lambda>d c. c\<lparr>ic_store := d\<rparr>),
      private_target = gets ic_nick,
      send_irc_message = (\<lambda>n dst msg. reply_from_nick E n ''PRIVMSG'' [dst] (Some msg)),
      ensure_joined = ensure_joined_default, sender_now = ic_clock\<rparr>"

section \<open>Greeting a client\<close>

text \<open>\<open>slice::chunks\<close>.\<close>

function slice_chunks :: "nat \<Rightarrow> 'a list \<Rightarrow> 'a list list" where
  "slice_chunks n xs = (if xs = [] \<or> n = 0 then [] else take n xs # slice_chunks n (drop n xs))"
  by pat_completeness auto

termination by (relation "measure (length \<circ> snd)") (auto simp: length_greater_0_conv [symmetric] simp del: length_greater_0_conv)

declare slice_chunks.simps [simp del]

definition participant_recipient :: "int \<Rightarrow> (('t, 'j) irc_connection, recipient) comp" where
  "participant_recipient i =
     and_then (ic_store_op (get_recipient_by_id_opt i)) (\<lambda>ro. case ro of
         None \<Rightarrow> err (Failure ''recipient group wat'' [])
       | Some r \<Rightarrow> ret r)"

primrec collect_recipients :: "int list \<Rightarrow> (('t, 'j) irc_connection, recipient list) comp" where
  "collect_recipients [] = ret []"
| "collect_recipients (i # is) =
     and_then (participant_recipient i) (\<lambda>r.
     and_then (collect_recipients is) (\<lambda>rs. ret (r # rs)))"

definition names_line :: "int list \<Rightarrow> recipient list \<Rightarrow> string" where
  "names_line ops rs =
     concat (map (\<lambda>r. (if r_id r \<in> set ops then ''@'' else '''') @ r_nick r @ '' '') rs)"

definition setup_group :: "('t, 'j) ext \<Rightarrow> group \<Rightarrow> (('t, 'j) irc_connection, unit) comp" where
  "setup_group E grp =
     then_do (reply_from_user E ''JOIN'' [g_channel grp] None)
     (then_do (reply_s2c E ''332'' [g_channel grp] (Some (g_topic grp)))
     (and_then (gets ic_nick) (\<lambda>n.
     then_do (reply_s2c E ''353'' [''='', g_channel grp] (Some (CHR ''&'' # n)))
     (and_then (collect_recipients (g_participants grp)) (\<lambda>recips.
     then_do (for_each (slice_chunks 5 recips) (\<lambda>rs.
         reply_s2c E ''353'' [''@'', g_channel grp] (Some (names_line (g_admins grp) rs))))
     (then_do (reply_s2c E ''366'' [g_channel grp] (Some ''End of /NAMES list.''))
       (modify (\<lambda>c. c\<lparr>ic_joined_groups := hm_insert (g_channel grp) grp (ic_joined_groups c)\<rparr>))))))))"

definition setup_control_channel :: "('t, 'j) ext \<Rightarrow> (('t, 'j) irc_connection, unit) comp" where
  "setup_control_channel E =
     then_do (reply_from_user E ''JOIN'' [''&smsirc''] None)
     (then_do (reply_s2c E ''332'' [''&smsirc''] (Some ''sms-irc admin channel''))
     (and_then (gets ic_nick) (\<lambda>n.
     then_do (reply_s2c E ''353'' [''@'', ''&smsirc''] (Some (''&'' @ n @ '' ~root'')))
     (and_then (ic_store_op get_all_recipients) (\<lambda>recips.
     then_do (for_each (slice_chunks 5 recips) (\<lambda>rs.
         reply_s2c E ''353'' [''@'', ''&smsirc''] (Some (names_line [] rs))))
     (then_do (reply_s2c E ''366'' [''&smsirc''] (Some ''End of /NAMES list.''))
       (reply_s2c E ''324'' [''&smsirc''] None)))))))"

definition send_motd :: "('t, 'j) ext \<Rightarrow> (('t, 'j) irc_connection, unit) comp" where
  "send_motd E =
     then_do (reply_s2c E ''375'' [] (Some ''- Message of the day -''))
     (then_do (for_each (str_lines MOTD) (\<lambda>line. reply_s2c E ''372'' [] (Some line)))
       (reply_s2c E ''376'' [] (Some ''End of /MOTD command.'')))"

definition ic_on_new :: "('t, 'j) ext \<Rightarrow> (('t, 'j) irc_connection, unit) comp" where
  "ic_on_new E =
     then_do (reply_s2c E ''001'' [] (Some ''Welcome to sms-irc, a SMS/WhatsApp to IRC bridge!''))
     (then_do (reply_s2c E ''002'' [] (Some (''This is sms-irc version '' @ PKG_VERSION @ '', running in IRC server mode.'')))
     (then_do (reply_s2c E ''003'' [] (Some ''(This server doesn't keep creation timestamp information at present.)''))
     (then_do (reply_s2c E ''004'' [SERVER_NAME, ''sms-irc-'' @ PKG_VERSION, USER_MODES, CHANNEL_MODES] None)
     (then_do (reply_s2c E ''005''
         [''AWAYLEN=200'', ''CASEMAPPING=ascii'', ''NETWORK=sms-irc'', ''NICKLEN=100'', ''PREFIX=(qaohv)~&@%+'']
         (Some ''are supported by this server''))
     (then_do (send_motd E)
     (then_do (setup_control_channel E)
     (and_then (ic_store_op get_all_groups) (\<lambda>grps. for_each grps (setup_group E)))))))))"

section \<open>Commands of the other components\<close>

definition ic_handle_control :: "('t, 'j) ext \<Rightarrow> control_bot_command \<Rightarrow> (('t, 'j) irc_connection, unit) comp" where
  "ic_handle_control E cmd = (case cmd of
      Log thing \<Rightarrow> from_root E thing
    | ReportFailure thing \<Rightarrow> reply_s2c E ''PRIVMSG'' [] (Some thing)
    | CommandResponse thing \<Rightarrow> from_root E thing
    | CbProcessGroups \<Rightarrow> ret ())"

definition ic_process_message :: "('t, 'j) ext \<Rightarrow> message \<Rightarrow> (('t, 'j) irc_connection, unit) comp" where
  "ic_process_message E msg =
     and_then (lift (get_addr E (m_phone_number msg))) (\<lambda>addr.
     and_then (ic_store_op (get_recipient_by_addr_opt E addr)) (\<lambda>ro. case ro of
         None \<Rightarrow> ret ()
       | Some recip \<Rightarrow>
           (case m_pdu msg of
              Some raw \<Rightarrow>
                (case deliver_try_from E raw of
                   None \<Rightarrow> err PduError
                 | Some pd \<Rightarrow> process_msg_pdu E (ic_sender E) (r_nick recip) msg pd)
            | None \<Rightarrow> process_msg_plain E (ic_sender E) (r_nick recip) msg)))"

definition ic_process_messages :: "('t, 'j) ext \<Rightarrow> (('t, 'j) irc_connection, unit) comp" where
  "ic_process_messages E =
     and_then (ic_store_op get_all_messages) (\<lambda>msgs. for_each msgs (ic_process_message E))"

section \<open>Lines of the client\<close>

definition ic_handle_privmsg :: "('t, 'j) ext \<Rightarrow> string \<Rightarrow> string \<Rightarrow> (('t, 'j) irc_connection, unit) comp" where
  "ic_handle_privmsg E tgt msg =
     (if tgt = ''&smsirc'' then process_admin_command E (ic_control E) msg
      else if starts_with tgt ''#'' then wa_send (ic_control E) (SendGroupMessage tgt msg)
      else
        and_then (ic_store_op (get_recipient_by_nick_opt tgt)) (\<lambda>ro. case ro of
            Some recip \<Rightarrow>
              and_then (lift (get_addr E (r_phone_number recip))) (\<lambda>addr.
                if r_whatsapp recip then wa_send (ic_control E) (SendDirectMessage addr msg)
                else m_send (ic_control E) (SendMessage addr msg))
          | None \<Rightarrow> reply_s2c E ''401'' [tgt] (Some ''Unknown nickname.'')))"

definition ic_handle_remote :: "('t, 'j) ext \<Rightarrow> irc_command \<Rightarrow> (('t, 'j) irc_connection, unit) comp" where
  "ic_handle_remote E c = (case c of
      PING tok _ \<Rightarrow> reply_s2c E ''PONG'' [] (Some tok)
    | QUIT _ \<Rightarrow> err (Failure ''Client quit'' [])
    | NICK new \<Rightarrow>
        then_do (reply_from_user E ''NICK'' [new] None)
          (modify (\<lambda>c. c\<lparr>ic_reginfo := (ic_reginfo c)\<lparr>ri_nick := new\<rparr>\<rparr>))
    | JOIN _ \<Rightarrow> ret ()
    | PART chan \<Rightarrow> reply_s2c E ''442'' [chan] (Some ''You may not part.'')
    | ChannelMODE tgt modes \<Rightarrow>
        if length modes > 0 then reply_s2c E ''482'' [tgt] (Some ''You may not alter channel modes.'')
        else reply_s2c E ''324'' [tgt, ''+nt''] None
    | PRIVMSG tgt msg \<Rightarrow> ic_handle_privmsg E tgt msg
    | u \<Rightarrow> reply_s2c E ''421'' [hd (split_on (CHR '' '') (irc_command_str E u))]
        (Some ''Unknown or unimplemented command.''))"

definition ic_event :: "('t, 'j) ext \<Rightarrow> conn_event \<Rightarrow> (('t, 'j) irc_connection, unit) comp" where
  "ic_event E ev = (case ev of
      Received m \<Rightarrow> ic_handle_remote E (command m)
    | ConnClosed \<Rightarrow> err (Failure ''Socket disconnected'' [])
    | ConnFailed \<Rightarrow> err IoError)"

definition ic_poll :: "('t, 'j) ext \<Rightarrow> (('t, 'j) irc_connection, unit) comp" where
  "ic_poll E =
     and_then (gets ic_new) (\<lambda>new.
     then_do (if new then then_do (modify (\<lambda>c. c\<lparr>ic_new := False\<rparr>)) (ic_on_new E) else ret ())
     (and_then (gets ic_arrivals) (\<lambda>evs.
     then_do (modify (\<lambda>c. c\<lparr>ic_arrivals := []\<rparr>))
     (then_do (for_each evs (ic_event E))
       (on_field (\<lambda>c. (ic_outbox c, ic_sock c)) (\<lambda>(ob, k) c. c\<lparr>ic_outbox := ob, ic_sock := k\<rparr>)
          sink_outbox)))))"

section \<open>The server\<close>

datatype accept_event = Accepted sink "conn_event list" string | ListenerStopped | AcceptFailed

record ('t, 'j) irc_server =
  is_incoming :: "accept_event list"
  is_cf_rx :: "'t contact_factory_command list"
  is_cb_rx :: "control_bot_command list"
  is_wa_tx :: "('t, 'j) whatsapp_command list"
  is_m_tx :: "'t modem_command list"
  is_store :: db
  is_connections :: "('t, 'j) irc_connection list"
  is_pending :: "pending_conn option list"
  is_clock :: int

text \<open>\<open>IrcServer::new\<close> once the listener is bound.\<close>

definition is_new ::
  "'t contact_factory_command list \<Rightarrow> control_bot_command list \<Rightarrow> db \<Rightarrow> int \<Rightarrow> ('t, 'j) irc_server" where
  "is_new cfq cbq d t =
     \<lparr>is_incoming = [], is_cf_rx = cfq, is_cb_rx = cbq, is_wa_tx = [], is_m_tx = [], is_store = d,
      is_connections = [], is_pending = [], is_clock = t\<rparr>"

definition is_accept :: "accept_event \<Rightarrow> (('t, 'j) irc_server, unit) comp" where
  "is_accept ev = (case ev of
      Accepted k evs sa \<Rightarrow> modify (\<lambda>s. s\<lparr>is_pending := is_pending s @ [Some (from_incoming k evs sa)]\<rparr>)
    | ListenerStopped \<Rightarrow> err (Failure ''TCP listener stopped'' [])
    | AcceptFailed \<Rightarrow> err IoError)"

text \<open>
  One pass over the pending clients: those that finish become connections, those that fail are
  dropped. The state after a panic does not matter.
\<close>

primrec poll_pending ::
  "('t, 'j) ext \<Rightarrow> db \<Rightarrow> int \<Rightarrow> pending_conn option list
   \<Rightarrow> unit outcome \<times> ('t, 'j) irc_connection list \<times> pending_conn option list" where
  "poll_pending E d t [] = (Ok (), [], [])"
| "poll_pending E d t (w # ws) =
     (case wrapper_poll E w of
        (Panic, w') \<Rightarrow> (Panic, [], w' # ws)
      | (r, w') \<Rightarrow>
          (let (r2, cs, ws') = poll_pending E d t ws
           in (r2, (case r of Ok (Some (k, a, ri)) \<Rightarrow> from_pending k [] a d t ri # cs | _ \<Rightarrow> cs),
               (case r of Ok None \<Rightarrow> w' # ws' | _ \<Rightarrow> ws'))))"

definition is_poll_pending :: "('t, 'j) ext \<Rightarrow> (('t, 'j) irc_server, unit) comp" where
  "is_poll_pending E s =
     (let (r, cs, ws) = poll_pending E (is_store s) (is_clock s) (is_pending s)
      in (r, s\<lparr>is_connections := is_connections s @ cs, is_pending := ws\<rparr>))"

text \<open>Every connection does the same thing, on the one database; an error is only logged.\<close>

primrec each_conn ::
  "(('t, 'j) irc_connection, unit) comp \<Rightarrow> int \<Rightarrow> ('t, 'j) irc_connection list \<Rightarrow> db
   \<Rightarrow> unit outcome \<times> ('t, 'j) irc_connection list \<times> db" where
  "each_conn m t [] d = (Ok (), [], d)"
| "each_conn m t (c # cs) d =
     (case m (c\<lparr>ic_store := d, ic_clock := t\<rparr>) of
        (Panic, c') \<Rightarrow> (Panic, c' # cs, ic_store c')
      | (r, c') \<Rightarrow> (let (r2, cs', d') = each_conn m t cs (ic_store c') in (r2, c' # cs', d')))"

definition on_conns :: "(('t, 'j) irc_connection, unit) comp \<Rightarrow> (('t, 'j) irc_server, unit) comp" where
  "on_conns m s =
     (let (r, cs, d) = each_conn m (is_clock s) (is_connections s) (is_store s)
      in (r, s\<lparr>is_connections := cs, is_store := d\<rparr>))"

definition is_handle_control :: "('t, 'j) ext \<Rightarrow> control_bot_command \<Rightarrow> (('t, 'j) irc_server, unit) comp" where
  "is_handle_control E cmd = on_conns (ic_handle_control E cmd)"

definition is_handle_contact ::
  "('t, 'j) ext \<Rightarrow> 't contact_factory_command \<Rightarrow> (('t, 'j) irc_server, unit) comp" where
  "is_handle_contact E cfc = (if cfc = ProcessMessages then on_conns (ic_process_messages E) else ret ())"

text \<open>
  The connections are polled in turn. What a connection has queued for WhatsApp and the modem is
  taken from it even when its poll fails and it is closed.
\<close>

primrec poll_conns ::
  "('t, 'j) ext \<Rightarrow> int \<Rightarrow> ('t, 'j) irc_connection list \<Rightarrow> db
   \<Rightarrow> unit outcome \<times> ('t, 'j) irc_connection list \<times> ('t, 'j) whatsapp_command list \<times> 't modem_command list \<times> db" where
  "poll_conns E t [] d = (Ok (), [], [], [], d)"
| "poll_conns E t (c # cs) d =
     (case ic_poll E (c\<lparr>ic_store := d, ic_clock := t\<rparr>) of
        (Panic, c') \<Rightarrow> (Panic, c' # cs, [], [], ic_store c')
      | (r, c') \<Rightarrow>
          (let (r2, cs', was, ms, d') = poll_conns E t cs (ic_store c')
           in (r2, (if r = Ok () then c'\<lparr>ic_wa_outbox := [], ic_m_outbox := []\<rparr> # cs' else cs'),
               ic_wa_outbox c' @ was, ic_m_outbox c' @ ms, d')))"

definition is_poll_conns :: "('t, 'j) ext \<Rightarrow> (('t, 'j) irc_server, unit) comp" where
  "is_poll_conns E s =
     (let (r, cs, was, ms, d) = poll_conns E (is_clock s) (is_connections s) (is_store s)
      in (r, s\<lparr>is_connections := cs, is_store := d, is_wa_tx := is_wa_tx s @ was, is_m_tx := is_m_tx s @ ms\<rparr>))"

text \<open>The handlers send to none of the three queues the server reads, so it reads each as it stands.\<close>

definition is_poll :: "('t, 'j) ext \<Rightarrow> (('t, 'j) irc_server, unit) comp" where
  "is_poll E =
     and_then (gets is_incoming) (\<lambda>incs.
     then_do (modify (\<lambda>s. s\<lparr>is_incoming := []\<rparr>))
     (then_do (for_each incs is_accept)
     (then_do (is_poll_pending E)
     (and_then (gets is_cb_rx) (\<lambda>cbs.
     then_do (modify (\<lambda>s. s\<lparr>is_cb_rx := []\<rparr>))
     (then_do (for_each cbs (is_handle_control E))
     (and_then (gets is_cf_rx) (\<lambda>cfs.
     then_do (modify (\<lambda>s. s\<lparr>is_cf_rx := []\<rparr>))
     (then_do (for_each cfs (is_handle_contact E))
       (is_poll_conns E))))))))))"

end
