(* ===== verification/Irc_Server_Facts.thy ===== *)
theory Irc_Server_Facts
  imports Irc_Server
begin

text \<open>
  A connection of the IRC server implements both traits: the interpretations, and what follows for the
  messages and the commands that go through a connection.
\<close>

section \<open>The traits\<close>

lemma ic_push_result:
  "ic_push E pre c a sf s =
     (if irc_valid E \<lparr>im_prefix = Some pre, im_command = c, im_args = a, im_suffix = sf\<rparr>
      then (Ok (), s\<lparr>ic_outbox := ic_outbox s @ [\<lparr>im_prefix = Some pre, im_command = c, im_args = a, im_suffix = sf\<rparr>]\<rparr>)
      else (Err IrcError, s))"
  by (simp add: ic_push_def new_message_def and_then_def lift_def modify_def Let_def)

interpretation sctl: control "ic_control E" ic_cf_outbox ic_wa_outbox ic_m_outbox for E :: "('t, 'j) ext"
  by standard
    (auto simp: ic_control_def modify_def from_root_def ic_push_result process_insp_default_def ret_def)

text \<open>The nick a host mask of \<^const>\<open>nick_host\<close> was made of.\<close>

definition host_nick :: "string \<Rightarrow> string" where
  "host_nick h = take ((length h - 10) div 2) h"

lemma host_nick_host [simp]: "host_nick (nick_host n) = n"
  by (simp add: host_nick_def nick_host_def)

definition user_privmsgs :: "irc_msg list \<Rightarrow> (string \<times> string \<times> string) list" where
  "user_privmsgs ms = List.map_filter (\<lambda>m. case (im_prefix m, im_args m, im_suffix m) of
       (Some h, [to], Some x) \<Rightarrow>
         if im_command m = ''PRIVMSG'' \<and> nick_host (host_nick h) = h then Some (host_nick h, to, x) else None
     | _ \<Rightarrow> None) ms"

lemma user_privmsgs_append [simp]: "user_privmsgs (xs @ ys) = user_privmsgs xs @ user_privmsgs ys"
  by (simp add: user_privmsgs_def map_filter_def)

lemma user_privmsgs_other: "im_command m \<noteq> ''PRIVMSG'' \<Longrightarrow> user_privmsgs [m] = []"
  by (simp add: user_privmsgs_def map_filter_def split: option.splits list.splits)

abbreviation ic_sent :: "('t, 'j) irc_connection \<Rightarrow> (string \<times> string \<times> string) list" where
  "ic_sent c \<equiv> user_privmsgs (ic_outbox c)"

interpretation ssnd: sender "ic_sender E" "\<lambda>f t x. (f, t, x)" ic_sent ic_nick for E :: "('t, 'j) ext"
  by standard
    (auto simp: ic_sender_def reply_from_nick_def ic_push_result gets_def ic_nick_def
      ensure_joined_default_def ret_def and_then_def user_privmsgs_other user_privmsgs_def map_filter_def)

section \<open>Messages\<close>

text \<open>Processing messages deletes messages, adds to the outbox, and leaves the rest alone.\<close>

definition consuming ::
  "message set \<Rightarrow> recipient list \<Rightarrow> (string \<times> string \<times> string) list \<Rightarrow> string \<Rightarrow> int
   \<Rightarrow> ('t, 'j) irc_connection \<Rightarrow> bool" where
  "consuming M R S n t c \<longleftrightarrow>
     set (messages (ic_store c)) \<subseteq> M \<and> recipients (ic_store c) = R \<and> (\<exists>xs. ic_sent c = S @ xs) \<and>
     ic_nick c = n \<and> ic_clock c = t"

lemma consuming_store:
  "pres (\<lambda>d. set (messages d) \<subseteq> M \<and> recipients d = R) m \<Longrightarrow> pres (consuming M R S n t) (ic_store_op m)"
  unfolding ic_store_op_def by (rule pres_on_field) (auto simp: consuming_def ic_nick_def)

lemma consuming_push: "pres (consuming M R S n t) (ic_push E pre cmd a sf)"
  by (auto simp: pres_def ic_push_result consuming_def ic_nick_def)

lemma ic_on_db: "on_db (ic_sender E) m = ic_store_op m"
  by (simp add: on_db_def ic_sender_def ic_store_op_def)

lemma consuming_reads:
  "pres (\<lambda>d. set (messages d) \<subseteq> M \<and> recipients d = R) (get_group_by_id g)"
  "pres (\<lambda>d. set (messages d) \<subseteq> M \<and> recipients d = R) (get_all_concatenated num rf)"
  "pres (\<lambda>d. set (messages d) \<subseteq> M \<and> recipients d = R) (get_recipient_by_addr_opt E a)"
  "pres (\<lambda>d. set (messages d) \<subseteq> M \<and> recipients d = R) get_all_messages"
  by (rule pres_get_group_by_id pres_reads, simp add: fault_blind_def)+

lemma consuming_delete: "pres (\<lambda>d. set (messages d) \<subseteq> M \<and> recipients d = R) (delete_message i)"
  unfolding delete_message_def by (rule pres_with_conn) (auto simp: pres_def)

lemma consuming_process:
  fixes E :: "('t, 'j) ext"
  shows "pres (consuming M R S n t) (ic_process_message E msg)"
proof -
  let ?C = "consuming M R S n t :: ('t, 'j) irc_connection \<Rightarrow> bool"
  have ops: "pres ?C (report_error (ic_sender E) f x)" "pres ?C (private_target (ic_sender E))"
    "pres ?C (send_irc_message (ic_sender E) f to x)" "pres ?C (ensure_joined (ic_sender E) ch)"
    for f x to ch
    by (simp_all add: ic_sender_def reply_from_nick_def ensure_joined_default_def pres consuming_push)
  have dbs: "pres ?C (on_db (ic_sender E) (get_group_by_id g))" "pres ?C (on_db (ic_sender E) (delete_message i))"
    "pres ?C (on_db (ic_sender E) (get_all_concatenated num rf))" for g i num rf
    unfolding ic_on_db by (intro consuming_store consuming_reads consuming_delete)+
  note both = sender_pres [OF ops dbs]
  show ?thesis
    unfolding ic_process_message_def by (intro pres consuming_store consuming_reads both)
qed

text \<open>A text message whose sender is a recipient is sent in one piece and then gone.\<close>

definition delivered :: "('t, 'j) ext \<Rightarrow> string \<Rightarrow> int \<Rightarrow> recipient \<Rightarrow> message \<Rightarrow> ('t, 'j) irc_connection \<Rightarrow> bool" where
  "delivered E n t r m c \<longleftrightarrow>
     m_id m \<notin> m_id ` set (messages (ic_store c)) \<and>
     (\<exists>dest before after. ic_sent c = before
        @ map (\<lambda>x. (r_nick r, dest, x)) (message_chunks (plain_output E t (m_ts m) (the (m_text m)))) @ after \<and>
      (m_group_target m = None \<longrightarrow> dest = n))"

lemma recipient_lookup:
  assumes "ic_store_op (get_recipient_by_addr_opt E a) c = (Ok ro, c1)"
  shows "ro = first_opt (\<lambda>r. r_phone_number r = normalize_address E a) (recipients (ic_store c)) \<and>
    (\<exists>fs. c1 = c\<lparr>ic_store := (ic_store c)\<lparr>faults := fs\<rparr>\<rparr>)"
proof (cases "faults (ic_store c)")
  case Nil
  then have "(ic_store c)\<lparr>faults := []\<rparr> = ic_store c" by simp
  moreover have "ro = first_opt (\<lambda>r. r_phone_number r = normalize_address E a) (recipients (ic_store c))"
    "c1 = c\<lparr>ic_store := ic_store c\<rparr>"
    using Nil assms by (auto simp: ic_store_op_def on_field_def get_recipient_by_addr_opt_def gets_def)
  ultimately show ?thesis by metis
next
  case (Cons f fs)
  then show ?thesis
    using assms
    by (auto simp: ic_store_op_def on_field_def get_recipient_by_addr_opt_def gets_def with_conn_def
        split: if_splits)
qed

lemma ic_process_message_delivers:
  assumes run: "ic_process_message E m c = (Ok (), c')"
    and m: "m_pdu m = None" "m_text m = Some tx" "get_addr E (m_phone_number m) = Ok a"
    and r: "first_opt (\<lambda>r. r_phone_number r = normalize_address E a) (recipients (ic_store c)) = Some r"
  shows "delivered E (ic_nick c) (ic_clock c) r m c'"
proof -
  from run m(3) obtain ro c1 where c1: "ic_store_op (get_recipient_by_addr_opt E a) c = (Ok ro, c1)"
    and rest: "(case ro of None \<Rightarrow> ret ()
       | Some recip \<Rightarrow> (case m_pdu m of
              Some raw \<Rightarrow> (case deliver_try_from E raw of
                   None \<Rightarrow> err PduError
                 | Some pd \<Rightarrow> process_msg_pdu E (ic_sender E) (r_nick recip) m pd)
            | None \<Rightarrow> process_msg_plain E (ic_sender E) (r_nick recip) m)) c1 = (Ok (), c')"
    by (auto simp: ic_process_message_def lift_def elim!: and_then_OkE)
  note look = recipient_lookup [OF c1]
  have plain: "process_msg_plain E (ic_sender E) (r_nick r) m c1 = (Ok (), c')"
    using rest look r m(1) by simp
  have same: "ic_clock c1 = ic_clock c" "ic_nick c1 = ic_nick c" using look by (auto simp: ic_nick_def)
  have sel: "sender_now (ic_sender E) = ic_clock" "sender_db (ic_sender E) = ic_store"
    by (simp_all add: ic_sender_def)
  obtain dest where gone: "messages (ic_store c') = filter (\<lambda>x. m_id x \<noteq> m_id m) (messages (ic_store c1))"
    and dest: "ssnd.dest_ok E (m_group_target m) c1 dest"
    and sent: "ic_sent c' = ic_sent c1 @ ssnd.out (r_nick r) dest (message_chunks (plain_output E (ic_clock c) (m_ts m) tx))"
    using ssnd.plain_facts [OF plain] m(2) same(1) unfolding sel by auto
  have "m_group_target m = None \<longrightarrow> dest = ic_nick c"
    using dest same by (auto simp: ssnd.dest_ok_def split: option.splits)
  then show ?thesis
    unfolding delivered_def using gone sent m(2)
    by (intro conjI exI [of _ dest] exI [of _ "ic_sent c1"] exI [of _ "[]"]) (auto simp: ssnd.out_def)
qed

lemma delivered_stays:
  assumes "delivered E n t r m c" and "pres (consuming (set (messages (ic_store c))) R (ic_sent c) n' t') f"
    and "consuming (set (messages (ic_store c))) R (ic_sent c) n' t' c" and "f c = (x, c')"
  shows "delivered E n t r m c'"
proof -
  have "consuming (set (messages (ic_store c))) R (ic_sent c) n' t' c'"
    using presD [OF assms(2,3,4)] .
  then obtain ys where sub: "set (messages (ic_store c')) \<subseteq> set (messages (ic_store c))"
    and ys: "ic_sent c' = ic_sent c @ ys" by (auto simp: consuming_def)
  from assms(1) obtain dest before after where "m_id m \<notin> m_id ` set (messages (ic_store c))"
    and "ic_sent c = before @ map (\<lambda>x. (r_nick r, dest, x))
        (message_chunks (plain_output E t (m_ts m) (the (m_text m)))) @ after"
    and "m_group_target m = None \<longrightarrow> dest = n"
    by (auto simp: delivered_def)
  with sub ys show ?thesis
    unfolding delivered_def
    by (intro conjI exI [of _ dest] exI [of _ before] exI [of _ "after @ ys"]) auto
qed

lemma ic_process_all:
  assumes "for_each ms (ic_process_message E) c = (Ok (), c')" and "m \<in> set ms"
    and m: "m_pdu m = None" "m_text m = Some tx" "get_addr E (m_phone_number m) = Ok a"
    and "first_opt (\<lambda>r. r_phone_number r = normalize_address E a) (recipients (ic_store c)) = Some r"
  shows "delivered E (ic_nick c) (ic_clock c) r m c'"
  using assms(1,2,6)
proof (induction ms arbitrary: c)
  case (Cons x xs)
  obtain c1 where c1: "ic_process_message E x c = (Ok (), c1)"
    and rest: "for_each xs (ic_process_message E) c1 = (Ok (), c')"
    using Cons.prems(1) by (auto elim: then_do_OkE)
  have keep: "consuming (set (messages (ic_store d))) (recipients (ic_store d)) (ic_sent d) (ic_nick d) (ic_clock d) d"
    for d :: "('a, 'b) irc_connection" by (simp add: consuming_def)
  have "consuming (set (messages (ic_store c))) (recipients (ic_store c)) (ic_sent c) (ic_nick c) (ic_clock c) c1"
    by (rule presD [OF consuming_process keep c1])
  then have same: "recipients (ic_store c1) = recipients (ic_store c)" "ic_nick c1 = ic_nick c" "ic_clock c1 = ic_clock c"
    by (simp_all add: consuming_def)
  show ?case
  proof (cases "x = m")
    case True
    have "delivered E (ic_nick c) (ic_clock c) r m c1"
      using ic_process_message_delivers [OF c1 [unfolded True] m Cons.prems(3)] .
    then show ?thesis
      by (rule delivered_stays [OF _ pres_for_each [OF consuming_process] keep rest])
  next
    case False
    then show ?thesis using Cons.IH [OF rest] Cons.prems same by simp
  qed
qed simp

section \<open>Commands\<close>

text \<open>Nothing a connection does takes a command out of its queue for the contact factory.\<close>

definition cf_grows :: "'t contact_factory_command list \<Rightarrow> ('t, 'j) irc_connection \<Rightarrow> bool" where
  "cf_grows q c \<longleftrightarrow> (\<exists>xs. ic_cf_outbox c = q @ xs)"

lemma cf_store: "pres (cf_grows q) (ic_store_op m)"
  unfolding ic_store_op_def
  by (rule pres_on_field [where Q = "\<lambda>_. True"]) (auto simp: cf_grows_def pres_def)

lemma cf_push: "pres (cf_grows q) (ic_push E pre cmd a sf)"
  by (auto simp: pres_def ic_push_result cf_grows_def)

lemma cf_admin: "pres (cf_grows q) (process_admin_command E (ic_control E) msg)"
  by (rule control_pres)
    (auto simp: ic_control_def from_root_def process_insp_default_def cf_grows_def
      intro!: cf_push pres_modify pres_ret)

lemma cf_collect: "pres (cf_grows q) (collect_recipients is)"
  by (induction "is") (auto simp: participant_recipient_def intro!: pres cf_store)

lemmas ic_reply_defs = reply_s2c_def reply_from_user_def from_root_def

lemma cf_on_new: "pres (cf_grows q) (ic_on_new E)"
  unfolding ic_on_new_def send_motd_def setup_control_channel_def setup_group_def ic_reply_defs
  by (intro pres cf_push cf_store cf_collect pres_modify) (simp add: cf_grows_def)

lemma cf_event: "pres (cf_grows q) (ic_event E ev)"
proof -
  have "pres (cf_grows q) (wa_send (ic_control E) w)" "pres (cf_grows q) (m_send (ic_control E) m)" for w m
    by (auto simp: ic_control_def cf_grows_def intro!: pres_modify)
  then have "pres (cf_grows q) (ic_handle_privmsg E tgt msg)" for tgt msg
    unfolding ic_handle_privmsg_def ic_reply_defs by (intro pres cf_push cf_store cf_admin)
  then have "pres (cf_grows q) (ic_handle_remote E c)" for c
    unfolding ic_handle_remote_def ic_reply_defs
    by (cases c) (auto simp: cf_grows_def intro!: pres cf_push pres_modify)
  then show ?thesis
    unfolding ic_event_def by (cases ev) (auto intro!: pres)
qed

lemma cf_poll: "pres (cf_grows q) (ic_poll E)"
proof -
  have "pres (cf_grows q) (on_field (\<lambda>c. (ic_outbox c, ic_sock c))
      (\<lambda>(ob, k) c. c\<lparr>ic_outbox := ob, ic_sock := k\<rparr>) sink_outbox)"
    by (rule pres_on_field [where Q = "\<lambda>_. True"]) (auto simp: cf_grows_def pres_def)
  then show ?thesis
    unfolding ic_poll_def by (intro pres cf_on_new cf_event pres_modify) (simp_all add: cf_grows_def)
qed

lemma poll_conns_cf:
  assumes "poll_conns E t cs d = (r, cs', was, ms, d')" and "c' \<in> set cs'"
  shows "\<exists>c \<in> set cs. cf_grows (ic_cf_outbox c) c'"
  using assms
proof (induction cs arbitrary: d r cs' was ms d')
  case (Cons c cs)
  obtain r1 c1 where c1: "ic_poll E (c\<lparr>ic_store := d, ic_clock := t\<rparr>) = (r1, c1)"
    by (cases "ic_poll E (c\<lparr>ic_store := d, ic_clock := t\<rparr>)")
  have "cf_grows (ic_cf_outbox c) c1"
    by (rule presD [OF cf_poll _ c1]) (simp add: cf_grows_def)
  then have head: "cf_grows (ic_cf_outbox c) (c1\<lparr>ic_wa_outbox := [], ic_m_outbox := []\<rparr>)"
    by (simp add: cf_grows_def)
  obtain r2 cs2 was2 ms2 d2 where "poll_conns E t cs (ic_store c1) = (r2, cs2, was2, ms2, d2)"
    by (cases "poll_conns E t cs (ic_store c1)") auto
  then show ?case
    using Cons.IH [of "ic_store c1"] Cons.prems c1 head \<open>cf_grows (ic_cf_outbox c) c1\<close>
    by (cases r1) (fastforce split: if_splits simp: cf_grows_def)+
qed simp

end
