(* ===== verification/Server_Properties.thy ===== *)
theory Server_Properties
  imports Irc_Server_Facts Instance
begin

text \<open>The properties of the IRC server: registration, delivery to a client, and the commands it loses.\<close>

definition ex_all :: "(8 word, string) ext" where
  "ex_all = ex_ext\<lparr>irc_valid := \<lambda>_. True\<rparr>"


section \<open>Registration\<close>




section \<open>Messages\<close>


definition ex_who :: "8 word pdu_address" where
  "ex_who = \<lparr>type_addr = 0x91, number = [0x31]\<rparr>"

definition ex_row :: recipient where
  "ex_row = \<lparr>r_id = 1, r_phone_number = normalize_address ex_all ex_who, r_nick = ''Sam'',
     r_whatsapp = False, r_avatar_url = None, r_notify = None, r_nicksrc = NICKSRC_AUTO\<rparr>"

definition ex_text :: message where
  "ex_text = \<lparr>m_id = 1, m_phone_number = normalize_address ex_all ex_who, m_pdu = None,
     m_csms_data = None, m_group_target = None, m_text = Some ''hi'', m_source = SOURCE_WA, m_ts = 0\<rparr>"

definition ex_conn :: "(8 word, string) irc_connection" where
  "ex_conn = from_pending \<lparr>send_sched = [], complete_sched = [], wire = []\<rparr> [] ''10.0.0.1''
     \<lparr>recipients = [ex_row], messages = [ex_text], groups = [], wa_persistence = [], wa_msgids = [],
      next_recipient_id = 2, next_message_id = 2, next_group_id = 1, db_clock = 0, faults = []\<rparr> 0
     \<lparr>ri_nick = ''bob'', ri_user = ''b'', ri_realname = ''Bob'', ri_caps = []\<rparr>"


section \<open>Commands\<close>

text \<open>
  A command about a ghost or a contact that a client gives the server is not carried out: it is put
  into a queue of the connection that no poll ever takes anything from, nothing else is sent to the
  other components, and the database stays as it is.
\<close>

theorem contact_commands_go_nowhere:
  assumes "line_command E msg = Some ac" and "admin_cf ac \<noteq> []"
    and "ic_handle_privmsg E ''&smsirc'' msg c = (r, c')"
  shows "ic_cf_outbox c' = ic_cf_outbox c @ admin_cf ac \<and>
    ic_wa_outbox c' = ic_wa_outbox c \<and> ic_m_outbox c' = ic_m_outbox c \<and> ic_store c' = ic_store c \<and>
    (\<forall>c'' \<in> set (fst (snd (poll_conns E t [c'] d))). \<exists>xs. ic_cf_outbox c'' = ic_cf_outbox c' @ xs)"
proof -
  have wa: "admin_wa ac = []" "admin_m ac = []" using assms(2) by (cases ac; simp)+
  have run: "process_admin_command E (ic_control E) msg c = (r, c')"
    using assms(3) by (simp add: ic_handle_privmsg_def)
  have logs: "ic_cf_outbox c' = ic_cf_outbox c @ admin_cf ac" "ic_wa_outbox c' = ic_wa_outbox c"
    "ic_m_outbox c' = ic_m_outbox c"
    using sctl.process_logs [of E E msg c] assms(1) wa
    by (simp_all add: sctl.logs_def option_list_def run)
  have "pres (\<lambda>x. ic_store x = ic_store c) (process_admin_command E (ic_control E) msg)"
    by (rule control_pres)
      (auto simp: ic_control_def from_root_def process_insp_default_def ic_push_result pres_def
        modify_def ret_def)
  from presD [OF this _ run] have "ic_store c' = ic_store c" by simp
  moreover have "\<exists>xs. ic_cf_outbox c'' = ic_cf_outbox c' @ xs"
    if "c'' \<in> set (fst (snd (poll_conns E t [c'] d)))" for c''
  proof -
    obtain x cs was ms d' where "poll_conns E t [c'] d = (x, cs, was, ms, d')"
      by (cases "poll_conns E t [c'] d")
    from poll_conns_cf [OF this] that this show ?thesis by (simp add: cf_grows_def)
  qed
  ultimately show ?thesis using logs by blast
qed

theorem contact_commands_go_nowhere_witness:
  "ic_cf_outbox (snd (ic_handle_privmsg ex_all ''&smsirc'' ''GHOST Sam REMOVE'' ex_conn))
     = [DropContactByNick ''Sam'']"
proof -
  have "line_command ex_all ''GHOST Sam REMOVE'' = Some (Ghost ''Sam'' GhostRemove)"
    by (simp add: line_command_def admin_parse_def ghost_parse_def lower_keywords)
  from contact_commands_go_nowhere [OF this _ prod.collapse [symmetric]] show ?thesis
    by (simp add: ghost_to_cf_def ex_conn_def from_pending_def)
qed

end
