(* ===== verification/Wa_Lib.thy ===== *)
theory Wa_Lib
  imports Store Admin
begin

text \<open>
  What the WhatsApp part reads of the \<open>whatsappweb\<close> library: messages, contacts, chats, events, requests
  and errors, and the functions of this and of the text, hashing and download libraries it calls, which
  are a parameter of the model.
\<close>

section \<open>Data\<close>

datatype media_type = MediaImage | MediaVideo | MediaAudio | MediaDocument

record file_info =
  fi_mime :: string
  fi_url :: string
  fi_key :: "8 word list"
  fi_enc_sha256 :: "8 word list"
  fi_sha256 :: "8 word list"
  fi_size :: nat

text \<open>The coordinates and the speed of a location are only printed: they are kept as they print.\<close>

datatype wa_content =
    WaText string
  | Unimplemented string
  | LiveLocation string string "string option"
  | Location string string "string option"
  | Redaction string
  | ContactCard string string
  | Image file_info "string option"
  | Video file_info "string option"
  | Audio file_info
  | Document file_info string

record 'j wa_quoted =
  q_participant :: 'j
  q_content :: wa_content

datatype 'j direction = Sending 'j | Receiving "'j peer"

record 'j wa_message =
  wm_direction :: "'j direction"
  wm_content :: wa_content
  wm_id :: string
  wm_quoted :: "'j wa_quoted option"
  wm_time :: int

text \<open>An acknowledgement level prints as its name.\<close>

datatype ack_level = AckError | PendingSend | OtherAck string

definition ack_debug :: "ack_level \<Rightarrow> string" where
  "ack_debug l = (case l of AckError \<Rightarrow> ''Error'' | PendingSend \<Rightarrow> ''PendingSend'' | OtherAck s \<Rightarrow> s)"

record 'j wa_contact =
  ct_jid :: 'j
  ct_name :: "string option"
  ct_notify :: "string option"

record 'j wa_chat =
  ch_jid :: 'j
  ch_name :: "string option"

record 'j group_meta =
  gm_id :: 'j
  gm_subject :: string
  gm_participants :: "('j \<times> bool) list"

datatype participants_change = ParticipantsAdd | ParticipantsRemove | ParticipantsPromote | ParticipantsDemote

datatype disconnect_reason = Replaced | Removed

datatype wa_error = Disconnected disconnect_reason | StatusCode nat | OtherWaError

text \<open>
  The events that are told apart. A scanned code carries whether its picture can be saved; the time of
  a presence change is the string it prints as.
\<close>

datatype 'j wa_event =
    WebsocketConnected
  | ScanCode bool
  | SessionEstablished 'j string
  | WaMessageEvent bool "'j wa_message"
  | InitialContacts "'j wa_contact list"
  | AddContact "'j wa_contact"
  | DeleteContact 'j
  | InitialChats "'j wa_chat list"
  | ChatRemoved 'j
  | ChatOther 'j
  | PresenceChange 'j bool "string option"
  | MessageAck string ack_level
  | GroupIntroduce bool "'j group_meta"
  | GroupMetadata "(wa_error + 'j group_meta)"
  | GroupSubjectChange 'j string 'j
  | GroupParticipantsChange 'j participants_change "'j option" "'j list"
  | ProfileStatus 'j string bool
  | PictureChange 'j bool
  | MessageSendFail string nat
  | BatteryLevel nat
  | OtherWaEvent

datatype 'j wa_request =
    WaSend 'j wa_content string
  | WaSubscribe 'j
  | WaRead string "'j peer"
  | WaGetMetadata 'j

text \<open>What a timer answers when polled.\<close>

datatype timer_answer = TimerReady | TimerPending | TimerFailed

section \<open>Functions\<close>

text \<open>
  \<open>re_pieces re s\<close> is what \<open>Regex::replace_all\<close> of the pattern \<open>re\<close> sees of \<open>s\<close>: the text between the
  matches, and for each match the whole of it and its first group. Message and file identifiers come
  from random supplies, \<open>gen_mid\<close> and \<open>gen_uuid\<close>. \<open>jid_error\<close> is what the error prints as when a number
  is no JID, \<open>lib_error\<close> what an error of a library does.
\<close>

record wa_lib =
  take_caption :: "wa_content \<Rightarrow> string option"
  quoted_description :: "wa_content \<Rightarrow> string"
  graphemes :: "string \<Rightarrow> string list"
  re_pieces :: "string \<Rightarrow> string \<Rightarrow> (string + string \<times> string) list"
  gen_mid :: "nat \<Rightarrow> string"
  gen_uuid :: "nat \<Rightarrow> string"
  mime_extensions :: "string \<Rightarrow> string list option"
  sha256 :: "8 word list \<Rightarrow> 8 word list"
  decrypt_media :: "8 word list \<Rightarrow> media_type \<Rightarrow> 8 word list \<Rightarrow> string + 8 word list"
  file_size :: "nat \<Rightarrow> string + string"
  jid_error :: "string \<Rightarrow> string"
  lib_error :: "error \<Rightarrow> string"

text \<open>The character \<open>U+2026\<close>, and cutting a text down to a number of graphemes followed by it.\<close>

definition ellipsis :: string where
  "ellipsis = [CHR 0xE2, CHR 0x80, CHR 0xA6]"

definition shorten :: "wa_lib \<Rightarrow> nat \<Rightarrow> nat \<Rightarrow> string \<Rightarrow> string" where
  "shorten L limit n s = (if length s > limit then concat (take n (graphemes L s)) @ ellipsis else s)"

text \<open>How an error prints: the arguments of a \<^const>\<open>Failure\<close> go into the braces of its format string.\<close>

fun fill_format :: "string \<Rightarrow> string list \<Rightarrow> string" where
  "fill_format (a # b # s) (x # xs) =
     (if a = CHR ''{'' \<and> b = CHR ''}'' then x @ fill_format s xs else a # fill_format (b # s) (x # xs))"
| "fill_format s _ = s"

definition error_text :: "wa_lib \<Rightarrow> error \<Rightarrow> string" where
  "error_text L e = (case e of Failure f xs \<Rightarrow> fill_format f xs | _ \<Rightarrow> lib_error L e)"

text \<open>\<open>s.trim() == ""\<close>: nothing but characters of the Unicode property \<open>White_Space\<close>.\<close>

fun is_blank :: "string \<Rightarrow> bool" where
  "is_blank [] = True"
| "is_blank (a # s) =
     (let n = of_char a :: nat in
      if n = 32 \<or> (9 \<le> n \<and> n \<le> 13) then is_blank s
      else if n = 0xC2 then (case s of
          b # t \<Rightarrow> (of_char b = (0x85::nat) \<or> of_char b = (0xA0::nat)) \<and> is_blank t
        | _ \<Rightarrow> False)
      else if n = 0xE1 \<or> n = 0xE2 \<or> n = 0xE3 then (case s of
          b # c # t \<Rightarrow>
            (let p = of_char b :: nat; q = of_char c :: nat in
             (n = 0xE1 \<and> p = 0x9A \<and> q = 0x80) \<or>
             (n = 0xE2 \<and> p = 0x80 \<and> (0x80 \<le> q \<and> q \<le> 0x8A \<or> q = 0xA8 \<or> q = 0xA9 \<or> q = 0xAF)) \<or>
             (n = 0xE2 \<and> p = 0x81 \<and> q = 0x9F) \<or>
             (n = 0xE3 \<and> p = 0x80 \<and> q = 0x80)) \<and> is_blank t
        | _ \<Rightarrow> False)
      else False)"

end
