(* ===== verification/Wa_Conn.thy ===== *)
theory Wa_Conn
  imports Wa_Lib
begin

text \<open>
  \<open>whatsapp_conn.rs\<close>: the connection to WhatsApp Web with its intermediate states, which reconnects
  on its own after a delay.
\<close>

section \<open>State\<close>

text \<open>What the future that connects and the connection itself answer when polled.\<close>

datatype connect_answer = ConnectReady | ConnectPending | ConnectFailed wa_error
datatype 'j stream_answer = StreamEvent "'j wa_event" | StreamPending | StreamFailed wa_error | StreamEnded
datatype wa_send_answer = WaSendOk | WaSendRefused | WaSendFailed wa_error

text \<open>A delay is its deadline, the connecting future is the session it resumes.\<close>

datatype wrapper_state = Disabled | Waiting int | Initializing "string option" | Running

text \<open>
  The five schedules are the environment: each poll takes the next answer, and past the end of a
  schedule nothing is ready, while everything is accepted. \<open>wc_sent\<close> is what the connection took.
\<close>

record 'j web_conn =
  wc_inner :: wrapper_state
  wc_persist :: "string option"
  wc_backoff_ms :: nat
  wc_now :: int
  wc_timers :: "timer_answer list"
  wc_connects :: "connect_answer list"
  wc_stream :: "'j stream_answer list"
  wc_sends :: "wa_send_answer list"
  wc_flushes :: "wa_error option list"
  wc_sent :: "'j wa_request list"

definition is_disabled :: "'j web_conn \<Rightarrow> bool" where
  "is_disabled c \<longleftrightarrow> (case wc_inner c of Disabled \<Rightarrow> True | _ \<Rightarrow> False)"

definition is_connected :: "'j web_conn \<Rightarrow> bool" where
  "is_connected c \<longleftrightarrow> (case wc_inner c of Running \<Rightarrow> True | _ \<Rightarrow> False)"

definition disable :: "'j web_conn \<Rightarrow> 'j web_conn" where
  "disable c = c\<lparr>wc_inner := Disabled\<rparr>"

definition set_persistent :: "string option \<Rightarrow> 'j web_conn \<Rightarrow> 'j web_conn" where
  "set_persistent p c = c\<lparr>wc_persist := p\<rparr>"

definition initialize :: "'j web_conn \<Rightarrow> 'j web_conn" where
  "initialize c = c\<lparr>wc_inner := Initializing (wc_persist c)\<rparr>"

definition connect_new :: "'j web_conn \<Rightarrow> 'j web_conn" where
  "connect_new c = initialize (set_persistent None c)"

definition connect_persistent :: "string \<Rightarrow> 'j web_conn \<Rightarrow> 'j web_conn" where
  "connect_persistent p c = initialize (set_persistent (Some p) c)"

definition backoff :: "'j web_conn \<Rightarrow> 'j web_conn" where
  "backoff c = c\<lparr>wc_inner := Waiting (wc_now c + int (wc_backoff_ms c) * 10 ^ 6)\<rparr>"

section \<open>Polling\<close>

text \<open>
  One turn of the loop: it returns something or goes on. The state is \<^const>\<open>Disabled\<close> while a future
  is polled (\<open>mem::replace\<close>), which shows when a poll of the delay fails or the stream ends.
\<close>

type_synonym 'j web_result = "(wa_error + 'j wa_event) option outcome"

definition web_step :: "'j web_conn \<Rightarrow> ('j web_result \<times> 'j web_conn) + 'j web_conn" where
  "web_step c = (case wc_inner c of
      Disabled \<Rightarrow> Inl (Ok None, c)
    | Waiting t \<Rightarrow> (case wc_timers c of
          [] \<Rightarrow> Inl (Ok None, c)
        | TimerReady # as \<Rightarrow> Inr (initialize (c\<lparr>wc_timers := as\<rparr>))
        | TimerPending # as \<Rightarrow> Inl (Ok None, c\<lparr>wc_timers := as\<rparr>)
        | TimerFailed # as \<Rightarrow> Inl (Err TimerError, c\<lparr>wc_timers := as, wc_inner := Disabled\<rparr>))
    | Initializing p \<Rightarrow> (case wc_connects c of
          [] \<Rightarrow> Inl (Ok None, c)
        | ConnectReady # as \<Rightarrow> Inr (c\<lparr>wc_connects := as, wc_inner := Running\<rparr>)
        | ConnectPending # as \<Rightarrow> Inl (Ok None, c\<lparr>wc_connects := as\<rparr>)
        | ConnectFailed e # as \<Rightarrow> Inr (backoff (c\<lparr>wc_connects := as\<rparr>)))
    | Running \<Rightarrow> (case wc_stream c of
          [] \<Rightarrow> Inl (Ok None, c)
        | StreamPending # as \<Rightarrow> Inl (Ok None, c\<lparr>wc_stream := as\<rparr>)
        | StreamEvent e # as \<Rightarrow> Inl (Ok (Some (Inr e)), c\<lparr>wc_stream := as\<rparr>)
        | StreamEnded # as \<Rightarrow> Inl (Panic, c\<lparr>wc_stream := as, wc_inner := Disabled\<rparr>)
        | StreamFailed e # as \<Rightarrow> Inl (Ok (Some (Inl e)), backoff (c\<lparr>wc_stream := as\<rparr>))))"

text \<open>The answers the schedules still hold: what every turn of the loop takes from.\<close>

definition answers_left :: "'j web_conn \<Rightarrow> nat" where
  "answers_left c = length (wc_timers c) + length (wc_connects c) + length (wc_stream c)"

lemma answers_left_simps [simp]:
  "answers_left (initialize c) = answers_left c" "answers_left (backoff c) = answers_left c"
  "answers_left (disable c) = answers_left c" "answers_left (set_persistent p c) = answers_left c"
  "answers_left (connect_new c) = answers_left c" "answers_left (connect_persistent s c) = answers_left c"
  by (simp_all add: answers_left_def initialize_def backoff_def disable_def set_persistent_def
      connect_new_def connect_persistent_def)

lemmas web_step_defs = web_step_def initialize_def backoff_def

lemmas web_step_splits =
  wrapper_state.splits list.splits timer_answer.splits connect_answer.splits stream_answer.splits

lemma web_step_less: "web_step c = Inr c' \<Longrightarrow> answers_left c' < answers_left c"
  by (auto simp: web_step_defs answers_left_def split: web_step_splits)

text \<open>
  The loop goes on after a delay that is over, after a connection that is made and after one that
  failed; each of these takes an answer from a schedule.
\<close>

function web_poll :: "'j web_conn \<Rightarrow> 'j web_result \<times> 'j web_conn" where
  "web_poll c = (case web_step c of Inl r \<Rightarrow> r | Inr c' \<Rightarrow> web_poll c')"
  by pat_completeness auto

termination by (relation "measure answers_left") (simp_all add: web_step_less)

declare web_poll.simps [simp del]

lemma web_poll_Inr: "web_step c = Inr d \<Longrightarrow> web_poll c = web_poll d"
  by (simp add: web_poll.simps [of c])

lemma web_poll_Inl: "web_step c = Inl r \<Longrightarrow> web_poll c = r"
  by (simp add: web_poll.simps [of c])

section \<open>Sending\<close>

text \<open>The sink of the wrapper: true is \<open>AsyncSink::Ready\<close>, false \<open>NotReady\<close> with the request back.\<close>

definition web_start_send :: "'j wa_request \<Rightarrow> 'j web_conn \<Rightarrow> (wa_error + bool) outcome \<times> 'j web_conn" where
  "web_start_send r c =
     (if is_connected c then (case wc_sends c of
          [] \<Rightarrow> (Ok (Inr True), c\<lparr>wc_sent := wc_sent c @ [r]\<rparr>)
        | WaSendOk # as \<Rightarrow> (Ok (Inr True), c\<lparr>wc_sends := as, wc_sent := wc_sent c @ [r]\<rparr>)
        | WaSendRefused # as \<Rightarrow> (Ok (Inr False), c\<lparr>wc_sends := as\<rparr>)
        | WaSendFailed e # as \<Rightarrow> (Ok (Inl e), backoff (c\<lparr>wc_sends := as\<rparr>)))
      else (Panic, c))"

definition web_poll_complete :: "'j web_conn \<Rightarrow> unit outcome \<times> 'j web_conn" where
  "web_poll_complete c =
     (if is_connected c then (case wc_flushes c of
          [] \<Rightarrow> (Ok (), c)
        | None # as \<Rightarrow> (Ok (), c\<lparr>wc_flushes := as\<rparr>)
        | Some e # as \<Rightarrow> (Err WaFailed, c\<lparr>wc_flushes := as\<rparr>))
      else (Panic, c))"

section \<open>What a poll does\<close>

text \<open>A property that every turn of the loop keeps is one of the poll.\<close>

lemma web_poll_inv:
  assumes "P c" and "\<And>c c'. P c \<Longrightarrow> web_step c = Inr c' \<Longrightarrow> P c'"
    and "\<And>c r c'. P c \<Longrightarrow> web_step c = Inl (r, c') \<Longrightarrow> Q r c'"
  shows "Q (fst (web_poll c)) (snd (web_poll c))"
  using assms(1)
proof (induction c rule: web_poll.induct)
  case (1 c)
  show ?case
  proof (cases "web_step c")
    case (Inl rc)
    then show ?thesis
      using assms(3) [OF "1.prems"] by (cases rc) (simp add: web_poll.simps [of c])
  next
    case (Inr c')
    then show ?thesis
      using "1.IH" [OF Inr assms(2) [OF "1.prems" Inr]] by (simp add: web_poll.simps [of c])
  qed
qed

text \<open>A poll never touches the session or what was sent, and takes an answer for all it yields.\<close>

definition web_frame :: "'j web_conn \<Rightarrow> 'j web_conn \<Rightarrow> bool" where
  "web_frame c d \<longleftrightarrow> wc_persist d = wc_persist c \<and> wc_sends d = wc_sends c \<and> wc_sent d = wc_sent c \<and>
     wc_flushes d = wc_flushes c \<and> wc_now d = wc_now c \<and> answers_left d \<le> answers_left c \<and>
     set (wc_stream d) \<subseteq> set (wc_stream c)"

lemma web_step_frame:
  "web_step c = Inr d \<Longrightarrow> web_frame c d"
  "web_step c = Inl (r, d) \<Longrightarrow> web_frame c d \<and> ((\<exists>x. r = Ok (Some x)) \<longrightarrow> answers_left d < answers_left c)"
  "web_step c = Inl (r, d) \<Longrightarrow> r = Panic \<Longrightarrow> StreamEnded \<in> set (wc_stream c)"
  by (auto simp: web_step_defs web_frame_def answers_left_def split: web_step_splits)

lemma web_frame_trans: "web_frame c d \<Longrightarrow> web_frame d e \<Longrightarrow> web_frame c e"
  unfolding web_frame_def by auto

lemma web_poll_frame: "web_frame c (snd (web_poll c))"
  by (rule web_poll_inv [of "web_frame c" c "\<lambda>r. web_frame c"])
    (use web_step_frame web_frame_trans in \<open>blast | simp add: web_frame_def\<close>)+

lemma web_poll_less: "web_poll c = (Ok (Some r), c') \<Longrightarrow> answers_left c' < answers_left c"
proof -
  assume run: "web_poll c = (Ok (Some r), c')"
  have "(\<exists>x. fst (web_poll c) = Ok (Some x)) \<longrightarrow> answers_left (snd (web_poll c)) < answers_left c"
    by (rule web_poll_inv [of "\<lambda>d. answers_left d \<le> answers_left c" c
          "\<lambda>r d. (\<exists>x. r = Ok (Some x)) \<longrightarrow> answers_left d < answers_left c"])
      (use web_step_less web_step_frame(2) in \<open>force+\<close>)
  then show ?thesis using run by simp
qed

text \<open>It panics only where the library ends the stream.\<close>

lemma web_poll_no_panic:
  assumes "StreamEnded \<notin> set (wc_stream c)"
  shows "fst (web_poll c) \<noteq> Panic"
proof (rule web_poll_inv [of "\<lambda>d. StreamEnded \<notin> set (wc_stream d)" c "\<lambda>r d. r \<noteq> Panic"])
  show "StreamEnded \<notin> set (wc_stream d')" if "StreamEnded \<notin> set (wc_stream d)" "web_step d = Inr d'" for d d'
    using that web_step_frame(1) [OF that(2)] by (auto simp: web_frame_def)
qed (use assms web_step_frame(3) in \<open>blast+\<close>)

section \<open>Reconnecting\<close>

text \<open>
  The environment lets \<open>n\<close> attempts fail and the next one succeed, and the connection then has an event.
\<close>

definition fails_ahead :: "'j wa_event \<Rightarrow> nat \<Rightarrow> 'j web_conn \<Rightarrow> bool" where
  "fails_ahead ev n c \<longleftrightarrow>
     (\<exists>t ts es cs rest. wc_inner c = Waiting t \<and> wc_timers c = replicate (Suc n) TimerReady @ ts \<and>
        wc_connects c = map ConnectFailed es @ ConnectReady # cs \<and> length es = n \<and>
        wc_stream c = StreamEvent ev # rest)"

definition same_session :: "'j web_conn \<Rightarrow> 'j web_conn \<Rightarrow> bool" where
  "same_session c d \<longleftrightarrow> wc_persist c = wc_persist d \<and> wc_stream c = wc_stream d"

interpretation web: retrying web_poll "fails_ahead ev" same_session for ev :: "'j wa_event"
proof
  fix n and c :: "'j web_conn"
  assume "fails_ahead ev (Suc n) c"
  then obtain t ts e es cs rest where c: "wc_inner c = Waiting t"
    "wc_timers c = TimerReady # replicate (Suc n) TimerReady @ ts"
    "wc_connects c = ConnectFailed e # map ConnectFailed es @ ConnectReady # cs" "length es = n"
    "wc_stream c = StreamEvent ev # rest"
    by (auto simp: fails_ahead_def length_Suc_conv)
  let ?c1 = "initialize (c\<lparr>wc_timers := replicate (Suc n) TimerReady @ ts\<rparr>)"
  let ?c2 = "backoff (?c1\<lparr>wc_connects := map ConnectFailed es @ ConnectReady # cs\<rparr>)"
  have "web_step c = Inr ?c1" using c by (simp add: web_step_def)
  moreover have "web_step ?c1 = Inr ?c2" using c by (simp add: web_step_defs)
  ultimately have "web_poll c = web_poll ?c2" by (simp only: web_poll_Inr)
  moreover have "fails_ahead ev n ?c2"
    using c by (auto simp: fails_ahead_def initialize_def backoff_def)
  moreover have "same_session c ?c2"
    using c by (simp add: same_session_def initialize_def backoff_def)
  ultimately show "\<exists>s'. fails_ahead ev n s' \<and> same_session c s' \<and> web_poll c = web_poll s'" by blast
qed (simp_all add: same_session_def)

lemma reconnects:
  assumes "fails_ahead ev n c"
  shows "\<exists>c'. web_poll c = (Ok (Some (Inr ev)), c') \<and> wc_inner c' = Running \<and> wc_persist c' = wc_persist c"
proof -
  obtain d where d: "fails_ahead ev 0 d" "same_session c d" "web_poll c = web_poll d"
    using web.reaches_attempt [OF assms] by blast
  then obtain t ts cs rest where s: "wc_inner d = Waiting t" "wc_timers d = TimerReady # ts"
    "wc_connects d = ConnectReady # cs" "wc_stream d = StreamEvent ev # rest"
    by (auto simp: fails_ahead_def)
  let ?d1 = "initialize (d\<lparr>wc_timers := ts\<rparr>)"
  let ?d2 = "?d1\<lparr>wc_connects := cs, wc_inner := Running\<rparr>"
  have "web_step d = Inr ?d1" using s by (simp add: web_step_def)
  moreover have "web_step ?d1 = Inr ?d2" using s by (simp add: web_step_defs)
  ultimately have "web_poll d = web_poll ?d2" by (simp only: web_poll_Inr)
  also have "web_step ?d2 = Inl (Ok (Some (Inr ev)), ?d2\<lparr>wc_stream := rest\<rparr>)"
    using s by (simp add: web_step_defs)
  then have "web_poll ?d2 = (Ok (Some (Inr ev)), ?d2\<lparr>wc_stream := rest\<rparr>)"
    by (simp only: web_poll_Inl)
  finally show ?thesis using d by (simp add: same_session_def initialize_def)
qed

end
