(* ===== verification/Wa_Message.thy ===== *)
theory Wa_Message
  imports Wa_Lib
begin

text \<open>
  \<open>whatsapp_msg.rs\<close> and \<open>whatsapp_media.rs\<close>: turning a WhatsApp message into the texts that are stored
  for it, and the job that downloads the media of one.
\<close>

section \<open>Media jobs\<close>

record 'j media_info =
  mi_ty :: media_type
  mi_fi :: file_info
  mi_mi :: string
  mi_peer :: "'j peer option"
  mi_from :: 'j
  mi_group :: "int option"
  mi_path :: string
  mi_dl_path :: string
  mi_name :: "string option"
  mi_ts :: int

text \<open>
  What the job meets outside: whether the file can be created and written, and the response, where
  \<^const>\<open>None\<close> is a failed request or transfer.
\<close>

record download =
  dl_create_ok :: bool
  dl_response :: "(nat \<times> 8 word list option) option"
  dl_write_ok :: bool

definition media_text :: "string \<Rightarrow> string \<Rightarrow> 'j media_info \<Rightarrow> string" where
  "media_text sz dl m =
     (let mime = fi_mime (mi_fi m); act = CHR 0x01 # ''ACTION uploaded '';
          tail = '' < '' @ dl @ '' >'' @ [CHR 0x01]
      in case mi_ty m of
           MediaImage \<Rightarrow> act @ ''an image ('' @ sz @ '', '' @ mime @ '')'' @ tail
         | MediaAudio \<Rightarrow> act @ ''audio ('' @ sz @ '', '' @ mime @ '')'' @ tail
         | MediaDocument \<Rightarrow> act @ ''a document '' @ [CHR 0x27]
             @ (case mi_name m of None \<Rightarrow> ''unknown'' | Some n \<Rightarrow> n) @ [CHR 0x27]
             @ '' ('' @ mime @ '', '' @ sz @ '')'' @ tail
         | MediaVideo \<Rightarrow> act @ ''video ('' @ sz @ '', '' @ mime @ '')'' @ tail)"

text \<open>The comparison of the second checksum has no consequence; the code compares and goes on.\<close>

definition media_run :: "wa_lib \<Rightarrow> string \<Rightarrow> download \<Rightarrow> 'j media_info \<Rightarrow> error + string" where
  "media_run L uu dl m =
     (let fi = mi_fi m;
          mime_ext = (case mime_extensions L (fi_mime fi) of Some (e # _) \<Rightarrow> e | _ \<Rightarrow> ''bin'');
          link = mi_dl_path m @ ''/'' @ uu @ ''.'' @ mime_ext
      in if \<not> dl_create_ok dl then Inl IoError
         else case dl_response dl of
             None \<Rightarrow> Inl HttpError
           | Some (code, body) \<Rightarrow>
               if code \<noteq> 200 then Inl (Failure ''Status code {} when downloading'' [show_nat code])
               else (case body of
                   None \<Rightarrow> Inl HttpError
                 | Some enc \<Rightarrow>
                     if sha256 L enc \<noteq> fi_enc_sha256 fi then Inl (Failure ''Encrypted SHA256 mismatch'' [])
                     else (case decrypt_media L (fi_key fi) (mi_ty m) enc of
                         Inl e \<Rightarrow> Inl (Failure ''decryption error: {}'' [e])
                       | Inr dec \<Rightarrow>
                           if \<not> dl_write_ok dl then Inl IoError
                           else (case file_size L (fi_size fi) of
                               Inl e \<Rightarrow> Inl (Failure ''filesize error: {}'' [e])
                             | Inr sz \<Rightarrow> Inr (media_text sz link m)))))"

text \<open>What the job's thread sends back.\<close>

definition media_job :: "wa_lib \<Rightarrow> string \<Rightarrow> download \<Rightarrow> 'j media_info \<Rightarrow> 'j media_result" where
  "media_job L uu dl m =
     \<lparr>mr_from = mi_from m, mr_group = mi_group m, mr_mi = mi_mi m, mr_peer = mi_peer m, mr_ts = mi_ts m,
      mr_result = media_run L uu dl m\<rparr>"

section \<open>The message processor\<close>

record 'j incoming_message =
  in_id :: string
  in_peer :: "'j peer option"
  in_from :: 'j
  in_group :: "int option"
  in_content :: wa_content
  in_quoted :: "'j wa_quoted option"
  in_ts :: int

record 'j processed_message =
  pm_from :: 'j
  pm_text :: string
  pm_group :: "int option"
  pm_ts :: int

text \<open>
  \<open>wp_jobs\<close> are the jobs that have been started, \<open>wp_uuid\<close> counts the random names that were used,
  and \<open>wp_io\<close> says which of the next contact cards can be saved (all of them past its end).
\<close>

record 'j wa_proc =
  wp_store :: db
  wp_media_path :: string
  wp_dl_path :: string
  wp_jobs :: "'j media_info list"
  wp_uuid :: nat
  wp_io :: "bool list"

definition wp_db :: "(db, 'a) comp \<Rightarrow> ('j wa_proc, 'a) comp" where
  "wp_db = on_field wp_store (\<lambda>d p. p\<lparr>wp_store := d\<rparr>)"

definition store_contact :: "wa_lib \<Rightarrow> ('j wa_proc, string) comp" where
  "store_contact L p =
     (let ok = (case wp_io p of [] \<Rightarrow> True | b # _ \<Rightarrow> b);
          link = wp_dl_path p @ ''/'' @ gen_uuid L (wp_uuid p) @ ''.vcf''
      in (if ok then Ok link else Err IoError, p\<lparr>wp_uuid := wp_uuid p + 1, wp_io := tl (wp_io p)\<rparr>))"

definition media_parts :: "wa_content \<Rightarrow> (media_type \<times> file_info \<times> string option) option" where
  "media_parts ct = (case ct of
      Image info _ \<Rightarrow> Some (MediaImage, info, None)
    | Video info _ \<Rightarrow> Some (MediaVideo, info, None)
    | Audio info \<Rightarrow> Some (MediaAudio, info, None)
    | Document info filename \<Rightarrow> Some (MediaDocument, info, Some filename)
    | _ \<Rightarrow> None)"

definition process_incoming_media :: "'j incoming_message \<Rightarrow> ('j wa_proc, unit) comp" where
  "process_incoming_media inc = (case media_parts (in_content inc) of
      None \<Rightarrow> panic
    | Some (ty, fi, name) \<Rightarrow>
        modify (\<lambda>p. p\<lparr>wp_jobs := wp_jobs p @
          [\<lparr>mi_ty = ty, mi_fi = fi, mi_mi = in_id inc, mi_peer = in_peer inc, mi_from = in_from inc,
            mi_group = in_group inc, mi_path = wp_media_path p, mi_dl_path = wp_dl_path p,
            mi_name = name, mi_ts = in_ts inc\<rparr>]\<rparr>))"

definition BOLD_RE :: string where
  "BOLD_RE = backslash # ''*([^'' @ [backslash] @ ''*]+)'' @ [backslash] @ ''*''"

definition ITALICS_RE :: string where
  "ITALICS_RE = ''_([^_]+)_''"

definition MENTIONS_RE :: string where
  "MENTIONS_RE = ''@('' @ [backslash] @ ''d+)''"

text \<open>Replacing every match by its group between two control characters.\<close>

definition replace_marked :: "wa_lib \<Rightarrow> string \<Rightarrow> string \<Rightarrow> string \<Rightarrow> string" where
  "replace_marked L re mark s =
     concat (map (\<lambda>p. case p of Inl t \<Rightarrow> t | Inr (_, g) \<Rightarrow> mark @ g @ mark) (re_pieces L re s))"

text \<open>One mention. A failing query is only logged; a number that does not parse panics.\<close>

definition mention :: "('t, 'j) ext \<Rightarrow> string \<Rightarrow> string \<Rightarrow> ('j wa_proc, string) comp" where
  "mention E whole num =
     (case addr_parse E (map (\<lambda>c. if c = CHR ''@'' then CHR ''+'' else c) whole) of
        None \<Rightarrow> panic
      | Some pdua \<Rightarrow>
          and_then (attempt (wp_db (get_recipient_by_addr_opt E pdua))) (\<lambda>res. ret (case res of
              Inr (Some recip) \<Rightarrow> r_nick recip
            | Inr None \<Rightarrow> ''<+'' @ num @ ''>''
            | Inl e \<Rightarrow> CHR ''@'' # num)))"

primrec replace_mentions :: "('t, 'j) ext \<Rightarrow> (string + string \<times> string) list \<Rightarrow> ('j wa_proc, string) comp" where
  "replace_mentions E [] = ret []"
| "replace_mentions E (p # ps) =
     and_then (case p of Inl t \<Rightarrow> ret t | Inr (whole, num) \<Rightarrow> mention E whole num) (\<lambda>s.
     and_then (replace_mentions E ps) (\<lambda>rest. ret (s @ rest)))"

definition process_wa_text_message :: "('t, 'j) ext \<Rightarrow> wa_lib \<Rightarrow> string \<Rightarrow> ('j wa_proc, string) comp" where
  "process_wa_text_message E L msg =
     (let emboldened = replace_marked L BOLD_RE [CHR 0x02] msg;
          italicised = replace_marked L ITALICS_RE [CHR 0x1D] emboldened
      in replace_mentions E (re_pieces L MENTIONS_RE italicised))"

definition jid_to_nick :: "('t, 'j) ext \<Rightarrow> 'j \<Rightarrow> ('j wa_proc, string option) comp" where
  "jid_to_nick E jid = (case jid_phonenumber E jid of
      None \<Rightarrow> ret None
    | Some num \<Rightarrow>
        (case addr_parse E num of
           None \<Rightarrow> ret None
         | Some pdua \<Rightarrow>
             and_then (wp_db (get_recipient_by_addr_opt E pdua)) (\<lambda>ro. ret (map_option r_nick ro))))"

text \<open>
  The text of a content, where \<^const>\<open>None\<close> is an early return without a text, and whether it is media.
\<close>

definition action :: "string \<Rightarrow> string" where
  "action s = (CHR 0x01 # ''ACTION '') @ s @ [CHR 0x01]"

definition content_text ::
  "('t, 'j) ext \<Rightarrow> wa_lib \<Rightarrow> 'j incoming_message \<Rightarrow> ('j wa_proc, string option \<times> bool) comp" where
  "content_text E L inc = (case in_content inc of
      WaText s \<Rightarrow> and_then (process_wa_text_message E L s) (\<lambda>t. ret (Some t, False))
    | Unimplemented det \<Rightarrow>
        if is_blank det then ret (None, False)
        else ret (Some (''['' @ bold @ colour @ ''04unimplemented'' @ plain @ ''] '' @ shorten L 128 128 det), False)
    | LiveLocation lat long speed \<Rightarrow>
        (let url = ''https://google.com/maps?q='' @ lat @ '','' @ long;
             spd = (case speed of
                 Some s \<Rightarrow> ''travelling at '' @ s @ '' m/s - '' @ url
               | None \<Rightarrow> ''broadcasting live location - '' @ url)
         in ret (Some (action (''is '' @ spd)), False))
    | Location lat long name \<Rightarrow>
        (let place = (case name of
                 Some n \<Rightarrow> ''at '' @ [CHR 0x27] @ n @ [CHR 0x27]
               | None \<Rightarrow> ''somewhere'')
         in ret (Some (action (''is '' @ place @ '' - https://google.com/maps?q='' @ lat @ '','' @ long)), False))
    | Redaction mid \<Rightarrow> ret (Some (action (''redacted message ID '' @ mono @ mid @ mono)), False)
    | ContactCard display_name vcard \<Rightarrow>
        and_then (attempt (store_contact L)) (\<lambda>res.
          let who = ''uploaded a contact for '' @ [CHR 0x27] @ display_name @ [CHR 0x27]
          in ret (Some (action (case res of
                 Inr link \<Rightarrow> who @ '' - '' @ link
               | Inl e \<Rightarrow> who @ '' (couldn'' @ [CHR 0x27] @ ''t download)'')), False))
    | ct \<Rightarrow>
        then_do (process_incoming_media inc) (ret (take_caption L ct, True)))"

definition quote_line ::
  "('t, 'j) ext \<Rightarrow> wa_lib \<Rightarrow> 'j incoming_message \<Rightarrow> 'j wa_quoted \<Rightarrow> ('j wa_proc, string) comp" where
  "quote_line E L inc qm =
     and_then (if in_group inc \<noteq> None
        then and_then (jid_to_nick E (q_participant qm)) (\<lambda>no.
          ret (''<'' @ (case no of Some n \<Rightarrow> n | None \<Rightarrow> jid_to_string E (q_participant qm)) @ ''> ''))
        else ret []) (\<lambda>nick.
     ret (colour @ ''15> '' @ italic @ nick @ shorten L 128 128 (quoted_description L (q_content qm))))"

definition process_wa_incoming ::
  "('t, 'j) ext \<Rightarrow> wa_lib \<Rightarrow> 'j incoming_message \<Rightarrow> ('j wa_proc, 'j processed_message list \<times> bool) comp" where
  "process_wa_incoming E L inc =
     (let mk = (\<lambda>t. \<lparr>pm_from = in_from inc, pm_text = t, pm_group = in_group inc, pm_ts = in_ts inc\<rparr>)
      in and_then (content_text E L inc) (\<lambda>(txt, is_media). case txt of
            None \<Rightarrow> ret ([], is_media)
          | Some t \<Rightarrow>
              and_then (case in_quoted inc of
                  None \<Rightarrow> ret []
                | Some qm \<Rightarrow> and_then (quote_line E L inc qm) (\<lambda>q. ret [mk q])) (\<lambda>quote.
                ret (quote @ [mk t], is_media))))"

end
