(* ===== verification/Wa_Ack.thy ===== *)
theory Wa_Ack
  imports Wa_Lib
begin

text \<open>
  \<open>whatsapp_ack.rs\<close>: which of the messages that were sent have been acknowledged, and the alerts
  about those that have not.
\<close>

section \<open>State\<close>

record 'j send_status =
  ss_ack_level :: "ack_level option"
  ss_sent_ts :: int
  ss_content :: wa_content
  ss_destination :: 'j
  ss_unsent :: bool
  ss_alerted :: bool
  ss_alerted_pending :: bool

text \<open>
  \<open>at_timer\<close> is the environment: what the next polls of the interval answer (nothing is ready past its
  end). \<open>at_now\<close> is the clock, in nanoseconds.
\<close>

record 'j ack_tracker =
  at_cb :: "control_bot_command list"
  at_out :: "(string, 'j send_status) hash_map"
  at_warn :: "64 word"
  at_warn_pending :: "64 word"
  at_expiry :: "64 word"
  at_timer :: "timer_answer list"
  at_now :: int

text \<open>The defaults of the three limits; the product wraps, as it does without overflow checks.\<close>

definition ack_new ::
  "64 word option \<Rightarrow> 64 word option \<Rightarrow> 64 word option \<Rightarrow> timer_answer list \<Rightarrow> int \<Rightarrow> 'j ack_tracker" where
  "ack_new warn warn_pending expiry tm now =
     (let ack_warn_ms = (case warn of None \<Rightarrow> 5000 | Some w \<Rightarrow> w)
      in \<lparr>at_cb = [], at_out = [], at_warn = ack_warn_ms,
          at_warn_pending = (case warn_pending of None \<Rightarrow> ack_warn_ms * 2 | Some w \<Rightarrow> w),
          at_expiry = (case expiry of None \<Rightarrow> 60000 | Some w \<Rightarrow> w), at_timer = tm, at_now = now\<rparr>)"

section \<open>Operations\<close>

definition register_send ::
  "'j \<Rightarrow> wa_content \<Rightarrow> string \<Rightarrow> bool \<Rightarrow> 'j ack_tracker \<Rightarrow> 'j ack_tracker" where
  "register_send dest content mid unsent t =
     t\<lparr>at_out := hm_insert mid
       \<lparr>ss_ack_level = None, ss_sent_ts = at_now t, ss_content = content, ss_destination = dest,
        ss_unsent = unsent, ss_alerted = False, ss_alerted_pending = False\<rparr> (at_out t)\<rparr>"

definition extract_unsent ::
  "('t, 'j) ext \<Rightarrow> 'j ack_tracker \<Rightarrow> 'j send_status list \<times> 'j ack_tracker" where
  "extract_unsent E t =
     (map snd (filter (\<lambda>(mid, m). ss_unsent m) (hm_iter (ord_str E) (at_out t))),
      t\<lparr>at_out := filter (\<lambda>(mid, m). \<not> ss_unsent m) (at_out t)\<rparr>)"

definition ack_lines :: "('t, 'j) ext \<Rightarrow> wa_lib \<Rightarrow> int \<Rightarrow> string \<times> 'j send_status \<Rightarrow> string list" where
  "ack_lines E L now = (\<lambda>(mid, m).
     (let summary = shorten L 15 10 (quoted_description L (ss_content m));
          al = (case ss_ack_level m of Some al \<Rightarrow> ack_debug al | None \<Rightarrow> ''undelivered'')
      in [''- '' @ [CHR 0x22] @ italic @ summary @ italic @ [CHR 0x22] @ '' to '' @ bold
            @ jid_to_string E (ss_destination m) @ bold @ '' ('' @ show_int (num_seconds (now - ss_sent_ts m))
            @ ''s ago) is '' @ bold @ al @ bold,
          ''  (message ID '' @ mono @ mid @ plain @ '')'']))"

definition ack_print :: "('t, 'j) ext \<Rightarrow> wa_lib \<Rightarrow> 'j ack_tracker \<Rightarrow> string list" where
  "ack_print E L t =
     (let ls = concat (map (ack_lines E L (at_now t)) (hm_iter (ord_str E) (at_out t)))
      in if length ls = 0 then [''No outgoing messages''] else ls)"

definition error_alert :: "string \<Rightarrow> control_bot_command" where
  "error_alert mid = ReportFailure (''Error: WhatsApp reported an error in sending message ID '' @ mid @ ''!'')"

definition unsent_alert :: "string \<Rightarrow> control_bot_command" where
  "unsent_alert mid = ReportFailure
     (''Warning: Message ID '' @ mid @ '' is still unsent, because we aren''
        @ CHR 0x27 # ''t connected to WhatsApp Web.'')"

definition late_alert :: "string \<Rightarrow> control_bot_command" where
  "late_alert mid = ReportFailure
     (''Warning: Sending message ID '' @ mid @ '' has failed, or is taking longer than usual!'')"

definition pending_alert :: "string \<Rightarrow> control_bot_command" where
  "pending_alert mid = ReportFailure
     (''Warning: Sending message ID '' @ mid @ '' is still pending. Is WhatsApp running and connected?'')"

definition on_message_ack :: "string \<Rightarrow> ack_level \<Rightarrow> 'j ack_tracker \<Rightarrow> 'j ack_tracker" where
  "on_message_ack mid level t = (case hm_get (at_out t) mid of
      None \<Rightarrow> t
    | Some m \<Rightarrow> t\<lparr>at_cb := at_cb t @ (if level = AckError then [error_alert mid] else []),
                  at_out := hm_insert mid (m\<lparr>ss_ack_level := Some level\<rparr>) (at_out t)\<rparr>)"

section \<open>Checking\<close>

text \<open>The age in milliseconds, \<open>num_milliseconds() as u64\<close>: a negative one becomes a huge number.\<close>

definition age_ms :: "int \<Rightarrow> 'j send_status \<Rightarrow> 64 word" where
  "age_ms now m = word_of_int (num_milliseconds (now - ss_sent_ts m))"

definition check_late ::
  "'j ack_tracker \<Rightarrow> string \<Rightarrow> 'j send_status \<Rightarrow> control_bot_command list \<times> 'j send_status" where
  "check_late t mid m =
     (if ss_ack_level m = None \<and> at_warn t \<le> age_ms (at_now t) m \<and> \<not> ss_alerted m
      then ([if ss_unsent m then unsent_alert mid else late_alert mid], m\<lparr>ss_alerted := True\<rparr>)
      else ([], m))"

definition check_pending ::
  "'j ack_tracker \<Rightarrow> string \<Rightarrow> 'j send_status \<Rightarrow> control_bot_command list \<times> 'j send_status" where
  "check_pending t mid m =
     (if ss_ack_level m = Some PendingSend \<and> at_warn_pending t \<le> age_ms (at_now t) m \<and> \<not> ss_alerted_pending m
      then ([pending_alert mid], m\<lparr>ss_alerted_pending := True\<rparr>)
      else ([], m))"

definition check_one ::
  "'j ack_tracker \<Rightarrow> string \<Rightarrow> 'j send_status \<Rightarrow> control_bot_command list \<times> 'j send_status" where
  "check_one t mid m =
     (let (as, m1) = check_late t mid m; (bs, m2) = check_pending t mid m1 in (as @ bs, m2))"

definition retained :: "'j ack_tracker \<Rightarrow> 'j send_status \<Rightarrow> bool" where
  "retained t m = (case ss_ack_level m of
      None \<Rightarrow> True
    | Some PendingSend \<Rightarrow> True
    | _ \<Rightarrow> age_ms (at_now t) m < at_expiry t)"

definition check_acks :: "('t, 'j) ext \<Rightarrow> 'j ack_tracker \<Rightarrow> 'j ack_tracker" where
  "check_acks E t =
     t\<lparr>at_cb := at_cb t @ concat (map (\<lambda>(mid, m). fst (check_one t mid m)) (hm_iter (ord_str E) (at_out t))),
       at_out := filter (\<lambda>(mid, m). retained t m)
         (map (\<lambda>(mid, m). (mid, snd (check_one t mid m))) (at_out t))\<rparr>"

text \<open>The interval may have several ticks behind it.\<close>

primrec ack_ticks :: "('t, 'j) ext \<Rightarrow> timer_answer list \<Rightarrow> ('j ack_tracker, unit) comp" where
  "ack_ticks E [] t = (Ok (), t\<lparr>at_timer := []\<rparr>)"
| "ack_ticks E (a # as) t = (case a of
      TimerReady \<Rightarrow> ack_ticks E as (check_acks E t)
    | TimerPending \<Rightarrow> (Ok (), t\<lparr>at_timer := as\<rparr>)
    | TimerFailed \<Rightarrow> (Err TimerError, t\<lparr>at_timer := as\<rparr>))"

definition ack_poll :: "('t, 'j) ext \<Rightarrow> ('j ack_tracker, unit) comp" where
  "ack_poll E t = ack_ticks E (at_timer t) t"

section \<open>Alerts are not repeated\<close>

text \<open>The calls the manager makes, with the clock moving between them and the interval as it may be.\<close>

datatype 'j ack_op =
    RegisterSend 'j wa_content string bool
  | AckMessage string ack_level
  | ExtractUnsent
  | PollAcks "timer_answer list"
  | ClockAt int

definition ack_apply :: "('t, 'j) ext \<Rightarrow> 'j ack_op \<Rightarrow> 'j ack_tracker \<Rightarrow> 'j ack_tracker" where
  "ack_apply E x t = (case x of
      RegisterSend dest content mid unsent \<Rightarrow> register_send dest content mid unsent t
    | AckMessage mid level \<Rightarrow> on_message_ack mid level t
    | ExtractUnsent \<Rightarrow> snd (extract_unsent E t)
    | PollAcks as \<Rightarrow> snd (ack_poll E (t\<lparr>at_timer := as\<rparr>))
    | ClockAt now \<Rightarrow> t\<lparr>at_now := now\<rparr>)"

definition ack_run :: "('t, 'j) ext \<Rightarrow> 'j ack_op list \<Rightarrow> 'j ack_tracker \<Rightarrow> 'j ack_tracker" where
  "ack_run E xs t = fold (ack_apply E) xs t"

fun registers :: "string \<Rightarrow> 'j ack_op \<Rightarrow> bool" where
  "registers mid (RegisterSend _ _ m _) \<longleftrightarrow> m = mid"
| "registers mid _ \<longleftrightarrow> False"

text \<open>The warnings a tracker has given about a message, and those it may still give.\<close>

definition late_given :: "string \<Rightarrow> control_bot_command list \<Rightarrow> nat" where
  "late_given mid cb = count_list cb (late_alert mid) + count_list cb (unsent_alert mid)"

definition pending_given :: "string \<Rightarrow> control_bot_command list \<Rightarrow> nat" where
  "pending_given mid cb = count_list cb (pending_alert mid)"

definition may_give :: "('j send_status \<Rightarrow> bool) \<Rightarrow> string \<Rightarrow> 'j ack_tracker \<Rightarrow> nat" where
  "may_give alerted mid t = (case hm_get (at_out t) mid of
      None \<Rightarrow> 0 | Some m \<Rightarrow> if alerted m then 0 else 1)"

lemma alerts_inject [simp]:
  "late_alert a = late_alert b \<longleftrightarrow> a = b" "unsent_alert a = unsent_alert b \<longleftrightarrow> a = b"
  "pending_alert a = pending_alert b \<longleftrightarrow> a = b"
  by (simp_all add: late_alert_def unsent_alert_def pending_alert_def)

lemma pending_not_late: "pending_alert b \<noteq> late_alert a"
proof
  assume "pending_alert b = late_alert a"
  then have "last (''Warning: Sending message ID '' @ b @ '' is still pending. Is WhatsApp running and connected?'')
      = last (''Warning: Sending message ID '' @ a @ '' has failed, or is taking longer than usual!'')"
    unfolding pending_alert_def late_alert_def control_bot_command.inject by (rule arg_cong)
  then show False by simp
qed

lemma alerts_distinct [simp]:
  "pending_alert b \<noteq> late_alert a" "late_alert a \<noteq> pending_alert b"
  "late_alert a \<noteq> unsent_alert b" "unsent_alert b \<noteq> late_alert a"
  "pending_alert a \<noteq> unsent_alert b" "unsent_alert b \<noteq> pending_alert a"
  "error_alert a \<noteq> late_alert b" "error_alert a \<noteq> unsent_alert b" "error_alert a \<noteq> pending_alert b"
  "late_alert b \<noteq> error_alert a" "unsent_alert b \<noteq> error_alert a" "pending_alert b \<noteq> error_alert a"
  using pending_not_late
  by (auto simp: late_alert_def unsent_alert_def pending_alert_def error_alert_def)

lemma given_append [simp]:
  "late_given mid (xs @ ys) = late_given mid xs + late_given mid ys"
  "pending_given mid (xs @ ys) = pending_given mid xs + pending_given mid ys"
  by (simp_all add: late_given_def pending_given_def)

lemma given_Nil [simp]: "late_given mid [] = 0" "pending_given mid [] = 0"
  by (simp_all add: late_given_def pending_given_def)

text \<open>
  The two kinds of warning have the same contract: a check of a message gives the warning about it that
  was still left, if any, and no warning about another one.
\<close>

lemma hm_get_map_values: "hm_get (map (\<lambda>(k, v). (k, f k v)) m) k = map_option (f k) (hm_get m k)"
  by (induction m) auto

lemma hm_wf_map_values: "hm_wf (map (\<lambda>(k, v). (k, f k v)) m) = hm_wf m"
  by (simp add: hm_wf_def comp_def case_prod_beta)

lemma hm_wf_check_acks [simp]: "hm_wf (at_out t) \<Longrightarrow> hm_wf (at_out (check_acks E t))"
  by (simp add: check_acks_def hm_wf_map_values)

locale warning =
  fixes given :: "string \<Rightarrow> control_bot_command list \<Rightarrow> nat" and alerted :: "'j send_status \<Rightarrow> bool"
  assumes given_Nil: "given mid [] = 0"
    and given_append: "given mid (xs @ ys) = given mid xs + given mid ys"
    and given_error: "given mid [error_alert k] = 0"
    and check_same: "given mid (fst (check_one t mid m)) + (if alerted (snd (check_one t mid m)) then 0 else 1)
      = (if alerted m then 0 else 1)"
    and check_other: "k \<noteq> mid \<Longrightarrow> given mid (fst (check_one t k m)) = 0"
    and level_alerted: "alerted (m\<lparr>ss_ack_level := l\<rparr>) = alerted m"
begin

lemma given_concat:
  fixes t :: "'j ack_tracker"
  shows "distinct ks \<Longrightarrow> given mid (concat (map (\<lambda>k. fst (check_one t k (f k))) ks))
     = (if mid \<in> set ks then given mid (fst (check_one t mid (f mid))) else 0)"
  by (induction ks) (auto simp: given_Nil given_append intro!: check_other)

lemma given_check_acks:
  assumes "ord_ok (ord_str E)" and "hm_wf (at_out t)"
  shows "given mid (at_cb (check_acks E t)) + may_give alerted mid (check_acks E t)
    \<le> given mid (at_cb t) + may_give alerted mid t"
proof -
  let ?ks = "ord_str E (map fst (at_out t))"
  have "mset ?ks = mset (map fst (at_out t))" using assms(1) by (simp add: ord_ok_def)
  moreover have "distinct (map fst (at_out t))" using assms(2) by (simp add: hm_wf_def)
  ultimately have ks: "distinct ?ks" "set ?ks = fst ` set (at_out t)"
    by (metis mset_eq_imp_distinct_iff) (simp add: ord_ok_set [OF assms(1)])
  have cb: "given mid (at_cb (check_acks E t)) = given mid (at_cb t) +
      (if mid \<in> fst ` set (at_out t) then given mid (fst (check_one t mid (the (hm_get (at_out t) mid)))) else 0)"
    using given_concat [OF ks(1), of mid t "\<lambda>k. the (hm_get (at_out t) k)"] ks(2)
    by (simp add: check_acks_def hm_iter_def given_append comp_def)
  have out: "hm_get (at_out (check_acks E t)) mid =
      (case hm_get (at_out t) mid of None \<Rightarrow> None
       | Some m \<Rightarrow> if retained t (snd (check_one t mid m)) then Some (snd (check_one t mid m)) else None)"
    using assms(2)
    by (simp add: check_acks_def hm_get_filter hm_wf_map_values hm_get_map_values split: option.split)
  show ?thesis
  proof (cases "hm_get (at_out t) mid")
    case None
    then have "mid \<notin> fst ` set (at_out t)" by (simp add: map_of_eq_None_iff)
    with None show ?thesis using cb out by (simp add: may_give_def)
  next
    case (Some m)
    then have "mid \<in> fst ` set (at_out t)" by (metis domI dom_map_of_conv_image_fst)
    with Some show ?thesis
      using cb out check_same [of mid t m] by (auto simp: may_give_def split: if_splits)
  qed
qed

lemma given_ack_ticks:
  assumes "ord_ok (ord_str E)" and "hm_wf (at_out t)"
  shows "hm_wf (at_out (snd (ack_ticks E as t))) \<and>
    given mid (at_cb (snd (ack_ticks E as t))) + may_give alerted mid (snd (ack_ticks E as t))
    \<le> given mid (at_cb t) + may_give alerted mid t"
  using assms(2)
proof (induction as arbitrary: t)
  case (Cons a as)
  note next' = Cons.IH [OF hm_wf_check_acks [OF Cons.prems, of E]]
  show ?case
    using Cons.prems next' le_trans [OF conjunct2 [OF next'] given_check_acks [OF assms(1) Cons.prems]]
    by (cases a) (simp_all add: may_give_def)
qed (simp add: may_give_def)

lemma given_apply:
  assumes "ord_ok (ord_str E)" and "hm_wf (at_out t)"
  shows "hm_wf (at_out (ack_apply E x t)) \<and>
    given mid (at_cb (ack_apply E x t)) + may_give alerted mid (ack_apply E x t)
    \<le> given mid (at_cb t) + may_give alerted mid t + (if registers mid x then 1 else 0)"
proof (cases x)
  case (RegisterSend dest content k unsent)
  then show ?thesis
    using assms(2) by (simp add: ack_apply_def register_send_def may_give_def hm_get_insert)
next
  case (AckMessage k level)
  then show ?thesis
    using assms(2)
    by (auto simp: ack_apply_def on_message_ack_def may_give_def hm_get_insert level_alerted
        given_append given_error given_Nil split: option.split)
next
  case ExtractUnsent
  then show ?thesis
    using assms(2)
    by (auto simp: ack_apply_def extract_unsent_def may_give_def hm_get_filter split: option.split)
next
  case (PollAcks as)
  then show ?thesis
    using given_ack_ticks [of E "t\<lparr>at_timer := as\<rparr>" as mid] assms
    by (simp add: ack_apply_def ack_poll_def may_give_def)
next
  case (ClockAt now)
  then show ?thesis using assms(2) by (simp add: ack_apply_def may_give_def)
qed

text \<open>So over any sequence of calls there are no more warnings than registrations of the message.\<close>

lemma given_run:
  assumes "ord_ok (ord_str E)" and "hm_wf (at_out t)"
  shows "given mid (at_cb (ack_run E xs t)) + may_give alerted mid (ack_run E xs t)
    \<le> given mid (at_cb t) + may_give alerted mid t + length (filter (registers mid) xs)"
  using assms(2)
proof (induction xs arbitrary: t)
  case (Cons x xs)
  note step = given_apply [OF assms(1) Cons.prems, of x mid]
  from Cons.IH [OF conjunct1 [OF step]] conjunct2 [OF step] show ?case
    by (cases "registers mid x") (simp_all add: ack_run_def)
qed (simp add: ack_run_def)

end

interpretation late: warning late_given ss_alerted
  by unfold_locales
    (simp_all add: late_given_def check_one_def check_late_def check_pending_def)

interpretation pending: warning pending_given ss_alerted_pending
  by unfold_locales
    (simp_all add: pending_given_def check_one_def check_late_def check_pending_def)

section \<open>A silent message is reported\<close>

text \<open>
  A tick warns about every message without an acknowledgement that is old enough and was not yet
  reported, whichever entries the table has besides it.
\<close>

lemma check_acks_reports:
  assumes "ord_ok (ord_str E)" and "hm_get (at_out t) mid = Some m"
    and "ss_ack_level m = None" and "\<not> ss_alerted m" and "at_warn t \<le> age_ms (at_now t) m"
  shows "(if ss_unsent m then unsent_alert mid else late_alert mid) \<in> set (at_cb (check_acks E t))"
proof -
  have "mid \<in> set (ord_str E (map fst (at_out t)))"
    using assms(2) by (simp add: ord_ok_set [OF assms(1)]) (metis domI dom_map_of_conv_image_fst)
  then have "(mid, m) \<in> set (hm_iter (ord_str E) (at_out t))"
    using assms(2) by (force simp: hm_iter_def)
  moreover have "(if ss_unsent m then unsent_alert mid else late_alert mid) \<in> set (fst (check_one t mid m))"
    using assms(3-5) by (simp add: check_one_def check_late_def split: prod.splits)
  ultimately show ?thesis by (force simp: check_acks_def)
qed

end
