(* ===== verification/Whatsapp.thy ===== *)
theory Whatsapp
  imports Wa_Conn Wa_Message Wa_Ack
begin

text \<open>
  \<open>whatsapp.rs\<close>: the manager that connects the bridge with WhatsApp Web. It reacts to the commands of
  the other components and to the events of the connection.
\<close>

section \<open>State\<close>

text \<open>
  \<open>w_cf_tx\<close> and \<open>w_cb_tx\<close> are what was sent to the contact factory and the control bot. \<open>w_mids\<close> counts
  the message identifiers that were drawn; \<open>w_now\<close> is the clock, in nanoseconds.
\<close>

record ('t, 'j) wa_manager =
  w_conn :: "'j web_conn"
  w_rx :: "('t, 'j) whatsapp_command list"
  w_cf_tx :: "'t contact_factory_command list"
  w_cb_tx :: "control_bot_command list"
  w_contacts :: "('j, 'j wa_contact) hash_map"
  w_chats :: "('j, 'j wa_chat) hash_map"
  w_presence_requests :: "('j, int) hash_map"
  w_msgproc :: "'j wa_proc"
  w_ackp :: "'j ack_tracker"
  w_backlog_start :: "int option"
  w_connected :: bool
  w_store :: db
  w_qr_path :: string
  w_autocreate :: "string option"
  w_autoupdate_nicks :: bool
  w_mark_read :: bool
  w_track_presence :: bool
  w_our_jid :: "'j option"
  w_prev_jid :: "'j option"
  w_outbox :: "'j wa_request list"
  w_mids :: nat
  w_now :: int

text \<open>The part of the configuration it reads, with the defaults of the fields that are optional.\<close>

record wa_config =
  wc_media_path :: "string option"
  wc_dl_path :: "string option"
  wc_autocreate_prefix :: "string option"
  wc_backlog :: "int option"
  wc_mark_read :: bool
  wc_autoupdate_nicks :: bool
  wc_backoff_time_ms :: "nat option"
  wc_track_presence :: bool
  wc_ack_warn_ms :: "64 word option"
  wc_ack_warn_pending_ms :: "64 word option"
  wc_ack_expiry_ms :: "64 word option"

definition wa_new :: "wa_config \<Rightarrow> db \<Rightarrow> 'j web_conn \<Rightarrow> timer_answer list \<Rightarrow> int \<Rightarrow> ('t, 'j) wa_manager" where
  "wa_new cfg d env tm now =
     (let media_path = (case wc_media_path cfg of None \<Rightarrow> ''/tmp/wa_media'' | Some p \<Rightarrow> p);
          dl_path = (case wc_dl_path cfg of None \<Rightarrow> ''file:///tmp/wa_media'' | Some p \<Rightarrow> p);
          backoff_ms = (case wc_backoff_time_ms cfg of None \<Rightarrow> 10000 | Some b \<Rightarrow> b)
      in \<lparr>w_conn = env\<lparr>wc_inner := Disabled, wc_persist := None, wc_backoff_ms := backoff_ms\<rparr>,
          w_rx = [LogonIfSaved], w_cf_tx = [], w_cb_tx = [], w_contacts = [], w_chats = [],
          w_presence_requests = [],
          w_msgproc = \<lparr>wp_store = d, wp_media_path = media_path, wp_dl_path = dl_path, wp_jobs = [],
            wp_uuid = 0, wp_io = []\<rparr>,
          w_ackp = ack_new (wc_ack_warn_ms cfg) (wc_ack_warn_pending_ms cfg) (wc_ack_expiry_ms cfg) tm now,
          w_backlog_start = wc_backlog cfg, w_connected = False, w_store = d,
          w_qr_path = media_path @ ''/qr.png'', w_autocreate = wc_autocreate_prefix cfg,
          w_autoupdate_nicks = wc_autoupdate_nicks cfg, w_mark_read = wc_mark_read cfg,
          w_track_presence = wc_track_presence cfg, w_our_jid = None, w_prev_jid = None, w_outbox = [],
          w_mids = 0, w_now = now\<rparr>)"

text \<open>
  The store is one database for the manager and its message processor, and the tracker sends to the
  same channel as the manager.
\<close>

definition w_db :: "(db, 'a) comp \<Rightarrow> (('t, 'j) wa_manager, 'a) comp" where
  "w_db = on_field w_store (\<lambda>d s. s\<lparr>w_store := d\<rparr>)"

definition w_proc :: "('j wa_proc, 'a) comp \<Rightarrow> (('t, 'j) wa_manager, 'a) comp" where
  "w_proc = on_field (\<lambda>s. (w_msgproc s)\<lparr>wp_store := w_store s\<rparr>)
     (\<lambda>p s. s\<lparr>w_msgproc := p, w_store := wp_store p\<rparr>)"

definition w_ack :: "('j ack_tracker, 'a) comp \<Rightarrow> (('t, 'j) wa_manager, 'a) comp" where
  "w_ack = on_field (\<lambda>s. (w_ackp s)\<lparr>at_cb := w_cb_tx s, at_now := w_now s\<rparr>)
     (\<lambda>t s. s\<lparr>w_ackp := t, w_cb_tx := at_cb t\<rparr>)"

definition w_link :: "('j web_conn, 'a) comp \<Rightarrow> (('t, 'j) wa_manager, 'a) comp" where
  "w_link = on_field (\<lambda>s. (w_conn s)\<lparr>wc_now := w_now s\<rparr>) (\<lambda>c s. s\<lparr>w_conn := c\<rparr>)"

definition cb_send :: "control_bot_command \<Rightarrow> (('t, 'j) wa_manager, unit) comp" where
  "cb_send c = modify (\<lambda>s. s\<lparr>w_cb_tx := w_cb_tx s @ [c]\<rparr>)"

definition cb_respond :: "string \<Rightarrow> (('t, 'j) wa_manager, unit) comp" where
  "cb_respond s = cb_send (CommandResponse s)"

definition w_cf_send :: "'t contact_factory_command \<Rightarrow> (('t, 'j) wa_manager, unit) comp" where
  "w_cf_send c = modify (\<lambda>s. s\<lparr>w_cf_tx := w_cf_tx s @ [c]\<rparr>)"

definition w_request :: "'j wa_request \<Rightarrow> (('t, 'j) wa_manager, unit) comp" where
  "w_request r = modify (\<lambda>s. s\<lparr>w_outbox := w_outbox s @ [r]\<rparr>)"

definition online :: "('t, 'j) wa_manager \<Rightarrow> bool" where
  "online s \<longleftrightarrow> w_connected s \<and> is_connected (w_conn s)"

section \<open>Recipients\<close>

definition no_address :: "('t, 'j) ext \<Rightarrow> 'j \<Rightarrow> error" where
  "no_address E jid = Failure ''couldn't translate jid {} to address'' [jid_to_string E jid]"

definition get_nick_for_jid :: "('t, 'j) ext \<Rightarrow> 'j \<Rightarrow> (('t, 'j) wa_manager, string \<times> int) comp" where
  "get_nick_for_jid E jid =
     and_then (gets (\<lambda>s. hm_get (w_contacts s) jid)) (\<lambda>co.
       case (case co of None \<Rightarrow> None
             | Some ct \<Rightarrow> (case (ct_name ct, ct_notify ct) of
                   (Some name, _) \<Rightarrow> Some (name, NICKSRC_WA_CONTACT)
                 | (None, Some name) \<Rightarrow> Some (name, NICKSRC_WA_NOTIFY)
                 | (None, None) \<Rightarrow> None)) of
         Some (name, src) \<Rightarrow> ret (string_to_irc_nick E name, src)
       | None \<Rightarrow>
           and_then (lift (jid_to_address E jid)) (\<lambda>ao. case ao of
               None \<Rightarrow> err (no_address E jid)
             | Some addr \<Rightarrow> ret (make_nick_for_address E addr, NICKSRC_AUTO)))"

definition notify_of :: "'j \<Rightarrow> ('t, 'j) wa_manager \<Rightarrow> string option" where
  "notify_of jid s = Option.bind (hm_get (w_contacts s) jid) ct_notify"

definition get_wa_recipient :: "('t, 'j) ext \<Rightarrow> 'j \<Rightarrow> (('t, 'j) wa_manager, recipient) comp" where
  "get_wa_recipient E jid =
     and_then (lift (jid_to_address E jid)) (\<lambda>ao. case ao of
         None \<Rightarrow> err (no_address E jid)
       | Some addr \<Rightarrow>
           and_then (w_db (get_recipient_by_addr_opt E addr)) (\<lambda>ro. case ro of
               Some recip \<Rightarrow> ret recip
             | None \<Rightarrow>
                 and_then (get_nick_for_jid E jid) (\<lambda>(nick, nicksrc).
                 and_then (gets (notify_of jid)) (\<lambda>notify.
                 and_then (w_db (store_wa_recipient E addr nick notify nicksrc)) (\<lambda>r.
                 then_do (w_cf_send (SetupContact addr)) (ret r))))))"

definition store_message ::
  "('t, 'j) ext \<Rightarrow> 'j \<Rightarrow> string \<Rightarrow> int option \<Rightarrow> int \<Rightarrow> (('t, 'j) wa_manager, unit) comp" where
  "store_message E fr txt grp ts =
     and_then (lift (jid_to_address E fr)) (\<lambda>ao. case ao of
         None \<Rightarrow> ret ()
       | Some addr \<Rightarrow>
           then_do (get_wa_recipient E fr)
           (then_do (w_db (store_wa_message E addr txt grp ts)) (w_cf_send ProcessMessages)))"

section \<open>Sending\<close>

definition gen_id :: "wa_lib \<Rightarrow> (('t, 'j) wa_manager, string) comp" where
  "gen_id L s = (Ok (gen_mid L (w_mids s)), s\<lparr>w_mids := w_mids s + 1\<rparr>)"

definition queue_message :: "wa_lib \<Rightarrow> wa_content \<Rightarrow> 'j \<Rightarrow> (('t, 'j) wa_manager, unit) comp" where
  "queue_message L content jid =
     and_then (gen_id L) (\<lambda>mid.
     then_do (w_ack (modify (register_send jid content mid True)))
     (and_then (gets (\<lambda>s. is_disabled (w_conn s))) (\<lambda>off.
       if off then cb_send (ReportFailure
         ''Warning: WhatsApp Web is currently not set up, but you've tried to send something.'')
       else ret ())))"

definition presence_due :: "'j \<Rightarrow> ('t, 'j) wa_manager \<Rightarrow> bool" where
  "presence_due j s = (case hm_get (w_presence_requests s) j of
      None \<Rightarrow> True
    | Some inst \<Rightarrow> \<not> w_now s - inst < 300 * 10 ^ 9)"

definition send_message :: "('t, 'j) ext \<Rightarrow> wa_lib \<Rightarrow> wa_content \<Rightarrow> 'j \<Rightarrow> (('t, 'j) wa_manager, unit) comp" where
  "send_message E L content j =
     and_then (gen_id L) (\<lambda>mid.
     then_do (w_db (store_wa_msgid mid))
     (then_do (w_ack (modify (register_send j content mid False)))
     (then_do (w_request (WaSend j content mid))
     (and_then (gets (\<lambda>s. \<not> jid_is_group E j \<and> w_track_presence s \<and> presence_due j s)) (\<lambda>update.
       if update
       then then_do (modify (\<lambda>s. s\<lparr>w_presence_requests := hm_insert j (w_now s) (w_presence_requests s)\<rparr>))
         (w_request (WaSubscribe j))
       else ret ())))))"

definition send_or_queue :: "('t, 'j) ext \<Rightarrow> wa_lib \<Rightarrow> wa_content \<Rightarrow> 'j \<Rightarrow> (('t, 'j) wa_manager, unit) comp" where
  "send_or_queue E L content jid =
     and_then (gets online) (\<lambda>on. if \<not> on then queue_message L content jid else send_message E L content jid)"

definition send_direct_message ::
  "('t, 'j) ext \<Rightarrow> wa_lib \<Rightarrow> 't pdu_address \<Rightarrow> string \<Rightarrow> (('t, 'j) wa_manager, unit) comp" where
  "send_direct_message E L addr content =
     (case jid_from_phonenumber E (addr_to_string E addr) of
        Some jid \<Rightarrow> send_or_queue E L (WaText content) jid
      | None \<Rightarrow> cb_send (ReportFailure (''Failed to send to WA contact '' @ addr_to_string E addr @ '': ''
          @ jid_error L (addr_to_string E addr))))"

definition send_group_message ::
  "('t, 'j) ext \<Rightarrow> wa_lib \<Rightarrow> string \<Rightarrow> string \<Rightarrow> (('t, 'j) wa_manager, unit) comp" where
  "send_group_message E L chan content =
     and_then (w_db (get_group_by_chan_opt chan)) (\<lambda>go. case go of
         Some grp \<Rightarrow>
           (case jid_parse E (g_jid grp) of
              None \<Rightarrow> panic
            | Some jid \<Rightarrow> send_or_queue E L (WaText content) jid)
       | None \<Rightarrow> ret ())"

section \<open>Groups\<close>

definition request_update_group :: "'j \<Rightarrow> (('t, 'j) wa_manager, unit) comp" where
  "request_update_group jid = w_request (WaGetMetadata jid)"

definition on_groups_changed :: "(('t, 'j) wa_manager, unit) comp" where
  "on_groups_changed = then_do (w_cf_send ProcessGroups) (cb_send CbProcessGroups)"

definition group_associate ::
  "('t, 'j) ext \<Rightarrow> 'j \<Rightarrow> string \<Rightarrow> bool \<Rightarrow> (('t, 'j) wa_manager, int) comp" where
  "group_associate E jid chan request_update =
     and_then (w_db (get_group_by_jid_opt E jid)) (\<lambda>go. case go of
         Some grp \<Rightarrow> err (Failure ''that group already exists (channel {})!'' [g_channel grp])
       | None \<Rightarrow>
     and_then (w_db (get_group_by_chan_opt chan)) (\<lambda>go. case go of
         Some grp \<Rightarrow> err (Failure ''that channel is already used for a group (jid {})!'' [g_jid grp])
       | None \<Rightarrow>
     and_then (gets online) (\<lambda>on.
       if \<not> on then err (Failure ''we aren't connected to WhatsApp!'' [])
       else if \<not> jid_is_group E jid then err (Failure ''that jid isn't a group!'' [])
       else
         and_then (w_db (store_group E jid chan [] [] ''*** Group setup in progress, please wait... ***'')) (\<lambda>grp.
         then_do (if request_update then request_update_group jid else ret ())
         (then_do on_groups_changed (ret (g_id grp)))))))"

definition group_associate_handler ::
  "('t, 'j) ext \<Rightarrow> wa_lib \<Rightarrow> 'j \<Rightarrow> string \<Rightarrow> (('t, 'j) wa_manager, unit) comp" where
  "group_associate_handler E L jid chan =
     and_then (attempt (group_associate E jid chan True)) (\<lambda>res. case res of
         Inr _ \<Rightarrow> cb_respond ''Group creation successful.''
       | Inl e \<Rightarrow> cb_respond (''Group creation failed: '' @ error_text L e))"

text \<open>\<open>self.autocreate.as_ref().unwrap()\<close>, prefixed to the sanitised subject.\<close>

definition autocreate_chan :: "('t, 'j) ext \<Rightarrow> string \<Rightarrow> (('t, 'j) wa_manager, string) comp" where
  "autocreate_chan E subject =
     and_then (gets w_autocreate) (\<lambda>ao. case ao of
         None \<Rightarrow> panic
       | Some p \<Rightarrow> ret (p @ ''-'' @ string_to_irc_chan E subject))"

primrec participant_ids ::
  "('t, 'j) ext \<Rightarrow> ('j \<times> bool) list \<Rightarrow> (('t, 'j) wa_manager, (int \<times> bool) list) comp" where
  "participant_ids E [] = ret []"
| "participant_ids E (p # ps) =
     and_then (get_wa_recipient E (fst p)) (\<lambda>recip.
     and_then (participant_ids E ps) (\<lambda>is. ret ((r_id recip, snd p) # is)))"

text \<open>
  \<open>on_got_group_metadata\<close> and \<open>group_autocreate\<close> call each other. The inner call finds the group that
  the outer one has just stored, so two levels are all there are (\<open>got_metadata_levels\<close> below).
\<close>

primrec got_group_metadata ::
  "nat \<Rightarrow> ('t, 'j) ext \<Rightarrow> wa_lib \<Rightarrow> 'j group_meta \<Rightarrow> (('t, 'j) wa_manager, unit) comp" where
  "got_group_metadata 0 E L grp = panic"
| "got_group_metadata (Suc n) E L grp =
     and_then (w_db (get_group_by_jid_opt E (gm_id grp))) (\<lambda>go.
     then_do (case go of
         Some g \<Rightarrow> ret ()
       | None \<Rightarrow>
           and_then (gets (\<lambda>s. w_autocreate s \<noteq> None)) (\<lambda>auto.
             if auto then
               and_then (attempt
                 (and_then (autocreate_chan E (gm_subject grp)) (\<lambda>chan.
                  and_then (group_associate E (gm_id grp) chan False) (\<lambda>i.
                  then_do (got_group_metadata n E L grp) (ret (i, chan)))))) (\<lambda>res. case res of
                 Inr (i, chan) \<Rightarrow> cb_respond (''Automatically bridged new group '' @ [CHR 0x27] @ gm_subject grp
                     @ [CHR 0x27] @ '' to channel '' @ chan @ '' (id '' @ show_int i @ '')'')
               | Inl e \<Rightarrow> cb_respond (''Failed to autocreate new group '' @ jid_to_string E (gm_id grp)
                     @ '' - check logs for details.''))
             else ret ()))
     (and_then (participant_ids E (gm_participants grp)) (\<lambda>is.
      then_do (w_db (update_group E (gm_id grp) (map fst is) (map fst (filter snd is)) (gm_subject grp)))
        on_groups_changed)))"

definition on_got_group_metadata ::
  "('t, 'j) ext \<Rightarrow> wa_lib \<Rightarrow> 'j group_meta \<Rightarrow> (('t, 'j) wa_manager, unit) comp" where
  "on_got_group_metadata = got_group_metadata 2"

definition group_autocreate ::
  "('t, 'j) ext \<Rightarrow> wa_lib \<Rightarrow> 'j group_meta \<Rightarrow> (('t, 'j) wa_manager, int \<times> string) comp" where
  "group_autocreate E L meta =
     and_then (autocreate_chan E (gm_subject meta)) (\<lambda>chan.
     and_then (group_associate E (gm_id meta) chan False) (\<lambda>i.
     then_do (on_got_group_metadata E L meta) (ret (i, chan))))"

definition group_autocreate_from_intro ::
  "('t, 'j) ext \<Rightarrow> wa_lib \<Rightarrow> 'j group_meta \<Rightarrow> (('t, 'j) wa_manager, unit) comp" where
  "group_autocreate_from_intro E L meta =
     and_then (attempt (group_autocreate E L meta)) (\<lambda>res. case res of
         Inr (i, chan) \<Rightarrow> cb_respond (''Automatically bridged new group '' @ [CHR 0x27] @ gm_subject meta
             @ [CHR 0x27] @ '' to channel '' @ chan @ '' (id '' @ show_int i @ '')'')
       | Inl e \<Rightarrow> cb_respond (''Failed to autocreate new group '' @ jid_to_string E (gm_id meta)
             @ '' - check logs for details.''))"

definition group_autocreate_from_unbridged ::
  "('t, 'j) ext \<Rightarrow> 'j \<Rightarrow> (('t, 'j) wa_manager, int) comp" where
  "group_autocreate_from_unbridged E jid =
     and_then (gets (\<lambda>s. hm_get (w_chats s) jid)) (\<lambda>co. case co of
         None \<Rightarrow> err (Failure ''chat not in chat list'' [])
       | Some chat \<Rightarrow>
           (case ch_name chat of
              None \<Rightarrow> err (Failure ''chat unnamed'' [])
            | Some name \<Rightarrow>
                and_then (autocreate_chan E name) (\<lambda>chan. group_associate E jid chan True)))"

text \<open>A parse error of a JID only skips its group.\<close>

definition group_update_all :: "('t, 'j) ext \<Rightarrow> (('t, 'j) wa_manager, unit) comp" where
  "group_update_all E =
     and_then (w_db get_all_groups) (\<lambda>grps. for_each grps (\<lambda>grp.
       case jid_parse E (g_jid grp) of
         Some j \<Rightarrow> request_update_group j
       | None \<Rightarrow> ret ()))"

definition group_remove :: "string \<Rightarrow> (('t, 'j) wa_manager, unit) comp" where
  "group_remove chan =
     and_then (w_db (get_group_by_chan_opt chan)) (\<lambda>go. case go of
         Some grp \<Rightarrow>
           then_do (w_db (delete_group_with_id (g_id grp)))
           (then_do on_groups_changed
             (cb_respond (''Group with jid '' @ g_jid grp @ '' deleted.'')))
       | None \<Rightarrow> cb_respond (''no group with channel '' @ chan @ '' found!''))"

primrec chat_lines ::
  "('t, 'j) ext \<Rightarrow> ('j \<times> 'j wa_chat) list \<Rightarrow> (('t, 'j) wa_manager, string list) comp" where
  "chat_lines E [] = ret []"
| "chat_lines E (c # cs) =
     and_then (w_db (get_group_by_jid_opt E (fst c))) (\<lambda>go.
     and_then (chat_lines E cs) (\<lambda>rest.
       let bstatus = (case go of
               Some grp \<Rightarrow> bold @ colour @ ''09group bridged to '' @ g_channel grp @ plain
             | None \<Rightarrow> if jid_is_group E (fst c) then bold @ colour @ ''04unbridged group'' @ plain
                 else bold @ ''1-to-1 chat'' @ plain)
       in ret ((''- '' @ [CHR 0x27] @ (case ch_name (snd c) of Some n \<Rightarrow> n | None \<Rightarrow> ''<unnamed>'') @ [CHR 0x27]
            @ '' (jid '' @ jid_to_string E (fst c) @ '') - '' @ bstatus) # rest)))"

definition group_list :: "('t, 'j) ext \<Rightarrow> (('t, 'j) wa_manager, unit) comp" where
  "group_list E =
     and_then (gets (\<lambda>s. hm_iter (ord_jid E) (w_chats s))) (\<lambda>chs.
     and_then (chat_lines E chs) (\<lambda>ls.
     then_do (cb_respond (if length ls = 0 then ''no WhatsApp chats (yet?)'' else ''WhatsApp chats:''))
       (for_each ls cb_respond)))"

section \<open>Incoming messages\<close>

text \<open>
  Whom a message is from and its group: an own message in a chat with one person has neither and is
  only marked as seen.
\<close>

definition message_origin ::
  "('t, 'j) ext \<Rightarrow> 'j wa_message \<Rightarrow> (('t, 'j) wa_manager, ('j \<times> 'j option) option) comp" where
  "message_origin E msg = (case wm_direction msg of
      Sending jid \<Rightarrow>
        and_then (gets w_our_jid) (\<lambda>oj. case oj of
            None \<Rightarrow> err (Failure ''our_jid empty'' [])
          | Some ojid \<Rightarrow> if jid_is_group E jid then ret (Some (ojid, Some jid))
              else then_do (w_db (store_wa_msgid (wm_id msg))) (ret None))
    | Receiving (Individual j) \<Rightarrow> ret (Some (j, None))
    | Receiving (PeerGroup grp participant) \<Rightarrow> ret (Some (participant, Some grp)))"

text \<open>The identifier of the bridged group, or \<^const>\<open>None\<close> where the message is dropped.\<close>

definition message_group ::
  "('t, 'j) ext \<Rightarrow> 'j option \<Rightarrow> (('t, 'j) wa_manager, int option option) comp" where
  "message_group E gido = (case gido of
      None \<Rightarrow> ret (Some None)
    | Some gid \<Rightarrow>
        if jid_id E gid = ''status'' then ret None
        else and_then (w_db (get_group_by_jid_opt E gid)) (\<lambda>go. case go of
            Some grp \<Rightarrow> ret (Some (Some (g_id grp)))
          | None \<Rightarrow>
              and_then (gets (\<lambda>s. w_autocreate s \<noteq> None)) (\<lambda>auto.
                if auto then
                  and_then (attempt (group_autocreate_from_unbridged E gid)) (\<lambda>res. case res of
                      Inr i \<Rightarrow> ret (Some (Some i))
                    | Inl e \<Rightarrow> then_do (request_update_group gid) (ret None))
                else ret None)))"

definition message_peer :: "'j wa_message \<Rightarrow> 'j peer option" where
  "message_peer msg = (case wm_direction msg of Sending _ \<Rightarrow> None | Receiving p \<Rightarrow> Some p)"

definition already_seen :: "'j wa_message \<Rightarrow> bool \<Rightarrow> (('t, 'j) wa_manager, bool) comp" where
  "already_seen msg is_new =
     and_then (gets w_mark_read) (\<lambda>mark.
       if \<not> mark \<or> \<not> is_new then w_db (is_wa_msgid_stored (wm_id msg)) else ret False)"

definition too_old :: "'j wa_message \<Rightarrow> bool \<Rightarrow> ('t, 'j) wa_manager \<Rightarrow> bool" where
  "too_old msg is_new s \<longleftrightarrow>
     \<not> is_new \<and> (case w_backlog_start s of None \<Rightarrow> False | Some bsf \<Rightarrow> bsf > wm_time msg)"

text \<open>An own message has no peer, so the test for it never decides anything.\<close>

definition deliver ::
  "('t, 'j) ext \<Rightarrow> wa_lib \<Rightarrow> 'j wa_message \<Rightarrow> 'j \<Rightarrow> int option \<Rightarrow> (('t, 'j) wa_manager, unit) comp" where
  "deliver E L msg fr grp =
     and_then (w_proc (process_wa_incoming E L
       \<lparr>in_id = wm_id msg, in_peer = message_peer msg, in_from = fr, in_group = grp,
        in_content = wm_content msg, in_quoted = wm_quoted msg, in_ts = wm_time msg\<rparr>)) (\<lambda>(msgs, is_media).
     then_do (for_each msgs (\<lambda>m. store_message E (pm_from m) (pm_text m) (pm_group m) (pm_ts m)))
     (then_do (if length msgs = 0 then ret ()
               else if \<not> is_media then w_db (store_wa_msgid (wm_id msg)) else ret ())
       (case message_peer msg of
          None \<Rightarrow> ret ()
        | Some p \<Rightarrow>
            and_then (gets w_mark_read) (\<lambda>mark.
              if \<not> is_media \<and> mark then w_request (WaRead (wm_id msg) p) else ret ()))))"

definition on_message ::
  "('t, 'j) ext \<Rightarrow> wa_lib \<Rightarrow> 'j wa_message \<Rightarrow> bool \<Rightarrow> (('t, 'j) wa_manager, unit) comp" where
  "on_message E L msg is_new =
     and_then (already_seen msg is_new) (\<lambda>seen. if seen then ret () else
     and_then (gets (too_old msg is_new)) (\<lambda>old. if old then ret () else
     and_then (message_origin E msg) (\<lambda>origin. case origin of
         None \<Rightarrow> ret ()
       | Some (fr, gido) \<Rightarrow>
           and_then (message_group E gido) (\<lambda>dest. case dest of
               None \<Rightarrow> ret ()
             | Some grp \<Rightarrow> deliver E L msg fr grp))))"

definition media_finished :: "('t, 'j) ext \<Rightarrow> 'j media_result \<Rightarrow> (('t, 'j) wa_manager, unit) comp" where
  "media_finished E r =
     then_do (store_message E (mr_from r)
         (case mr_result r of Inr txt \<Rightarrow> txt | Inl e \<Rightarrow> action ''uploaded media (couldn't download)'')
         (mr_group r) (mr_ts r))
     (then_do (w_db (store_wa_msgid (mr_mi r)))
     (and_then (gets w_mark_read) (\<lambda>mark.
       if mark then (case mr_peer r of Some p \<Rightarrow> w_request (WaRead (mr_mi r) p) | None \<Rightarrow> ret ())
       else ret ())))"

section \<open>Contacts\<close>

definition should_update :: "int \<Rightarrow> int \<Rightarrow> bool" where
  "should_update oldsrc newsrc =
     (if oldsrc = NICKSRC_MIGRATED then True
      else if oldsrc = NICKSRC_AUTO \<and> newsrc = NICKSRC_AUTO then False
      else if oldsrc = NICKSRC_AUTO then True
      else if oldsrc = NICKSRC_WA_NOTIFY \<and> newsrc = NICKSRC_WA_CONTACT then True
      else if oldsrc = NICKSRC_WA_CONTACT \<and> newsrc = NICKSRC_WA_CONTACT then True
      else if oldsrc = NICKSRC_WA_NOTIFY \<and> newsrc = NICKSRC_WA_NOTIFY then True
      else False)"

definition on_contact_change ::
  "('t, 'j) ext \<Rightarrow> 'j wa_contact \<Rightarrow> (('t, 'j) wa_manager, unit) comp" where
  "on_contact_change E ct =
     (let jid = ct_jid ct in
      if jid_id E jid = ''status'' \<or> jid_is_group E jid then ret ()
      else
        and_then (lift (jid_to_address E jid)) (\<lambda>ao. case ao of
            None \<Rightarrow> ret ()
          | Some addr \<Rightarrow>
              then_do (modify (\<lambda>s. s\<lparr>w_contacts := hm_insert jid ct (w_contacts s)\<rparr>))
              (and_then (get_wa_recipient E jid) (\<lambda>recip.
               and_then (get_nick_for_jid E jid) (\<lambda>(new_nick, newsrc).
               and_then (gets (notify_of jid)) (\<lambda>notify.
               then_do (if notify \<noteq> None then w_db (update_recipient_notify E addr notify) else ret ())
               (and_then (gets w_autoupdate_nicks) (\<lambda>auto.
                 if r_nick recip \<noteq> new_nick \<and> should_update (r_nicksrc recip) newsrc \<and> auto
                 then w_cf_send (ForwardCommand addr (ChangeNick new_nick newsrc))
                 else ret ()))))))))"

definition subscribe_presence ::
  "('t, 'j) ext \<Rightarrow> 't pdu_address \<Rightarrow> (('t, 'j) wa_manager, unit) comp" where
  "subscribe_presence E addr =
     and_then (attempt (lift (address_to_jid E addr))) (\<lambda>res. case res of
         Inr from' \<Rightarrow>
           and_then (get_wa_recipient E from') (\<lambda>recip.
           and_then (gets w_connected) (\<lambda>con.
             if con
             then then_do (cb_respond (''Subscribing to presence updates from '' @ [CHR 0x27] @ r_nick recip
                 @ [CHR 0x27] @ '' (jid '' @ jid_to_string E from' @ '')'' @ [CHR 0x60]))
               (w_request (WaSubscribe from'))
             else cb_respond ''Error subscribing: not connected to WA''))
       | Inl _ \<Rightarrow> cb_respond ''Error subscribing: invalid PduAddress'')"

definition wa_make_contact ::
  "('t, 'j) ext \<Rightarrow> 't pdu_address \<Rightarrow> (('t, 'j) wa_manager, unit) comp" where
  "wa_make_contact E addr =
     and_then (attempt (lift (address_to_jid E addr))) (\<lambda>res. case res of
         Inr from' \<Rightarrow> then_do (get_wa_recipient E from') (w_cf_send ProcessMessages)
       | Inl _ \<Rightarrow> ret ())"

section \<open>The session\<close>

definition logon_if_saved :: "(('t, 'j) wa_manager, unit) comp" where
  "logon_if_saved =
     and_then (w_db get_wa_persistence_opt) (\<lambda>wapo. case wapo of
         Some wap \<Rightarrow> w_link (modify (connect_persistent wap))
       | None \<Rightarrow> ret ())"

definition start_registration :: "(('t, 'j) wa_manager, unit) comp" where
  "start_registration = w_link (modify connect_new)"

definition print_acks :: "('t, 'j) ext \<Rightarrow> wa_lib \<Rightarrow> (('t, 'j) wa_manager, unit) comp" where
  "print_acks E L = and_then (w_ack (gets (ack_print E L))) (\<lambda>ls. for_each ls cb_respond)"

text \<open>\<open>saved\<close>: whether the picture of the code could be written.\<close>

definition on_qr :: "bool \<Rightarrow> (('t, 'j) wa_manager, unit) comp" where
  "on_qr saved =
     (if \<not> saved then err IoError
      else and_then (gets w_qr_path) (\<lambda>p.
        then_do (cb_respond (''Scan the QR code saved at '' @ p @ '' to log in!''))
          (cb_respond ''NB: The code is only valid for a few seconds, so scan quickly!'')))"

definition warn_other_number :: "'j \<Rightarrow> (('t, 'j) wa_manager, unit) comp" where
  "warn_other_number jid =
     and_then (gets w_prev_jid) (\<lambda>prev.
       if Some jid \<noteq> prev \<and> prev \<noteq> None
       then cb_send (ReportFailure ''Warning: You've logged in with a different phone number.'')
       else ret ())"

definition on_established ::
  "('t, 'j) ext \<Rightarrow> wa_lib \<Rightarrow> 'j \<Rightarrow> string \<Rightarrow> (('t, 'j) wa_manager, unit) comp" where
  "on_established E L jid ps =
     then_do (modify (\<lambda>s. s\<lparr>w_our_jid := Some jid\<rparr>))
     (then_do (warn_other_number jid)
     (and_then (w_ack (\<lambda>t. (let (ms, t') = extract_unsent E t in (Ok ms, t')))) (\<lambda>unsent.
     then_do (for_each unsent (\<lambda>m. send_message E L (ss_content m) (ss_destination m)))
     (then_do (w_db (store_wa_persistence ps))
     (then_do (w_link (modify (set_persistent (Some ps))))
       (modify (\<lambda>s. s\<lparr>w_prev_jid := Some jid, w_connected := True\<rparr>)))))))"

definition on_wa_error :: "wa_error \<Rightarrow> (('t, 'j) wa_manager, unit) comp" where
  "on_wa_error e =
     then_do (case e of
         Disconnected Removed \<Rightarrow>
           then_do (cb_send (ReportFailure
               ''Error: WhatsApp Web connection removed in the mobile app! Use the WHATSAPP SETUP command to restore connectivity.''))
             (w_link (modify disable))
       | StatusCode sc \<Rightarrow>
           if sc = 401 then
             then_do (cb_send (ReportFailure
               ''Error: WhatsApp Web credentials are invalid. Use the WHATSAPP SETUP command to restore connectivity.''))
             (w_link (modify disable))
           else ret ()
       | _ \<Rightarrow> ret ())
     (modify (\<lambda>s. s\<lparr>w_our_jid := None, w_connected := False\<rparr>))"

section \<open>Events\<close>

definition presence_change ::
  "('t, 'j) ext \<Rightarrow> 'j \<Rightarrow> bool \<Rightarrow> string option \<Rightarrow> (('t, 'j) wa_manager, unit) comp" where
  "presence_change E jid unavailable ts =
     and_then (lift (jid_to_address E jid)) (\<lambda>numo. case numo of
         None \<Rightarrow> ret ()
       | Some num \<Rightarrow>
           w_cf_send (ForwardCommand num (UpdateAway
             (if unavailable then Some (case ts of
                  Some t \<Rightarrow> ''last seen '' @ t
                | None \<Rightarrow> ''currently offline'')
              else None))))"

definition group_subject_change ::
  "('t, 'j) ext \<Rightarrow> 'j \<Rightarrow> string \<Rightarrow> 'j \<Rightarrow> (('t, 'j) wa_manager, unit) comp" where
  "group_subject_change E jid subject inducer =
     and_then (w_db (get_group_by_jid_opt E jid)) (\<lambda>go. case go of
         None \<Rightarrow> ret ()
       | Some grp \<Rightarrow>
           and_then (gets w_now) (\<lambda>ts.
           then_do (store_message E inducer
               (action (''changed the subject to '' @ [CHR 0x27] @ subject @ [CHR 0x27])) (Some (g_id grp)) ts)
             (request_update_group jid)))"

primrec participant_nicks ::
  "('t, 'j) ext \<Rightarrow> 'j list \<Rightarrow> (('t, 'j) wa_manager, string list) comp" where
  "participant_nicks E [] = ret []"
| "participant_nicks E (p # ps) =
     and_then (get_wa_recipient E p) (\<lambda>recip.
     and_then (participant_nicks E ps) (\<lambda>ns. ret (r_nick recip # ns)))"

definition change_verb :: "participants_change \<Rightarrow> string" where
  "change_verb c = (case c of
      ParticipantsAdd \<Rightarrow> ''added'' | ParticipantsRemove \<Rightarrow> ''removed''
    | ParticipantsPromote \<Rightarrow> ''promoted'' | ParticipantsDemote \<Rightarrow> ''demoted'')"

definition group_participants_change ::
  "('t, 'j) ext \<Rightarrow> 'j \<Rightarrow> participants_change \<Rightarrow> 'j option \<Rightarrow> 'j list \<Rightarrow> (('t, 'j) wa_manager, unit) comp" where
  "group_participants_change E jid change inducer ps =
     and_then (gets w_now) (\<lambda>ts.
     and_then (w_db (get_group_by_jid_opt E jid)) (\<lambda>go. case go of
         None \<Rightarrow> ret ()
       | Some grp \<Rightarrow>
           then_do (case inducer of
               None \<Rightarrow> ret ()
             | Some i \<Rightarrow>
                 if ps = [i] then store_message E i (action ''left the group'') (Some (g_id grp)) ts
                 else and_then (participant_nicks E ps) (\<lambda>nicks.
                   store_message E i (action (change_verb change @ '': '' @ join_str '', '' nicks)) (Some (g_id grp)) ts))
             (request_update_group jid)))"

definition touch_recipient :: "('t, 'j) ext \<Rightarrow> 'j \<Rightarrow> (('t, 'j) wa_manager, unit) comp" where
  "touch_recipient E jid =
     (if jid_is_group E jid then ret () else then_do (get_wa_recipient E jid) (ret ()))"

definition on_wa_event ::
  "('t, 'j) ext \<Rightarrow> wa_lib \<Rightarrow> 'j wa_event \<Rightarrow> (('t, 'j) wa_manager, unit) comp" where
  "on_wa_event E L evt = (case evt of
      WebsocketConnected \<Rightarrow> ret ()
    | ScanCode saved \<Rightarrow> on_qr saved
    | SessionEstablished jid persistent \<Rightarrow> on_established E L jid persistent
    | WaMessageEvent is_new msg \<Rightarrow> on_message E L msg is_new
    | InitialContacts cts \<Rightarrow> for_each cts (on_contact_change E)
    | AddContact ct \<Rightarrow> on_contact_change E ct
    | DeleteContact _ \<Rightarrow> ret ()
    | InitialChats cts \<Rightarrow> for_each cts (\<lambda>ct. modify (\<lambda>s. s\<lparr>w_chats := hm_insert (ch_jid ct) ct (w_chats s)\<rparr>))
    | ChatRemoved jid \<Rightarrow> modify (\<lambda>s. s\<lparr>w_chats := hm_remove jid (w_chats s)\<rparr>)
    | ChatOther _ \<Rightarrow> ret ()
    | PresenceChange jid unavailable ts \<Rightarrow> presence_change E jid unavailable ts
    | MessageAck mid level \<Rightarrow> w_ack (modify (on_message_ack mid level))
    | GroupIntroduce newly_created meta \<Rightarrow>
        and_then (gets (\<lambda>s. w_autocreate s \<noteq> None)) (\<lambda>auto.
          if newly_created \<and> auto then group_autocreate_from_intro E L meta else ret ())
    | GroupMetadata (Inr meta) \<Rightarrow> on_got_group_metadata E L meta
    | GroupMetadata (Inl _) \<Rightarrow> ret ()
    | GroupSubjectChange jid subject inducer \<Rightarrow> group_subject_change E jid subject inducer
    | GroupParticipantsChange jid change inducer ps \<Rightarrow> group_participants_change E jid change inducer ps
    | ProfileStatus jid _ _ \<Rightarrow> touch_recipient E jid
    | PictureChange jid _ \<Rightarrow> touch_recipient E jid
    | MessageSendFail mid code \<Rightarrow>
        cb_send (ReportFailure (''Error: Sending WhatsApp message ID '' @ mid @ '' failed with code ''
          @ show_nat code @ ''!''))
    | BatteryLevel _ \<Rightarrow> ret ()
    | OtherWaEvent \<Rightarrow> ret ())"

definition handle_int_rx ::
  "('t, 'j) ext \<Rightarrow> wa_lib \<Rightarrow> ('t, 'j) whatsapp_command \<Rightarrow> (('t, 'j) wa_manager, unit) comp" where
  "handle_int_rx E L c = (case c of
      StartRegistration \<Rightarrow> start_registration
    | LogonIfSaved \<Rightarrow> logon_if_saved
    | SendGroupMessage dst cont \<Rightarrow> send_group_message E L dst cont
    | SendDirectMessage dst cont \<Rightarrow> send_direct_message E L dst cont
    | GroupAssociate jid dst \<Rightarrow> group_associate_handler E L jid dst
    | GroupList \<Rightarrow> group_list E
    | GroupUpdateAll \<Rightarrow> group_update_all E
    | GroupRemove grp \<Rightarrow> group_remove grp
    | MediaFinished r \<Rightarrow> media_finished E r
    | PrintAcks \<Rightarrow> print_acks E L
    | WaMakeContact a \<Rightarrow> wa_make_contact E a
    | SubscribePresence a \<Rightarrow> subscribe_presence E a)"

section \<open>Polling\<close>

text \<open>
  The inner loop takes an answer of the connection for every event, so the number of answers left
  bounds it (\<open>drain_conn_enough\<close>).
\<close>

primrec drain_conn :: "nat \<Rightarrow> ('t, 'j) ext \<Rightarrow> wa_lib \<Rightarrow> (('t, 'j) wa_manager, unit) comp" where
  "drain_conn 0 E L = panic"
| "drain_conn (Suc n) E L =
     and_then (w_link web_poll) (\<lambda>evt. case evt of
         None \<Rightarrow> ret ()
       | Some e \<Rightarrow>
           then_do (case e of Inr ev \<Rightarrow> on_wa_event E L ev | Inl er \<Rightarrow> on_wa_error er) (drain_conn n E L))"

definition poll_conn :: "('t, 'j) ext \<Rightarrow> wa_lib \<Rightarrow> (('t, 'j) wa_manager, unit) comp" where
  "poll_conn E L s = drain_conn (Suc (answers_left (w_conn s))) E L s"

text \<open>
  The handlers send nothing to the manager itself, so a round reads the commands as they stand. A
  request that the connection gives back with \<open>NotReady\<close> is dropped.
\<close>

definition handle_commands :: "('t, 'j) ext \<Rightarrow> wa_lib \<Rightarrow> (('t, 'j) wa_manager, bool) comp" where
  "handle_commands E L =
     and_then (gets w_rx) (\<lambda>cmds.
     then_do (modify (\<lambda>s. s\<lparr>w_rx := []\<rparr>))
     (then_do (for_each cmds (handle_int_rx E L)) (ret (cmds \<noteq> []))))"

primrec send_requests :: "'j wa_request list \<Rightarrow> (('t, 'j) wa_manager, unit) comp" where
  "send_requests [] = ret ()"
| "send_requests (r # rs) =
     then_do (modify (\<lambda>s. s\<lparr>w_outbox := rs\<rparr>))
     (and_then (w_link (web_start_send r)) (\<lambda>res. case res of
         Inl e \<Rightarrow> on_wa_error e
       | Inr _ \<Rightarrow> send_requests rs))"

definition flush_outbox :: "(('t, 'j) wa_manager, unit) comp" where
  "flush_outbox =
     and_then (gets w_outbox) (\<lambda>reqs.
     then_do
       (if length reqs > 0 then
          and_then (gets (\<lambda>s. is_connected (w_conn s))) (\<lambda>con.
            if con then send_requests reqs else modify (\<lambda>s. s\<lparr>w_outbox := []\<rparr>))
        else ret ())
       (and_then (gets (\<lambda>s. is_connected (w_conn s))) (\<lambda>con.
         if con then w_link web_poll_complete else ret ())))"

definition wa_round :: "('t, 'j) ext \<Rightarrow> wa_lib \<Rightarrow> (('t, 'j) wa_manager, bool) comp" where
  "wa_round E L =
     then_do (poll_conn E L)
     (and_then (handle_commands E L) (\<lambda>cont.
      then_do flush_outbox (ret cont)))"

text \<open>The second round finds no commands, so it is the last.\<close>

primrec wa_rounds :: "nat \<Rightarrow> ('t, 'j) ext \<Rightarrow> wa_lib \<Rightarrow> (('t, 'j) wa_manager, unit) comp" where
  "wa_rounds 0 E L = panic"
| "wa_rounds (Suc n) E L = and_then (wa_round E L) (\<lambda>cont. if cont then wa_rounds n E L else ret ())"

definition wa_poll :: "('t, 'j) ext \<Rightarrow> wa_lib \<Rightarrow> (('t, 'j) wa_manager, unit) comp" where
  "wa_poll E L = then_do (wa_rounds 2 E L) (w_ack (ack_poll E))"

end
