(* ===== verification/Whatsapp_Facts.thy ===== *)
theory Whatsapp_Facts
  imports Whatsapp
begin

text \<open>
  What every handler of the WhatsApp manager keeps: a property of the database that the store
  operations keep, and the conditions under which nothing panics. The recursion of group creation and
  the loops of the poll end.
\<close>

section \<open>Two levels of group creation are enough\<close>

definition metadata_rest ::
  "('t, 'j) ext \<Rightarrow> 'j group_meta \<Rightarrow> (('t, 'j) wa_manager, unit) comp" where
  "metadata_rest E grp =
     and_then (participant_ids E (gm_participants grp)) (\<lambda>is.
     then_do (w_db (update_group E (gm_id grp) (map fst is) (map fst (filter snd is)) (gm_subject grp)))
       on_groups_changed)"

definition metadata_create ::
  "nat \<Rightarrow> ('t, 'j) ext \<Rightarrow> wa_lib \<Rightarrow> 'j group_meta \<Rightarrow> (('t, 'j) wa_manager, int \<times> string) comp" where
  "metadata_create n E L grp =
     and_then (autocreate_chan E (gm_subject grp)) (\<lambda>chan.
     and_then (group_associate E (gm_id grp) chan False) (\<lambda>i.
     then_do (got_group_metadata n E L grp) (ret (i, chan))))"

declare got_group_metadata.simps [simp del]

lemmas got_metadata_Suc = got_group_metadata.simps(2) [folded metadata_rest_def metadata_create_def]

definition group_known :: "('t, 'j) ext \<Rightarrow> 'j \<Rightarrow> ('t, 'j) wa_manager \<Rightarrow> bool" where
  "group_known E j s \<longleftrightarrow> jid_to_string E j \<in> g_jid ` set (groups (w_store s))"

lemma got_metadata_known:
  assumes "group_known E (gm_id grp) s"
  shows "got_group_metadata (Suc n) E L grp s =
    then_do (w_db (get_group_by_jid_opt E (gm_id grp))) (metadata_rest E grp) s"
proof -
  have "r \<noteq> Ok None" if "w_db (get_group_by_jid_opt E (gm_id grp)) s = (r, s')" for r s'
    using that assms
    by (auto simp: w_db_def on_field_def get_group_by_jid_opt_def with_conn_def gets_def first_opt_None
        group_known_def split: list.splits if_splits prod.splits)
  then show ?thesis
    unfolding got_metadata_Suc
    by (auto simp: then_do_def and_then_def ret_def split: prod.splits outcome.splits option.splits)
qed

lemma store_group_known:
  "store_group E j c ps as t d = (Ok g, d') \<Longrightarrow> jid_to_string E j \<in> g_jid ` set (groups d')"
  by (auto simp: store_group_def with_conn_def Let_def split: list.splits if_splits)

lemma associate_stores:
  "group_associate E j chan u s = (Ok i, s') \<Longrightarrow> group_known E j s'"
  by (auto simp: group_associate_def w_db_def on_field_def group_known_def gets_def ret_def err_def
      request_update_group_def w_request_def on_groups_changed_def w_cf_send_def cb_send_def modify_def
      elim!: and_then_OkE then_do_OkE dest!: store_group_known split: option.splits if_splits prod.splits)

text \<open>More levels change nothing.\<close>

lemma metadata_create_levels: "metadata_create (Suc n) E L grp = metadata_create (Suc 0) E L grp"
proof -
  have "and_then (group_associate E (gm_id grp) chan False) (\<lambda>i.
        then_do (got_group_metadata (Suc n) E L grp) (ret (i, chan))) s =
      and_then (group_associate E (gm_id grp) chan False) (\<lambda>i.
        then_do (got_group_metadata (Suc 0) E L grp) (ret (i, chan))) s" for chan s
  proof (cases "group_associate E (gm_id grp) chan False s")
    case (Pair r s1)
    then show ?thesis
      using associate_stores [of E "gm_id grp" chan False s _ s1]
      by (cases r) (auto simp: and_then_def then_do_def got_metadata_known)
  qed
  then show ?thesis unfolding metadata_create_def by presburger
qed

lemma got_metadata_levels: "got_group_metadata (Suc (Suc n)) E L grp = on_got_group_metadata E L grp"
  unfolding on_got_group_metadata_def numeral_2_eq_2 got_metadata_Suc [of "Suc _"]
  by (simp only: metadata_create_levels [of n])

section \<open>Properties of the database\<close>

text \<open>
  The state of the manager: besides the database, the connection and the configuration.
\<close>

definition kept ::
  "(db \<Rightarrow> bool) \<Rightarrow> bool \<Rightarrow> string option \<Rightarrow> ('t, 'j) whatsapp_command list \<Rightarrow> nat
   \<Rightarrow> ('t, 'j) wa_manager \<Rightarrow> bool" where
  "kept Q b auto rx k s \<longleftrightarrow> Q (w_store s) \<and> w_autocreate s = auto \<and> w_rx s = rx \<and> answers_left (w_conn s) \<le> k \<and>
     (b \<longrightarrow> StreamEnded \<notin> set (wc_stream (w_conn s)))"

lemma by_chan_found:
  "w_db (get_group_by_chan_opt c) s = (Ok (Some g), s') \<Longrightarrow> g \<in> set (groups (w_store s))"
  by (auto simp: w_db_def on_field_def get_group_by_chan_opt_def with_conn_def gets_def
      dest!: first_opt_Some split: list.splits if_splits prod.splits)

definition kept_any ::
  "(db \<Rightarrow> bool) \<Rightarrow> bool \<Rightarrow> string option \<Rightarrow> nat \<Rightarrow> ('t, 'j) wa_manager \<Rightarrow> bool" where
  "kept_any Q b auto k s \<longleftrightarrow> (\<exists>rx. kept Q b auto rx k s)"

text \<open>
  First what needs only queries: a property of the database that does not look at the faults ahead.
  Under \<open>b\<close> the model is also free of panics: then every number can be parsed.
\<close>

locale wa_reading =
  fixes E :: "('t, 'j) ext" and L :: wa_lib and Q :: "db \<Rightarrow> bool" and b :: bool
  assumes blind: "fault_blind Q"
    and numbers: "b \<Longrightarrow> addr_parse E s \<noteq> None"
begin

lemma db_guarded:
  assumes "pres Q m" and "safe (\<lambda>_. True) m"
  shows "guarded b (kept Q b auto rx k) (w_db m)"
  unfolding w_db_def
  by (rule guarded_on_field [OF guarded_of_quiet [OF assms]]) (auto simp: kept_def)

lemma db_reads [guarded]:
  "guarded b (kept Q b auto rx k) (w_db get_wa_persistence_opt)"
  "guarded b (kept Q b auto rx k) (w_db (is_wa_msgid_stored mid))"
  "guarded b (kept Q b auto rx k) (w_db (get_recipient_by_addr_opt E a))"
  "guarded b (kept Q b auto rx k) (w_db get_all_groups)"
  "guarded b (kept Q b auto rx k) (w_db (get_group_by_jid_opt E j))"
  "guarded b (kept Q b auto rx k) (w_db (get_group_by_chan_opt c))"
  by (rule db_guarded; intro pres_reads blind safe)+

lemma sends_guarded [guarded]:
  "guarded b (kept Q b auto rx k) (cb_send c)" "guarded b (kept Q b auto rx k) (cb_respond t)"
  "guarded b (kept Q b auto rx k) (w_cf_send f)" "guarded b (kept Q b auto rx k) (w_request r)"
  "guarded b (kept Q b auto rx k) (gen_id L)" "guarded b (kept Q b auto rx k) (request_update_group j)"
  by (rule guardedI; simp add: cb_respond_def request_update_group_def cb_send_def w_cf_send_def
      w_request_def gen_id_def modify_def kept_def)+

lemma groups_changed_guarded [guarded]: "guarded b (kept Q b auto rx k) on_groups_changed"
  unfolding on_groups_changed_def by (intro guarded)

lemma no_panic_address: "b \<Longrightarrow> jid_to_address E j \<noteq> Panic"
  using numbers by (cases "jid_phonenumber E j") (auto simp: jid_to_address_def split: option.split)

lemma address_guarded [guarded]: "guarded b P (lift (jid_to_address E j))"
  by (rule guarded_lift) (rule no_panic_address)

lemma ack_guarded:
  "(\<And>t. fst (m t) \<noteq> Panic) \<Longrightarrow> guarded b (kept Q b auto rx k) (w_ack m)"
  unfolding w_ack_def
  by (rule guarded_on_field [where Q = "\<lambda>_. True"]) (auto simp: guarded_def pres_def safe_def kept_def)

lemma ack_modify [guarded]: "guarded b (kept Q b auto rx k) (w_ack (modify f))"
  by (rule ack_guarded) (simp add: modify_def)

lemma link_modify [guarded]:
  "guarded b (kept Q b auto rx k) (w_link (modify (connect_persistent p)))"
  "guarded b (kept Q b auto rx k) (w_link (modify connect_new))"
  "guarded b (kept Q b auto rx k) (w_link (modify disable))"
  "guarded b (kept Q b auto rx k) (w_link (modify (set_persistent po)))"
  unfolding w_link_def
  by (rule guarded_on_field [where Q = "\<lambda>c. answers_left c \<le> k \<and> (b \<longrightarrow> StreamEnded \<notin> set (wc_stream c))"];
      auto simp: guarded_def pres_def safe_def modify_def kept_def connect_persistent_def connect_new_def
        initialize_def disable_def set_persistent_def answers_left_def)+

lemma nick_guarded [guarded]: "guarded b (kept Q b auto rx k) (get_nick_for_jid E j)"
  unfolding get_nick_for_jid_def by (intro guarded)

lemma autocreate_chan_guarded: "auto \<noteq> None \<Longrightarrow> guarded b (kept Q b auto rx k) (autocreate_chan E subj)"
  unfolding autocreate_chan_def
  by (rule guarded_gets_then) (auto simp: kept_def intro: guarded)

lemma if_autocreating:
  assumes "auto \<noteq> None \<Longrightarrow> guarded b (kept Q b auto rx k) m" and "guarded b (kept Q b auto rx k) n"
  shows "guarded b (kept Q b auto rx k) (and_then (gets (\<lambda>s. w_autocreate s \<noteq> None)) (\<lambda>a. if a then m else n))"
  by (rule guarded_gets_then) (use assms in \<open>auto simp: kept_def\<close>)

lemma chat_lines_guarded [guarded]: "guarded b (kept Q b auto rx k) (chat_lines E cs)"
  by (induction cs) (simp add: guarded_basic, unfold chat_lines.simps, intro guarded)

lemma group_list_guarded [guarded]: "guarded b (kept Q b auto rx k) (group_list E)"
  unfolding group_list_def by (intro guarded)

lemma proc_db_guarded: "guarded b (\<lambda>p. Q (wp_store p)) (wp_db (get_recipient_by_addr_opt E a))"
  unfolding wp_db_def
  by (rule guarded_on_field [where Q = Q]) (auto intro: guarded_of_quiet pres_reads blind safe)

lemma mention_guarded: "guarded b (\<lambda>p. Q (wp_store p)) (mention E whole num)"
  unfolding mention_def
  by (intro guarded guarded_panic proc_db_guarded) (use numbers in blast)

lemma replace_mentions_guarded: "guarded b (\<lambda>p. Q (wp_store p)) (replace_mentions E ps)"
proof (induction ps)
  case (Cons a ps)
  then show ?case
    by (simp, intro guarded mention_guarded)
qed (simp, intro guarded)

lemma media_guarded:
  "media_parts (in_content inc) \<noteq> None \<Longrightarrow> guarded b (\<lambda>p. Q (wp_store p)) (process_incoming_media inc)"
  unfolding process_incoming_media_def by (intro guarded guarded_modify) auto

lemma content_text_guarded: "guarded b (\<lambda>p. Q (wp_store p)) (content_text E L inc)"
proof -
  have "guarded b (\<lambda>p. Q (wp_store p)) (store_contact L)"
    by (rule guardedI) (simp add: store_contact_def Let_def)
  then show ?thesis
    unfolding content_text_def process_wa_text_message_def
    by (cases "in_content inc")
      (simp_all only: wa_content.case, (intro guarded replace_mentions_guarded media_guarded; simp add: media_parts_def)+)
qed

lemma quote_line_guarded: "guarded b (\<lambda>p. Q (wp_store p)) (quote_line E L inc qm)"
  unfolding quote_line_def jid_to_nick_def by (intro guarded proc_db_guarded)

lemma incoming_guarded [guarded]: "guarded b (kept Q b auto rx k) (w_proc (process_wa_incoming E L inc))"
  unfolding w_proc_def
proof (rule guarded_on_field [where Q = "\<lambda>p. Q (wp_store p)"])
  show "guarded b (\<lambda>p. Q (wp_store p)) (process_wa_incoming E L inc)"
    unfolding process_wa_incoming_def by (intro guarded content_text_guarded quote_line_guarded)
qed (auto simp: kept_def)

lemma to_jid_guarded [guarded]: "guarded b P (lift (address_to_jid E a))"
  by (rule guarded_lift) (simp add: address_to_jid_def split: option.split)

lemma error_guarded [guarded]: "guarded b (kept Q b auto rx k) (on_wa_error e)"
proof -
  have "guarded b (kept Q b auto rx k) (modify (\<lambda>s. s\<lparr>w_our_jid := None, w_connected := False\<rparr>))"
    by (rule guarded_modify) (simp add: kept_def)
  then show ?thesis
    unfolding on_wa_error_def
    by (intro guarded) (cases e; auto split: disconnect_reason.split intro!: guarded)
qed

lemma chats_guarded [guarded]: "guarded b (kept Q b auto rx k) (modify (\<lambda>s. s\<lparr>w_chats := f s\<rparr>))"
  by (rule guarded_modify) (simp add: kept_def)

lemma print_acks_guarded [guarded]: "guarded b (kept Q b auto rx k) (print_acks E L)"
  unfolding print_acks_def by (intro guarded ack_guarded) (simp add: gets_def)

end

text \<open>Then the creation of a group and the list of the messages that were seen.\<close>

locale wa_grouping = wa_reading E L Q b for E :: "('t, 'j) ext" and L Q b +
  assumes groups_and_ids: "pres Q (store_wa_msgid mid)" "pres Q (store_group E j c ps as t)"
begin

lemma db_groups [guarded]:
  "guarded b (kept Q b auto rx k) (w_db (store_wa_msgid mid))"
  "guarded b (kept Q b auto rx k) (w_db (store_group E j c ps as t))"
  by (rule db_guarded; intro groups_and_ids safe)+

lemma associate_guarded [guarded]: "guarded b (kept Q b auto rx k) (group_associate E j chan u)"
  unfolding group_associate_def by (intro guarded)

lemma associate_handler_guarded [guarded]: "guarded b (kept Q b auto rx k) (group_associate_handler E L j chan)"
  unfolding group_associate_handler_def by (intro guarded)

lemma autocreate_unbridged_guarded:
  "auto \<noteq> None \<Longrightarrow> guarded b (kept Q b auto rx k) (group_autocreate_from_unbridged E j)"
  unfolding group_autocreate_from_unbridged_def by (intro guarded autocreate_chan_guarded)

lemma message_group_guarded [guarded]: "guarded b (kept Q b auto rx k) (message_group E gido)"
  unfolding message_group_def by (intro guarded if_autocreating autocreate_unbridged_guarded)

lemma message_origin_guarded [guarded]: "guarded b (kept Q b auto rx k) (message_origin E msg)"
  unfolding message_origin_def
  by (cases "wm_direction msg") (auto split: peer.split intro!: guarded)

end

text \<open>
  And a property that all store operations of the manager keep, by which (under \<open>b\<close>) the JIDs of the
  stored groups can be parsed.
\<close>

locale wa_kept = wa_grouping E L Q b for E :: "('t, 'j) ext" and L Q b +
  assumes writes: "pres Q (store_wa_message E a txt gt ts)"
      "pres Q (store_wa_recipient E a n ntf src)" "pres Q (update_group E j ps as t)"
      "pres Q (delete_group_with_id i)" "pres Q (update_recipient_notify E a ntf)"
      "pres Q (store_wa_persistence p)"
    and group_jid: "b \<Longrightarrow> Q d \<Longrightarrow> g \<in> set (groups d) \<Longrightarrow> jid_parse E (g_jid g) \<noteq> None"
begin

lemma db_writes [guarded]:
  "guarded b (kept Q b auto rx k) (w_db (store_wa_message E a txt gt ts))"
  "guarded b (kept Q b auto rx k) (w_db (store_wa_recipient E a n ntf src))"
  "guarded b (kept Q b auto rx k) (w_db (update_group E j ps as t))"
  "guarded b (kept Q b auto rx k) (w_db (delete_group_with_id i))"
  "guarded b (kept Q b auto rx k) (w_db (update_recipient_notify E a ntf))"
  "guarded b (kept Q b auto rx k) (w_db (store_wa_persistence p))"
  by (rule db_guarded; intro writes safe)+

text \<open>Handlers.\<close>

lemma recipient_guarded [guarded]: "guarded b (kept Q b auto rx k) (get_wa_recipient E j)"
  unfolding get_wa_recipient_def by (intro guarded)

lemma store_message_guarded [guarded]: "guarded b (kept Q b auto rx k) (store_message E fr txt grp ts)"
  unfolding store_message_def by (intro guarded)

lemma send_message_guarded [guarded]: "guarded b (kept Q b auto rx k) (send_message E L c j)"
  unfolding send_message_def by (intro guarded guarded_modify) (simp add: kept_def)

lemma send_or_queue_guarded [guarded]: "guarded b (kept Q b auto rx k) (send_or_queue E L c j)"
  unfolding send_or_queue_def queue_message_def by (intro guarded)

lemma send_direct_guarded [guarded]: "guarded b (kept Q b auto rx k) (send_direct_message E L a c)"
  unfolding send_direct_message_def by (intro guarded)

lemma send_group_guarded [guarded]: "guarded b (kept Q b auto rx k) (send_group_message E L chan c)"
  unfolding send_group_message_def
proof (rule guarded_and_then_post
    [where R = "\<lambda>go s. b \<longrightarrow> (\<forall>g. go = Some g \<longrightarrow> jid_parse E (g_jid g) \<noteq> None)"], intro guarded)
  fix s s' :: "('t, 'j) wa_manager" and go
  assume "kept Q b auto rx k s" "w_db (get_group_by_chan_opt chan) s = (Ok go, s')"
  then show "b \<longrightarrow> (\<forall>g. go = Some g \<longrightarrow> jid_parse E (g_jid g) \<noteq> None)"
    using by_chan_found group_jid unfolding kept_def by blast
next
  fix go and s :: "('t, 'j) wa_manager"
  assume s: "kept Q b auto rx k s" "b \<longrightarrow> (\<forall>g. go = Some g \<longrightarrow> jid_parse E (g_jid g) \<noteq> None)"
  have "guarded b (kept Q b auto rx k) (case go of
         Some grp \<Rightarrow>
           (case jid_parse E (g_jid grp) of
              None \<Rightarrow> panic
            | Some jid \<Rightarrow> send_or_queue E L (WaText c) jid)
       | None \<Rightarrow> ret ())" (is "guarded _ _ ?m")
    using s(2) by (intro guarded guarded_panic) auto
  from guarded_at [OF s(1) this] show "kept Q b auto rx k (snd (?m s)) \<and> (b \<longrightarrow> fst (?m s) \<noteq> Panic)" .
qed

text \<open>Groups.\<close>

lemma participants_guarded [guarded]:
  "guarded b (kept Q b auto rx k) (participant_ids E ps)" "guarded b (kept Q b auto rx k) (participant_nicks E js)"
proof -
  show "guarded b (kept Q b auto rx k) (participant_ids E ps)"
    by (induction ps) (simp_all, intro guarded, intro guarded)
  show "guarded b (kept Q b auto rx k) (participant_nicks E js)"
    by (induction js) (simp_all, intro guarded, intro guarded)
qed

lemma metadata_rest_guarded [guarded]: "guarded b (kept Q b auto rx k) (metadata_rest E grp)"
  unfolding metadata_rest_def by (intro guarded)

lemma got_metadata_guarded [guarded]: "guarded b (kept Q b auto rx k) (on_got_group_metadata E L grp)"
proof -
  have "guarded b (kept Q b auto rx k) (metadata_create (Suc 0) E L grp)" if "auto \<noteq> None"
    unfolding metadata_create_def
  proof (rule guarded_and_then [OF autocreate_chan_guarded [OF that]])
    fix chan
    show "guarded b (kept Q b auto rx k) (and_then (group_associate E (gm_id grp) chan False) (\<lambda>i.
      then_do (got_group_metadata (Suc 0) E L grp) (ret (i, chan))))"
    proof (rule guarded_and_then_post [where R = "\<lambda>i. group_known E (gm_id grp)"], intro guarded)
      fix i and s :: "('t, 'j) wa_manager"
      assume s: "kept Q b auto rx k s" "group_known E (gm_id grp) s"
      have "guarded b (kept Q b auto rx k) (then_do (then_do (w_db (get_group_by_jid_opt E (gm_id grp)))
          (metadata_rest E grp)) (ret (i, chan)))"
        by (intro guarded)
      from guarded_at [OF s(1) this]
      show "kept Q b auto rx k (snd (then_do (got_group_metadata (Suc 0) E L grp) (ret (i, chan)) s)) \<and>
         (b \<longrightarrow> fst (then_do (got_group_metadata (Suc 0) E L grp) (ret (i, chan)) s) \<noteq> Panic)"
        using got_metadata_known [OF s(2)] by (simp add: then_do_def and_then_def)
    qed (rule associate_stores)
  qed
  then show ?thesis
    unfolding on_got_group_metadata_def numeral_2_eq_2 got_metadata_Suc [of "Suc 0"]
    by (intro guarded if_autocreating)
qed

lemma autocreate_guarded: "auto \<noteq> None \<Longrightarrow> guarded b (kept Q b auto rx k) (group_autocreate E L meta)"
  unfolding group_autocreate_def by (intro guarded autocreate_chan_guarded)

lemma group_commands_guarded [guarded]:
  "guarded b (kept Q b auto rx k) (group_update_all E)" "guarded b (kept Q b auto rx k) (group_remove chan)"
proof -
  show "guarded b (kept Q b auto rx k) (group_update_all E)"
    unfolding group_update_all_def by (intro guarded)
  show "guarded b (kept Q b auto rx k) (group_remove chan)"
    unfolding group_remove_def by (intro guarded)
qed

text \<open>Messages and events.\<close>

lemma deliver_guarded [guarded]: "guarded b (kept Q b auto rx k) (deliver E L msg fr grp)"
  unfolding deliver_def by (intro guarded)

lemma on_message_guarded [guarded]: "guarded b (kept Q b auto rx k) (on_message E L msg is_new)"
  unfolding on_message_def already_seen_def by (intro guarded)

lemma media_finished_guarded [guarded]: "guarded b (kept Q b auto rx k) (media_finished E r)"
  unfolding media_finished_def by (intro guarded)

lemma contact_change_guarded [guarded]: "guarded b (kept Q b auto rx k) (on_contact_change E ct)"
  unfolding on_contact_change_def by (intro guarded guarded_modify) (simp add: kept_def)

lemma small_handlers_guarded [guarded]:
  "guarded b (kept Q b auto rx k) (presence_change E jid un ts)"
  "guarded b (kept Q b auto rx k) (group_subject_change E jid subj ind)"
  "guarded b (kept Q b auto rx k) (group_participants_change E jid ch ind' ps)"
  "guarded b (kept Q b auto rx k) (touch_recipient E jid)"
  "guarded b (kept Q b auto rx k) (on_qr saved)"
  "guarded b (kept Q b auto rx k) (warn_other_number jid)"
  unfolding presence_change_def group_subject_change_def group_participants_change_def
    touch_recipient_def on_qr_def warn_other_number_def
  by (intro guarded)+

lemma intro_guarded:
  "guarded b (kept Q b auto rx k) (and_then (gets (\<lambda>s. w_autocreate s \<noteq> None)) (\<lambda>a.
     if new \<and> a then group_autocreate_from_intro E L meta else ret ()))"
proof (cases new)
  case True
  then show ?thesis
    unfolding group_autocreate_from_intro_def
    by (simp only: simp_thms) (intro if_autocreating guarded autocreate_guarded)
next
  case False
  then show ?thesis by (simp only: simp_thms if_False) (intro guarded)
qed

lemma established_guarded [guarded]: "guarded b (kept Q b auto rx k) (on_established E L jid ps)"
proof -
  have "guarded b (kept Q b auto rx k) (w_ack (\<lambda>t. (let (ms, t') = extract_unsent E t in (Ok ms, t'))))"
    by (rule ack_guarded) (simp add: extract_unsent_def)
  then show ?thesis
    unfolding on_established_def by (intro guarded guarded_modify) (auto simp: kept_def)
qed

lemma event_guarded [guarded]: "guarded b (kept Q b auto rx k) (on_wa_event E L ev)"
proof (cases ev)
  case (GroupMetadata res)
  then show ?thesis unfolding on_wa_event_def by (cases res) (auto intro: guarded)
qed (simp_all only: on_wa_event_def wa_event.case, (intro guarded intro_guarded)+)

lemma command_guarded [guarded]: "guarded b (kept Q b auto rx k) (handle_int_rx E L c)"
proof -
  have "guarded b (kept Q b auto rx k) logon_if_saved" "guarded b (kept Q b auto rx k) start_registration"
    "guarded b (kept Q b auto rx k) (wa_make_contact E a)" "guarded b (kept Q b auto rx k) (subscribe_presence E a)" for a
    unfolding logon_if_saved_def start_registration_def wa_make_contact_def subscribe_presence_def
    by (intro guarded)+
  then show ?thesis
    unfolding handle_int_rx_def
    by (cases c) (simp_all only: whatsapp_command.case, (intro guarded)+)
qed

text \<open>The poll.\<close>

lemma link_poll:
  assumes "kept Q b auto rx k s" and "w_link web_poll s = (r, s')"
  shows "kept Q b auto rx k s' \<and> (b \<longrightarrow> r \<noteq> Panic) \<and> (\<forall>e. r = Ok (Some e) \<longrightarrow> 0 < k \<and> kept Q b auto rx (k - 1) s')"
proof -
  let ?c = "(w_conn s)\<lparr>wc_now := w_now s\<rparr>"
  obtain c where c: "web_poll ?c = (r, c)" "s' = s\<lparr>w_conn := c\<rparr>"
    using assms(2) by (auto simp: w_link_def on_field_def split: prod.splits)
  have "answers_left ?c = answers_left (w_conn s)" by (simp add: answers_left_def)
  moreover have "web_frame ?c c" using web_poll_frame [of ?c] c(1) by simp
  moreover have "b \<longrightarrow> r \<noteq> Panic"
    using web_poll_no_panic [of ?c] c(1) assms(1) by (auto simp: kept_def)
  moreover have "r = Ok (Some e) \<longrightarrow> answers_left c < answers_left ?c" for e
    using web_poll_less [of ?c e c] c(1) by blast
  ultimately show ?thesis
    using assms(1) c(2) by (fastforce simp: kept_def web_frame_def)
qed

lemma kept_mono: "kept Q b auto rx k s \<Longrightarrow> k \<le> k' \<Longrightarrow> kept Q b auto rx k' s"
  by (simp add: kept_def)

lemma drain_guarded: "k < n \<Longrightarrow> guarded b (kept Q b auto rx k) (drain_conn n E L)"
proof (induction n arbitrary: k)
  case (Suc n)
  show ?case
  proof (rule guardedI)
    fix s :: "('t, 'j) wa_manager" assume s: "kept Q b auto rx k s"
    obtain r s1 where r: "w_link web_poll s = (r, s1)" by (cases "w_link web_poll s")
    note step = link_poll [OF s r]
    show "kept Q b auto rx k (snd (drain_conn (Suc n) E L s)) \<and> (b \<longrightarrow> fst (drain_conn (Suc n) E L s) \<noteq> Panic)"
    proof (cases "\<exists>e. r = Ok (Some e)")
      case False
      then show ?thesis using step r by (cases r) (auto simp: and_then_def ret_def)
    next
      case True
      then obtain e where e: "r = Ok (Some e)" by blast
      with step Suc.prems have less: "k - 1 < n" "kept Q b auto rx (k - 1) s1" by auto
      have g: "guarded b (kept Q b auto rx (k - 1))
          (then_do (case e of Inr ev \<Rightarrow> on_wa_event E L ev | Inl er \<Rightarrow> on_wa_error er) (drain_conn n E L))"
        (is "guarded _ _ ?m")
        by (intro guarded Suc.IH less)
      have "drain_conn (Suc n) E L s = ?m s1" using r e by (simp add: and_then_def)
      with guarded_at [OF less(2) g] show ?thesis using kept_mono [of auto rx "k - 1" "snd (?m s1)" k] by simp
    qed
  qed
qed simp

lemma poll_conn_guarded [guarded]: "guarded b (kept Q b auto rx k) (poll_conn E L)"
proof (rule guardedI)
  fix s :: "('t, 'j) wa_manager" assume s: "kept Q b auto rx k s"
  let ?k = "answers_left (w_conn s)"
  have "kept Q b auto rx ?k s" "?k \<le> k" using s by (simp_all add: kept_def)
  then show "kept Q b auto rx k (snd (poll_conn E L s)) \<and> (b \<longrightarrow> fst (poll_conn E L s) \<noteq> Panic)"
    using guarded_at [OF _ drain_guarded [of ?k "Suc ?k"]] kept_mono unfolding poll_conn_def by blast
qed

lemma send_requests_guarded:
  "kept Q b auto rx k s \<Longrightarrow> is_connected (w_conn s) \<Longrightarrow>
   kept Q b auto rx k (snd (send_requests rs s)) \<and> (b \<longrightarrow> fst (send_requests rs s) \<noteq> Panic)"
proof (induction rs arbitrary: s)
  case Nil
  then show ?case by (simp add: ret_def)
next
  case (Cons r rs)
  let ?s = "s\<lparr>w_outbox := rs\<rparr>"
  obtain o' c where c: "web_start_send r ((w_conn ?s)\<lparr>wc_now := w_now ?s\<rparr>) = (o', c)"
    by (cases "web_start_send r ((w_conn ?s)\<lparr>wc_now := w_now ?s\<rparr>)")
  let ?s1 = "?s\<lparr>w_conn := c\<rparr>"
  have "kept Q b auto rx k ?s1 \<and> (\<exists>x. o' = Ok x \<and> (\<forall>y. x = Inr y \<longrightarrow> is_connected (w_conn ?s1)))"
    using c Cons.prems
    by (auto simp: web_start_send_def is_connected_def kept_def answers_left_def backoff_def
        split: list.splits wa_send_answer.splits if_splits)
  then obtain x where x: "o' = Ok x" "kept Q b auto rx k ?s1" "\<And>y. x = Inr y \<Longrightarrow> is_connected (w_conn ?s1)"
    by blast
  have "send_requests (r # rs) s = (case x of Inl e \<Rightarrow> on_wa_error e | Inr _ \<Rightarrow> send_requests rs) ?s1"
    using c x(1) by (simp add: w_link_def on_field_def and_then_def)
  then show ?case
    using Cons.IH [OF x(2) x(3)] guarded_at [OF x(2) error_guarded] by (cases x) simp_all
qed

lemma flush_guarded [guarded]:
  "guarded b (kept Q b auto rx k) (flush_outbox :: (('t, 'j) wa_manager, unit) comp)"
proof -
  have send: "guarded b (kept Q b auto rx k) (and_then (gets (\<lambda>s. is_connected (w_conn s))) (\<lambda>con.
      if con then send_requests reqs else modify (\<lambda>s. s\<lparr>w_outbox := []\<rparr>)))"
    for reqs :: "'j wa_request list" and rx :: "('t, 'j) whatsapp_command list"
  proof (rule guardedI)
    fix s :: "('t, 'j) wa_manager" assume s: "kept Q b auto rx k s"
    have "guarded b (kept Q b auto rx k) (modify (\<lambda>s. s\<lparr>w_outbox := []\<rparr>))"
      by (rule guarded_modify) (simp add: kept_def)
    from guarded_at [OF s this] send_requests_guarded [OF s, of reqs]
    show "kept Q b auto rx k (snd (and_then (gets (\<lambda>s. is_connected (w_conn s))) (\<lambda>con.
        if con then send_requests reqs else modify (\<lambda>s. s\<lparr>w_outbox := []\<rparr>)) s)) \<and>
      (b \<longrightarrow> fst (and_then (gets (\<lambda>s. is_connected (w_conn s))) (\<lambda>con.
        if con then send_requests reqs else modify (\<lambda>s. s\<lparr>w_outbox := []\<rparr>)) s) \<noteq> Panic)"
      by simp
  qed
  have complete: "guarded b (kept Q b auto rx k) (and_then (gets (\<lambda>s. is_connected (w_conn s))) (\<lambda>con.
      if con then w_link web_poll_complete else ret ()))"
    by (intro guardedI) (auto simp: gets_def and_then_def ret_def w_link_def on_field_def web_poll_complete_def
        is_connected_def kept_def answers_left_def split: list.split option.split)
  show ?thesis
    unfolding flush_outbox_def
    by (rule guarded_and_then, rule guarded_basic, rule guarded_rules(1), rule guarded_rules(4), rule send,
        rule guarded_basic, rule complete)
qed

text \<open>A round takes the commands, whatever they are, and leaves none.\<close>

lemma kept_any_guarded:
  assumes "\<And>rx. guarded b (kept Q b auto rx k) m"
  shows "guarded b (kept_any Q b auto k) m"
  by (rule guardedI) (use assms in \<open>auto simp: kept_any_def dest!: guardedD\<close>)

lemma commands_guarded: "guarded b (kept_any Q b auto k) (handle_commands E L)"
  unfolding handle_commands_def
  by (intro guarded kept_any_guarded guarded_modify) (auto simp: kept_any_def kept_def)

lemma round_guarded: "guarded b (kept_any Q b auto k) (wa_round E L)"
  unfolding wa_round_def by (intro guarded commands_guarded kept_any_guarded)

lemma kept_rx: "guarded b (kept Q b auto rx k) m \<Longrightarrow> kept Q b auto rx k s \<Longrightarrow> w_rx (snd (m s)) = rx"
  using guardedD [of b "kept Q b auto rx k" m s] by (simp add: kept_def)

lemma handle_commands_rx:
  assumes "kept_any Q b auto k s" and "handle_commands E L s = (Ok cont, s')"
  shows "w_rx s' = [] \<and> cont = (w_rx s \<noteq> [])"
proof -
  let ?s = "s\<lparr>w_rx := []\<rparr>" and ?m = "for_each (w_rx s) (handle_int_rx E L)"
  have "kept Q b auto [] k ?s" using assms(1) by (auto simp: kept_any_def kept_def)
  then have "w_rx (snd (?m ?s)) = []" by (intro kept_rx [of auto "[]" k]) (intro guarded)
  then show ?thesis
    using assms(2)
    by (auto simp: handle_commands_def then_do_def and_then_def gets_def modify_def ret_def
        split: prod.splits outcome.splits)
qed

lemma round_rx:
  assumes "kept_any Q b auto k s" and "wa_round E L s = (Ok cont, s')"
  shows "w_rx s' = [] \<and> cont = (w_rx s \<noteq> [])"
proof -
  from assms(2) obtain u s1 s2 v where s1: "poll_conn E L s = (Ok u, s1)"
    and s2: "handle_commands E L s1 = (Ok cont, s2)" and s3: "flush_outbox s2 = (Ok v, s')"
    unfolding wa_round_def by (auto simp: ret_def elim!: and_then_OkE then_do_OkE)
  obtain rx where rx: "kept Q b auto rx k s" using assms(1) by (auto simp: kept_any_def)
  have "w_rx s1 = w_rx s"
    using kept_rx [OF poll_conn_guarded rx] s1 rx by (simp add: kept_def)
  moreover have k1: "kept_any Q b auto k s1"
    using guardedD [OF kept_any_guarded [OF poll_conn_guarded] assms(1)] s1 by simp
  moreover note handle_commands_rx [OF k1 s2]
  moreover have "kept_any Q b auto k s2"
    using guardedD [OF commands_guarded k1] s2 by simp
  then obtain rx2 where "kept Q b auto rx2 k s2" by (auto simp: kept_any_def)
  then have "w_rx s' = w_rx s2" using kept_rx [OF flush_guarded, of auto rx2 k s2] s3 by (simp add: kept_def)
  ultimately show ?thesis by simp
qed

text \<open>So two rounds are enough, and any more would change nothing.\<close>

lemma rounds_enough:
  assumes "kept_any Q b auto k s"
  shows "wa_rounds (Suc (Suc n)) E L s = wa_rounds 2 E L s" and
    "kept_any Q b auto k (snd (wa_rounds 2 E L s)) \<and> (b \<longrightarrow> fst (wa_rounds 2 E L s) \<noteq> Panic)"
proof -
  obtain r s1 where r: "wa_round E L s = (r, s1)" by (cases "wa_round E L s")
  have k1: "kept_any Q b auto k s1" "b \<longrightarrow> r \<noteq> Panic" using guardedD [OF round_guarded assms] r by auto
  obtain r2 s2 where r2: "wa_round E L s1 = (r2, s2)" by (cases "wa_round E L s1")
  have k2: "kept_any Q b auto k s2" "b \<longrightarrow> r2 \<noteq> Panic" using guardedD [OF round_guarded k1(1)] r2 by auto
  have stop: "r2 \<noteq> Ok True" if "r = Ok c" for c
    using round_rx [OF k1(1), of True s2] round_rx [OF assms, of c s1] r r2 that by auto
  show "wa_rounds (Suc (Suc n)) E L s = wa_rounds 2 E L s"
    using r r2 stop by (cases r; cases r2) (auto simp: numeral_2_eq_2 and_then_def)
  show "kept_any Q b auto k (snd (wa_rounds 2 E L s)) \<and> (b \<longrightarrow> fst (wa_rounds 2 E L s) \<noteq> Panic)"
    using r r2 stop k1 k2 by (cases r; cases r2) (auto simp: numeral_2_eq_2 and_then_def ret_def)
qed

lemma ack_poll_quiet: "fst (ack_ticks E as t) \<noteq> Panic"
  by (induction as arbitrary: t) (auto split: timer_answer.split)

lemma poll_guarded: "guarded b (kept_any Q b auto k) (wa_poll E L)"
proof -
  have "guarded b (kept_any Q b auto k) (wa_rounds 2 E L)"
    by (rule guardedI) (rule rounds_enough)
  moreover have "guarded b (kept_any Q b auto k) (w_ack (ack_poll E))"
    by (intro kept_any_guarded ack_guarded) (simp add: ack_poll_def ack_poll_quiet)
  ultimately show ?thesis unfolding wa_poll_def by (intro guarded)
qed

end

section \<open>The properties that are kept\<close>

lemmas db_write_defs =
  store_wa_msgid_def store_wa_message_def store_wa_recipient_def store_group_def update_group_def
  delete_group_with_id_def update_recipient_notify_def update_recipients_def store_wa_persistence_def
  insert_message_def insert_recipient_def

text \<open>The integrity of the database.\<close>

interpretation wa_db: wa_kept E L db_inv False for E :: "('t, 'j) ext" and L
  by unfold_locales (simp_all add: pres)

text \<open>An identifier of a message that was seen stays among them.\<close>

interpretation wa_ids: wa_kept E L "\<lambda>d. mid \<in> set (wa_msgids d)" False for E :: "('t, 'j) ext" and L mid
  by unfold_locales
    (auto simp: fault_blind_def pres_def db_write_defs with_conn_def modify_def Let_def
      split: list.splits option.splits)

text \<open>Queries, new groups and identifiers leave the stored messages alone.\<close>

interpretation wa_msgs: wa_grouping E L "\<lambda>d. messages d = ms" False for E :: "('t, 'j) ext" and L ms
  by unfold_locales
    (auto simp: fault_blind_def pres_def db_write_defs with_conn_def modify_def Let_def
      split: list.splits option.splits)

text \<open>
  The JIDs of the stored groups can be parsed, when the library reads back what it prints; and when it
  reads every number the model is free of panics.
\<close>

definition jids_parse :: "('t, 'j) ext \<Rightarrow> db \<Rightarrow> bool" where
  "jids_parse E d \<longleftrightarrow> list_all (\<lambda>g. jid_parse E (g_jid g) \<noteq> None) (groups d)"

definition numbers_parse :: "('t, 'j) ext \<Rightarrow> bool" where
  "numbers_parse E \<longleftrightarrow> (\<forall>s. addr_parse E s \<noteq> None)"

lemma wa_jids:
  assumes "jid_ok E" and "numbers_parse E"
  shows "wa_kept E (jids_parse E) True"
  using assms
  by unfold_locales
    (auto simp: fault_blind_def pres_def db_write_defs with_conn_def modify_def Let_def jids_parse_def
      list_all_iff jid_ok_def numbers_parse_def split: list.splits option.splits)

end
