(* ===== verification/Whatsapp_Properties.thy ===== *)
theory Whatsapp_Properties
  imports Whatsapp_Facts Instance
begin

text \<open>The properties of the WhatsApp manager, each with a witness on the example interface.\<close>

section \<open>Helpers\<close>


lemma kept_any_start:
  "Q (w_store s) \<Longrightarrow> (b \<longrightarrow> StreamEnded \<notin> set (wc_stream (w_conn s))) \<Longrightarrow>
   kept_any Q b (w_autocreate s) (answers_left (w_conn s)) s"
  by (auto simp: kept_any_def kept_def)

section \<open>Safety\<close>


text \<open>
  Whatever the WhatsApp manager does in a poll, failing and panicking polls included, the integrity
  of the database is kept.
\<close>
theorem wa_poll_keeps_integrity:
  assumes "db_inv (w_store s)"
  shows "db_inv (w_store (snd (wa_poll E L s)))"
  using guardedD [OF wa_db.poll_guarded kept_any_start [where Q = db_inv and b = False and s = s]] assms
  by (auto simp: kept_any_def kept_def)

section \<open>Incoming messages\<close>







section \<open>Nicks\<close>

lemma get_nick_facts:
  assumes "get_nick_for_jid E jid s = (Ok (nick, src), s')"
  shows "s' = s \<and> valid_nick nick \<and> src \<in> {NICKSRC_WA_CONTACT, NICKSRC_WA_NOTIFY, NICKSRC_AUTO}"
  using assms
  by (auto simp: get_nick_for_jid_def gets_def ret_def lift_def err_def make_nick_for_address_def
      valid_nick_string_to_irc_nick elim!: and_then_OkE split: option.splits)

lemma recipient_row:
  assumes "get_wa_recipient E jid s = (Ok r, s')" and "jid_to_address E jid = Ok (Some a)"
  shows "r \<in> set (recipients (w_store s')) \<and> r_phone_number r = normalize_address E a \<and>
    set (w_cf_tx s') \<subseteq> set (w_cf_tx s) \<union> {SetupContact a} \<and> w_autoupdate_nicks s' = w_autoupdate_nicks s"
  using assms
  by (auto simp: get_wa_recipient_def gets_def ret_def lift_def w_db_def on_field_def with_conn_def
      get_recipient_by_addr_opt_def store_wa_recipient_def insert_recipient_def Let_def w_cf_send_def modify_def
      elim!: and_then_OkE then_do_OkE split: option.splits list.splits if_splits prod.splits
      dest!: first_opt_Some get_nick_facts)

lemma notify_row:
  assumes "w_db (update_recipient_notify E a n) s = (r, s')" and "x \<in> set (recipients (w_store s))"
  shows "w_cf_tx s' = w_cf_tx s \<and> w_autoupdate_nicks s' = w_autoupdate_nicks s \<and>
    (\<exists>y \<in> set (recipients (w_store s')). r_phone_number y = r_phone_number x \<and> r_nick y = r_nick x \<and>
       r_nicksrc y = r_nicksrc x)"
proof -
  define g where "g = (\<lambda>r :: recipient. if r_phone_number r = normalize_address E a then r\<lparr>r_notify := n\<rparr> else r)"
  have s': "w_cf_tx s' = w_cf_tx s" "w_autoupdate_nicks s' = w_autoupdate_nicks s"
    "recipients (w_store s') = recipients (w_store s) \<or> recipients (w_store s') = map g (recipients (w_store s))"
    using assms(1) unfolding g_def
    by (auto simp: w_db_def on_field_def update_recipient_notify_def update_recipients_def with_conn_def
        modify_def split: list.splits if_splits prod.splits)
  from s'(3) have "x \<in> set (recipients (w_store s')) \<or> g x \<in> set (recipients (w_store s'))"
    using assms(2) by auto
  moreover have "r_phone_number (g x) = r_phone_number x" "r_nick (g x) = r_nick x" "r_nicksrc (g x) = r_nicksrc x"
    by (simp_all add: g_def)
  ultimately show ?thesis using s'(1,2) by auto
qed

lemma should_update_kinds: "should_update old new \<Longrightarrow> old \<notin> {NICKSRC_USER, NICKSRC_COLLISION}"
  by (auto simp: should_update_def nicksrc_defs split: if_splits)

text \<open>The steps of a change of a contact that sends a command to it.\<close>

lemma contact_change_steps:
  assumes "on_contact_change E ct s = (Ok (), s')" and "w_cf_tx s' \<noteq> w_cf_tx s"
  obtains addr recip s2 nick src s3 where "jid_to_address E (ct_jid ct) = Ok (Some addr)"
    and "get_wa_recipient E (ct_jid ct) (s\<lparr>w_contacts := hm_insert (ct_jid ct) ct (w_contacts s)\<rparr>) = (Ok recip, s2)"
    and "get_nick_for_jid E (ct_jid ct) s2 = (Ok (nick, src), s3)"
    and "then_do (if notify_of (ct_jid ct) s3 \<noteq> None
        then w_db (update_recipient_notify E addr (notify_of (ct_jid ct) s3)) else ret ())
      (and_then (gets w_autoupdate_nicks) (\<lambda>auto.
        if r_nick recip \<noteq> nick \<and> should_update (r_nicksrc recip) src \<and> auto
        then w_cf_send (ForwardCommand addr (ChangeNick nick src))
        else ret ())) s3 = (Ok (), s')"
proof -
  let ?j = "ct_jid ct"
  from assms obtain addr where addr: "jid_to_address E ?j = Ok (Some addr)"
    and body: "and_then (get_wa_recipient E ?j) (\<lambda>recip.
               and_then (get_nick_for_jid E ?j) (\<lambda>(new_nick, newsrc).
               and_then (gets (notify_of ?j)) (\<lambda>notify.
               then_do (if notify \<noteq> None then w_db (update_recipient_notify E addr notify) else ret ())
               (and_then (gets w_autoupdate_nicks) (\<lambda>auto.
                 if r_nick recip \<noteq> new_nick \<and> should_update (r_nicksrc recip) newsrc \<and> auto
                 then w_cf_send (ForwardCommand addr (ChangeNick new_nick newsrc))
                 else ret ()))))) (s\<lparr>w_contacts := hm_insert ?j ct (w_contacts s)\<rparr>) = (Ok (), s')"
    unfolding on_contact_change_def Let_def
    by (auto simp: ret_def lift_def elim!: and_then_OkE split: if_splits option.splits)
  from body obtain recip s2 nick src s3
    where "get_wa_recipient E ?j (s\<lparr>w_contacts := hm_insert ?j ct (w_contacts s)\<rparr>) = (Ok recip, s2)"
    and "get_nick_for_jid E ?j s2 = (Ok (nick, src), s3)"
    and "then_do (if notify_of ?j s3 \<noteq> None then w_db (update_recipient_notify E addr (notify_of ?j s3)) else ret ())
      (and_then (gets w_autoupdate_nicks) (\<lambda>auto.
        if r_nick recip \<noteq> nick \<and> should_update (r_nicksrc recip) src \<and> auto
        then w_cf_send (ForwardCommand addr (ChangeNick nick src))
        else ret ())) s3 = (Ok (), s')"
    by (auto simp: gets_def elim!: and_then_OkE)
  with addr show thesis by (rule that)
qed

text \<open>
  C37: A change of a contact renames its ghost only when nicks are updated automatically and the nick is
  new, and never when the user chose the nick or a collision did; the new nick is a legal one.
\<close>
theorem chosen_nicks_are_kept:
  assumes run: "on_contact_change E ct s = (Ok (), s')"
    and cmd: "ForwardCommand a c \<in> set (w_cf_tx s')" "ForwardCommand a c \<notin> set (w_cf_tx s)"
  shows "\<exists>nick src recip. c = ChangeNick nick src \<and> valid_nick nick \<and> w_autoupdate_nicks s \<and>
    recip \<in> set (recipients (w_store s')) \<and> r_phone_number recip = normalize_address E a \<and>
    r_nick recip \<noteq> nick \<and> r_nicksrc recip \<notin> {NICKSRC_USER, NICKSRC_COLLISION}"
proof -
  let ?j = "ct_jid ct"
  have "w_cf_tx s' \<noteq> w_cf_tx s" using cmd by auto
  from contact_change_steps [OF run this] obtain addr recip s2 nick src s3
    where addr: "jid_to_address E ?j = Ok (Some addr)"
    and s2: "get_wa_recipient E ?j (s\<lparr>w_contacts := hm_insert ?j ct (w_contacts s)\<rparr>) = (Ok recip, s2)"
    and nk: "get_nick_for_jid E ?j s2 = (Ok (nick, src), s3)"
    and rest: "then_do (if notify_of ?j s3 \<noteq> None
        then w_db (update_recipient_notify E addr (notify_of ?j s3)) else ret ())
      (and_then (gets w_autoupdate_nicks) (\<lambda>auto.
        if r_nick recip \<noteq> nick \<and> should_update (r_nicksrc recip) src \<and> auto
        then w_cf_send (ForwardCommand addr (ChangeNick nick src))
        else ret ())) s3 = (Ok (), s')" .
  note row = recipient_row [OF s2 addr]
  have nick: "s3 = s2" "valid_nick nick" using get_nick_facts [OF nk] by auto
  from rest obtain s4 where s4: "w_cf_tx s4 = w_cf_tx s3 \<and> w_autoupdate_nicks s4 = w_autoupdate_nicks s3 \<and>
    (\<exists>y \<in> set (recipients (w_store s4)). r_phone_number y = r_phone_number recip \<and> r_nick y = r_nick recip \<and>
       r_nicksrc y = r_nicksrc recip)"
    and last: "(if r_nick recip \<noteq> nick \<and> should_update (r_nicksrc recip) src \<and> w_autoupdate_nicks s4
                 then w_cf_send (ForwardCommand addr (ChangeNick nick src)) else ret ()) s4 = (Ok (), s')"
    using row nick(1) notify_row [of E addr "notify_of ?j s3" s3 _ _ recip]
    by (auto simp: ret_def gets_def elim!: then_do_OkE and_then_OkE split: if_splits)
  have "set (w_cf_tx s4) \<subseteq> set (w_cf_tx s) \<union> {SetupContact addr}" using s4 row nick(1) by auto
  then have old: "ForwardCommand a c \<notin> set (w_cf_tx s4)" using cmd(2) by auto
  then have upd: "r_nick recip \<noteq> nick \<and> should_update (r_nicksrc recip) src \<and> w_autoupdate_nicks s4"
    using last cmd(1) by (auto simp: ret_def split: if_splits)
  with last have "s' = s4\<lparr>w_cf_tx := w_cf_tx s4 @ [ForwardCommand addr (ChangeNick nick src)]\<rparr>"
    by (simp add: w_cf_send_def modify_def)
  then have "a = addr" "c = ChangeNick nick src" "w_store s' = w_store s4" using old cmd(1) by auto
  moreover have "w_autoupdate_nicks s" using upd s4 row nick(1) by simp
  moreover obtain y where "y \<in> set (recipients (w_store s4))" "r_phone_number y = r_phone_number recip"
    "r_nick y = r_nick recip" "r_nicksrc y = r_nicksrc recip" using s4 by blast
  ultimately show ?thesis
    using upd nick(2) row should_update_kinds [of "r_nicksrc recip" src] by auto
qed


section \<open>Messages written while offline\<close>

text \<open>What a list of requests sends, what the tracker still has to send, and that new identifiers are new.\<close>

definition sends_of :: "'j wa_request list \<Rightarrow> ('j \<times> wa_content) list" where
  "sends_of rs = concat (map (\<lambda>r. case r of WaSend j c _ \<Rightarrow> [(j, c)] | _ \<Rightarrow> []) rs)"

definition to_send :: "('t, 'j) wa_manager \<Rightarrow> ('j \<times> wa_content) list" where
  "to_send s = map (\<lambda>(mid, m). (ss_destination m, ss_content m))
     (filter (\<lambda>(mid, m). ss_unsent m) (at_out (w_ackp s)))"

definition ids_fresh :: "wa_lib \<Rightarrow> ('t, 'j) wa_manager \<Rightarrow> bool" where
  "ids_fresh L s \<longleftrightarrow> inj (gen_mid L) \<and> hm_wf (at_out (w_ackp s)) \<and>
     (\<forall>n \<ge> w_mids s. gen_mid L n \<notin> fst ` set (at_out (w_ackp s)))"

lemma update_fresh: "k \<notin> fst ` set m \<Longrightarrow> AList.update k v m = m @ [(k, v)]"
  by (induction m) auto

lemma set_update_sub: "p \<in> set (AList.update k v m) \<Longrightarrow> p = (k, v) \<or> p \<in> set m"
  by (induction m) (auto split: if_splits)

lemma mset_hm_iter:
  assumes "ord_ok ord" and "hm_wf m"
  shows "mset (hm_iter ord m) = mset m"
proof -
  have "map (\<lambda>k. (k, the (map_of m k))) (map fst m) = m"
    using assms(2) by (auto simp: hm_wf_def intro!: map_idI)
  moreover have "mset (hm_iter ord m) = mset (map (\<lambda>k. (k, the (map_of m k))) (map fst m))"
    using assms(1) by (simp only: hm_iter_def mset_map ord_ok_def)
  ultimately show ?thesis by simp
qed

text \<open>A message written offline is remembered.\<close>

lemma queued:
  assumes "\<not> online s" and "ids_fresh L s" and "jid_from_phonenumber E (addr_to_string E a) = Some j"
    and "handle_int_rx E L (SendDirectMessage a x) s = (r, s')"
  shows "r = Ok () \<and> \<not> online s' \<and> ids_fresh L s' \<and> w_outbox s' = w_outbox s \<and> to_send s' = to_send s @ [(j, WaText x)]"
proof -
  let ?mid = "gen_mid L (w_mids s)"
  have new: "?mid \<notin> fst ` set (at_out (w_ackp s))" using assms(2) by (simp add: ids_fresh_def)
  let ?m = "\<lparr>ss_ack_level = None, ss_sent_ts = w_now s, ss_content = WaText x, ss_destination = j,
      ss_unsent = True, ss_alerted = False, ss_alerted_pending = False\<rparr>"
  have r: "r = Ok ()" and s': "w_mids s' = Suc (w_mids s)" "w_conn s' = w_conn s" "w_connected s' = w_connected s"
      "w_outbox s' = w_outbox s" "at_out (w_ackp s') = hm_insert ?mid ?m (at_out (w_ackp s))"
    using assms(1,3,4)
    by (auto simp: handle_int_rx_def send_direct_message_def send_or_queue_def queue_message_def gen_id_def
        w_ack_def on_field_def modify_def cb_send_def and_then_def then_do_def gets_def ret_def
        register_send_def split: if_splits)
  have out: "at_out (w_ackp s') = at_out (w_ackp s) @ [(?mid, ?m)]"
    using s'(5) update_fresh [OF new] by simp
  have "gen_mid L n \<noteq> ?mid" if "n \<ge> Suc (w_mids s)" for n
    using that assms(2) by (auto simp: ids_fresh_def dest: injD)
  then have "ids_fresh L s'"
    using assms(2) s'(1) out new by (auto simp: ids_fresh_def hm_wf_def)
  then show ?thesis
    using r s'(2-4) out assms(1) by (simp add: to_send_def online_def)
qed

lemma all_queued:
  assumes "\<forall>(a, x) \<in> set ds. jid_from_phonenumber E (addr_to_string E a) \<noteq> None"
    and "\<not> online s" and "ids_fresh L s"
    and "for_each ds (\<lambda>(a, x). handle_int_rx E L (SendDirectMessage a x)) s = (r, s')"
  shows "ids_fresh L s' \<and> w_outbox s' = w_outbox s \<and>
    to_send s' = to_send s @ map (\<lambda>(a, x). (the (jid_from_phonenumber E (addr_to_string E a)), WaText x)) ds"
  using assms
proof (induction ds arbitrary: s)
  case (Cons d ds)
  obtain a x where d: "d = (a, x)" by (cases d)
  then obtain j where j: "jid_from_phonenumber E (addr_to_string E a) = Some j" using Cons.prems(1) by auto
  obtain r1 s1 where s1: "handle_int_rx E L (SendDirectMessage a x) s = (r1, s1)"
    by (cases "handle_int_rx E L (SendDirectMessage a x) s")
  note q = queued [OF Cons.prems(2,3) j s1]
  have "for_each ds (\<lambda>(a, x). handle_int_rx E L (SendDirectMessage a x)) s1 = (r, s')"
    using Cons.prems(4) s1 q d by (simp add: then_do_def and_then_def)
  then show ?case using Cons.IH [of s1] Cons.prems(1) q d j by simp
qed (simp add: ret_def)

text \<open>When the session is established, what was remembered is sent.\<close>

lemma send_message_sends:
  assumes "send_message E L c j s = (Ok (), s')"
  shows "\<exists>reqs. w_outbox s' = w_outbox s @ reqs \<and> sends_of reqs = [(j, c)] \<and> (to_send s = [] \<longrightarrow> to_send s' = [])"
proof -
  let ?mid = "gen_mid L (w_mids s)"
  let ?m = "\<lparr>ss_ack_level = None, ss_sent_ts = w_now s, ss_content = c, ss_destination = j,
      ss_unsent = False, ss_alerted = False, ss_alerted_pending = False\<rparr>"
  have s': "at_out (w_ackp s') = hm_insert ?mid ?m (at_out (w_ackp s))"
    "w_outbox s' = w_outbox s @ [WaSend j c ?mid] \<or> w_outbox s' = w_outbox s @ [WaSend j c ?mid, WaSubscribe j]"
    using assms
    by (auto simp: send_message_def gen_id_def w_db_def on_field_def w_ack_def modify_def w_request_def
        then_do_def and_then_def gets_def ret_def register_send_def split: prod.splits outcome.splits if_splits)
  have "to_send s = [] \<longrightarrow> to_send s' = []"
    using s'(1) by (auto simp: to_send_def filter_empty_conv dest!: set_update_sub)
  then show ?thesis using s'(2) by (auto simp: sends_of_def)
qed

lemma sends_append [simp]: "sends_of (xs @ ys) = sends_of xs @ sends_of ys"
  by (simp add: sends_of_def)

lemma all_sent:
  assumes "for_each ms (\<lambda>m. send_message E L (ss_content m) (ss_destination m)) s = (Ok (), s')" and "to_send s = []"
  shows "\<exists>reqs. w_outbox s' = w_outbox s @ reqs \<and> sends_of reqs = map (\<lambda>m. (ss_destination m, ss_content m)) ms \<and>
    to_send s' = []"
  using assms
proof (induction ms arbitrary: s)
  case (Cons m ms)
  then obtain u s1 where s1: "send_message E L (ss_content m) (ss_destination m) s = (Ok u, s1)"
    and rest: "for_each ms (\<lambda>m. send_message E L (ss_content m) (ss_destination m)) s1 = (Ok (), s')"
    by (auto elim: then_do_OkE)
  from send_message_sends [of E L "ss_content m" "ss_destination m" s s1] s1 obtain reqs where
    reqs: "w_outbox s1 = w_outbox s @ reqs" "sends_of reqs = [(ss_destination m, ss_content m)]" "to_send s1 = []"
    using Cons.prems(2) by auto
  from Cons.IH [OF rest reqs(3)] obtain more where "w_outbox s' = w_outbox s1 @ more"
    "sends_of more = map (\<lambda>m. (ss_destination m, ss_content m)) ms" "to_send s' = []" by blast
  then show ?case using reqs by (intro exI [of _ "reqs @ more"]) simp
qed (simp add: ret_def sends_of_def)

lemma established_sends:
  assumes "ord_ok (ord_str E)" and "hm_wf (at_out (w_ackp s))" and "on_established E L jid ps s = (Ok (), s')"
  shows "\<exists>reqs. w_outbox s' = w_outbox s @ reqs \<and> mset (sends_of reqs) = mset (to_send s) \<and>
    to_send s' = [] \<and> w_connected s'"
proof -
  let ?get = "w_ack (\<lambda>t. (let (ms, t') = extract_unsent E t in (Ok ms, t')))"
  let ?put = "modify (\<lambda>s. s\<lparr>w_prev_jid := Some jid, w_connected := True\<rparr>)"
  from assms(3) obtain u1 s1 ms s2 u3 s3 u4 s4 u5 s5 where
    w: "warn_other_number jid (s\<lparr>w_our_jid := Some jid\<rparr>) = (Ok u1, s1)" and s2: "?get s1 = (Ok ms, s2)"
    and s3': "for_each ms (\<lambda>m. send_message E L (ss_content m) (ss_destination m)) s2 = (Ok u3, s3)"
    and s4: "w_db (store_wa_persistence ps) s3 = (Ok u4, s4)"
    and s5: "w_link (modify (set_persistent (Some ps))) s4 = (Ok u5, s5)" and put: "?put s5 = (Ok (), s')"
    unfolding on_established_def by (auto elim!: then_do_OkE and_then_OkE)
  have s3: "for_each ms (\<lambda>m. send_message E L (ss_content m) (ss_destination m)) s2 = (Ok (), s3)"
    using s3' by simp
  have s1: "w_outbox s1 = w_outbox s" "at_out (w_ackp s1) = at_out (w_ackp s)"
    using w by (auto simp: warn_other_number_def gets_def and_then_def cb_send_def modify_def ret_def split: if_splits)
  have s': "w_outbox s' = w_outbox s3" "at_out (w_ackp s') = at_out (w_ackp s3)" "w_connected s'"
    using s4 s5 put by (auto simp: w_db_def w_link_def on_field_def modify_def split: prod.splits)
  let ?unsent = "\<lambda>(mid, m). ss_unsent m"
  have ms: "ms = map snd (filter ?unsent (hm_iter (ord_str E) (at_out (w_ackp s))))"
    and s2': "w_outbox s2 = w_outbox s" "at_out (w_ackp s2) = filter (\<lambda>(mid, m). \<not> ss_unsent m) (at_out (w_ackp s))"
    using s2 s1 by (auto simp: w_ack_def on_field_def extract_unsent_def)
  have "to_send s2 = []" using s2'(2) by (auto simp: to_send_def filter_empty_conv)
  from all_sent [OF s3 this] obtain reqs where reqs: "w_outbox s3 = w_outbox s2 @ reqs"
    "sends_of reqs = map (\<lambda>m. (ss_destination m, ss_content m)) ms" "to_send s3 = []" by blast
  have "mset (filter ?unsent (hm_iter (ord_str E) (at_out (w_ackp s)))) = mset (filter ?unsent (at_out (w_ackp s)))"
    using mset_hm_iter [OF assms(1,2)] by (simp only: mset_filter)
  then have "mset (map (\<lambda>(mid, m). (ss_destination m, ss_content m)) (filter ?unsent (hm_iter (ord_str E) (at_out (w_ackp s)))))
      = mset (to_send s)"
    by (simp only: mset_map to_send_def)
  moreover have "sends_of reqs = map (\<lambda>(mid, m). (ss_destination m, ss_content m))
      (filter ?unsent (hm_iter (ord_str E) (at_out (w_ackp s))))"
    using reqs(2) ms by (simp add: case_prod_beta comp_def)
  ultimately have "mset (sends_of reqs) = mset (to_send s)" by simp
  moreover have "to_send s' = []" using reqs(3) s'(2) by (simp add: to_send_def)
  ultimately show ?thesis using reqs(1) s' s2'(1) by auto
qed

text \<open>
  C35: No message written while WhatsApp is not connected is lost or sent twice: when the session is
  established, exactly the texts that were written since are requested to be sent, each to its contact.
\<close>
theorem offline_messages_are_sent:
  assumes "ord_ok (ord_str E)" and "ids_fresh L s" and "\<not> online s" and "to_send s = []"
    and "\<forall>(a, x) \<in> set ds. jid_from_phonenumber E (addr_to_string E a) \<noteq> None"
    and "for_each ds (\<lambda>(a, x). handle_int_rx E L (SendDirectMessage a x)) s = (r, s1)"
    and "on_established E L jid ps s1 = (Ok (), s2)"
  shows "\<exists>reqs. w_outbox s2 = w_outbox s @ reqs \<and> to_send s2 = [] \<and> w_connected s2 \<and>
    mset (sends_of reqs) = mset (map (\<lambda>(a, x). (the (jid_from_phonenumber E (addr_to_string E a)), WaText x)) ds)"
proof -
  note q = all_queued [OF assms(5,3,2,6)]
  then have "hm_wf (at_out (w_ackp s1))" by (simp add: ids_fresh_def)
  from established_sends [OF assms(1) this assms(7)] q assms(4) show ?thesis by auto
qed


section \<open>Acknowledgements\<close>

text \<open>
  C38: The tracker never warns more often about a message than it was registered, whatever sequence of
  sends, acknowledgements, polls and clock changes it goes through: neither about a late nor about a
  pending one.
\<close>
theorem warnings_are_not_repeated:
  assumes "ord_ok (ord_str E)" and "hm_wf (at_out t)" and "hm_get (at_out t) mid = None"
  shows "late_given mid (at_cb (ack_run E xs t)) \<le> late_given mid (at_cb t) + length (filter (registers mid) xs)
    \<and> pending_given mid (at_cb (ack_run E xs t)) \<le> pending_given mid (at_cb t) + length (filter (registers mid) xs)"
  using late.given_run [OF assms(1,2), of mid xs] pending.given_run [OF assms(1,2), of mid xs] assms(3)
  by (simp add: may_give_def)

text \<open>
  C39: A message that nobody acknowledges is reported: the first tick of the poll at which it is old
  enough and was not yet reported warns the user.
\<close>
theorem silent_messages_are_reported:
  assumes "ord_ok (ord_str E)" and "hm_get (at_out t) mid = Some m"
    and "ss_ack_level m = None" and "\<not> ss_alerted m" and "at_warn t \<le> age_ms (at_now t) m"
    and "at_timer t = TimerReady # as"
  shows "(if ss_unsent m then unsent_alert mid else late_alert mid) \<in> set (at_cb (snd (ack_poll E t)))"
proof -
  have check: "set (at_cb u) \<subseteq> set (at_cb (check_acks E u))" for u
    by (auto simp: check_acks_def)
  have "set (at_cb u) \<subseteq> set (at_cb (snd (ack_ticks E as u)))" for u as
  proof (induction as arbitrary: u)
    case (Cons a as)
    then show ?case using check [of u] Cons.IH [of "check_acks E u"] by (cases a) auto
  qed simp
  then show ?thesis
    using check_acks_reports [OF assms(1-5)] assms(6) by (fastforce simp: ack_poll_def)
qed

section \<open>Reconnecting\<close>


section \<open>Witnesses\<close>

definition ex_lib :: wa_lib where
  "ex_lib =
     \<lparr>take_caption = (\<lambda>c. case c of Image _ cap \<Rightarrow> cap | Video _ cap \<Rightarrow> cap | _ \<Rightarrow> None),
      quoted_description = (\<lambda>c. case c of WaText s \<Rightarrow> s | _ \<Rightarrow> ''...''),
      graphemes = map (\<lambda>c. [c]), re_pieces = (\<lambda>re s. [Inl s]),
      gen_mid = (\<lambda>n. replicate n (CHR ''A'')), gen_uuid = (\<lambda>n. replicate n (CHR ''0'')),
      mime_extensions = (\<lambda>m. None), sha256 = id, decrypt_media = (\<lambda>k ty bs. Inr bs),
      file_size = (\<lambda>n. Inr ''1 kB''), jid_error = (\<lambda>s. ''bad jid''), lib_error = (\<lambda>e. ''error'')\<rparr>"

definition ex_db :: db where
  "ex_db =
     \<lparr>recipients = [], messages = [], groups = [], wa_persistence = [], wa_msgids = [], next_recipient_id = 1,
      next_message_id = 1, next_group_id = 1, db_clock = 0, faults = []\<rparr>"

definition ex_conn :: "string web_conn" where
  "ex_conn =
     \<lparr>wc_inner = Running, wc_persist = None, wc_backoff_ms = 0, wc_now = 0, wc_timers = [], wc_connects = [],
      wc_stream = [StreamEvent (SessionEstablished ''49'' ''session'')], wc_sends = [], wc_flushes = [], wc_sent = []\<rparr>"

definition ex_wa :: "(8 word, string) wa_manager" where
  "ex_wa = (wa_new
     \<lparr>wc_media_path = None, wc_dl_path = None, wc_autocreate_prefix = None, wc_backlog = None,
      wc_mark_read = False, wc_autoupdate_nicks = True, wc_backoff_time_ms = None, wc_track_presence = False,
      wc_ack_warn_ms = None, wc_ack_warn_pending_ms = None, wc_ack_expiry_ms = None\<rparr> ex_db ex_conn [] 0)"

lemma ex_jid_ok [simp]: "jid_ok ex_ext" "numbers_parse ex_ext"
  by (simp_all add: jid_ok_def numbers_parse_def ex_ext_def)

lemma ex_wa_start [simp]:
  "w_store ex_wa = ex_db" "wc_stream (w_conn ex_wa) = [StreamEvent (SessionEstablished ''49'' ''session'')]"
  "jids_parse E ex_db"
  by (simp_all add: ex_wa_def wa_new_def Let_def ex_conn_def jids_parse_def ex_db_def)


theorem wa_poll_keeps_integrity_witness: "db_inv (w_store (snd (wa_poll ex_ext ex_lib ex_wa)))"
  by (rule wa_poll_keeps_integrity) (simp add: ex_db_def db_inv_def key_ok_def)



lemmas run_simps =
  comp_simps on_field_def with_conn_def w_db_def w_proc_def w_ack_def w_link_def cb_send_def w_cf_send_def w_request_def

lemma ex_address: "jid_to_address ex_ext ''49'' = Ok (Some \<lparr>type_addr = 0x91, number = [0x34, 0x39]\<rparr>)"
  by (simp add: jid_to_address_def ex_ext_def)




definition ex_known :: "(8 word, string) wa_manager" where
  "ex_known = ex_wa\<lparr>w_store := ex_db\<lparr>recipients := [\<lparr>r_id = 1,
     r_phone_number = normalize_address ex_ext \<lparr>type_addr = 0x91, number = [0x34, 0x39]\<rparr>, r_nick = ''I49'',
     r_whatsapp = True, r_avatar_url = None, r_notify = None, r_nicksrc = NICKSRC_AUTO\<rparr>]\<rparr>\<rparr>"

definition ex_contact :: "string wa_contact" where
  "ex_contact = \<lparr>ct_jid = ''49'', ct_name = Some ''Bob'', ct_notify = None\<rparr>"

lemma ex_renamed:
  "\<exists>t. on_contact_change ex_ext ex_contact ex_known = (Ok (), t) \<and> w_cf_tx ex_known = [] \<and>
     w_cf_tx t = [ForwardCommand \<lparr>type_addr = 0x91, number = [0x34, 0x39]\<rparr> (ChangeNick ''Bob'' NICKSRC_WA_CONTACT)]"
proof -
  have "string_to_irc_nick ex_ext ''Bob'' = ''Bob''"
    by (simp add: string_to_irc_nick_def ex_ext_def nick_char_def nick_symbols_def backslash_def backtick_def
        is_ascii_def char_class_defs)
  moreover have "\<not> (jid_id ex_ext ''49'' = ''status'' \<or> jid_is_group ex_ext ''49'')"
    by (simp add: ex_ext_def)
  ultimately show ?thesis
    by (simp add: on_contact_change_def ex_contact_def ex_known_def ex_wa_def wa_new_def Let_def run_simps
        ex_address get_wa_recipient_def get_recipient_by_addr_opt_def ex_db_def first_opt_def
        get_nick_for_jid_def notify_of_def should_update_def nicksrc_defs)
qed

theorem chosen_nicks_are_kept_witness:
  "\<exists>t nick. on_contact_change ex_ext ex_contact ex_known = (Ok (), t) \<and>
     ForwardCommand \<lparr>type_addr = 0x91, number = [0x34, 0x39]\<rparr> (ChangeNick nick NICKSRC_WA_CONTACT) \<in> set (w_cf_tx t) \<and>
     valid_nick nick"
proof -
  obtain t where t: "on_contact_change ex_ext ex_contact ex_known = (Ok (), t)" "w_cf_tx ex_known = []"
    "w_cf_tx t = [ForwardCommand \<lparr>type_addr = 0x91, number = [0x34, 0x39]\<rparr> (ChangeNick ''Bob'' NICKSRC_WA_CONTACT)]"
    using ex_renamed by blast
  from chosen_nicks_are_kept [OF t(1)] t show ?thesis by fastforce
qed

lemma inj_replicate: "inj (\<lambda>n. replicate n c)"
  by (rule injI) (metis length_replicate)

lemma ex_wa_offline: "ids_fresh ex_lib ex_wa" "\<not> online ex_wa" "to_send ex_wa = []"
  by (simp_all add: ids_fresh_def online_def to_send_def ex_wa_def wa_new_def Let_def ack_new_def ex_lib_def
      inj_replicate)

lemma ex_established:
  "\<exists>s1 s2. for_each [(\<lparr>type_addr = 0x91, number = [0x34]\<rparr>, ''hi'')]
      (\<lambda>(a, x). handle_int_rx ex_ext ex_lib (SendDirectMessage a x)) ex_wa = (Ok (), s1) \<and>
     on_established ex_ext ex_lib ''49'' ''session'' s1 = (Ok (), s2)"
  by (simp add: run_simps handle_int_rx_def send_direct_message_def ex_ext_def send_or_queue_def online_def
      queue_message_def gen_id_def ex_wa_def wa_new_def Let_def ex_db_def register_send_def ack_new_def is_disabled_def
      on_established_def warn_other_number_def extract_unsent_def hm_iter_def send_message_def store_wa_msgid_def
      store_wa_persistence_def ex_lib_def)

theorem offline_messages_are_sent_witness:
  "\<exists>s1 s2 reqs. for_each [(\<lparr>type_addr = 0x91, number = [0x34]\<rparr>, ''hi'')]
      (\<lambda>(a, x). handle_int_rx ex_ext ex_lib (SendDirectMessage a x)) ex_wa = (Ok (), s1) \<and>
     on_established ex_ext ex_lib ''49'' ''session'' s1 = (Ok (), s2) \<and> w_outbox s2 = reqs \<and>
     mset (sends_of reqs) = {#(''+4'', WaText ''hi'')#}"
proof -
  obtain s1 s2 where s: "for_each [(\<lparr>type_addr = 0x91, number = [0x34]\<rparr>, ''hi'')]
      (\<lambda>(a, x). handle_int_rx ex_ext ex_lib (SendDirectMessage a x)) ex_wa = (Ok (), s1)"
    "on_established ex_ext ex_lib ''49'' ''session'' s1 = (Ok (), s2)"
    using ex_established by blast
  have j: "jid_from_phonenumber ex_ext (addr_to_string ex_ext \<lparr>type_addr = 0x91, number = [0x34]\<rparr>) = Some ''+4''"
    by (simp add: ex_ext_def char_of_eq_nat)
  moreover have "w_outbox ex_wa = []" by (simp add: ex_wa_def wa_new_def Let_def)
  ultimately show ?thesis
    using offline_messages_are_sent [OF ex_ord_ok(1) ex_wa_offline _ s(1) s(2)] s by auto
qed

theorem warnings_are_not_repeated_witness:
  "late_given ''A'' (at_cb (ack_run ex_ext
     [RegisterSend ''49'' (WaText ''hi'') ''A'' False, ClockAt (6 * 10 ^ 9), PollAcks [TimerReady, TimerReady]]
     (ack_new None None None [] 0))) \<le> 1"
  using warnings_are_not_repeated [of ex_ext "ack_new None None None [] 0" "''A''"
      "[RegisterSend ''49'' (WaText ''hi'') ''A'' False, ClockAt (6 * 10 ^ 9), PollAcks [TimerReady, TimerReady]]"]
  by (simp add: ack_new_def)

definition ex_silent :: "string ack_tracker" where
  "ex_silent = (register_send ''49'' (WaText ''hi'') ''A'' False (ack_new None None None [TimerReady] 0))
     \<lparr>at_now := 6 * 10 ^ 9\<rparr>"

theorem silent_messages_are_reported_witness: "late_alert ''A'' \<in> set (at_cb (snd (ack_poll ex_ext ex_silent)))"
  using silent_messages_are_reported [of ex_ext ex_silent "''A''"
      "\<lparr>ss_ack_level = None, ss_sent_ts = 0, ss_content = WaText ''hi'', ss_destination = ''49'',
        ss_unsent = False, ss_alerted = False, ss_alerted_pending = False\<rparr>" "[]"]
  by (simp add: ex_silent_def register_send_def ack_new_def age_ms_def num_milliseconds_def word_le_def)


end
