(* ===== verification/Modem.thy ===== *)
theory Modem
  imports Wa_Lib
begin

text \<open>
  \<open>modem.rs\<close>: the manager of the GSM modem, which initialises it and starts it again after errors,
  lists and stores the messages it received, and sends others. The serial port is the environment.
\<close>

section \<open>State\<close>

text \<open>An unsolicited response (\<open>AtResponse\<close>), and what the channel of these answers when polled.\<close>

datatype at_response = InformationResponse string | OtherAtResponse

datatype urc_answer = UrcLine at_response | UrcPending | UrcEnded

text \<open>
  What becomes of the future that opens and configures the modem. The modem comes with what its
  channel of unsolicited responses will answer; an error of the configuration is only logged.
\<close>

datatype init_event =
    InitPending
  | InitTimeout
  | InitFailed error
  | InitConfigured "error option" "urc_answer list"

definition init_future :: "init_event \<Rightarrow> (error + urc_answer list) option" where
  "init_future a = (case a of
      InitPending \<Rightarrow> None
    | InitTimeout \<Rightarrow> Some (Inl (Failure ''Modem initialization timeout reached'' []))
    | InitFailed e \<Rightarrow> Some (Inl e)
    | InitConfigured _ urcs \<Rightarrow> Some (Inr urcs))"

text \<open>A delay is its deadline, an initialising future the path it opens.\<close>

datatype modem_inner =
    ModemUninitialized
  | ModemDisabled
  | ModemWaiting int
  | ModemInitializing string
  | ModemRunning "urc_answer list"

text \<open>The futures that are spawned on the event loop. A message to send is its PDUs, one for each part.\<close>

datatype 't modem_job =
    ListSms
  | DeleteSms
  | GetRegistration
  | GetSignal
  | SendSms "'t pdu_address" "8 word list list"

text \<open>
  \<open>mm_timers\<close> and \<open>mm_inits\<close> are what delays and initialisations answer, poll by poll; past their
  end nothing is ready. \<open>mm_rx\<close> is the manager's own channel, to which its futures send too.
\<close>

record 't modem_mgr =
  mm_inner :: modem_inner
  mm_store :: db
  mm_path :: "string option"
  mm_delay_ms :: nat
  mm_timeout_ms :: nat
  mm_cmd_timeout_ms :: nat
  mm_rx :: "'t modem_command list"
  mm_cf_tx :: "'t contact_factory_command list"
  mm_cb_tx :: "control_bot_command list"
  mm_jobs :: "'t modem_job list"
  mm_now :: int
  mm_timers :: "timer_answer list"
  mm_inits :: "init_event list"

record modem_config =
  mc_modem_path :: "string option"
  mc_cmgl_secs :: "nat option"
  mc_restart_delay_ms :: "nat option"
  mc_restart_timeout_ms :: "nat option"
  mc_command_timeout_ms :: "nat option"

text \<open>The functions of the modem library.\<close>

record 't modem_lib =
  encode_message :: "string \<Rightarrow> 8 word list list"
  make_simple_message :: "'t pdu_address \<Rightarrow> 8 word list \<Rightarrow> 8 word list"

definition unwrap_or :: "'a option \<Rightarrow> 'a \<Rightarrow> 'a" where
  "unwrap_or x d = (case x of None \<Rightarrow> d | Some y \<Rightarrow> y)"

text \<open>The second argument is what the environment has in store.\<close>

definition modem_new :: "modem_config \<Rightarrow> 't modem_mgr \<Rightarrow> db \<Rightarrow> 't modem_mgr" where
  "modem_new cfg env d =
     env\<lparr>mm_inner := ModemUninitialized, mm_store := d, mm_path := mc_modem_path cfg,
       mm_delay_ms := unwrap_or (mc_restart_delay_ms cfg) 5000,
       mm_timeout_ms := unwrap_or (mc_restart_timeout_ms cfg) 30000,
       mm_cmd_timeout_ms := unwrap_or (mc_command_timeout_ms cfg) 30000,
       mm_rx := mm_rx env @ [DoCmgl], mm_jobs := []\<rparr>"

text \<open>The interval timer, and how often it fires.\<close>

definition cmgl_tick :: "'t modem_mgr \<Rightarrow> 't modem_mgr" where
  "cmgl_tick s = s\<lparr>mm_rx := mm_rx s @ [DoCmgl]\<rparr>"

definition cmgl_interval :: "modem_config \<Rightarrow> nat" where
  "cmgl_interval cfg = unwrap_or (mc_cmgl_secs cfg) 30"

section \<open>The state of the modem\<close>

definition make_delay :: "nat \<Rightarrow> 't modem_mgr \<Rightarrow> modem_inner" where
  "make_delay ms s = ModemWaiting (mm_now s + int ms * 10 ^ 6)"

definition modem_report_error :: "nat \<Rightarrow> 't modem_mgr \<Rightarrow> 't modem_mgr" where
  "modem_report_error ms s = s\<lparr>mm_inner := make_delay ms s\<rparr>"

definition get_modem :: "'t modem_mgr \<Rightarrow> bool" where
  "get_modem s \<longleftrightarrow> (case mm_inner s of ModemRunning _ \<Rightarrow> True | _ \<Rightarrow> False)"

text \<open>One turn of the loop of \<open>ModemInner::poll\<close>: the result says whether the modem was just initialised.\<close>

definition modem_step :: "'t modem_mgr \<Rightarrow> (bool \<times> 't modem_mgr) + 't modem_mgr" where
  "modem_step s = (case mm_inner s of
      ModemUninitialized \<Rightarrow> (case mm_path s of
          Some path \<Rightarrow> Inr (s\<lparr>mm_inner := ModemInitializing path\<rparr>)
        | None \<Rightarrow> Inl (False, s\<lparr>mm_inner := ModemDisabled\<rparr>))
    | ModemWaiting t \<Rightarrow> (case mm_timers s of
          [] \<Rightarrow> Inl (False, s)
        | TimerReady # as \<Rightarrow> Inr (s\<lparr>mm_timers := as, mm_inner := ModemUninitialized\<rparr>)
        | TimerPending # as \<Rightarrow> Inl (False, s\<lparr>mm_timers := as\<rparr>)
        | TimerFailed # as \<Rightarrow> Inr (s\<lparr>mm_timers := as, mm_inner := make_delay (mm_delay_ms s) s\<rparr>))
    | ModemInitializing path \<Rightarrow> (case mm_inits s of
          [] \<Rightarrow> Inl (False, s)
        | a # as \<Rightarrow> (case init_future a of
            Some (Inr urcs) \<Rightarrow> Inl (True, s\<lparr>mm_inits := as, mm_inner := ModemRunning urcs\<rparr>)
          | None \<Rightarrow> Inl (False, s\<lparr>mm_inits := as\<rparr>)
          | Some (Inl e) \<Rightarrow> Inr (s\<lparr>mm_inits := as, mm_inner := make_delay (mm_delay_ms s) s\<rparr>)))
    | _ \<Rightarrow> Inl (False, s))"

text \<open>Every turn but the one that starts an initialisation takes an answer.\<close>

definition urcs_of :: "init_event \<Rightarrow> urc_answer list" where
  "urcs_of a = (case a of InitConfigured _ urcs \<Rightarrow> urcs | _ \<Rightarrow> [])"

definition urcs_running :: "modem_inner \<Rightarrow> urc_answer list" where
  "urcs_running i = (case i of ModemRunning urcs \<Rightarrow> urcs | _ \<Rightarrow> [])"

definition modem_answers :: "'t modem_mgr \<Rightarrow> nat" where
  "modem_answers s = length (mm_timers s) + sum_list (map (\<lambda>a. Suc (length (urcs_of a))) (mm_inits s))
     + length (urcs_running (mm_inner s))"

definition modem_weight :: "'t modem_mgr \<Rightarrow> nat" where
  "modem_weight s = 2 * modem_answers s + (if mm_inner s = ModemUninitialized then 1 else 0)"

lemmas weight_defs = modem_weight_def modem_answers_def urcs_of_def urcs_running_def

lemmas modem_step_defs = modem_step_def make_delay_def init_future_def

lemmas modem_step_splits =
  modem_inner.splits option.splits list.splits timer_answer.splits init_event.splits sum.splits

lemma modem_step_weight:
  "modem_step s = Inr s' \<Longrightarrow> modem_weight s' < modem_weight s"
  "modem_step s = Inl (b, s') \<Longrightarrow> modem_weight s' \<le> modem_weight s"
  by (auto simp: modem_step_defs weight_defs split: modem_step_splits)

function modem_poll :: "'t modem_mgr \<Rightarrow> bool \<times> 't modem_mgr" where
  "modem_poll s = (case modem_step s of Inl r \<Rightarrow> r | Inr s' \<Rightarrow> modem_poll s')"
  by pat_completeness auto

termination by (relation "measure modem_weight") (simp_all add: modem_step_weight)

declare modem_poll.simps [simp del]

lemma modem_poll_Inr: "modem_step s = Inr t \<Longrightarrow> modem_poll s = modem_poll t"
  by (simp add: modem_poll.simps [of s])

lemma modem_poll_Inl: "modem_step s = Inl r \<Longrightarrow> modem_poll s = r"
  by (simp add: modem_poll.simps [of s])

text \<open>What every turn keeps holds after the poll.\<close>

lemma modem_poll_inv:
  assumes "P s" and "\<And>s s'. P s \<Longrightarrow> modem_step s = Inr s' \<Longrightarrow> P s'"
    and "\<And>s b s'. P s \<Longrightarrow> modem_step s = Inl (b, s') \<Longrightarrow> Q b s'"
  shows "Q (fst (modem_poll s)) (snd (modem_poll s))"
  using assms(1)
proof (induction s rule: modem_poll.induct)
  case (1 s)
  show ?case
  proof (cases "modem_step s")
    case (Inl r)
    then show ?thesis
      using assms(3) [OF "1.prems", of "fst r" "snd r"] by (simp add: modem_poll_Inl)
  next
    case (Inr s')
    then show ?thesis
      using "1.IH" [OF Inr assms(2) [OF "1.prems" Inr]] by (simp add: modem_poll_Inr)
  qed
qed

lemma modem_poll_weight: "modem_weight (snd (modem_poll s)) \<le> modem_weight s"
  by (rule modem_poll_inv [of "\<lambda>t. modem_weight t \<le> modem_weight s" s "\<lambda>b t. modem_weight t \<le> modem_weight s"])
    (use modem_step_weight in \<open>fastforce+\<close>)

section \<open>The futures that are spawned\<close>

definition m_spawn :: "'t modem_job \<Rightarrow> 't modem_mgr \<Rightarrow> 't modem_mgr" where
  "m_spawn j s = s\<lparr>mm_jobs := mm_jobs s @ [j]\<rparr>"

definition m_cb :: "control_bot_command \<Rightarrow> 't modem_mgr \<Rightarrow> 't modem_mgr" where
  "m_cb c s = s\<lparr>mm_cb_tx := mm_cb_tx s @ [c]\<rparr>"

definition m_int :: "'t modem_command \<Rightarrow> 't modem_mgr \<Rightarrow> 't modem_mgr" where
  "m_int c s = s\<lparr>mm_rx := mm_rx s @ [c]\<rparr>"

definition m_cf :: "'t contact_factory_command \<Rightarrow> 't modem_mgr \<Rightarrow> 't modem_mgr" where
  "m_cf c s = s\<lparr>mm_cf_tx := mm_cf_tx s @ [c]\<rparr>"

text \<open>
  How a modem command ends. \<open>map_err\<close> of the macro \<open>command_timeout!\<close> is applied to both kinds of
  failure: an error of the command is turned into a timeout as well.
\<close>

datatype 'a job_end = JobOk 'a | JobErr error | JobTimedOut

definition command_timeout :: "'a job_end \<Rightarrow> 't modem_mgr \<Rightarrow> (error + 'a) \<times> 't modem_mgr" where
  "command_timeout r s = (case r of
      JobOk x \<Rightarrow> (Inr x, s)
    | _ \<Rightarrow> (Inl (Failure ''Modem command timeout reached'' []), m_int CommandTimeout s))"

definition list_done :: "'t sms_message list job_end \<Rightarrow> 't modem_mgr \<Rightarrow> 't modem_mgr" where
  "list_done r s = (case command_timeout r s of
      (Inr results, s') \<Rightarrow> m_int (CmglComplete results) s'
    | (Inl e, s') \<Rightarrow> m_int (CmglFailed e) s')"

definition delete_done :: "unit job_end \<Rightarrow> 't modem_mgr \<Rightarrow> 't modem_mgr" where
  "delete_done r s = snd (command_timeout r s)"

definition registration_done :: "string job_end \<Rightarrow> 't modem_mgr \<Rightarrow> 't modem_mgr" where
  "registration_done r s = (case command_timeout r s of
      (Inr st, s') \<Rightarrow> m_cb (CommandResponse (''Registration state: '' @ bold @ st @ plain)) s'
    | (Inl e, s') \<Rightarrow> s')"

definition signal_done :: "(nat \<times> nat) job_end \<Rightarrow> 't modem_mgr \<Rightarrow> 't modem_mgr" where
  "signal_done r s = (case command_timeout r s of
      (Inr (rssi, ber), s') \<Rightarrow>
        m_cb (CommandResponse (''RSSI: '' @ bold @ show_nat rssi @ plain @ '' | BER: '' @ bold @ show_nat ber @ plain)) s'
    | (Inl e, s') \<Rightarrow> s')"

text \<open>Sending has no timeout. Its error is the string it is displayed as.\<close>

definition send_done ::
  "('t, 'j) ext \<Rightarrow> 't pdu_address \<Rightarrow> string option \<Rightarrow> 't modem_mgr \<Rightarrow> 't modem_mgr" where
  "send_done E addr r s = (case r of
      None \<Rightarrow> s
    | Some e \<Rightarrow> m_cb (ReportFailure
        (''Failed to send message to '' @ addr_to_string E addr @ '': '' @ e)) s)"


section \<open>Listing, and polling the modem\<close>

definition cmgl :: "'t modem_mgr \<Rightarrow> 't modem_mgr" where
  "cmgl s = (if get_modem s then m_spawn ListSms s else s)"

text \<open>
  The loop over the channel of unsolicited responses: whether a new message was announced, or
  nothing when the channel ended, and what the channel has left.
\<close>

fun drain_urcs :: "urc_answer list \<Rightarrow> bool \<Rightarrow> bool option \<times> urc_answer list" where
  "drain_urcs [] b = (Some b, [])"
| "drain_urcs (UrcPending # as) b = (Some b, as)"
| "drain_urcs (UrcEnded # as) b = (None, as)"
| "drain_urcs (UrcLine r # as) b =
     drain_urcs as (case r of InformationResponse param \<Rightarrow> b \<or> param = ''+CMTI'' | OtherAtResponse \<Rightarrow> b)"

definition poll_urc_rx :: "('t modem_mgr, unit) comp" where
  "poll_urc_rx s = (case mm_inner s of
      ModemRunning urcs \<Rightarrow>
        (let (do_cmgl, rest) = drain_urcs urcs False;
             s' = s\<lparr>mm_inner := ModemRunning rest\<rparr>
         in case do_cmgl of
              None \<Rightarrow> (Err (Failure ''urc_rx stopped producing'' []), s')
            | Some b \<Rightarrow> (Ok (), if b then cmgl s' else s'))
    | _ \<Rightarrow> (Ok (), s))"

lemma poll_urc_rx_keeps:
  assumes "P s" and list: "\<And>s. P s \<Longrightarrow> P (cmgl s)"
    and urcs: "\<And>s us vs. P s \<Longrightarrow> mm_inner s = ModemRunning us \<Longrightarrow> P (s\<lparr>mm_inner := ModemRunning vs\<rparr>)"
  shows "P (snd (poll_urc_rx s))"
proof (cases "mm_inner s")
  case (ModemRunning us)
  obtain r vs where "drain_urcs us False = (r, vs)" by (cases "drain_urcs us False")
  then show ?thesis
    using ModemRunning list urcs [OF assms(1) ModemRunning]
    by (cases r) (simp_all add: poll_urc_rx_def Let_def)
qed (use assms(1) in \<open>simp_all add: poll_urc_rx_def\<close>)

lemma drain_urcs_length:
  "drain_urcs us b = (r, rest) \<Longrightarrow> length rest \<le> length us \<and> (r = None \<longrightarrow> length rest < length us)"
  by (induction us b rule: drain_urcs.induct) auto

text \<open>\<open>poll_modem\<close>, \<open>poll_urc_rx\<close> and \<open>report_modem_error\<close> call each other in a circle.\<close>

definition urc_round :: "'t modem_mgr \<Rightarrow> unit outcome \<times> 't modem_mgr" where
  "urc_round s = (let (fresh, s1) = modem_poll s in poll_urc_rx (if fresh then cmgl s1 else s1))"

lemma cmgl_weight [simp]: "modem_weight (cmgl s) = modem_weight s"
  by (simp add: cmgl_def m_spawn_def weight_defs)

lemma poll_urc_rx_weight:
  assumes "poll_urc_rx s = (Err e, t)"
  shows "modem_weight (modem_report_error ms t) < modem_weight s"
proof -
  obtain urcs rest where "mm_inner s = ModemRunning urcs" "drain_urcs urcs False = (None, rest)"
      "t = s\<lparr>mm_inner := ModemRunning rest\<rparr>"
    using assms by (auto simp: poll_urc_rx_def Let_def split: modem_inner.splits prod.splits option.splits)
  moreover from this(2) have "length rest < length urcs" using drain_urcs_length by blast
  ultimately show ?thesis
    by (cases urcs) (simp_all add: modem_report_error_def make_delay_def weight_defs)
qed

lemma urc_round_weight: "urc_round s = (Err e, t) \<Longrightarrow> modem_weight (modem_report_error ms t) < modem_weight s"
  using modem_poll_weight [of s] poll_urc_rx_weight [of "snd (modem_poll s)" e t ms]
    poll_urc_rx_weight [of "cmgl (snd (modem_poll s))" e t ms]
  by (simp add: urc_round_def split: prod.splits if_splits)

function poll_modem :: "'t modem_mgr \<Rightarrow> 't modem_mgr" where
  "poll_modem s = (case urc_round s of
      (Err e, t) \<Rightarrow> poll_modem (modem_report_error (mm_delay_ms t) t)
    | (_, t) \<Rightarrow> t)"
  by pat_completeness auto

termination
proof (relation "measure modem_weight")
  fix s :: "'t modem_mgr" and x y e
  assume "(x, y) = urc_round s" and "x = Err e"
  then have "urc_round s = (Err e, y)" by simp
  then show "(modem_report_error (mm_delay_ms y) y, s) \<in> measure modem_weight"
    by (simp only: in_measure urc_round_weight)
qed simp

declare poll_modem.simps [simp del]

text \<open>The lemma the properties of polling are proved with: each part of a round keeps the predicate.\<close>

lemma poll_modem_inv:
  assumes "P s" and step: "\<And>s s'. P s \<Longrightarrow> modem_step s = Inr s' \<Longrightarrow> P s'"
    and last: "\<And>s b s'. P s \<Longrightarrow> modem_step s = Inl (b, s') \<Longrightarrow> P s'"
    and list: "\<And>s. P s \<Longrightarrow> P (cmgl s)"
    and urcs: "\<And>s us vs. P s \<Longrightarrow> mm_inner s = ModemRunning us \<Longrightarrow> P (s\<lparr>mm_inner := ModemRunning vs\<rparr>)"
    and fails: "\<And>s ms. P s \<Longrightarrow> P (modem_report_error ms s)"
  shows "P (poll_modem s)"
  using assms(1)
proof (induction s rule: poll_modem.induct)
  case (1 s)
  obtain r t where rnd: "urc_round s = (r, t)" by (cases "urc_round s")
  have "P (snd (modem_poll s))"
    by (rule modem_poll_inv [of P s "\<lambda>_. P", OF "1.prems" step last])
  then have "P (if fst (modem_poll s) then cmgl (snd (modem_poll s)) else snd (modem_poll s))"
    by (simp add: list)
  then have "P (snd (urc_round s))"
    unfolding urc_round_def case_prod_beta Let_def by (rule poll_urc_rx_keeps [of P, OF _ list urcs])
  then have "P t" using rnd by simp
  then have "P (poll_modem (modem_report_error (mm_delay_ms t) t))" if "r = Err e" for e
    using "1.IH" [OF rnd [symmetric] that] fails by simp
  then show ?case
    using rnd \<open>P t\<close> by (cases r) (simp_all add: poll_modem.simps [of s])
qed

section \<open>Commands\<close>

definition reinit_modem :: "'t modem_mgr \<Rightarrow> 't modem_mgr" where
  "reinit_modem s = poll_modem (modem_report_error 0 s)"

definition update_path :: "string option \<Rightarrow> 't modem_mgr \<Rightarrow> 't modem_mgr" where
  "update_path path s = reinit_modem (s\<lparr>mm_path := path\<rparr>)"

definition on_command_timeout :: "'t modem_mgr \<Rightarrow> 't modem_mgr" where
  "on_command_timeout s = poll_modem (modem_report_error 0 s)"

definition report_modem_error :: "'t modem_mgr \<Rightarrow> 't modem_mgr" where
  "report_modem_error s = poll_modem (modem_report_error (mm_delay_ms s) s)"

definition cmgl_failed :: "error \<Rightarrow> 't modem_mgr \<Rightarrow> 't modem_mgr" where
  "cmgl_failed e s = report_modem_error s"

text \<open>The macro \<open>get_modem!\<close>.\<close>

definition with_modem :: "string \<Rightarrow> 't modem_job \<Rightarrow> 't modem_mgr \<Rightarrow> 't modem_mgr" where
  "with_modem desc job s =
     (if get_modem s then m_spawn job s
      else m_cb (ReportFailure (desc @ '' failed: Modem is not initialized'')) s)"

definition request_reg :: "'t modem_mgr \<Rightarrow> 't modem_mgr" where
  "request_reg s = with_modem ''Getting registration'' GetRegistration s"

definition request_csq :: "'t modem_mgr \<Rightarrow> 't modem_mgr" where
  "request_csq s = with_modem ''Getting signal quality'' GetSignal s"

definition send_sms :: "'t modem_lib \<Rightarrow> 't pdu_address \<Rightarrow> string \<Rightarrow> 't modem_mgr \<Rightarrow> 't modem_mgr" where
  "send_sms M addr msg s =
     (let data = encode_message M msg
      in with_modem ''Sending message'' (SendSms addr (map (make_simple_message M addr) data)) s)"

definition m_db :: "(db, 'a) comp \<Rightarrow> ('t modem_mgr, 'a) comp" where
  "m_db = on_field mm_store (\<lambda>d s. s\<lparr>mm_store := d\<rparr>)"

definition modem_make_contact :: "('t, 'j) ext \<Rightarrow> 't pdu_address \<Rightarrow> ('t modem_mgr, unit) comp" where
  "modem_make_contact E addr =
     and_then (m_db (get_recipient_by_addr_opt E addr)) (\<lambda>ro.
       if ro = None then
         then_do (m_db (store_recipient E addr (make_nick_for_address E addr)))
         (then_do (modify (m_cf (SetupContact addr))) (modify (m_cf ProcessMessages)))
       else ret ())"

text \<open>The reference number of a part of a longer message; an undecodable message has none.\<close>

definition csms_of :: "'t deliver_pdu \<Rightarrow> int option" where
  "csms_of p = (case decode_message p of
      Inr m \<Rightarrow> map_option (\<lambda>c. int (reference c)) (concatenated m)
    | Inl e \<Rightarrow> None)"

definition store_listed :: "('t, 'j) ext \<Rightarrow> 't sms_message \<Rightarrow> ('t modem_mgr, unit) comp" where
  "store_listed E msg =
     (if status msg \<noteq> ReceivedUnread then ret ()
      else then_do (m_db (store_sms_message E (originating_address (pdu msg)) (raw_pdu msg) (csms_of (pdu msg))))
        (ret ()))"

definition cmgl_complete :: "('t, 'j) ext \<Rightarrow> 't sms_message list \<Rightarrow> ('t modem_mgr, unit) comp" where
  "cmgl_complete E msgs =
     then_do (for_each msgs (store_listed E))
     (then_do (modify (m_cf ProcessMessages))
       (modify (\<lambda>s. if get_modem s then m_spawn DeleteSms s else s)))"

definition modem_handle ::
  "('t, 'j) ext \<Rightarrow> 't modem_lib \<Rightarrow> 't modem_command \<Rightarrow> ('t modem_mgr, unit) comp" where
  "modem_handle E M c = (case c of
      DoCmgl \<Rightarrow> modify cmgl
    | CmglComplete msgs \<Rightarrow> cmgl_complete E msgs
    | CmglFailed e \<Rightarrow> modify (cmgl_failed e)
    | SendMessage addr msg \<Rightarrow> modify (send_sms M addr msg)
    | RequestCsq \<Rightarrow> modify request_csq
    | RequestReg \<Rightarrow> modify request_reg
    | ForceReinit \<Rightarrow> modify reinit_modem
    | UpdatePath p \<Rightarrow> modify (update_path p)
    | CommandTimeout \<Rightarrow> modify on_command_timeout
    | ModemMakeContact a \<Rightarrow> modem_make_contact E a)"

text \<open>The loop over the commands; no handler sends a command to the manager itself.\<close>

primrec modem_commands ::
  "('t, 'j) ext \<Rightarrow> 't modem_lib \<Rightarrow> 't modem_command list \<Rightarrow> ('t modem_mgr, unit) comp" where
  "modem_commands E M [] = ret ()"
| "modem_commands E M (c # cs) =
     then_do (modify (\<lambda>s. s\<lparr>mm_rx := cs\<rparr>)) (then_do (modem_handle E M c) (modem_commands E M cs))"

definition manager_poll :: "('t, 'j) ext \<Rightarrow> 't modem_lib \<Rightarrow> ('t modem_mgr, unit) comp" where
  "manager_poll E M =
     then_do (modify poll_modem) (and_then (gets mm_rx) (modem_commands E M))"

end
