(* ===== verification/Modem_Facts.thy ===== *)
theory Modem_Facts
  imports Modem
begin

text \<open>
  Facts about the modem manager that its properties share: what polling leaves alone, what listed
  messages become, and the machine of \<open>Modem\<close> as one that retries.
\<close>

section \<open>What polling leaves alone\<close>

definition modem_frame :: "'t modem_mgr \<Rightarrow> 't modem_mgr \<Rightarrow> bool" where
  "modem_frame s t \<longleftrightarrow>
     mm_store t = mm_store s \<and> mm_path t = mm_path s \<and> mm_delay_ms t = mm_delay_ms s \<and>
     mm_rx t = mm_rx s \<and> mm_cf_tx t = mm_cf_tx s \<and> mm_cb_tx t = mm_cb_tx s \<and> mm_now t = mm_now s \<and>
     (\<exists>k. mm_jobs t = mm_jobs s @ replicate k ListSms)"

lemma modem_frame_refl [simp]: "modem_frame s s"
  unfolding modem_frame_def by (simp add: exI [of _ 0])

lemma modem_frame_trans: "modem_frame s t \<Longrightarrow> modem_frame t u \<Longrightarrow> modem_frame s u"
  unfolding modem_frame_def by (auto simp flip: replicate_add)

lemma modem_frame_inner: "modem_frame s (t\<lparr>mm_inner := i\<rparr>) = modem_frame s t"
  by (simp add: modem_frame_def)

lemma modem_frame_schedules:
  "modem_frame s (t\<lparr>mm_timers := ts\<rparr>) = modem_frame s t" "modem_frame s (t\<lparr>mm_inits := is\<rparr>) = modem_frame s t"
  by (simp_all add: modem_frame_def)

lemmas modem_frame_simps [simp] = modem_frame_inner modem_frame_schedules

lemma modem_frame_cmgl: "modem_frame s t \<Longrightarrow> modem_frame s (cmgl t)"
  by (auto simp: modem_frame_def cmgl_def m_spawn_def intro: exI [of _ "Suc _"] simp flip: replicate_append_same)

lemma modem_frame_step:
  "modem_step s = Inr t \<Longrightarrow> modem_frame s t" "modem_step s = Inl (b, t) \<Longrightarrow> modem_frame s t"
  by (auto simp: modem_step_defs split: modem_step_splits)

lemma poll_modem_frame: "modem_frame s (poll_modem s)"
  by (rule poll_modem_inv [of "modem_frame s"])
    (auto simp: modem_report_error_def intro: modem_frame_trans modem_frame_step modem_frame_cmgl)

text \<open>Every way to start again is a poll after the state was set to waiting.\<close>

lemmas restart_defs =
  reinit_modem_def on_command_timeout_def cmgl_failed_def report_modem_error_def

lemma restart_frame:
  "modem_frame s (reinit_modem s)" "modem_frame s (on_command_timeout s)" "modem_frame s (cmgl_failed e s)"
  unfolding restart_defs
  by (rule modem_frame_trans [OF _ poll_modem_frame], simp add: modem_report_error_def)+

section \<open>The path the modem is opened with\<close>

definition path_ok :: "'t modem_mgr \<Rightarrow> bool" where
  "path_ok s \<longleftrightarrow> (mm_inner s = ModemDisabled \<longrightarrow> mm_path s = None) \<and>
     (\<forall>p. mm_inner s = ModemInitializing p \<longrightarrow> mm_path s = Some p)"

lemma poll_modem_path: "path_ok s \<Longrightarrow> path_ok (poll_modem s)"
  by (rule poll_modem_inv [of path_ok])
    (auto simp: path_ok_def modem_step_defs modem_report_error_def cmgl_def m_spawn_def
      split: modem_step_splits)

text \<open>A restart establishes it, whatever the state was before.\<close>

lemma path_ok_waiting: "path_ok (modem_report_error ms s)"
  by (simp add: path_ok_def modem_report_error_def make_delay_def)

lemma restart_path [simp]:
  "path_ok (reinit_modem s)" "path_ok (on_command_timeout s)" "path_ok (cmgl_failed e s)" "path_ok (update_path p s)"
  by (simp_all add: restart_defs update_path_def poll_modem_path path_ok_waiting)

section \<open>The invariant, and that nothing panics\<close>

definition modem_ok :: "'t modem_mgr \<Rightarrow> bool" where
  "modem_ok s \<longleftrightarrow> db_inv (mm_store s) \<and> path_ok s"

lemma modem_ok_restart:
  "modem_ok s \<Longrightarrow> modem_ok (poll_modem s)" "modem_ok s \<Longrightarrow> modem_ok (reinit_modem s)"
  "modem_ok s \<Longrightarrow> modem_ok (on_command_timeout s)" "modem_ok s \<Longrightarrow> modem_ok (cmgl_failed e s)"
  "modem_ok s \<Longrightarrow> modem_ok (update_path p s)"
  using poll_modem_frame [of s] restart_frame [of s] restart_frame(1) [of "s\<lparr>mm_path := p\<rparr>"]
  by (simp_all add: modem_ok_def modem_frame_def poll_modem_path) (simp add: update_path_def)

lemma modem_ok_queues [simp]:
  "modem_ok (s\<lparr>mm_rx := cs\<rparr>) = modem_ok s" "modem_ok (m_spawn j s) = modem_ok s"
  "modem_ok (m_cb c s) = modem_ok s" "modem_ok (m_int mc s) = modem_ok s" "modem_ok (m_cf cf s) = modem_ok s"
  "modem_ok (s\<lparr>mm_jobs := js\<rparr>) = modem_ok s"
  by (simp_all add: modem_ok_def path_ok_def m_spawn_def m_cb_def m_int_def m_cf_def)

lemma modem_ok_requests [simp]:
  "modem_ok (cmgl s) = modem_ok s" "modem_ok (with_modem d j s) = modem_ok s"
  by (simp_all add: cmgl_def with_modem_def)

lemma m_db_guarded: "pres db_inv m \<Longrightarrow> safe (\<lambda>_. True) m \<Longrightarrow> guarded True modem_ok (m_db m)"
  unfolding m_db_def
  by (rule guarded_on_field [OF guarded_of_quiet]) (simp_all add: modem_ok_def path_ok_def)

lemma modem_handle_guarded: "guarded True modem_ok (modem_handle E M c)"
proof -
  have "guarded True modem_ok (cmgl_complete E msgs)" for msgs
    unfolding cmgl_complete_def store_listed_def
    by (intro guarded guarded_modify m_db_guarded pres safe) simp_all
  moreover have "guarded True modem_ok (modem_make_contact E a)" for a
    unfolding modem_make_contact_def
    by (intro guarded guarded_modify m_db_guarded pres safe) simp_all
  ultimately show ?thesis
    by (cases c) (auto simp: modem_handle_def request_csq_def request_reg_def send_sms_def Let_def
        intro!: guarded_modify modem_ok_restart)
qed

lemma modem_commands_guarded: "guarded True modem_ok (modem_commands E M cs)"
proof (induction cs)
  case (Cons c cs)
  then show ?case
    unfolding modem_commands.simps by (intro guarded guarded_modify modem_handle_guarded) simp_all
qed (simp add: guarded)

lemma manager_poll_guarded: "guarded True modem_ok (manager_poll E M)"
  unfolding manager_poll_def
  by (intro guarded guarded_modify modem_commands_guarded modem_ok_restart)

section \<open>Listed messages\<close>

text \<open>The columns of a row that come from the message, and what they should be.\<close>

definition sms_row :: "message \<Rightarrow> string \<times> 8 word list option \<times> int option \<times> int" where
  "sms_row m = (m_phone_number m, m_pdu m, m_csms_data m, m_source m)"

definition listed_row :: "('t, 'j) ext \<Rightarrow> 't sms_message \<Rightarrow> string \<times> 8 word list option \<times> int option \<times> int" where
  "listed_row E msg = (normalize_address E (originating_address (pdu msg)), Some (raw_pdu msg),
     csms_of (pdu msg), SOURCE_SMS)"

definition unread :: "'t sms_message list \<Rightarrow> 't sms_message list" where
  "unread msgs = filter (\<lambda>m. status m = ReceivedUnread) msgs"

lemma store_sms_message_row:
  "store_sms_message E a pd csms d = (r, d') \<Longrightarrow> r \<noteq> Panic \<and>
     (\<forall>x. r = Ok x \<longrightarrow> messages d' = messages d @ [x] \<and> sms_row x = (normalize_address E a, Some pd, csms, SOURCE_SMS)) \<and>
     (\<forall>e. r = Err e \<longrightarrow> messages d' = messages d)"
  by (auto simp: store_sms_message_def with_conn_def insert_message_def sms_row_def Let_def
      split: list.splits if_splits)

definition but_store :: "'t modem_mgr \<Rightarrow> 't modem_mgr" where
  "but_store s = s\<lparr>mm_store := undefined\<rparr>"

lemma but_storeD:
  "but_store t = but_store s \<Longrightarrow> mm_cf_tx t = mm_cf_tx s \<and> mm_jobs t = mm_jobs s \<and> mm_inner t = mm_inner s \<and>
     mm_cb_tx t = mm_cb_tx s \<and> mm_rx t = mm_rx s"
  by (cases s; cases t) (simp add: but_store_def)

lemma m_db_result: "m_db m s = (r, t) \<Longrightarrow> m (mm_store s) = (r, mm_store t) \<and> but_store t = but_store s"
  by (auto simp: m_db_def on_field_def but_store_def split: prod.splits)

lemma store_listed_result:
  assumes "store_listed E msg s = (r, t)"
  shows "but_store t = but_store s \<and> r \<noteq> Panic \<and> (\<exists>new. messages (mm_store t) = messages (mm_store s) @ new \<and>
    map sms_row new = (if r = Ok () then map (listed_row E) (unread [msg]) else []))"
proof (cases "status msg = ReceivedUnread")
  case True
  obtain r1 where r1: "m_db (store_sms_message E (originating_address (pdu msg)) (raw_pdu msg) (csms_of (pdu msg))) s = (r1, t)"
      and r: "(case r1 of Ok _ \<Rightarrow> r = Ok () | Err e \<Rightarrow> r = Err e | Panic \<Rightarrow> r = Panic)"
    using assms True by (auto simp: store_listed_def comp_simps split: prod.splits outcome.splits)
  have row: "store_sms_message E (originating_address (pdu msg)) (raw_pdu msg) (csms_of (pdu msg)) (mm_store s) =
      (r1, mm_store t)" and frame: "but_store t = but_store s"
    using m_db_result [OF r1] by auto
  show ?thesis
    using store_sms_message_row [OF row] frame r True
    by (cases r1) (auto simp: unread_def listed_row_def)
qed (use assms in \<open>auto simp: store_listed_def ret_def unread_def\<close>)

lemma for_each_listed:
  assumes "for_each msgs (store_listed E) s = (r, t)"
  shows "but_store t = but_store s \<and> r \<noteq> Panic \<and> (\<exists>new. messages (mm_store t) = messages (mm_store s) @ new \<and>
    (\<exists>k. map sms_row new = take k (map (listed_row E) (unread msgs))) \<and>
    (r = Ok () \<longrightarrow> map sms_row new = map (listed_row E) (unread msgs)))"
  using assms
proof (induction msgs arbitrary: s)
  case Nil
  then show ?case by (auto simp: ret_def unread_def)
next
  case (Cons m ms)
  obtain r1 s1 where s1: "store_listed E m s = (r1, s1)" by (cases "store_listed E m s")
  note one = store_listed_result [OF s1]
  show ?case
  proof (cases r1)
    case (Ok u)
    then have "for_each ms (store_listed E) s1 = (r, t)"
      using Cons.prems s1 by (simp add: then_do_def and_then_def)
    from Cons.IH [OF this] obtain new k where rest: "but_store t = but_store s1" "r \<noteq> Panic"
      "messages (mm_store t) = messages (mm_store s1) @ new"
      "map sms_row new = take k (map (listed_row E) (unread ms))"
      "r = Ok () \<longrightarrow> map sms_row new = map (listed_row E) (unread ms)" by blast
    from one Ok obtain new1 where "messages (mm_store s1) = messages (mm_store s) @ new1"
      "map sms_row new1 = map (listed_row E) (unread [m])" by auto
    moreover have "unread (m # ms) = unread [m] @ unread ms" by (simp add: unread_def)
    ultimately show ?thesis
      using rest one by (auto intro!: exI [of _ "new1 @ new"] exI [of _ "length (unread [m]) + k"])
  qed (use Cons.prems s1 one in \<open>auto simp: then_do_def and_then_def intro: exI [of _ 0]\<close>)
qed


section \<open>Messages to send\<close>

fun sends :: "'t modem_command list \<Rightarrow> ('t pdu_address \<times> string) list" where
  "sends [] = []"
| "sends (c # cs) = (case c of SendMessage a m \<Rightarrow> (a, m) # sends cs | _ \<Rightarrow> sends cs)"

definition is_send :: "'t modem_job \<Rightarrow> bool" where
  "is_send j \<longleftrightarrow> (case j of SendSms _ _ \<Rightarrow> True | _ \<Rightarrow> False)"

definition send_job :: "'t modem_lib \<Rightarrow> 't pdu_address \<times> string \<Rightarrow> 't modem_job" where
  "send_job M p = SendSms (fst p) (map (make_simple_message M (fst p)) (encode_message M (snd p)))"

definition not_sent :: control_bot_command where
  "not_sent = ReportFailure ''Sending message failed: Modem is not initialized''"

text \<open>What a handler adds to the messages being sent and to the reports that one was not.\<close>

definition sending :: "'t modem_mgr \<Rightarrow> 't modem_job list" where
  "sending s = filter is_send (mm_jobs s)"

definition refusals :: "'t modem_mgr \<Rightarrow> nat" where
  "refusals s = count_list (mm_cb_tx s) not_sent"

lemma modem_frame_sending: "modem_frame s t \<Longrightarrow> sending t = sending s \<and> refusals t = refusals s"
  by (auto simp: modem_frame_def sending_def refusals_def is_send_def filter_replicate)

lemma but_store_sending: "but_store t = but_store s \<Longrightarrow> sending t = sending s \<and> refusals t = refusals s"
  by (auto simp: sending_def refusals_def dest: but_storeD)

lemma sending_simps [simp]:
  "sending (m_cf c s) = sending s" "refusals (m_cf c s) = refusals s"
  "sending (s\<lparr>mm_rx := cs\<rparr>) = sending s" "refusals (s\<lparr>mm_rx := cs\<rparr>) = refusals s"
  "sending (s\<lparr>mm_path := p\<rparr>) = sending s" "refusals (s\<lparr>mm_path := p\<rparr>) = refusals s"
  "refusals (m_spawn j s) = refusals s"
  "sending (m_spawn j s) = (if is_send j then sending s @ [j] else sending s)"
  "sending (m_cb cb s) = sending s" "refusals (m_cb cb s) = (if cb = not_sent then Suc (refusals s) else refusals s)"
  by (simp_all add: sending_def refusals_def m_cf_def m_spawn_def m_cb_def)

lemma m_db_sending: "m_db m s = (r, t) \<Longrightarrow> sending t = sending s \<and> refusals t = refusals s"
  using m_db_result but_store_sending by blast

text \<open>Every handler but the one that sends leaves both alone.\<close>

lemma modem_handle_sending:
  assumes "modem_handle E M c s = (Ok (), t)" and "\<And>a m. c \<noteq> SendMessage a m"
  shows "sending t = sending s \<and> refusals t = refusals s"
proof (cases c)
  case (CmglComplete msgs)
  then obtain s1 where s1: "for_each msgs (store_listed E) s = (Ok (), s1)"
      and t: "t = (let s2 = m_cf ProcessMessages s1 in if get_modem s2 then m_spawn DeleteSms s2 else s2)"
    using assms(1) by (auto simp: modem_handle_def cmgl_complete_def modify_iff elim!: then_do_OkE)
  then show ?thesis
    using for_each_listed [OF s1] but_store_sending [of s1 s] by (simp add: Let_def is_send_def)
next
  case (ModemMakeContact a)
  then show ?thesis
    using assms(1)
    by (auto simp: modem_handle_def modem_make_contact_def modify_iff ret_def elim!: and_then_OkE then_do_OkE
        split: if_splits dest!: m_db_sending)
next
  case (UpdatePath p)
  then show ?thesis
    using assms(1) modem_frame_sending [OF restart_frame(1), of "s\<lparr>mm_path := p\<rparr>"]
    by (auto simp: modem_handle_def modify_iff update_path_def)
qed (use assms in \<open>auto simp: modem_handle_def modify_iff cmgl_def with_modem_def request_csq_def
      request_reg_def is_send_def not_sent_def modem_frame_sending restart_frame\<close>)

lemma modem_commands_sending:
  assumes "modem_commands E M cs s = (Ok (), t)"
  shows "\<exists>ok. length ok = length (sends cs) \<and>
    sending t = sending s @ map (\<lambda>p. send_job M (fst p)) (filter snd (zip (sends cs) ok)) \<and>
    refusals t = refusals s + length (filter Not ok)"
  using assms
proof (induction cs arbitrary: s)
  case Nil
  then show ?case by (auto simp: ret_def)
next
  case (Cons c cs)
  then obtain s1 where s1: "modem_handle E M c (s\<lparr>mm_rx := cs\<rparr>) = (Ok (), s1)"
      and rest: "modem_commands E M cs s1 = (Ok (), t)" by (auto elim!: then_do_OkE)
  obtain ok where ok: "length ok = length (sends cs)"
    "sending t = sending s1 @ map (\<lambda>p. send_job M (fst p)) (filter snd (zip (sends cs) ok))"
    "refusals t = refusals s1 + length (filter Not ok)" using Cons.IH [OF rest] by blast
  show ?case
  proof (cases "\<exists>a m. c = SendMessage a m")
    case True
    then obtain a m where c: "c = SendMessage a m" by blast
    let ?b = "get_modem (s\<lparr>mm_rx := cs\<rparr>)"
    have "s1 = with_modem ''Sending message'' (send_job M (a, m)) (s\<lparr>mm_rx := cs\<rparr>)"
      using s1 c by (simp add: modem_handle_def modify_iff send_sms_def send_job_def Let_def)
    then have "sending s1 = sending s @ (if ?b then [send_job M (a, m)] else [])"
      "refusals s1 = refusals s + (if ?b then 0 else 1)"
      by (simp_all add: with_modem_def is_send_def send_job_def not_sent_def)
    then show ?thesis using ok c by (intro exI [of _ "?b # ok"]) auto
  next
    case False
    then show ?thesis
      using modem_handle_sending [OF s1] ok by (auto split: modem_command.splits)
  qed
qed

section \<open>Starting again\<close>

text \<open>
  The environment lets the delay expire every time, \<open>n\<close> initialisations fail and the next one succeed.
\<close>

definition init_fails_ahead :: "urc_answer list \<Rightarrow> nat \<Rightarrow> 't modem_mgr \<Rightarrow> bool" where
  "init_fails_ahead us n s \<longleftrightarrow>
     (\<exists>t p ts fs ce is. mm_inner s = ModemWaiting t \<and> mm_path s = Some p \<and>
        mm_timers s = replicate (Suc n) TimerReady @ ts \<and> mm_inits s = fs @ InitConfigured ce us # is \<and>
        length fs = n \<and> (\<forall>a \<in> set fs. \<exists>e. init_future a = Some (Inl e)))"

text \<open>From the delay to the result of the initialisation.\<close>

lemma modem_attempt:
  assumes "mm_inner s = ModemWaiting t" "mm_path s = Some p" "mm_timers s = TimerReady # ts"
  shows "modem_poll s = modem_poll (s\<lparr>mm_timers := ts, mm_inner := ModemInitializing p\<rparr>)"
proof -
  have "modem_step s = Inr (s\<lparr>mm_timers := ts, mm_inner := ModemUninitialized\<rparr>)"
    using assms by (simp add: modem_step_def)
  moreover have "modem_step (s\<lparr>mm_timers := ts, mm_inner := ModemUninitialized\<rparr>) =
      Inr (s\<lparr>mm_timers := ts, mm_inner := ModemInitializing p\<rparr>)"
    using assms by (simp add: modem_step_def)
  ultimately show ?thesis by (simp only: modem_poll_Inr)
qed

interpretation modem: retrying modem_poll "init_fails_ahead us" modem_frame for us :: "urc_answer list"
proof
  fix n and s :: "'t modem_mgr"
  assume "init_fails_ahead us (Suc n) s"
  then obtain t p ts a fs ce "is" e where s: "mm_inner s = ModemWaiting t" "mm_path s = Some p"
    "mm_timers s = TimerReady # replicate (Suc n) TimerReady @ ts"
    "mm_inits s = a # fs @ InitConfigured ce us # is" "length fs = n"
    "init_future a = Some (Inl e)" "\<forall>a \<in> set fs. \<exists>e. init_future a = Some (Inl e)"
    by (auto simp: init_fails_ahead_def length_Suc_conv)
  let ?s1 = "s\<lparr>mm_timers := replicate (Suc n) TimerReady @ ts, mm_inner := ModemInitializing p\<rparr>"
  let ?s2 = "?s1\<lparr>mm_inits := fs @ InitConfigured ce us # is, mm_inner := make_delay (mm_delay_ms s) s\<rparr>"
  have "modem_step ?s1 = Inr ?s2"
    using s by (simp add: modem_step_def make_delay_def)
  then have "modem_poll s = modem_poll ?s2"
    using modem_attempt [OF s(1,2,3)] by (simp only: modem_poll_Inr)
  moreover have "init_fails_ahead us n ?s2"
    using s by (auto simp: init_fails_ahead_def make_delay_def)
  moreover have "modem_frame s ?s2" by simp
  ultimately show "\<exists>s'. init_fails_ahead us n s' \<and> modem_frame s s' \<and> modem_poll s = modem_poll s'" by blast
qed (auto intro: modem_frame_trans)

lemma modem_poll_recovers:
  assumes "init_fails_ahead us n s"
  shows "\<exists>s'. modem_poll s = (True, s') \<and> mm_inner s' = ModemRunning us \<and> modem_frame s s'"
proof -
  obtain d where d: "init_fails_ahead us 0 d" "modem_frame s d" "modem_poll s = modem_poll d"
    using modem.reaches_attempt [OF assms] by blast
  then obtain t p ts ce "is" where w: "mm_inner d = ModemWaiting t" "mm_path d = Some p"
    "mm_timers d = TimerReady # ts" "mm_inits d = InitConfigured ce us # is"
    by (auto simp: init_fails_ahead_def)
  let ?d1 = "d\<lparr>mm_timers := ts, mm_inner := ModemInitializing p\<rparr>"
  have "modem_step ?d1 = Inl (True, ?d1\<lparr>mm_inits := is, mm_inner := ModemRunning us\<rparr>)"
    using w by (simp add: modem_step_def init_future_def)
  then have "modem_poll d = (True, ?d1\<lparr>mm_inits := is, mm_inner := ModemRunning us\<rparr>)"
    using modem_attempt [OF w(1,2,3)] by (simp only: modem_poll_Inl)
  then show ?thesis using d by simp
qed

lemma drain_urcs_open: "UrcEnded \<notin> set us \<Longrightarrow> \<exists>b rest. drain_urcs us c = (Some b, rest)"
  by (induction us c rule: drain_urcs.induct) auto

end
