(* ===== verification/Modem_Properties.thy ===== *)
theory Modem_Properties
  imports Modem_Facts Instance
begin

text \<open>
  The properties of the modem manager: what it does with the messages the modem lists and with those
  it is asked to send, how it comes back after failures, and the invariant of its runs.
\<close>

section \<open>Runs\<close>

text \<open>
  A run interleaves polls with the endings of spawned futures, commands and timer ticks that arrive,
  and the environment: other components change the store, time passes, and schedules are filled up.
\<close>

inductive modem_reach ::
  "('t, 'j) ext \<Rightarrow> 't modem_lib \<Rightarrow> modem_config \<Rightarrow> 't modem_mgr \<Rightarrow> bool"
  for E :: "('t, 'j) ext" and M cfg
where
  start: "db_inv d \<Longrightarrow> modem_reach E M cfg (modem_new cfg env d)"
| poll: "modem_reach E M cfg s \<Longrightarrow> manager_poll E M s = (Ok (), t) \<Longrightarrow> modem_reach E M cfg t"
| arrives: "modem_reach E M cfg s \<Longrightarrow> modem_reach E M cfg (m_int c s)"
| tick: "modem_reach E M cfg s \<Longrightarrow> modem_reach E M cfg (cmgl_tick s)"
| listed: "modem_reach E M cfg s \<Longrightarrow> ListSms \<in> set (mm_jobs s) \<Longrightarrow>
    modem_reach E M cfg (list_done res (s\<lparr>mm_jobs := remove1 ListSms (mm_jobs s)\<rparr>))"
| deleted: "modem_reach E M cfg s \<Longrightarrow> DeleteSms \<in> set (mm_jobs s) \<Longrightarrow>
    modem_reach E M cfg (delete_done res' (s\<lparr>mm_jobs := remove1 DeleteSms (mm_jobs s)\<rparr>))"
| registered: "modem_reach E M cfg s \<Longrightarrow> GetRegistration \<in> set (mm_jobs s) \<Longrightarrow>
    modem_reach E M cfg (registration_done reg (s\<lparr>mm_jobs := remove1 GetRegistration (mm_jobs s)\<rparr>))"
| signalled: "modem_reach E M cfg s \<Longrightarrow> GetSignal \<in> set (mm_jobs s) \<Longrightarrow>
    modem_reach E M cfg (signal_done csq (s\<lparr>mm_jobs := remove1 GetSignal (mm_jobs s)\<rparr>))"
| sent: "modem_reach E M cfg s \<Longrightarrow> SendSms a ps \<in> set (mm_jobs s) \<Longrightarrow>
    modem_reach E M cfg (send_done E a r (s\<lparr>mm_jobs := remove1 (SendSms a ps) (mm_jobs s)\<rparr>))"
| urcs: "modem_reach E M cfg s \<Longrightarrow> mm_inner s = ModemRunning us \<Longrightarrow>
    modem_reach E M cfg (s\<lparr>mm_inner := ModemRunning vs\<rparr>)"
| world: "modem_reach E M cfg s \<Longrightarrow> db_inv d \<Longrightarrow>
    modem_reach E M cfg (s\<lparr>mm_store := d, mm_now := n, mm_timers := ts, mm_inits := is\<rparr>)"

lemma modem_ok_ends [simp]:
  "modem_ok (list_done res s) = modem_ok s" "modem_ok (delete_done res' s) = modem_ok s"
  "modem_ok (registration_done reg s) = modem_ok s" "modem_ok (signal_done csq s) = modem_ok s"
  "modem_ok (send_done E a r s) = modem_ok s" "modem_ok (cmgl_tick s) = modem_ok s"
  by (auto simp: list_done_def delete_done_def registration_done_def signal_done_def send_done_def
      cmgl_tick_def command_timeout_def split: job_end.splits option.splits prod.splits)

lemma modem_reach_ok: "modem_reach E M cfg s \<Longrightarrow> modem_ok s"
proof (induction rule: modem_reach.induct)
  case (poll s t)
  then show ?case using guardedD [OF manager_poll_guarded, of s E M] by simp
next
  case (start d env)
  then show ?case by (simp add: modem_ok_def path_ok_def modem_new_def)
qed (simp_all, simp_all add: modem_ok_def path_ok_def)

section \<open>The invariant\<close>

text \<open>
  In every state the modem manager reaches, the database is intact, a modem that is being
  initialised is the configured one, and the manager has given up only where no modem is configured;
  and the next poll does not panic.
\<close>
theorem modem_invariant:
  assumes "modem_reach E M cfg s"
  shows "db_inv (mm_store s) \<and> (mm_inner s = ModemDisabled \<longrightarrow> mm_path s = None) \<and>
    (\<forall>p. mm_inner s = ModemInitializing p \<longrightarrow> mm_path s = Some p) \<and> fst (manager_poll E M s) \<noteq> Panic"
  using modem_reach_ok [OF assms] guardedD [OF manager_poll_guarded, of s E M]
  by (auto simp: modem_ok_def path_ok_def)

section \<open>Messages the modem lists\<close>

text \<open>
  C8: When a listing is complete, the manager asks the modem to delete what it has read, and the
  contact factory to process messages, only after every unread message was stored, in the order of
  the listing, under the normalised number of its sender and with its reference number; where the
  store fails, neither is asked for.
\<close>
theorem messages_are_stored_before_deletion:
  assumes "cmgl_complete E msgs s = (r, t)"
  shows "r \<noteq> Panic \<and> (\<exists>new. messages (mm_store t) = messages (mm_store s) @ new \<and>
    (if r = Ok ()
     then map sms_row new = map (listed_row E) (filter (\<lambda>m. status m = ReceivedUnread) msgs) \<and>
       mm_cf_tx t = mm_cf_tx s @ [ProcessMessages] \<and>
       mm_jobs t = mm_jobs s @ (if get_modem s then [DeleteSms] else [])
     else (\<exists>k. map sms_row new = take k (map (listed_row E) (filter (\<lambda>m. status m = ReceivedUnread) msgs))) \<and>
       mm_cf_tx t = mm_cf_tx s \<and> mm_jobs t = mm_jobs s))"
proof -
  obtain r1 s1 where s1: "for_each msgs (store_listed E) s = (r1, s1)"
    by (cases "for_each msgs (store_listed E) s")
  note listed = for_each_listed [OF s1]
  have rest: "(r, t) = (case r1 of
      Ok _ \<Rightarrow> (Ok (), let s2 = m_cf ProcessMessages s1 in if get_modem s2 then m_spawn DeleteSms s2 else s2)
    | Err e \<Rightarrow> (Err e, s1) | Panic \<Rightarrow> (Panic, s1))"
    using assms s1 by (auto simp: cmgl_complete_def then_do_def and_then_def modify_def Let_def split: outcome.splits)
  show ?thesis
    using listed but_storeD [of s1 s] rest
    by (cases r1) (auto simp: Let_def get_modem_def m_cf_def m_spawn_def unread_def)
qed

text \<open>
  A message that is not unread any more is never stored, and deleted all the same: if the process
  stops between the listing, which marks messages as read, and storing them, they are lost.
\<close>
theorem read_messages_are_only_deleted:
  assumes "\<forall>m \<in> set msgs. status m \<noteq> ReceivedUnread" and "get_modem s"
  shows "cmgl_complete E msgs s = (Ok (), m_spawn DeleteSms (m_cf ProcessMessages s))"
proof -
  have "for_each msgs (store_listed E) s = (Ok (), s)"
    using assms(1) by (induction msgs) (auto simp: store_listed_def ret_def then_do_def and_then_def)
  then show ?thesis
    using assms(2) by (simp add: cmgl_complete_def then_do_Ok modify_def get_modem_def m_cf_def)
qed

section \<open>Messages to send\<close>

text \<open>
  A poll that succeeds drops no message that was to be sent: in their order, each becomes one job
  with a PDU for every part of its encoding, or the administrator is told that it was not sent.
\<close>
theorem no_sms_is_dropped:
  assumes "manager_poll E M s = (Ok (), t)"
  shows "\<exists>ok. length ok = length (sends (mm_rx s)) \<and>
    filter is_send (mm_jobs t) = filter is_send (mm_jobs s) @
      map (\<lambda>p. send_job M (fst p)) (filter snd (zip (sends (mm_rx s)) ok)) \<and>
    count_list (mm_cb_tx t) not_sent = count_list (mm_cb_tx s) not_sent + length (filter Not ok)"
proof -
  have frame: "modem_frame s (poll_modem s)" by (rule poll_modem_frame)
  then have "modem_commands E M (mm_rx s) (poll_modem s) = (Ok (), t)"
    using assms by (simp add: manager_poll_def modem_frame_def)
  from modem_commands_sending [OF this] show ?thesis
    using modem_frame_sending [OF frame] by (simp add: sending_def refusals_def)
qed

section \<open>Coming back\<close>


section \<open>A failing command\<close>

text \<open>
  An error that the modem answers is treated like no answer, and a listing that fails resets the
  modem twice: the initialisation that the first reset starts is given up by the second.
\<close>
theorem failed_listing_resets_twice:
  assumes "mm_inner s = ModemRunning []" "mm_path s = Some p" "mm_rx s = []"
    and "mm_timers s = [TimerReady]" "mm_inits s = []"
  shows "list_done (JobErr e) s = list_done JobTimedOut s"
    and "manager_poll E M (list_done (JobErr e) s) =
      (Ok (), s\<lparr>mm_timers := [], mm_inner := make_delay (mm_delay_ms s) s\<rparr>)"
proof -
  show "list_done (JobErr e) s = list_done JobTimedOut s"
    by (simp add: list_done_def command_timeout_def)
  let ?fail = "CmglFailed (Failure ''Modem command timeout reached'' [])"
  have queued: "list_done (JobErr e) s = s\<lparr>mm_rx := [CommandTimeout, ?fail]\<rparr>"
    using assms by (simp add: list_done_def command_timeout_def m_int_def)
  have idle: "poll_modem u = u" if "modem_step u = Inl (False, u)" "\<And>us. mm_inner u = ModemRunning us \<Longrightarrow> us = []" for u
    using that by (cases "mm_inner u")
      (simp_all add: poll_modem.simps [of u] urc_round_def modem_poll_Inl poll_urc_rx_def)
  have "poll_modem (s\<lparr>mm_rx := [CommandTimeout, ?fail]\<rparr>) = s\<lparr>mm_rx := [CommandTimeout, ?fail]\<rparr>"
    using assms by (intro idle) (simp_all add: modem_step_def)
  moreover have "poll_modem (modem_report_error 0 (s\<lparr>mm_rx := [?fail]\<rparr>)) =
      s\<lparr>mm_rx := [?fail], mm_timers := [], mm_inner := ModemInitializing p\<rparr>" (is "poll_modem ?w = ?i")
  proof -
    have w: "mm_inner ?w = ModemWaiting (mm_now s)" "mm_path ?w = Some p" "mm_timers ?w = [TimerReady]"
      using assms by (simp_all add: modem_report_error_def make_delay_def)
    have "modem_step ?i = Inl (False, ?i)" using assms by (simp add: modem_step_def)
    then have "modem_poll ?w = (False, ?i)"
      using modem_attempt [OF w] by (simp add: modem_poll_Inl modem_report_error_def)
    then show ?thesis by (simp add: poll_modem.simps [of ?w] urc_round_def poll_urc_rx_def)
  qed
  moreover have "poll_modem (s\<lparr>mm_timers := [], mm_rx := [], mm_inner := make_delay (mm_delay_ms s) s\<rparr>) =
      s\<lparr>mm_timers := [], mm_inner := make_delay (mm_delay_ms s) s\<rparr>"
  proof -
    have "s\<lparr>mm_timers := [], mm_rx := [], mm_inner := i\<rparr> = s\<lparr>mm_timers := [], mm_inner := i\<rparr>" for i
      using assms(3) by (cases s) simp
    then show ?thesis using idle [of "s\<lparr>mm_timers := [], mm_inner := make_delay (mm_delay_ms s) s\<rparr>"]
      by (simp add: modem_step_def make_delay_def)
  qed
  ultimately show "manager_poll E M (list_done (JobErr e) s) =
      (Ok (), s\<lparr>mm_timers := [], mm_inner := make_delay (mm_delay_ms s) s\<rparr>)"
    using assms(3) queued
    by (simp add: manager_poll_def modem_handle_def on_command_timeout_def cmgl_failed_def
        report_modem_error_def modem_report_error_def make_delay_def ret_def)
qed


section \<open>Witnesses\<close>

definition ex_mlib :: "8 word modem_lib" where
  "ex_mlib = \<lparr>encode_message = (\<lambda>s. [map (word_of_nat \<circ> of_char) s]), make_simple_message = (\<lambda>a p. number a @ p)\<rparr>"

definition ex_mdb :: db where
  "ex_mdb = \<lparr>recipients = [], messages = [], groups = [], wa_persistence = [], wa_msgids = [],
     next_recipient_id = 1, next_message_id = 1, next_group_id = 1, db_clock = 0, faults = []\<rparr>"

definition ex_mcfg :: modem_config where
  "ex_mcfg = \<lparr>mc_modem_path = Some ''/dev/ttyUSB0'', mc_cmgl_secs = None, mc_restart_delay_ms = None,
     mc_restart_timeout_ms = None, mc_command_timeout_ms = None\<rparr>"

definition ex_modem :: "8 word modem_mgr" where
  "ex_modem = \<lparr>mm_inner = ModemUninitialized, mm_store = ex_mdb, mm_path = Some ''/dev/ttyUSB0'',
     mm_delay_ms = 5000, mm_timeout_ms = 30000, mm_cmd_timeout_ms = 30000, mm_rx = [], mm_cf_tx = [],
     mm_cb_tx = [], mm_jobs = [], mm_now = 0, mm_timers = [], mm_inits = []\<rparr>"

definition ex_sender :: "8 word pdu_address" where
  "ex_sender = \<lparr>type_addr = 0x91, number = [1, 2]\<rparr>"

definition ex_sms :: "message_status \<Rightarrow> 8 word sms_message" where
  "ex_sms st = \<lparr>status = st,
     pdu = \<lparr>originating_address = ex_sender, decode_message = Inr \<lparr>gsm_text = ''hi'', concatenated = None\<rparr>\<rparr>,
     raw_pdu = [0, 0, 0, 104, 105]\<rparr>"

lemmas ex_modem_defs = ex_mdb_def ex_mcfg_def ex_modem_def ex_mlib_def ex_sender_def ex_sms_def

text \<open>A modem that is turned off is brought up by a path: its initialisation is the one asked for.\<close>

theorem modem_invariant_witness:
  "db_inv ex_mdb \<and> fst (manager_poll ex_ext ex_mlib
     (m_int (UpdatePath (Some ''/dev/modem'')) (modem_new ex_mcfg ex_modem ex_mdb))) \<noteq> Panic"
proof -
  have "modem_reach ex_ext ex_mlib ex_mcfg
      (m_int (UpdatePath (Some ''/dev/modem'')) (modem_new ex_mcfg ex_modem ex_mdb))"
    by (intro modem_reach.arrives modem_reach.start) (simp add: ex_mdb_def db_inv_def key_ok_def hm_wf_def)
  from modem_invariant [OF this] show ?thesis by (simp add: modem_new_def m_int_def)
qed

theorem messages_are_stored_before_deletion_witness:
  "map sms_row (messages (mm_store (snd (cmgl_complete ex_ext [ex_sms OtherStatus, ex_sms ReceivedUnread]
     (ex_modem\<lparr>mm_inner := ModemRunning []\<rparr>))))) = [listed_row ex_ext (ex_sms ReceivedUnread)]"
proof -
  let ?s = "ex_modem\<lparr>mm_inner := ModemRunning []\<rparr>"
  let ?ms = "[ex_sms OtherStatus, ex_sms ReceivedUnread]"
  have ok: "fst (cmgl_complete ex_ext ?ms ?s) = Ok ()"
    by (simp add: cmgl_complete_def store_listed_def m_db_def on_field_def store_sms_message_def
        insert_message_def comp_simps ex_modem_defs Let_def)
  obtain t where t: "cmgl_complete ex_ext ?ms ?s = (Ok (), t)"
    using ok by (cases "cmgl_complete ex_ext ?ms ?s") simp
  from messages_are_stored_before_deletion [OF t] show ?thesis
    using t by (auto simp: ex_modem_def ex_mdb_def ex_sms_def)
qed

theorem no_sms_is_dropped_witness:
  "count_list (mm_cb_tx (snd (manager_poll ex_ext ex_mlib
     (ex_modem\<lparr>mm_rx := [SendMessage ex_sender ''hi'']\<rparr>)))) not_sent = 1"
proof -
  let ?s = "ex_modem\<lparr>mm_rx := [SendMessage ex_sender ''hi'']\<rparr>"
  have idle: "poll_modem ?s = ?s\<lparr>mm_inner := ModemInitializing ''/dev/ttyUSB0''\<rparr>" (is "_ = ?i")
  proof -
    have "modem_step ?s = Inr ?i" "modem_step ?i = Inl (False, ?i)"
      by (simp_all add: modem_step_def ex_modem_def)
    then have "modem_poll ?s = (False, ?i)" by (simp add: modem_poll_Inr modem_poll_Inl)
    then show ?thesis by (simp add: poll_modem.simps [of ?s] urc_round_def poll_urc_rx_def)
  qed
  have run: "manager_poll ex_ext ex_mlib ?s = (Ok (), m_cb not_sent (?i\<lparr>mm_rx := []\<rparr>))"
    using idle
    by (simp add: manager_poll_def modem_handle_def send_sms_def with_modem_def get_modem_def
        not_sent_def ret_def ex_modem_def)
  have jobs: "filter is_send (mm_jobs (m_cb not_sent (?i\<lparr>mm_rx := []\<rparr>))) = []"
    by (simp add: m_cb_def ex_modem_def)
  from no_sms_is_dropped [OF run] obtain ok where "length ok = 1"
    "filter snd (zip [(ex_sender, ''hi'')] ok) = []"
    "count_list (mm_cb_tx (m_cb not_sent (?i\<lparr>mm_rx := []\<rparr>))) not_sent = length (filter Not ok)"
    using jobs by (auto simp: ex_modem_def)
  then show ?thesis using run by (cases ok) auto
qed


end
