(* ===== verification/Irc_Client.thy ===== *)
theory Irc_Client
  imports Sender_Common Wa_Lib
begin

text \<open>
  The connection to an IRC server as the library \<open>irc\<close> gives it to the contacts and to the control
  bot: a client that sends commands, a stream of lines, and a future that writes what was sent.
\<close>

section \<open>The connection\<close>

text \<open>The methods of the client that the code calls: each sends one command.\<close>

datatype client_cmd =
    SendNotice string string
  | SendPrivmsg string string
  | SendJoin string
  | SendPart string
  | SendRaw string "string list"
  | SendNick string
  | SendAway "string option"
  | Identify

text \<open>What the stream of lines and the writing future answer when polled.\<close>

datatype line_answer = LineIn in_msg | LinePending | LineFailed | LinesEnded
datatype write_answer = WriteReady | WritePending | WriteFailed

text \<open>
  \<open>cl_sends\<close> says of each command to come whether it is refused. Past the end of a schedule every
  command is taken and nothing is ready.
\<close>

record irc_client =
  cl_sent :: "client_cmd list"
  cl_sends :: "bool list"
  cl_stream :: "line_answer list"
  cl_writes :: "write_answer list"

definition client_send :: "client_cmd \<Rightarrow> (irc_client, unit) comp" where
  "client_send c cl = (case cl_sends cl of
      [] \<Rightarrow> (Ok (), cl\<lparr>cl_sent := cl_sent cl @ [c]\<rparr>)
    | True # as \<Rightarrow> (Err IrcError, cl\<lparr>cl_sends := as\<rparr>)
    | False # as \<Rightarrow> (Ok (), cl\<lparr>cl_sends := as, cl_sent := cl_sent cl @ [c]\<rparr>))"

lemma client_send_result:
  "client_send c cl = (r, cl') \<Longrightarrow>
     (r = Ok () \<and> cl_sent cl' = cl_sent cl @ [c] \<or> r = Err IrcError \<and> cl_sent cl' = cl_sent cl) \<and>
     cl_stream cl' = cl_stream cl \<and> cl_writes cl' = cl_writes cl"
  by (auto simp: client_send_def split: list.splits bool.splits)

lemma client_send_healthy: "cl_sends cl = [] \<Longrightarrow> client_send c cl = (Ok (), cl\<lparr>cl_sent := cl_sent cl @ [c]\<rparr>)"
  by (simp add: client_send_def)

section \<open>The loops of a poll\<close>

text \<open>\<open>while let Async::Ready(_) = self.irc.1.poll()? {}\<close>\<close>

fun write_all :: "write_answer list \<Rightarrow> unit outcome \<times> write_answer list" where
  "write_all [] = (Ok (), [])"
| "write_all (WriteReady # as) = write_all as"
| "write_all (WritePending # as) = (Ok (), as)"
| "write_all (WriteFailed # as) = (Err IrcError, as)"

definition client_write :: "(irc_client, unit) comp" where
  "client_write cl = (case write_all (cl_writes cl) of (r, as) \<Rightarrow> (r, cl\<lparr>cl_writes := as\<rparr>))"

lemma write_all_no_panic: "fst (write_all as) \<noteq> Panic"
  by (induction as rule: write_all.induct) simp_all

lemma client_write_result:
  "client_write cl = (r, cl') \<Longrightarrow> r \<noteq> Panic \<and> cl_sent cl' = cl_sent cl \<and> cl_sends cl' = cl_sends cl \<and>
     cl_stream cl' = cl_stream cl"
  using write_all_no_panic [of "cl_writes cl"] by (auto simp: client_write_def split: prod.splits)

text \<open>
  The loop over the lines of the stream, for a component that handles a line by \<open>h\<close>; \<open>put\<close> takes a
  line off the stream.
\<close>

primrec drain_lines ::
  "(line_answer list \<Rightarrow> 's \<Rightarrow> 's) \<Rightarrow> (in_msg \<Rightarrow> ('s, unit) comp) \<Rightarrow> line_answer list \<Rightarrow> ('s, unit) comp" where
  "drain_lines put h [] = ret ()"
| "drain_lines put h (a # as) =
     then_do (modify (put as)) (case a of
         LineIn m \<Rightarrow> then_do (h m) (drain_lines put h as)
       | LinePending \<Rightarrow> ret ()
       | LineFailed \<Rightarrow> err IrcError
       | LinesEnded \<Rightarrow> err (Failure ''irc_stream stopped'' []))"

text \<open>The loop over the commands in a channel, which no handler of these components adds to.\<close>

primrec drain_rx ::
  "('c list \<Rightarrow> 's \<Rightarrow> 's) \<Rightarrow> ('c \<Rightarrow> ('s, unit) comp) \<Rightarrow> 'c list \<Rightarrow> ('s, unit) comp" where
  "drain_rx put h [] = ret ()"
| "drain_rx put h (c # cs) = then_do (modify (put cs)) (then_do (h c) (drain_rx put h cs))"

lemma drain_lines_guarded:
  assumes "\<And>as s. P s \<Longrightarrow> P (put as s)" and "\<And>m. LineIn m \<in> set as \<Longrightarrow> guarded b P (h m)"
  shows "guarded b P (drain_lines put h as)"
  using assms(2)
proof (induction as)
  case (Cons a as)
  show ?case
    unfolding drain_lines.simps
    by (intro guarded guarded_modify assms(1)) (use Cons in \<open>auto split: line_answer.split intro!: guarded\<close>)
qed (simp add: guarded)

lemma drain_rx_guarded:
  assumes "\<And>cs s. P s \<Longrightarrow> P (put cs s)" and "\<And>c. c \<in> set cs \<Longrightarrow> guarded b P (h c)"
  shows "guarded b P (drain_rx put h cs)"
  using assms(2)
proof (induction cs)
  case (Cons c cs)
  then show ?case
    unfolding drain_rx.simps by (intro guarded guarded_modify assms(1)) simp_all
qed (simp add: guarded)

section \<open>Configuration\<close>

record client_config =
  cc_irc_hostname :: string
  cc_admin_nick :: string
  cc_irc_channel :: string
  cc_control_bot_nick :: "string option"
  cc_failure_interval :: "nat option"
  cc_irc_port :: "nat option"
  cc_irc_password :: "string option"
  cc_webirc_password :: "string option"

text \<open>The part of the library's own configuration that the code fills in.\<close>

record irc_lib_config =
  il_nickname :: "string option"
  il_alt_nicks :: "string list option"
  il_realname :: "string option"
  il_server :: "string option"
  il_password :: "string option"
  il_port :: "nat option"
  il_channels :: "string list option"

text \<open>The nick of a prefix: what comes before the first exclamation mark.\<close>

definition prefix_nick :: "string \<Rightarrow> string" where
  "prefix_nick p = hd (split_on (CHR ''!'') p)"

text \<open>
  What becomes of \<open>IrcClient::new_future\<close>: the client with the nick it has, or an error. An error of
  \<open>new_future\<close> itself is an error of the first poll of the future that \<open>Either::B\<close> builds.
\<close>

datatype start_answer = StartPending | StartFailed error | StartReady irc_client string

end
