(* ===== verification/Contact.thy ===== *)
theory Contact
  imports Irc_Client
begin

text \<open>
  \<open>contact.rs\<close>: the IRC client that stands for one contact. It hands the stored messages of its
  contact to the administrator, and the administrator's messages to the modem or to WhatsApp.
\<close>

section \<open>State\<close>

text \<open>
  \<open>cn_wa_tx\<close> and \<open>cn_modem_tx\<close> are what was sent to the two other components, \<open>cn_rx\<close> the commands of
  the contact factory that wait, and \<open>cn_now\<close> the clock.
\<close>

record ('t, 'j) contact_mgr =
  cn_irc :: irc_client
  cn_admin :: string
  cn_nick :: string
  cn_addr :: "'t pdu_address"
  cn_store :: db
  cn_id :: bool
  cn_wa_mode :: bool
  cn_admin_is_online :: bool
  cn_connected :: bool
  cn_presence :: "string option"
  cn_channels :: "string list"
  cn_webirc_password :: "string option"
  cn_wa_tx :: "('t, 'j) whatsapp_command list"
  cn_modem_tx :: "'t modem_command list"
  cn_rx :: "contact_manager_command list"
  cn_now :: int

definition cn_client :: "(irc_client, 'a) comp \<Rightarrow> (('t, 'j) contact_mgr, 'a) comp" where
  "cn_client = on_field cn_irc (\<lambda>c s. s\<lparr>cn_irc := c\<rparr>)"

definition cn_send :: "client_cmd \<Rightarrow> (('t, 'j) contact_mgr, unit) comp" where
  "cn_send c = cn_client (client_send c)"

definition cn_notice :: "string \<Rightarrow> (('t, 'j) contact_mgr, unit) comp" where
  "cn_notice x = and_then (gets cn_admin) (\<lambda>a. cn_send (SendNotice a x))"

definition cn_db :: "(db, 'a) comp \<Rightarrow> (('t, 'j) contact_mgr, 'a) comp" where
  "cn_db = on_field cn_store (\<lambda>d s. s\<lparr>cn_store := d\<rparr>)"

definition add_command :: "contact_manager_command \<Rightarrow> ('t, 'j) contact_mgr \<Rightarrow> ('t, 'j) contact_mgr" where
  "add_command c s = s\<lparr>cn_rx := cn_rx s @ [c]\<rparr>"

section \<open>The trait \<open>Sender\<close>\<close>

definition cn_report_error :: "string \<Rightarrow> string \<Rightarrow> (('t, 'j) contact_mgr, unit) comp" where
  "cn_report_error _ e = cn_notice e"

definition cn_send_irc_message :: "string \<Rightarrow> string \<Rightarrow> string \<Rightarrow> (('t, 'j) contact_mgr, unit) comp" where
  "cn_send_irc_message _ dst msg = cn_send (SendPrivmsg dst msg)"

definition contact_sender :: "('t, 'j) contact_mgr sender_ops" where
  "contact_sender =
     \<lparr>report_error = cn_report_error, sender_db = cn_store, sender_db_put = (\<lambda>d s. s\<lparr>cn_store := d\<rparr>),
      private_target = gets cn_admin, send_irc_message = cn_send_irc_message,
      ensure_joined = ensure_joined_default, sender_now = cn_now\<rparr>"

section \<open>Groups and messages\<close>

primrec cn_join :: "group list \<Rightarrow> (('t, 'j) contact_mgr, string list) comp" where
  "cn_join [] = ret []"
| "cn_join (g # gs) =
     then_do (cn_send (SendJoin (g_channel g)))
     (and_then (cn_join gs) (\<lambda>chans. ret (g_channel g # chans)))"

definition cn_process_groups :: "('t, 'j) ext \<Rightarrow> (('t, 'j) contact_mgr, unit) comp" where
  "cn_process_groups E =
     and_then (gets cn_connected) (\<lambda>con. if \<not> con then ret () else
     and_then (gets cn_addr) (\<lambda>a.
     and_then (cn_db (get_groups_for_recipient E a)) (\<lambda>grps.
     and_then (cn_join grps) (\<lambda>chans.
     and_then (gets cn_channels) (\<lambda>old.
     then_do (modify (\<lambda>s. s\<lparr>cn_channels := chans\<rparr>))
       (for_each old (\<lambda>ch. if ch \<notin> set chans then cn_send (SendPart ch) else ret ())))))))"

definition cn_switch_mode :: "('t, 'j) ext \<Rightarrow> bool \<Rightarrow> (('t, 'j) contact_mgr, unit) comp" where
  "cn_switch_mode E wa =
     and_then (gets (\<lambda>s. (cn_wa_mode s, cn_addr s))) (\<lambda>(old, a).
       if old \<noteq> wa
       then then_do (modify (\<lambda>s. s\<lparr>cn_wa_mode := wa\<rparr>))
         (then_do (cn_db (update_recipient_wa E a wa))
           (cn_notice (if wa then ''Notice: WhatsApp mode automatically enabled.''
              else ''Notice: SMS mode automatically enabled.'')))
       else ret ())"

definition cn_process_message :: "('t, 'j) ext \<Rightarrow> message \<Rightarrow> (('t, 'j) contact_mgr, unit) comp" where
  "cn_process_message E msg = (case m_pdu msg of
      Some raw \<Rightarrow> (case deliver_try_from E raw of
          None \<Rightarrow> err PduError
        | Some pd \<Rightarrow> then_do (cn_switch_mode E False) (process_msg_pdu E contact_sender [] msg pd))
    | None \<Rightarrow> then_do (cn_switch_mode E True) (process_msg_plain E contact_sender [] msg))"

definition cn_process_messages :: "('t, 'j) ext \<Rightarrow> (('t, 'j) contact_mgr, unit) comp" where
  "cn_process_messages E =
     and_then (gets (\<lambda>s. (cn_connected s, cn_admin_is_online s, cn_addr s))) (\<lambda>(con, online, a).
       if \<not> con then ret ()
       else if \<not> online then ret ()
       else and_then (cn_db (get_messages_for_recipient E a)) (\<lambda>msgs. for_each msgs (cn_process_message E)))"

section \<open>Commands of the factory\<close>

definition cn_update_away :: "(('t, 'j) contact_mgr, unit) comp" where
  "cn_update_away =
     and_then (gets (\<lambda>s. (cn_connected s, cn_presence s))) (\<lambda>(con, p).
       if \<not> con then ret () else cn_send (SendAway p))"

definition cn_change_nick :: "('t, 'j) ext \<Rightarrow> string \<Rightarrow> int \<Rightarrow> (('t, 'j) contact_mgr, unit) comp" where
  "cn_change_nick E nick src =
     and_then (gets cn_addr) (\<lambda>a.
       then_do (cn_db (update_recipient_nick E a nick src)) (cn_send (SendNick nick)))"

definition cn_handle_int_rx :: "('t, 'j) ext \<Rightarrow> contact_manager_command \<Rightarrow> (('t, 'j) contact_mgr, unit) comp" where
  "cn_handle_int_rx E cmc = (case cmc of
      CmProcessMessages \<Rightarrow> cn_process_messages E
    | CmProcessGroups \<Rightarrow> cn_process_groups E
    | UpdateAway msg \<Rightarrow> then_do (modify (\<lambda>s. s\<lparr>cn_presence := msg\<rparr>)) cn_update_away
    | ChangeNick nick src \<Rightarrow> cn_change_nick E nick src
    | SetWhatsapp wam \<Rightarrow>
        then_do (modify (\<lambda>s. s\<lparr>cn_wa_mode := wam\<rparr>))
          (and_then (gets cn_addr) (\<lambda>a. cn_db (update_recipient_wa E a wam))))"

section \<open>Lines from the server\<close>

definition cn_initialize_watch :: "(('t, 'j) contact_mgr, unit) comp" where
  "cn_initialize_watch = and_then (gets cn_admin) (\<lambda>a. cn_send (SendRaw ''WATCH'' [CHR ''+'' # a]))"

definition cn_on_connected :: "('t, 'j) ext \<Rightarrow> (('t, 'j) contact_mgr, unit) comp" where
  "cn_on_connected E =
     then_do (modify (\<lambda>s. s\<lparr>cn_connected := True\<rparr>))
     (then_do (cn_process_messages E)
     (then_do cn_initialize_watch
     (then_do cn_update_away (cn_process_groups E))))"

definition cn_on_nick :: "string option \<Rightarrow> string \<Rightarrow> (('t, 'j) contact_mgr, unit) comp" where
  "cn_on_nick pre nick = (case pre of
      None \<Rightarrow> ret ()
    | Some from \<Rightarrow> modify (\<lambda>s. if prefix_nick from = cn_nick s then s\<lparr>cn_nick := nick\<rparr> else s))"

definition cn_on_privmsg :: "string option \<Rightarrow> string \<Rightarrow> string \<Rightarrow> (('t, 'j) contact_mgr, unit) comp" where
  "cn_on_privmsg pre target mesg = (case pre of
      None \<Rightarrow> ret ()
    | Some from \<Rightarrow>
        and_then (gets (\<lambda>s. (cn_admin s, cn_nick s))) (\<lambda>(admin, nick).
          if prefix_nick from \<noteq> admin
          then cn_send (SendNotice (prefix_nick from)
            (''Message not delivered; you aren'' @ [CHR 0x27] @ ''t the SMS bridge administrator!''))
          else if target = nick
          then modify (\<lambda>s.
            if cn_wa_mode s then s\<lparr>cn_wa_tx := cn_wa_tx s @ [SendDirectMessage (cn_addr s) mesg]\<rparr>
            else s\<lparr>cn_modem_tx := cn_modem_tx s @ [SendMessage (cn_addr s) mesg]\<rparr>)
          else ret ()))"

text \<open>The numerics of the WATCH command: 600 and 604 tell that a nick is there, 601 and 605 that it is not.\<close>

definition cn_on_raw :: "('t, 'j) ext \<Rightarrow> string \<Rightarrow> string list \<Rightarrow> (('t, 'j) contact_mgr, unit) comp" where
  "cn_on_raw E cmd args =
     (if length args < 2 then ret ()
      else and_then (gets (\<lambda>s. (args ! 1 = cn_admin s, cn_admin_is_online s))) (\<lambda>(ours, online).
        if cmd = ''600'' \<or> cmd = ''604'' then
          (if ours \<and> \<not> online
           then then_do (modify (\<lambda>s. s\<lparr>cn_admin_is_online := True\<rparr>)) (cn_process_messages E)
           else ret ())
        else if cmd = ''601'' \<or> cmd = ''605'' then
          (if ours \<and> online then modify (\<lambda>s. s\<lparr>cn_admin_is_online := False\<rparr>) else ret ())
        else ret ()))"

definition cn_handle_irc_message :: "('t, 'j) ext \<Rightarrow> in_msg \<Rightarrow> (('t, 'j) contact_mgr, unit) comp" where
  "cn_handle_irc_message E im = (case command im of
      Response r _ _ \<Rightarrow> if r = RPL_ENDOFMOTD \<or> r = ERR_NOMOTD then cn_on_connected E else ret ()
    | NICK nick \<Rightarrow> cn_on_nick (prefix im) nick
    | PRIVMSG target mesg \<Rightarrow> cn_on_privmsg (prefix im) target mesg
    | Raw cmd args suffix \<Rightarrow> cn_on_raw E cmd args
    | ERROR msg \<Rightarrow> err (Failure ''Error from server: {}'' [msg])
    | _ \<Rightarrow> ret ())"

section \<open>Polling\<close>

definition cn_vhost :: "('t, 'j) ext \<Rightarrow> 't pdu_address \<Rightarrow> string" where
  "cn_vhost E a = string_to_irc_nick E (addr_to_string E a) @ ''.sms-irc.theta.eu.org''"

definition cn_identify :: "('t, 'j) ext \<Rightarrow> (('t, 'j) contact_mgr, unit) comp" where
  "cn_identify E =
     and_then (gets (\<lambda>s. (cn_id s, cn_webirc_password s, cn_addr s))) (\<lambda>(done_id, pwo, a).
       if \<not> done_id
       then then_do (case pwo of
             Some pw \<Rightarrow> cn_send (SendRaw ''WEBIRC'' [pw, ''sms-irc'', cn_vhost E a, ''127.0.0.1''])
           | None \<Rightarrow> ret ())
         (then_do (cn_send Identify) (modify (\<lambda>s. s\<lparr>cn_id := True\<rparr>)))
       else ret ())"

definition cn_poll :: "('t, 'j) ext \<Rightarrow> (('t, 'j) contact_mgr, unit) comp" where
  "cn_poll E =
     then_do (cn_identify E)
     (then_do (cn_client client_write)
     (then_do (and_then (gets (\<lambda>s. cl_stream (cn_irc s)))
         (drain_lines (\<lambda>as s. s\<lparr>cn_irc := (cn_irc s)\<lparr>cl_stream := as\<rparr>\<rparr>) (cn_handle_irc_message E)))
     (then_do (and_then (gets cn_rx) (drain_rx (\<lambda>cs s. s\<lparr>cn_rx := cs\<rparr>) (cn_handle_int_rx E)))
       (cn_client client_write))))"

section \<open>Setting a contact up\<close>

text \<open>
  The future that \<open>ContactManager::new\<close> returns: one that fails where the number has no address, or
  one that connects, with the address, the transport, the configuration and what it will answer.
\<close>

datatype 't starting =
    Refused error
  | Connecting "'t pdu_address" bool irc_lib_config "start_answer list"

fun start_poll :: "'t starting \<Rightarrow> start_answer \<times> 't starting" where
  "start_poll (Refused e) = (StartFailed e, Refused e)"
| "start_poll (Connecting a w c []) = (StartPending, Connecting a w c [])"
| "start_poll (Connecting a w c (x # xs)) = (x, Connecting a w c xs)"

definition cn_lib_config :: "('t, 'j) ext \<Rightarrow> client_config \<Rightarrow> recipient \<Rightarrow> 't pdu_address \<Rightarrow> irc_lib_config" where
  "cn_lib_config E cfg recip a =
     \<lparr>il_nickname = Some (r_nick recip), il_alt_nicks = Some [''smsirc_fallback''],
      il_realname = Some (addr_to_string E a), il_server = Some (cc_irc_hostname cfg),
      il_password = cc_irc_password cfg, il_port = cc_irc_port cfg,
      il_channels = Some [cc_irc_channel cfg]\<rparr>"

definition cn_start ::
  "('t, 'j) ext \<Rightarrow> client_config \<Rightarrow> recipient \<Rightarrow> start_answer list \<Rightarrow> 't starting outcome" where
  "cn_start E cfg recip as = (case get_addr E (r_phone_number recip) of
      Ok a \<Rightarrow> Ok (Connecting a (r_whatsapp recip) (cn_lib_config E cfg recip a) as)
    | Err e \<Rightarrow> Ok (Refused e)
    | Panic \<Rightarrow> Panic)"

text \<open>The contact the future resolves to. The administrator is taken to be online at first.\<close>

definition cn_new ::
  "client_config \<Rightarrow> 't pdu_address \<Rightarrow> bool \<Rightarrow> irc_client \<Rightarrow> string \<Rightarrow> db \<Rightarrow> ('t, 'j) contact_mgr" where
  "cn_new cfg a wa cli nick d =
     \<lparr>cn_irc = cli, cn_admin = cc_admin_nick cfg, cn_nick = nick, cn_addr = a, cn_store = d,
      cn_id = False, cn_wa_mode = wa, cn_admin_is_online = True, cn_connected = False,
      cn_presence = None, cn_channels = [], cn_webirc_password = cc_webirc_password cfg,
      cn_wa_tx = [], cn_modem_tx = [], cn_rx = [], cn_now = 0\<rparr>"

end
