(* ===== verification/Contact_Factory.thy ===== *)
theory Contact_Factory
  imports Contact Contact_Common
begin

text \<open>
  \<open>contact_factory.rs\<close>: the factory that keeps an IRC client for every contact, starts new ones, polls
  them, and starts those again that failed.
\<close>

section \<open>State\<close>

text \<open>
  \<open>fa_env\<close> holds what the connections to come will answer, one schedule for each. The store and the
  channels to the modem and to WhatsApp are shared with the contacts.
\<close>

record ('t, 'j) contact_factory =
  fa_rx :: "'t contact_factory_command list"
  fa_cb_tx :: "control_bot_command list"
  fa_wa_tx :: "('t, 'j) whatsapp_command list"
  fa_m_tx :: "'t modem_command list"
  fa_starting :: "('t pdu_address, 't starting) hash_map"
  fa_contacts :: "('t pdu_address, ('t, 'j) contact_mgr) hash_map"
  fa_presence :: "('t pdu_address, string option) hash_map"
  fa_failed :: "'t pdu_address list"
  fa_ticks :: "timer_answer list"
  fa_processed :: "int list"
  fa_cfg :: client_config
  fa_store :: db
  fa_now :: int
  fa_env :: "start_answer list list"

text \<open>A failed contact is tried again every \<open>failure_interval\<close> milliseconds.\<close>

definition fa_interval :: "client_config \<Rightarrow> nat" where
  "fa_interval cfg = (case cc_failure_interval cfg of None \<Rightarrow> 30000 | Some i \<Rightarrow> i)"

definition fa_new ::
  "client_config \<Rightarrow> db \<Rightarrow> 't contact_factory_command list \<Rightarrow> timer_answer list \<Rightarrow> start_answer list list \<Rightarrow> int
   \<Rightarrow> ('t, 'j) contact_factory" where
  "fa_new cfg d rx tks env now =
     \<lparr>fa_rx = rx @ [LoadRecipients], fa_cb_tx = [], fa_wa_tx = [], fa_m_tx = [], fa_starting = [],
      fa_contacts = [], fa_presence = [], fa_failed = [], fa_ticks = tks, fa_processed = [], fa_cfg = cfg,
      fa_store = d, fa_now = now, fa_env = env\<rparr>"

definition set_insert :: "'a \<Rightarrow> 'a list \<Rightarrow> 'a list" where
  "set_insert x xs = (if x \<in> set xs then xs else xs @ [x])"

definition fa_db :: "(db, 'a) comp \<Rightarrow> (('t, 'j) contact_factory, 'a) comp" where
  "fa_db = on_field fa_store (\<lambda>d s. s\<lparr>fa_store := d\<rparr>)"

definition fa_command ::
  "'t pdu_address \<Rightarrow> contact_manager_command \<Rightarrow> ('t, 'j) contact_factory \<Rightarrow> ('t, 'j) contact_factory" where
  "fa_command a c s = (case hm_get (fa_contacts s) a of
      None \<Rightarrow> s
    | Some ct \<Rightarrow> s\<lparr>fa_contacts := hm_insert a (add_command c ct) (fa_contacts s)\<rparr>)"

section \<open>The trait \<open>ContactManagerManager\<close>\<close>

definition fa_has_contact :: "'t pdu_address \<Rightarrow> ('t, 'j) contact_factory \<Rightarrow> bool" where
  "fa_has_contact a s \<longleftrightarrow> hm_get (fa_starting s) a \<noteq> None \<or> hm_get (fa_contacts s) a \<noteq> None"

definition fa_setup_contact_for ::
  "('t, 'j) ext \<Rightarrow> recipient \<Rightarrow> 't pdu_address \<Rightarrow> (('t, 'j) contact_factory, unit) comp" where
  "fa_setup_contact_for E recip addr =
     and_then (gets (\<lambda>s. (fa_cfg s, case fa_env s of [] \<Rightarrow> [] | as # _ \<Rightarrow> as))) (\<lambda>(cfg, as).
     and_then (lift (cn_start E cfg recip as)) (\<lambda>fut.
       modify (\<lambda>s. s\<lparr>fa_starting := hm_insert addr fut (fa_starting s), fa_env := tl (fa_env s)\<rparr>)))"

definition fa_remove_contact_for :: "'t pdu_address \<Rightarrow> (('t, 'j) contact_factory, unit) comp" where
  "fa_remove_contact_for addr = modify (\<lambda>s. s\<lparr>fa_contacts := hm_remove addr (fa_contacts s)\<rparr>)"

definition fa_resolve_nick :: "('t, 'j) ext \<Rightarrow> string \<Rightarrow> ('t, 'j) contact_factory \<Rightarrow> 't pdu_address option" where
  "fa_resolve_nick E nick s =
     map_option fst (find (\<lambda>p. cn_nick (snd p) = nick) (hm_iter (ord_addr E) (fa_contacts s)))"

definition fa_update_away :: "'t pdu_address \<Rightarrow> string option \<Rightarrow> (('t, 'j) contact_factory, unit) comp" where
  "fa_update_away addr away =
     then_do (modify (fa_command addr (UpdateAway away)))
       (modify (\<lambda>s. s\<lparr>fa_presence := hm_insert addr away (fa_presence s)\<rparr>))"

definition fa_forward_cmd ::
  "'t pdu_address \<Rightarrow> contact_manager_command \<Rightarrow> (('t, 'j) contact_factory, unit) comp" where
  "fa_forward_cmd addr cmd = (case cmd of
      UpdateAway a \<Rightarrow> fa_update_away addr a
    | _ \<Rightarrow> modify (fa_command addr cmd))"

definition factory_cmm :: "('t, 'j) ext \<Rightarrow> (('t, 'j) contact_factory, 't, 'j) cmm" where
  "factory_cmm E =
     \<lparr>wa_tx_send = (\<lambda>c. modify (\<lambda>s. s\<lparr>fa_wa_tx := fa_wa_tx s @ [c]\<rparr>)),
      m_tx_send = (\<lambda>c. modify (\<lambda>s. s\<lparr>fa_m_tx := fa_m_tx s @ [c]\<rparr>)),
      cb_tx_send = (\<lambda>c. modify (\<lambda>s. s\<lparr>fa_cb_tx := fa_cb_tx s @ [c]\<rparr>)),
      cmm_db = fa_store, cmm_db_put = (\<lambda>d s. s\<lparr>fa_store := d\<rparr>),
      has_contact = fa_has_contact, setup_contact_for = fa_setup_contact_for E,
      remove_contact_for = fa_remove_contact_for, forward_cmd = fa_forward_cmd,
      resolve_nick = fa_resolve_nick E\<rparr>"

section \<open>Commands\<close>

definition fa_load_recipients :: "('t, 'j) ext \<Rightarrow> (('t, 'j) contact_factory, unit) comp" where
  "fa_load_recipients E =
     and_then (fa_db get_all_recipients) (\<lambda>rs. for_each rs (setup_recipient E (factory_cmm E)))"

definition fa_process_groups :: "(('t, 'j) contact_factory, unit) comp" where
  "fa_process_groups =
     modify (\<lambda>s. s\<lparr>fa_contacts := map (\<lambda>(a, c). (a, add_command CmProcessGroups c)) (fa_contacts s)\<rparr>)"

definition fa_process_message :: "('t, 'j) ext \<Rightarrow> message \<Rightarrow> (('t, 'j) contact_factory, unit) comp" where
  "fa_process_message E msg =
     and_then (gets (\<lambda>s. m_id msg \<in> set (fa_processed s))) (\<lambda>seen.
       if seen then ret ()
       else
         then_do (modify (\<lambda>s. s\<lparr>fa_processed := fa_processed s @ [m_id msg]\<rparr>))
         (and_then (lift (get_addr E (m_phone_number msg))) (\<lambda>addr.
          and_then (gets (\<lambda>s. (hm_get (fa_starting s) addr \<noteq> None, hm_get (fa_contacts s) addr \<noteq> None))) (\<lambda>(st, ct).
            if st then ret ()
            else if ct then modify (fa_command addr CmProcessMessages)
            else then_do (request_contact E (factory_cmm E) addr (m_source msg)) (ret ())))))"

definition fa_process_messages :: "('t, 'j) ext \<Rightarrow> (('t, 'j) contact_factory, unit) comp" where
  "fa_process_messages E = and_then (fa_db get_all_messages) (\<lambda>msgs. for_each msgs (fa_process_message E))"

definition fa_handle :: "('t, 'j) ext \<Rightarrow> 't contact_factory_command \<Rightarrow> (('t, 'j) contact_factory, unit) comp" where
  "fa_handle E msg = (case msg of
      ProcessMessages \<Rightarrow> fa_process_messages E
    | ProcessGroups \<Rightarrow> fa_process_groups
    | LoadRecipients \<Rightarrow> fa_load_recipients E
    | SetupContact addr \<Rightarrow> setup_contact E (factory_cmm E) addr
    | QueryContact addr src \<Rightarrow> query_contact E (factory_cmm E) addr src
    | DropContact addr \<Rightarrow> drop_contact E (factory_cmm E) addr
    | DropContactByNick nick \<Rightarrow> drop_contact_by_nick E (factory_cmm E) nick
    | ForwardCommand addr cmd \<Rightarrow> fa_forward_cmd addr cmd
    | ForwardCommandByNick nick cmd \<Rightarrow> forward_cmd_by_nick (factory_cmm E) nick cmd
    | SubscribePresenceByNick nick \<Rightarrow> subscribe_presence_by_nick (factory_cmm E) nick
    | ProcessAvatars \<Rightarrow> ret ())"

section \<open>Contacts that start\<close>

definition fa_fail :: "'t pdu_address \<Rightarrow> ('t, 'j) contact_factory \<Rightarrow> ('t, 'j) contact_factory" where
  "fa_fail addr s = s\<lparr>fa_failed := set_insert addr (fa_failed s)\<rparr>"

text \<open>One turn of the loop over the starting contacts: whether the future is to be removed.\<close>

definition poll_starting :: "'t pdu_address \<Rightarrow> ('t, 'j) contact_factory \<Rightarrow> bool \<times> ('t, 'j) contact_factory" where
  "poll_starting addr s = (case hm_get (fa_starting s) addr of
      None \<Rightarrow> (False, s)
    | Some fut \<Rightarrow>
        (let (r, fut') = start_poll fut;
             s1 = s\<lparr>fa_starting := hm_insert addr fut' (fa_starting s)\<rparr>
         in case (r, fut') of
              (StartReady cli nick, Connecting a wa _ _) \<Rightarrow>
                (let c = cn_new (fa_cfg s) a wa cli nick (fa_store s);
                     c' = (case hm_get (fa_presence s) addr of None \<Rightarrow> c | Some pre \<Rightarrow> add_command (UpdateAway pre) c)
                 in (True, s1\<lparr>fa_contacts := hm_insert addr c' (fa_contacts s)\<rparr>))
            | (StartFailed e, _) \<Rightarrow> (True, fa_fail addr s1)
            | _ \<Rightarrow> (False, s1)))"

primrec poll_all_starting ::
  "'t pdu_address list \<Rightarrow> ('t, 'j) contact_factory \<Rightarrow> 't pdu_address list \<times> ('t, 'j) contact_factory" where
  "poll_all_starting [] s = ([], s)"
| "poll_all_starting (a # as) s =
     (let (rm, s1) = poll_starting a s; (rms, s2) = poll_all_starting as s1
      in (if rm then a # rms else rms, s2))"

definition fa_poll_starting :: "('t, 'j) ext \<Rightarrow> ('t, 'j) contact_factory \<Rightarrow> ('t, 'j) contact_factory" where
  "fa_poll_starting E s =
     (let (to_remove, s1) = poll_all_starting (ord_addr E (map fst (fa_starting s))) s
      in s1\<lparr>fa_starting := fold hm_remove to_remove (fa_starting s1)\<rparr>)"

section \<open>Contacts\<close>

text \<open>
  A contact is polled on the store, the channels and the clock of the factory. A contact that fails is
  remembered and is to be removed.
\<close>

definition poll_contact ::
  "('t, 'j) ext \<Rightarrow> 't pdu_address \<Rightarrow> (('t, 'j) contact_factory, bool) comp" where
  "poll_contact E addr s = (case hm_get (fa_contacts s) addr of
      None \<Rightarrow> (Ok False, s)
    | Some c \<Rightarrow>
        (let (r, c') = cn_poll E (c\<lparr>cn_store := fa_store s, cn_wa_tx := fa_wa_tx s, cn_modem_tx := fa_m_tx s,
                                    cn_now := fa_now s\<rparr>);
             s' = s\<lparr>fa_contacts := hm_insert addr c' (fa_contacts s), fa_store := cn_store c',
                    fa_wa_tx := cn_wa_tx c', fa_m_tx := cn_modem_tx c'\<rparr>
         in case r of
              Ok _ \<Rightarrow> (Ok False, s')
            | Err e \<Rightarrow> (Ok True, fa_fail addr s')
            | Panic \<Rightarrow> (Panic, s')))"

primrec poll_contacts ::
  "('t, 'j) ext \<Rightarrow> 't pdu_address list \<Rightarrow> (('t, 'j) contact_factory, 't pdu_address list) comp" where
  "poll_contacts E [] = ret []"
| "poll_contacts E (a # as) =
     and_then (poll_contact E a) (\<lambda>rm.
     and_then (poll_contacts E as) (\<lambda>rms. ret (if rm then a # rms else rms)))"

definition fa_poll_contacts :: "('t, 'j) ext \<Rightarrow> (('t, 'j) contact_factory, unit) comp" where
  "fa_poll_contacts E =
     and_then (gets (\<lambda>s. ord_addr E (map fst (fa_contacts s)))) (\<lambda>ks.
     and_then (poll_contacts E ks) (\<lambda>to_remove.
       modify (\<lambda>s. s\<lparr>fa_contacts := fold hm_remove to_remove (fa_contacts s)\<rparr>)))"

section \<open>Contacts that failed\<close>

definition fa_process_failures :: "('t, 'j) ext \<Rightarrow> (('t, 'j) contact_factory, unit) comp" where
  "fa_process_failures E =
     and_then (gets (\<lambda>s. ord_addr E (fa_failed s))) (\<lambda>addrs.
     then_do (modify (\<lambda>s. s\<lparr>fa_failed := []\<rparr>))
       (for_each addrs (setup_contact E (factory_cmm E))))"

primrec fa_drain_ticks :: "('t, 'j) ext \<Rightarrow> timer_answer list \<Rightarrow> (('t, 'j) contact_factory, unit) comp" where
  "fa_drain_ticks E [] = ret ()"
| "fa_drain_ticks E (a # as) =
     then_do (modify (\<lambda>s. s\<lparr>fa_ticks := as\<rparr>)) (case a of
         TimerReady \<Rightarrow> then_do (fa_process_failures E) (fa_drain_ticks E as)
       | TimerPending \<Rightarrow> ret ()
       | TimerFailed \<Rightarrow> err TimerError)"

section \<open>Polling\<close>

definition fa_poll :: "('t, 'j) ext \<Rightarrow> (('t, 'j) contact_factory, unit) comp" where
  "fa_poll E =
     then_do (and_then (gets fa_rx) (drain_rx (\<lambda>cs s. s\<lparr>fa_rx := cs\<rparr>) (fa_handle E)))
     (then_do (modify (fa_poll_starting E))
     (then_do (fa_poll_contacts E)
       (and_then (gets fa_ticks) (fa_drain_ticks E))))"

end
