(* ===== verification/Contact_Facts.thy ===== *)
theory Contact_Facts
  imports Contact Db_Ok
begin

text \<open>
  Facts about the IRC client of a contact: it implements \<open>Sender\<close>, its parts keep the database intact
  and do not panic, and what it does in a whole poll.
\<close>

section \<open>Sending\<close>

lemma cn_send_result:
  "cn_send c s = (r, s') \<Longrightarrow> (\<exists>cl. s' = s\<lparr>cn_irc := cl\<rparr> \<and> cl_stream cl = cl_stream (cn_irc s) \<and>
     (r = Ok () \<and> cl_sent cl = cl_sent (cn_irc s) @ [c] \<or> r = Err IrcError \<and> cl_sent cl = cl_sent (cn_irc s)))"
  by (auto simp: cn_send_def cn_client_def on_field_def dest: client_send_result split: prod.splits)

lemma cn_notice_eq: "cn_notice x s = cn_send (SendNotice (cn_admin s) x) s"
  by (simp add: cn_notice_def)

fun client_privmsgs :: "client_cmd list \<Rightarrow> (string \<times> string) list" where
  "client_privmsgs [] = []"
| "client_privmsgs (c # cs) = (case c of SendPrivmsg t x \<Rightarrow> (t, x) # client_privmsgs cs | _ \<Rightarrow> client_privmsgs cs)"

lemma client_privmsgs_append [simp]: "client_privmsgs (xs @ ys) = client_privmsgs xs @ client_privmsgs ys"
  by (induction xs) (auto split: client_cmd.split)

definition cn_privmsgs :: "('t, 'j) contact_mgr \<Rightarrow> (string \<times> string) list" where
  "cn_privmsgs s = client_privmsgs (cl_sent (cn_irc s))"

lemma cn_privmsgs_simps [simp]:
  "cn_privmsgs (s\<lparr>cn_store := d\<rparr>) = cn_privmsgs s" "cn_privmsgs (s\<lparr>cn_wa_mode := w\<rparr>) = cn_privmsgs s"
  by (simp_all add: cn_privmsgs_def)

interpretation csnd: quiet_sender "contact_sender" "\<lambda>f t x. (t, x)" cn_privmsgs cn_admin
proof
  fix f t x and s :: "('t, 'j) contact_mgr"
  obtain r s' where r: "cn_send (SendPrivmsg t x) s = (r, s')" by (cases "cn_send (SendPrivmsg t x) s")
  show "sender_db contact_sender (snd (send_irc_message contact_sender f t x s)) = sender_db contact_sender s"
    "cn_privmsgs (snd (send_irc_message contact_sender f t x s)) =
      (if fst (send_irc_message contact_sender f t x s) = Ok () then cn_privmsgs s @ [(t, x)] else cn_privmsgs s)"
    "fst (send_irc_message contact_sender f t x s) \<noteq> Panic"
    using cn_send_result [OF r] r by (auto simp: contact_sender_def cn_send_irc_message_def cn_privmsgs_def)
  obtain r' s'' where r': "cn_send (SendNotice (cn_admin s) x) s = (r', s'')"
    by (cases "cn_send (SendNotice (cn_admin s) x) s")
  show "sender_db contact_sender (snd (report_error contact_sender f x s)) = sender_db contact_sender s"
    "cn_privmsgs (snd (report_error contact_sender f x s)) = cn_privmsgs s"
    "fst (report_error contact_sender f x s) \<noteq> Panic"
    using cn_send_result [OF r'] r'
    by (auto simp: contact_sender_def cn_report_error_def cn_notice_eq cn_privmsgs_def)
qed (simp_all add: contact_sender_def ensure_joined_default_def ret_def gets_def)

lemma contact_sender_sel [simp]:
  "sender_db contact_sender = cn_store" "sender_now contact_sender = cn_now"
  "private_target contact_sender = gets cn_admin" "ensure_joined contact_sender ch = ret ()"
  "on_db contact_sender m = cn_db m"
  "send_irc_message contact_sender f t x = cn_send (SendPrivmsg t x)" "report_error contact_sender f e = cn_notice e"
  by (simp_all add: contact_sender_def ensure_joined_default_def on_db_def cn_db_def
      cn_send_irc_message_def cn_report_error_def)

section \<open>Rules for the parts of a poll\<close>

lemma cn_send_guarded:
  "(\<And>s cl. P s \<Longrightarrow> cl_stream cl = cl_stream (cn_irc s) \<Longrightarrow>
      cl_sent cl = cl_sent (cn_irc s) @ [c] \<or> cl_sent cl = cl_sent (cn_irc s) \<Longrightarrow> P (s\<lparr>cn_irc := cl\<rparr>))
   \<Longrightarrow> guarded b P (cn_send c)"
proof (rule guardedI)
  fix s assume keep: "\<And>s cl. P s \<Longrightarrow> cl_stream cl = cl_stream (cn_irc s) \<Longrightarrow>
      cl_sent cl = cl_sent (cn_irc s) @ [c] \<or> cl_sent cl = cl_sent (cn_irc s) \<Longrightarrow> P (s\<lparr>cn_irc := cl\<rparr>)"
    and P: "P s"
  obtain r s' where "cn_send c s = (r, s')" by (cases "cn_send c s")
  with keep [OF P] cn_send_result [OF this] show "P (snd (cn_send c s)) \<and> (b \<longrightarrow> fst (cn_send c s) \<noteq> Panic)"
    by auto
qed

lemma cn_db_guarded:
  assumes "guarded b Q m" and "\<And>s. P s \<Longrightarrow> Q (cn_store s)" and "\<And>s d. P s \<Longrightarrow> Q d \<Longrightarrow> P (s\<lparr>cn_store := d\<rparr>)"
  shows "guarded b P (cn_db m)"
  unfolding cn_db_def by (rule guarded_on_field [where Q = Q]) (use assms in auto)

lemma client_write_guarded:
  assumes "\<And>s cl. P s \<Longrightarrow> cl_sent cl = cl_sent (cn_irc s) \<Longrightarrow> cl_stream cl = cl_stream (cn_irc s) \<Longrightarrow>
      P (s\<lparr>cn_irc := cl\<rparr>)"
  shows "guarded b P (cn_client client_write)"
proof (rule guardedI)
  fix s assume P: "P s"
  obtain r cl where r: "client_write (cn_irc s) = (r, cl)" by (cases "client_write (cn_irc s)")
  then show "P (snd (cn_client client_write s)) \<and> (b \<longrightarrow> fst (cn_client client_write s) \<noteq> Panic)"
    using client_write_result [OF r] assms [OF P] by (simp add: cn_client_def on_field_def)
qed


lemma opening_guarded:
  assumes "\<And>s cl. P s \<Longrightarrow> client_privmsgs (cl_sent cl) = client_privmsgs (cl_sent (cn_irc s)) \<Longrightarrow>
      cl_stream cl = cl_stream (cn_irc s) \<Longrightarrow> P (s\<lparr>cn_irc := cl\<rparr>)"
    and "\<And>s. P s \<Longrightarrow> P (s\<lparr>cn_id := True\<rparr>)"
  shows "guarded b P (then_do (cn_identify E) (cn_client client_write))"
proof -
  have "guarded b P (cn_send c)" if "\<And>t x. c \<noteq> SendPrivmsg t x" for c
    by (rule cn_send_guarded) (use that in \<open>auto intro: assms(1) split: client_cmd.splits\<close>)
  moreover have "guarded b P (cn_client client_write)"
    by (rule client_write_guarded) (auto intro: assms(1))
  ultimately show ?thesis
    unfolding cn_identify_def by (intro guarded guarded_modify) (auto intro: assms(2))
qed

text \<open>
  A predicate on contacts with what it says of the store: commands that carry no message, flags of the
  contact and the statements it makes outside of messages do not bear on it. Lines that
  change more are left to its instances.
\<close>

locale contact_quiet =
  fixes E :: "('t, 'j) ext" and P :: "('t, 'j) contact_mgr \<Rightarrow> bool" and Q :: "db \<Rightarrow> bool" and b :: bool
  assumes store: "P s \<Longrightarrow> Q (cn_store s)" "P s \<Longrightarrow> Q d \<Longrightarrow> P (s\<lparr>cn_store := d\<rparr>)"
    and client: "P s \<Longrightarrow> client_privmsgs (cl_sent cl) = client_privmsgs (cl_sent (cn_irc s)) \<Longrightarrow> P (s\<lparr>cn_irc := cl\<rparr>)"
    and flags: "P s \<Longrightarrow> P (s\<lparr>cn_wa_mode := w\<rparr>)" "P s \<Longrightarrow> P (s\<lparr>cn_presence := p\<rparr>)" "P s \<Longrightarrow> P (s\<lparr>cn_channels := cs\<rparr>)"
      "P s \<Longrightarrow> P (s\<lparr>cn_id := i\<rparr>)" "P s \<Longrightarrow> P (s\<lparr>cn_rx := rx\<rparr>)"
    and statements: "guarded b Q (get_groups_for_recipient E a)" "guarded b Q (get_messages_for_recipient E a)"
      "guarded b Q (update_recipient_wa E a wa)" "guarded b Q (update_recipient_nick E a nk src)"
begin

lemma sends: "(\<And>t x. c \<noteq> SendPrivmsg t x) \<Longrightarrow> guarded b P (cn_send c)"
  by (rule cn_send_guarded, erule client) (auto split: client_cmd.splits)

lemma db_guarded: "guarded b Q m \<Longrightarrow> guarded b P (cn_db m)"
  by (rule cn_db_guarded [where Q = Q]) (auto intro: store)

lemma notice: "guarded b P (cn_notice x)"
  unfolding cn_notice_def by (intro guarded sends) simp

lemma joins: "guarded b P (cn_join gs)"
  by (induction gs) (auto intro!: guarded sends)

lemma process_groups: "guarded b P (cn_process_groups E)"
  unfolding cn_process_groups_def
  by (intro guarded guarded_modify db_guarded statements sends joins flags) simp_all

lemma switch_mode: "guarded b P (cn_switch_mode E wa)"
  unfolding cn_switch_mode_def
  by (intro guarded guarded_modify db_guarded statements notice flags) simp_all

lemma update_away: "guarded b P cn_update_away"
  unfolding cn_update_away_def by (intro guarded sends) simp_all

lemma initialize_watch: "guarded b P cn_initialize_watch"
  unfolding cn_initialize_watch_def by (intro guarded sends) simp

lemma identify: "guarded b P (cn_identify E)"
  unfolding cn_identify_def by (intro guarded guarded_modify sends flags) simp_all

lemma writes: "guarded b P (cn_client client_write)"
  by (rule client_write_guarded, erule client) simp

text \<open>What remains is left to the instance: messages, and the lines that change more.\<close>

lemma other_commands: "c \<noteq> CmProcessMessages \<Longrightarrow> guarded b P (cn_handle_int_rx E c)"
  by (cases c) (auto simp: cn_handle_int_rx_def cn_change_nick_def
      intro!: guarded guarded_modify db_guarded statements process_groups update_away sends flags)

lemma commands: "guarded b P (cn_process_messages E) \<Longrightarrow> guarded b P (cn_handle_int_rx E c)"
  using other_commands [of c] by (cases "c = CmProcessMessages") (auto simp: cn_handle_int_rx_def)

text \<open>Messages, for a predicate that they do not bear on either.\<close>

lemma message_pres:
  assumes "\<And>t x. pres P (cn_send (SendPrivmsg t x))"
    and "\<And>g. pres Q (get_group_by_id g)" "\<And>i. pres Q (delete_message i)" "\<And>n rf. pres Q (get_all_concatenated n rf)"
  shows "pres P (cn_process_message E m)"
proof -
  have db: "pres P (cn_db n)" if "pres Q n" for n
    unfolding cn_db_def by (rule pres_on_field [OF that]) (auto intro: store)
  have "pres P (process_msg_plain E contact_sender [] m)" "pres P (process_msg_pdu E contact_sender [] m pd)" for pd
    by (rule sender_pres; simp add: assms guarded_pres [OF notice] db pres)+
  then show ?thesis
    unfolding cn_process_message_def
    by (auto intro!: pres guarded_pres [OF switch_mode] split: option.split)
qed

lemma messages_pres:
  assumes "\<And>t x. pres P (cn_send (SendPrivmsg t x))"
    and "\<And>g. pres Q (get_group_by_id g)" "\<And>i. pres Q (delete_message i)" "\<And>n rf. pres Q (get_all_concatenated n rf)"
  shows "guarded False P (cn_process_messages E)"
proof -
  have "pres P (cn_process_messages E)"
    unfolding cn_process_messages_def
    by (intro pres guarded_pres [OF db_guarded] statements message_pres assms)
  then show ?thesis by (simp add: guarded_def)
qed

lemma poll_guarded:
  assumes "guarded b P (cn_process_messages E)"
    and "\<And>m. LineIn m \<in> set (cl_stream (cn_irc s)) \<Longrightarrow> guarded b P (cn_handle_irc_message E m)"
    and "P s"
  shows "P (snd (cn_poll E s)) \<and> (b \<longrightarrow> fst (cn_poll E s) \<noteq> Panic)"
proof -
  let ?lines = "drain_lines (\<lambda>as s. s\<lparr>cn_irc := (cn_irc s)\<lparr>cl_stream := as\<rparr>\<rparr>) (cn_handle_irc_message E)"
  let ?rest = "then_do (and_then (gets cn_rx) (drain_rx (\<lambda>cs s. s\<lparr>cn_rx := cs\<rparr>) (cn_handle_int_rx E))) (cn_client client_write)"
  have rest: "guarded b P ?rest"
    by (intro guarded drain_rx_guarded writes flags commands assms(1))
  have lines: "guarded b P (?lines as)" if "set as \<subseteq> set (cl_stream (cn_irc s))" for as
    using that by (intro drain_lines_guarded client assms(2)) auto
  let ?Q = "\<lambda>t. P t \<and> cl_stream (cn_irc t) = cl_stream (cn_irc s)"
  have start: "guarded b ?Q (then_do (cn_identify E) (cn_client client_write))"
    by (rule opening_guarded) (auto intro: client flags)
  have poll: "cn_poll E = then_do (then_do (cn_identify E) (cn_client client_write))
      (then_do (and_then (gets (\<lambda>s. cl_stream (cn_irc s))) ?lines) ?rest)"
    by (simp add: cn_poll_def then_do_def and_then_assoc)
  from start have mid: "?Q (snd (then_do (cn_identify E) (cn_client client_write) s)) \<and>
      (b \<longrightarrow> fst (then_do (cn_identify E) (cn_client client_write) s) \<noteq> Panic)"
    using guardedD assms(3) by fastforce
  obtain r t where t: "then_do (cn_identify E) (cn_client client_write) s = (r, t)"
    by (cases "then_do (cn_identify E) (cn_client client_write) s")
  show ?thesis
  proof (cases r)
    case (Ok u)
    have "guarded b P (then_do (?lines (cl_stream (cn_irc t))) ?rest)"
      using mid t by (intro guarded lines rest) auto
    from guardedD [OF this, of t] show ?thesis
      using mid t Ok unfolding poll by (simp add: then_do_def and_then_def gets_def)
  qed (use mid t in \<open>simp_all add: poll then_do_def and_then_def\<close>)
qed

end

text \<open>And one that the nick of the contact does not bear on.\<close>

locale contact_keeps = contact_quiet E P Q b
  for E :: "('t, 'j) ext" and P :: "('t, 'j) contact_mgr \<Rightarrow> bool" and Q :: "db \<Rightarrow> bool" and b :: bool +
  assumes nick: "P s \<Longrightarrow> P (s\<lparr>cn_nick := n\<rparr>)"
begin

lemma on_nick: "guarded b P (cn_on_nick pre nick)"
  unfolding cn_on_nick_def by (intro guarded guarded_modify) (simp add: nick)

end

section \<open>Integrity, and no panic\<close>

definition cn_ok :: "('t, 'j) ext \<Rightarrow> ('t, 'j) contact_mgr \<Rightarrow> bool" where
  "cn_ok E s \<longleftrightarrow> db_ok E (cn_store s)"

lemma cn_ok_simps [simp]:
  "cn_ok E (s\<lparr>cn_store := d\<rparr>) = db_ok E d" "cn_ok E (s\<lparr>cn_irc := cl\<rparr>) = cn_ok E s"
  "cn_ok E (s\<lparr>cn_wa_mode := w\<rparr>) = cn_ok E s" "cn_ok E (s\<lparr>cn_presence := p\<rparr>) = cn_ok E s"
  "cn_ok E (s\<lparr>cn_channels := cs\<rparr>) = cn_ok E s" "cn_ok E (s\<lparr>cn_id := i\<rparr>) = cn_ok E s"
  "cn_ok E (s\<lparr>cn_nick := n\<rparr>) = cn_ok E s" "cn_ok E (s\<lparr>cn_rx := rx\<rparr>) = cn_ok E s"
  "cn_ok E (s\<lparr>cn_connected := c\<rparr>) = cn_ok E s" "cn_ok E (s\<lparr>cn_admin_is_online := onl\<rparr>) = cn_ok E s"
  "cn_ok E (s\<lparr>cn_wa_tx := wt\<rparr>) = cn_ok E s" "cn_ok E (s\<lparr>cn_modem_tx := mt\<rparr>) = cn_ok E s"
  by (simp_all add: cn_ok_def)

interpretation cok: contact_keeps E "cn_ok E" "db_ok E" True for E :: "('t, 'j) ext"
  by unfold_locales (auto simp: cn_ok_def [of E s for s] intro!: db_ok_guarded db_ok_reads db_ok_writes safe)

lemma cn_process_message_ok:
  assumes "m_pdu m = None \<longrightarrow> m_text m \<noteq> None"
  shows "guarded True (cn_ok E) (cn_process_message E m)"
proof -
  have db: "pres (cn_ok E) (cn_db n)" if "guarded True (db_ok E) n" for n
    using cok.db_guarded [OF that] by (rule guarded_pres)
  have ops: "pres (cn_ok E) (cn_send c)" for c
    by (rule guarded_pres [of True], rule cn_send_guarded) simp
  have note': "pres (cn_ok E) (cn_notice x)" for x by (rule guarded_pres [OF cok.notice])
  have sender: "pres (cn_ok E) (process_msg_plain E contact_sender [] m)" "pres (cn_ok E) (process_msg_pdu E contact_sender [] m pd)" for pd
    by (rule sender_pres; simp add: pres ops note'; intro db db_ok_guarded db_ok_reads db_ok_writes safe)+
  have "guarded True (cn_ok E) (process_msg_plain E contact_sender [] m)" if "m_pdu m = None"
    using sender(1) csnd.plain_no_panic [of m E "[]"] assms that by (auto simp: pres_def intro: guardedI)
  moreover have "guarded True (cn_ok E) (process_msg_pdu E contact_sender [] m pd)" for pd
  proof (rule guardedI)
    fix s assume s: "cn_ok E s"
    then have "fst (process_msg_pdu E contact_sender [] m pd s) \<noteq> Panic"
      using csnd.pdu_no_panic [of E s "[]" m pd] by (simp add: cn_ok_def db_ok_parts)
    with s sender(2) [of pd] show "cn_ok E (snd (process_msg_pdu E contact_sender [] m pd s)) \<and>
        (True \<longrightarrow> fst (process_msg_pdu E contact_sender [] m pd s) \<noteq> Panic)" by (simp add: pres_def)
  qed
  ultimately show ?thesis
    unfolding cn_process_message_def
    by (cases "m_pdu m") (auto intro!: guarded cok.switch_mode split: option.split)
qed

text \<open>The messages a query returns are rows of the database.\<close>

lemma get_messages_rows:
  "cn_db (get_messages_for_recipient E a) s = (Ok ms, t) \<Longrightarrow>
     ms = by_ts_id (filter (\<lambda>m. m_phone_number m = normalize_address E a) (messages (cn_store s))) \<and>
     (\<exists>fs. t = s\<lparr>cn_store := (cn_store s)\<lparr>faults := fs\<rparr>\<rparr>)"
  by (cases "faults (cn_store s)")
    (auto simp: cn_db_def on_field_def get_messages_for_recipient_def with_conn_def gets_def
      intro: exI [of _ "[]"] split: if_splits)

lemma set_by_ts_id [simp]: "set (by_ts_id ms) = set ms"
  by (simp add: by_ts_id_def)

lemma cn_process_messages_ok: "guarded True (cn_ok E) (cn_process_messages E)"
proof -
  let ?R = "\<lambda>ms (s :: ('a, 'b) contact_mgr). \<forall>m \<in> set ms. m_pdu m = None \<longrightarrow> m_text m \<noteq> None"
  have "guarded True (cn_ok E) (and_then (cn_db (get_messages_for_recipient E a)) (\<lambda>ms. for_each ms (cn_process_message E)))" for a
  proof (rule guarded_and_then_post [where R = ?R])
    show "guarded True (cn_ok E) (cn_db (get_messages_for_recipient E a))"
      by (intro cok.db_guarded cok.statements)
    show "?R ms t" if "cn_ok E s" "cn_db (get_messages_for_recipient E a) s = (Ok ms, t)" for s ms and t :: "('a, 'b) contact_mgr"
      using that(1) get_messages_rows [OF that(2)]
      by (auto simp: cn_ok_def db_ok_def db_inv_def list_all_iff message_ok_iff)
    show "cn_ok E (snd (for_each ms (cn_process_message E) s)) \<and>
        (True \<longrightarrow> fst (for_each ms (cn_process_message E) s) \<noteq> Panic)" if "cn_ok E s" "?R ms s" for ms s
      by (rule guarded_at [where P = "cn_ok E"], rule that(1), intro guarded cn_process_message_ok) (use that(2) in blast)
  qed
  then show ?thesis
    unfolding cn_process_messages_def
    by (intro guarded_and_then guarded_basic) (simp add: guarded_basic split: prod.split)
qed

lemma cn_handle_irc_message_ok: "guarded True (cn_ok E) (cn_handle_irc_message E m)"
proof -
  have "guarded True (cn_ok E) (cn_on_connected E)"
    unfolding cn_on_connected_def
    by (intro guarded guarded_modify cn_process_messages_ok cok.initialize_watch cok.update_away
        cok.process_groups) simp
  moreover have "guarded True (cn_ok E) (cn_on_privmsg pre t x)" for pre t x
    unfolding cn_on_privmsg_def by (intro guarded guarded_modify cok.sends) simp_all
  moreover have "guarded True (cn_ok E) (cn_on_raw E c as)" for c as
    unfolding cn_on_raw_def by (intro guarded guarded_modify cn_process_messages_ok) simp_all
  ultimately show ?thesis
    unfolding cn_handle_irc_message_def
    by (cases "command m") (auto intro: guarded cok.on_nick)
qed

lemma cn_poll_ok:
  "cn_ok E s \<Longrightarrow> cn_ok E (snd (cn_poll E s)) \<and> fst (cn_poll E s) \<noteq> Panic"
  using cok.poll_guarded [OF cn_process_messages_ok cn_handle_irc_message_ok] by blast


section \<open>Waiting for the administrator\<close>

text \<open>
  What is stored and what was said, with who is spoken to and when; and, besides, that the contact is
  not registered yet (\<open>k\<close>) or that the administrator is away.
\<close>

definition cn_frame :: "message list \<Rightarrow> (string \<times> string) list \<Rightarrow> string \<Rightarrow> int \<Rightarrow> ('t, 'j) contact_mgr \<Rightarrow> bool" where
  "cn_frame M S A n s \<longleftrightarrow> messages (cn_store s) = M \<and> cn_privmsgs s = S \<and> cn_admin s = A \<and> cn_now s = n"

definition waits :: "bool \<Rightarrow> ('t, 'j) contact_mgr \<Rightarrow> bool" where
  "waits k s \<longleftrightarrow> (if k then \<not> cn_connected s else \<not> cn_admin_is_online s)"

lemma messages_guarded:
  "guarded False (\<lambda>d. messages d = M) (get_groups_for_recipient E a)"
  "guarded False (\<lambda>d. messages d = M) (get_messages_for_recipient E a)"
  "guarded False (\<lambda>d. messages d = M) (update_recipient_wa E a wa)"
  "guarded False (\<lambda>d. messages d = M) (update_recipient_nick E a nk src)"
proof -
  have blind: "fault_blind (\<lambda>d. messages d = M)" by (simp add: fault_blind_def)
  show "guarded False (\<lambda>d. messages d = M) (get_groups_for_recipient E a)"
    "guarded False (\<lambda>d. messages d = M) (get_messages_for_recipient E a)"
    using blind by (simp_all add: guarded_def pres_get_groups_for_recipient pres_reads)
  show "guarded False (\<lambda>d. messages d = M) (update_recipient_wa E a wa)"
    "guarded False (\<lambda>d. messages d = M) (update_recipient_nick E a nk src)"
    unfolding update_recipient_wa_def update_recipient_nick_def update_recipients_def guarded_def
    by (auto intro!: pres_with_conn pres_modify)
qed

interpretation cfr: contact_keeps E "cn_frame M S A n" "\<lambda>d. messages d = M" False
  for E :: "('t, 'j) ext" and M S A n
  by unfold_locales (auto simp: cn_frame_def cn_privmsgs_def intro: messages_guarded)

definition waiting ::
  "message list \<Rightarrow> (string \<times> string) list \<Rightarrow> string \<Rightarrow> int \<Rightarrow> bool \<Rightarrow> ('t, 'j) contact_mgr \<Rightarrow> bool" where
  "waiting M S A n k s \<longleftrightarrow> cn_frame M S A n s \<and> waits k s"

lemmas waiting_defs = waiting_def cn_frame_def waits_def cn_privmsgs_def

interpretation cwt: contact_keeps E "waiting M S A n k" "\<lambda>d. messages d = M" False
  for E :: "('t, 'j) ext" and M S A n k
  by unfold_locales (auto simp: waiting_defs intro: messages_guarded)

text \<open>The lines that do not end the wait.\<close>

definition line_waits :: "bool \<Rightarrow> string \<Rightarrow> in_msg \<Rightarrow> bool" where
  "line_waits k A m \<longleftrightarrow> (case command m of
      Response r _ _ \<Rightarrow> k \<longrightarrow> r \<noteq> RPL_ENDOFMOTD \<and> r \<noteq> ERR_NOMOTD
    | Raw c as _ \<Rightarrow> \<not> k \<longrightarrow> \<not> ((c = ''600'' \<or> c = ''604'') \<and> length as \<ge> 2 \<and> as ! 1 = A)
    | _ \<Rightarrow> True)"

lemma process_messages_waits: "waits k s \<Longrightarrow> cn_process_messages E s = (Ok (), s)"
  by (auto simp: cn_process_messages_def waits_def ret_def split: if_splits)

lemma messages_wait: "guarded False (waiting M S A n k) (cn_process_messages E)"
  by (rule guardedI) (simp add: waiting_def process_messages_waits [of k])

lemma raw_waits:
  fixes E :: "('t, 'j) ext"
  assumes "k \<or> \<not> ((c = ''600'' \<or> c = ''604'') \<and> length as \<ge> 2 \<and> as ! 1 = A)"
  shows "guarded False (waiting M S A n k) (cn_on_raw E c as)"
proof (rule guardedI)
  fix s :: "('t, 'j) contact_mgr" assume s: "waiting M S A n k s"
  show "waiting M S A n k (snd (cn_on_raw E c as s)) \<and> (False \<longrightarrow> fst (cn_on_raw E c as s) \<noteq> Panic)"
  proof (cases "k \<and> (c = ''600'' \<or> c = ''604'') \<and> length as \<ge> 2 \<and> as ! 1 = A \<and> \<not> cn_admin_is_online s")
    case True
    then have "waits True (s\<lparr>cn_admin_is_online := True\<rparr>)" using s by (simp add: waiting_def waits_def)
    then show ?thesis
      using True s by (auto simp: cn_on_raw_def process_messages_waits [of True] waiting_defs)
  next
    case False
    then show ?thesis
      using s assms by (auto simp: cn_on_raw_def waiting_defs ret_def modify_def)
  qed
qed

lemma lines_wait:
  assumes "line_waits k A m"
  shows "guarded False (waiting M S A n k) (cn_handle_irc_message E m)"
proof -
  have "guarded False (waiting M S A n k) (cn_on_connected E)" if "\<not> k"
    unfolding cn_on_connected_def
    by (intro guarded guarded_modify messages_wait cwt.initialize_watch cwt.update_away cwt.process_groups)
      (use that in \<open>simp add: waiting_defs\<close>)
  moreover have "guarded False (waiting M S A n k) (cn_on_privmsg pre t x)" for pre t x
    unfolding cn_on_privmsg_def
    by (intro guarded guarded_modify cwt.sends) (simp_all add: waiting_defs)
  ultimately show ?thesis
    using assms unfolding cn_handle_irc_message_def line_waits_def
    by (cases "command m") (auto intro: guarded cwt.on_nick raw_waits)
qed

lemma poll_waits:
  assumes "waits k s" and "\<And>m. LineIn m \<in> set (cl_stream (cn_irc s)) \<Longrightarrow> line_waits k (cn_admin s) m"
  shows "messages (cn_store (snd (cn_poll E s))) = messages (cn_store s) \<and>
    cn_privmsgs (snd (cn_poll E s)) = cn_privmsgs s \<and> waits k (snd (cn_poll E s))"
proof -
  have "waiting (messages (cn_store s)) (cn_privmsgs s) (cn_admin s) (cn_now s) k s"
    using assms(1) by (simp add: waiting_def cn_frame_def)
  from cwt.poll_guarded [OF messages_wait lines_wait this] assms(2) show ?thesis
    by (simp add: waiting_def cn_frame_def)
qed

section \<open>Who is listened to\<close>

text \<open>What was handed on, beyond what had been before, is messages of \<open>T\<close> for the contact.\<close>

definition handed_on ::
  "'t pdu_address \<Rightarrow> string \<Rightarrow> string set \<Rightarrow> ('t, 'j) whatsapp_command list \<Rightarrow> 't modem_command list
   \<Rightarrow> ('t, 'j) contact_mgr \<Rightarrow> bool" where
  "handed_on a A T wtx mtx s \<longleftrightarrow> cn_addr s = a \<and> cn_admin s = A \<and>
     (\<exists>ws ms. cn_wa_tx s = wtx @ map (SendDirectMessage a) ws \<and> cn_modem_tx s = mtx @ map (SendMessage a) ms \<and>
        set ws \<union> set ms \<subseteq> T)"

interpretation cho: contact_keeps E "handed_on a A T wtx mtx" "\<lambda>d. True" False
  for E :: "('t, 'j) ext" and a A T wtx mtx
  by unfold_locales (auto simp: handed_on_def guarded_def pres_def)

lemma messages_handed_on: "guarded False (handed_on a A T wtx mtx) (cn_process_messages E)"
proof (rule cho.messages_pres)
  show "pres (handed_on a A T wtx mtx) (cn_send (SendPrivmsg t x))" for t x
    by (rule guarded_pres [of False], rule cn_send_guarded) (simp add: handed_on_def)
qed (simp_all add: pres_def)

lemma handed_onI:
  "cn_addr s = a \<Longrightarrow> cn_admin s = A \<Longrightarrow> cn_wa_tx s = wtx @ map (SendDirectMessage a) ws \<Longrightarrow>
   cn_modem_tx s = mtx @ map (SendMessage a) ms \<Longrightarrow> set ws \<union> set ms \<subseteq> T \<Longrightarrow> handed_on a A T wtx mtx s"
  by (auto simp: handed_on_def)

lemma handed_on_admin: "handed_on a A T wtx mtx s \<Longrightarrow> cn_admin s = A"
  by (simp add: handed_on_def)

lemma handed_on_push:
  assumes "handed_on a A T wtx mtx s" and "mesg \<in> T"
  shows "handed_on a A T wtx mtx (s\<lparr>cn_wa_tx := cn_wa_tx s @ [SendDirectMessage (cn_addr s) mesg]\<rparr>)"
    and "handed_on a A T wtx mtx (s\<lparr>cn_modem_tx := cn_modem_tx s @ [SendMessage (cn_addr s) mesg]\<rparr>)"
proof -
  obtain ws ms where s: "cn_addr s = a" "cn_admin s = A" "cn_wa_tx s = wtx @ map (SendDirectMessage a) ws"
    "cn_modem_tx s = mtx @ map (SendMessage a) ms" "set ws \<union> set ms \<subseteq> T"
    using assms(1) by (auto simp: handed_on_def)
  show "handed_on a A T wtx mtx (s\<lparr>cn_wa_tx := cn_wa_tx s @ [SendDirectMessage (cn_addr s) mesg]\<rparr>)"
    using s assms(2) by (intro handed_onI [where ws = "ws @ [mesg]" and ms = ms]) auto
  show "handed_on a A T wtx mtx (s\<lparr>cn_modem_tx := cn_modem_tx s @ [SendMessage (cn_addr s) mesg]\<rparr>)"
    using s assms(2) by (intro handed_onI [where ws = ws and ms = "ms @ [mesg]"]) auto
qed

lemma lines_handed_on:
  assumes "\<And>p target mesg. command m = PRIVMSG target mesg \<Longrightarrow> prefix m = Some p \<Longrightarrow> prefix_nick p = A \<Longrightarrow> mesg \<in> T"
  shows "guarded False (handed_on a A T wtx mtx) (cn_handle_irc_message E m)"
proof -
  have "guarded False (handed_on a A T wtx mtx) (cn_on_connected E)"
    unfolding cn_on_connected_def
    by (intro guarded guarded_modify messages_handed_on cho.initialize_watch cho.update_away cho.process_groups)
      (simp add: handed_on_def)
  moreover have "guarded False (handed_on a A T wtx mtx) (cn_on_raw E c as)" for c as
    unfolding cn_on_raw_def
    by (intro guarded guarded_modify messages_handed_on) (simp_all add: handed_on_def)
  moreover have "guarded False (handed_on a A T wtx mtx) (cn_on_privmsg (prefix m) target mesg)" if "command m = PRIVMSG target mesg" for target mesg
  proof (cases "prefix m")
    case (Some p)
    show ?thesis
      unfolding cn_on_privmsg_def Some option.case
      by (rule guarded_gets_then, drule handed_on_admin)
        (auto intro!: guarded guarded_modify cho.sends handed_on_push assms [OF that Some])
  qed (simp add: cn_on_privmsg_def guarded)
  ultimately show ?thesis
    unfolding cn_handle_irc_message_def by (cases "command m") (auto intro: guarded cho.on_nick)
qed


section \<open>Delivering messages\<close>

text \<open>What a delivery depends on and does not change.\<close>

definition cn_who :: "('t, 'j) contact_mgr \<Rightarrow> 't pdu_address \<times> string \<times> int \<times> bool \<times> bool" where
  "cn_who s = (cn_addr s, cn_admin s, cn_now s, cn_connected s, cn_admin_is_online s)"

interpretation cwo: contact_keeps E "\<lambda>s. cn_who s = w" "\<lambda>d. True" False for E :: "('t, 'j) ext" and w
  by unfold_locales (auto simp: cn_who_def guarded_def pres_def)

lemma cn_process_message_who: "pres (\<lambda>s. cn_who s = w) (cn_process_message E m)"
proof (rule cwo.message_pres)
  show "pres (\<lambda>s. cn_who s = w) (cn_send (SendPrivmsg t x))" for t x
    by (rule guarded_pres [of False], rule cn_send_guarded) (simp add: cn_who_def)
qed (simp_all add: pres_def)

text \<open>
  The text of a private message that is whole: a plain one with its time, or the only part of an SMS.
\<close>

definition spoken :: "('t, 'j) ext \<Rightarrow> int \<Rightarrow> message \<Rightarrow> string option" where
  "spoken E n m = (if m_group_target m \<noteq> None then None else (case m_pdu m of
      None \<Rightarrow> map_option (plain_output E n (m_ts m)) (m_text m)
    | Some raw \<Rightarrow> (case deliver_try_from E raw of
        None \<Rightarrow> None
      | Some pd \<Rightarrow> (case decode_message pd of
          Inl e \<Rightarrow> None
        | Inr g \<Rightarrow> if concatenated g = None then Some (gsm_text g) else None))))"

definition said :: "('t, 'j) ext \<Rightarrow> string \<Rightarrow> int \<Rightarrow> message \<Rightarrow> (string \<times> string) list" where
  "said E A n m = map (\<lambda>c. (A, c)) (message_chunks (the (spoken E n m)))"

lemma message_said:
  assumes run: "cn_process_message E m s = (Ok (), t)" and m: "spoken E (cn_now s) m \<noteq> None"
  shows "cn_privmsgs t = cn_privmsgs s @ said E (cn_admin s) (cn_now s) m \<and>
    messages (cn_store t) = filter (\<lambda>x. m_id x \<noteq> m_id m) (messages (cn_store s)) \<and> cn_who t = cn_who s"
proof -
  let ?frame = "cn_frame (messages (cn_store s)) (cn_privmsgs s) (cn_admin s) (cn_now s)"
  have frame: "?frame s1" if "cn_switch_mode E w s = (Ok (), s1)" for w s1
    using guardedD [OF cfr.switch_mode, of "messages (cn_store s)" "cn_privmsgs s" "cn_admin s" "cn_now s" s E w] that
    by (simp add: cn_frame_def)
  have who: "cn_who t = cn_who s"
    using presD [OF cn_process_message_who _ run] by blast
  show ?thesis
  proof (cases "m_pdu m")
    case None
    then obtain s1 where s1: "cn_switch_mode E True s = (Ok (), s1)"
      and plain: "process_msg_plain E contact_sender [] m s1 = (Ok (), t)"
      using run by (auto simp: cn_process_message_def elim: then_do_OkE)
    from csnd.plain_facts [OF plain] frame [OF s1] who m None show ?thesis
      by (auto simp: said_def spoken_def cn_frame_def cn_who_def csnd.dest_ok_def csnd.out_def split: if_splits)
  next
    case (Some raw)
    then obtain pd g where pd: "deliver_try_from E raw = Some pd" "decode_message pd = Inr g" "concatenated g = None"
      using m by (auto simp: spoken_def split: if_splits option.splits sum.splits)
    then obtain s1 where s1: "cn_switch_mode E False s = (Ok (), s1)"
      and single: "process_msg_pdu E contact_sender [] m pd s1 = (Ok (), t)"
      using run Some by (auto simp: cn_process_message_def elim: then_do_OkE)
    from csnd.pdu_single [OF single pd(2,3)] frame [OF s1] who m Some pd show ?thesis
      by (auto simp: said_def spoken_def cn_frame_def cn_who_def csnd.dest_ok_def csnd.out_def split: if_splits)
  qed
qed

lemma messages_said:
  assumes "for_each ms (cn_process_message E) s = (Ok (), t)" and "\<forall>m \<in> set ms. spoken E (cn_now s) m \<noteq> None"
  shows "cn_privmsgs t = cn_privmsgs s @ concat (map (said E (cn_admin s) (cn_now s)) ms) \<and>
    messages (cn_store t) = filter (\<lambda>x. m_id x \<notin> m_id ` set ms) (messages (cn_store s)) \<and> cn_who t = cn_who s"
  using assms
proof (induction ms arbitrary: s)
  case (Cons m ms)
  then obtain s1 where s1: "cn_process_message E m s = (Ok (), s1)" "for_each ms (cn_process_message E) s1 = (Ok (), t)"
    by (auto elim: then_do_OkE)
  from message_said [OF s1(1)] Cons.IH [OF s1(2)] Cons.prems(2) show ?case
    by (auto simp: cn_who_def intro: filter_cong)
qed (simp add: ret_def)

text \<open>
  The messages of an address among those of a database, and how they are said: nothing is left of them
  when all that the contact finds have been said.
\<close>

definition addressed :: "string \<Rightarrow> message list \<Rightarrow> message list" where
  "addressed p ms = filter (\<lambda>m. m_phone_number m = p) ms"

definition not_addressed :: "string \<Rightarrow> message list \<Rightarrow> message list" where
  "not_addressed p ms = filter (\<lambda>m. m_phone_number m \<noteq> p) ms"

lemma addressed_simps [simp]:
  "not_addressed p (not_addressed p ms) = not_addressed p ms" "addressed p (not_addressed p ms) = []"
  "distinct (map m_id ms) \<Longrightarrow> distinct (map m_id (not_addressed p ms))"
  by (auto simp: addressed_def not_addressed_def distinct_map_filter filter_empty_conv)

definition all_said :: "('t, 'j) ext \<Rightarrow> string \<Rightarrow> int \<Rightarrow> message list \<Rightarrow> (string \<times> string) list" where
  "all_said E A n ms = concat (map (said E A n) (by_ts_id ms))"

lemma all_said_Nil [simp]: "all_said E A n [] = []"
  by (simp add: all_said_def by_ts_id_def)

lemma messages_delivered:
  assumes "cn_process_messages E s = (Ok (), t)" and "cn_connected s" and "cn_admin_is_online s"
    and ids: "distinct (map m_id (messages (cn_store s)))"
    and mine: "mine = addressed (normalize_address E (cn_addr s)) (messages (cn_store s))"
    and whole: "\<forall>m \<in> set mine. spoken E (cn_now s) m \<noteq> None"
  shows "cn_privmsgs t = cn_privmsgs s @ all_said E (cn_admin s) (cn_now s) mine \<and>
    messages (cn_store t) = not_addressed (normalize_address E (cn_addr s)) (messages (cn_store s)) \<and>
    cn_who t = cn_who s"
proof -
  obtain ms s1 where s1: "cn_db (get_messages_for_recipient E (cn_addr s)) s = (Ok ms, s1)"
    and run: "for_each ms (cn_process_message E) s1 = (Ok (), t)"
    using assms(1-3) by (auto simp: cn_process_messages_def elim!: and_then_OkE)
  obtain fs where ms: "ms = by_ts_id mine" "s1 = s\<lparr>cn_store := (cn_store s)\<lparr>faults := fs\<rparr>\<rparr>"
    using get_messages_rows [OF s1] mine by (auto simp: addressed_def)
  have "m_id x \<notin> m_id ` set mine \<longleftrightarrow> m_phone_number x \<noteq> normalize_address E (cn_addr s)"
    if "x \<in> set (messages (cn_store s))" for x
    using ids mine that by (auto simp: addressed_def distinct_map dest: inj_onD)
  then have "filter (\<lambda>x. m_id x \<notin> m_id ` set mine) (messages (cn_store s)) =
      not_addressed (normalize_address E (cn_addr s)) (messages (cn_store s))"
    unfolding not_addressed_def by (rule filter_cong [OF refl])
  with messages_said [OF run] ms whole show ?thesis by (simp add: cn_privmsgs_def cn_who_def all_said_def)
qed

end
