(* ===== verification/Factory_Facts.thy ===== *)
theory Factory_Facts
  imports Contact_Factory Contact_Facts
begin

text \<open>
  Facts about the contact factory: the invariant that no contact has two clients through every part of
  a poll, and what its implementation of \<open>ContactManagerManager\<close> promises.
\<close>

section \<open>The invariant\<close>

text \<open>
  Contacts and starting contacts are kept under their own address, and no contact is both, except
  those in \<open>R\<close>, which a loop has still to take away. The modem is told no listing.
\<close>

definition fa_inv_but :: "('t, 'j) ext \<Rightarrow> 't pdu_address set \<Rightarrow> ('t, 'j) contact_factory \<Rightarrow> bool" where
  "fa_inv_but E R s \<longleftrightarrow>
     db_ok E (fa_store s) \<and> hm_wf (fa_starting s) \<and> hm_wf (fa_contacts s) \<and>
     (\<forall>a. hm_get (fa_starting s) a \<noteq> None \<longrightarrow> hm_get (fa_contacts s) a \<noteq> None \<longrightarrow> a \<in> R) \<and>
     (\<forall>a c. hm_get (fa_contacts s) a = Some c \<longrightarrow> cn_addr c = a) \<and>
     (\<forall>a b w c as. hm_get (fa_starting s) a = Some (Connecting b w c as) \<longrightarrow> b = a) \<and> no_listing (fa_m_tx s)"

abbreviation fa_inv :: "('t, 'j) ext \<Rightarrow> ('t, 'j) contact_factory \<Rightarrow> bool" where
  "fa_inv E \<equiv> fa_inv_but E {}"

lemma fa_inv_simps [simp]:
  "fa_inv_but E R (s\<lparr>fa_rx := rx\<rparr>) = fa_inv_but E R s" "fa_inv_but E R (s\<lparr>fa_cb_tx := cb\<rparr>) = fa_inv_but E R s"
  "fa_inv_but E R (s\<lparr>fa_wa_tx := wt\<rparr>) = fa_inv_but E R s"
  "fa_inv_but E R (s\<lparr>fa_presence := p\<rparr>) = fa_inv_but E R s" "fa_inv_but E R (s\<lparr>fa_failed := fl\<rparr>) = fa_inv_but E R s"
  "fa_inv_but E R (s\<lparr>fa_ticks := tk\<rparr>) = fa_inv_but E R s" "fa_inv_but E R (s\<lparr>fa_processed := ps\<rparr>) = fa_inv_but E R s"
  "fa_inv_but E R (s\<lparr>fa_env := ev\<rparr>) = fa_inv_but E R s" "fa_inv_but E R (fa_fail x s) = fa_inv_but E R s"
  by (simp_all add: fa_inv_but_def fa_fail_def)

lemma add_command_addr [simp]: "cn_addr (add_command c ct) = cn_addr ct"
  by (simp add: add_command_def)

lemma fa_inv_command [simp]: "fa_inv_but E R s \<Longrightarrow> fa_inv_but E R (fa_command a c s)"
  by (auto simp: fa_inv_but_def fa_command_def hm_get_insert split: option.split)

lemma hm_get_map: "hm_get (map (\<lambda>(a, c). (a, f c)) m) k = map_option f (hm_get m k)"
  by (induction m) auto

lemma hm_wf_map: "hm_wf (map (\<lambda>(a, c). (a, f c)) m) = hm_wf m"
  by (simp add: hm_wf_def comp_def case_prod_beta)

lemma hm_get_fold_remove: "hm_get (fold hm_remove ks m) k = (if k \<in> set ks then None else hm_get m k)"
  by (induction ks arbitrary: m) (auto simp: hm_get_remove)

lemma hm_wf_fold_remove: "hm_wf m \<Longrightarrow> hm_wf (fold hm_remove ks m)"
  by (induction ks arbitrary: m) auto

section \<open>The commands keep it and do not panic\<close>

lemma fa_store_guarded:
  assumes "pres (db_ok E) m" "safe (\<lambda>_. True) m"
  shows "guarded True (fa_inv E) (on_field fa_store (\<lambda>d s. s\<lparr>fa_store := d\<rparr>) m)"
  by (rule guarded_on_field [OF db_ok_guarded [OF assms]]) (auto simp: fa_inv_but_def)

lemma cn_start_key:
  "cn_start E cfg r as \<noteq> Panic \<or> get_addr E (r_phone_number r) = Panic"
  "cn_start E cfg r as = Ok (Connecting b w c xs) \<Longrightarrow> get_addr E (r_phone_number r) = Ok b"
  by (auto simp: cn_start_def split: outcome.splits)

lemma fa_setup_inv:
  assumes "get_addr E (r_phone_number r) = Ok a" "fa_inv E s" "\<not> fa_has_contact a s"
  shows "fst (fa_setup_contact_for E r a s) \<noteq> Panic \<and> fa_inv E (snd (fa_setup_contact_for E r a s))"
  using assms
  by (auto simp: fa_setup_contact_for_def cn_start_def fa_inv_but_def fa_has_contact_def hm_get_insert
      and_then_def gets_def lift_def modify_def)

lemma factory_sel [simp]:
  "has_contact (factory_cmm E) = fa_has_contact" "cmm_db (factory_cmm E) = fa_store"
  "setup_contact_for (factory_cmm E) = fa_setup_contact_for E"
  "remove_contact_for (factory_cmm E) = fa_remove_contact_for"
  "cmm_store (factory_cmm E) m = fa_db m" "forward_cmd (factory_cmm E) = fa_forward_cmd"
  "resolve_nick (factory_cmm E) = fa_resolve_nick E"
  by (simp_all add: factory_cmm_def cmm_store_def fa_db_def)

lemma safe_guarded: "safe P m \<Longrightarrow> guarded b P m"
  by (simp add: guarded_def safe_pres)

lemma factory_tx_safe:
  "safe (fa_inv E) (wa_tx_send (factory_cmm E) w)" "safe (fa_inv E) (m_tx_send (factory_cmm E) (ModemMakeContact a))"
  "safe (fa_inv E) (cb_tx_send (factory_cmm E) c)"
  by (simp_all add: factory_cmm_def safe_modify) (auto simp: safe_def modify_def fa_inv_but_def no_listing_def)

lemma factory_base_guarded:
  assumes "decode_ok E"
  shows "guarded True (fa_inv E) (setup_recipient E (factory_cmm E) r)"
    and "guarded True (fa_inv E) (request_contact E (factory_cmm E) a src)"
    and "guarded True (fa_inv E) (query_contact E (factory_cmm E) a src)"
    and "guarded True (fa_inv E) (setup_contact E (factory_cmm E) a)"
proof -
  have db: "safe (fa_inv E) (cmm_store (factory_cmm E) (get_recipient_by_addr_opt E a))" for a
    unfolding factory_sel fa_db_def
    by (rule guarded_safe, rule fa_store_guarded) (auto intro: db_ok_reads safe)
  note all = cmm_base_safe [of "fa_inv E", OF db get_addr_no_panic [OF assms] _ factory_tx_safe]
  show "guarded True (fa_inv E) (setup_recipient E (factory_cmm E) r)"
    "guarded True (fa_inv E) (request_contact E (factory_cmm E) a src)"
    "guarded True (fa_inv E) (query_contact E (factory_cmm E) a src)"
    "guarded True (fa_inv E) (setup_contact E (factory_cmm E) a)"
    by (rule safe_guarded, rule all, simp add: fa_setup_inv)+
qed


lemma fa_process_message_guarded: "decode_ok E \<Longrightarrow> guarded True (fa_inv E) (fa_process_message E m)"
  unfolding fa_process_message_def
  by (intro guarded guarded_modify guarded_lift factory_base_guarded get_addr_no_panic) simp_all

lemma fa_forward_guarded: "guarded True (fa_inv E) (fa_forward_cmd a cmd)"
  unfolding fa_forward_cmd_def fa_update_away_def
  by (cases cmd) (auto intro!: guarded guarded_modify)

lemma fa_drop_guarded: "guarded True (fa_inv E) (drop_contact E (factory_cmm E) a)"
proof -
  have "guarded True (fa_inv E) (fa_remove_contact_for a)"
    unfolding fa_remove_contact_for_def
    by (rule guarded_modify) (auto simp: fa_inv_but_def hm_get_remove split: if_splits)
  then show ?thesis
    unfolding drop_contact_def factory_sel fa_db_def
    by (intro guarded fa_store_guarded db_ok_reads db_ok_writes safe)
qed

lemma fa_handle_guarded:
  assumes "decode_ok E"
  shows "guarded True (fa_inv E) (fa_handle E c)"
proof -
  have "guarded True (fa_inv E) (fa_process_messages E)" "guarded True (fa_inv E) (fa_load_recipients E)"
    unfolding fa_process_messages_def fa_load_recipients_def fa_db_def
    by (intro guarded fa_store_guarded db_ok_reads safe fa_process_message_guarded
        factory_base_guarded assms)+
  moreover have "guarded True (fa_inv E) fa_process_groups"
    unfolding fa_process_groups_def
    by (rule guarded_modify) (auto simp: fa_inv_but_def hm_get_map hm_wf_map)
  moreover have "guarded True (fa_inv E) (subscribe_presence_by_nick (factory_cmm E) n)" for n
    unfolding subscribe_presence_by_nick_def
    by (intro guarded safe_guarded factory_tx_safe)
  ultimately show ?thesis
    by (cases c) (auto simp: fa_handle_def drop_contact_by_nick_def forward_cmd_by_nick_def
        intro!: guarded factory_base_guarded assms fa_forward_guarded fa_drop_guarded)
qed

section \<open>Polling keeps it\<close>

text \<open>A turn for a starting contact leaves it, fails it, or makes it a contact under its own address.\<close>

lemma poll_starting_cases:
  assumes "poll_starting a s = (rm, t)" and "hm_get (fa_starting s) a = Some fut" and "start_poll fut = (r, fut')"
    and "s1 = s\<lparr>fa_starting := hm_insert a fut' (fa_starting s)\<rparr>"
  obtains "\<not> rm" and "t = s1"
  | "rm" and "t = fa_fail a s1"
  | b w c as ct where "rm" and "fut' = Connecting b w c as" and "cn_addr ct = b"
      and "t = s1\<lparr>fa_contacts := hm_insert a ct (fa_contacts s)\<rparr>"
proof (cases r)
  case StartPending
  then show ?thesis using assms that(1) by (simp add: poll_starting_def Let_def)
next
  case (StartFailed e)
  then show ?thesis using assms that(2) by (simp add: poll_starting_def Let_def)
next
  case (StartReady cli nick)
  show ?thesis
  proof (cases fut')
    case (Refused e)
    then show ?thesis using assms StartReady that(1) by (simp add: poll_starting_def Let_def)
  next
    case (Connecting b w c as)
    let ?c = "cn_new (fa_cfg s) b w cli nick (fa_store s)"
    let ?ct = "case hm_get (fa_presence s) a of None \<Rightarrow> ?c | Some pre \<Rightarrow> add_command (UpdateAway pre) ?c"
    have "cn_addr ?ct = b" by (simp add: cn_new_def split: option.split)
    then show ?thesis
      using assms StartReady Connecting by (intro that(3) [of b w c as ?ct]) (simp_all add: poll_starting_def Let_def)
  qed
qed

lemma fa_inv_mono: "fa_inv_but E R s \<Longrightarrow> R \<subseteq> R' \<Longrightarrow> fa_inv_but E R' s"
  unfolding fa_inv_but_def by blast

lemma fa_inv_insert_contact:
  assumes "fa_inv_but E R s" and "cn_addr ct = a"
  shows "fa_inv_but E (R \<union> {a}) (s\<lparr>fa_contacts := hm_insert a ct (fa_contacts s)\<rparr>)"
  using assms by (auto simp: fa_inv_but_def hm_get_insert)

lemma poll_starting_inv:
  assumes inv: "fa_inv_but E R s" and run: "poll_starting a s = (rm, t)"
  shows "fa_inv_but E (R \<union> (if rm then {a} else {})) t"
proof (cases "hm_get (fa_starting s) a")
  case None
  then show ?thesis using assms by (simp add: poll_starting_def)
next
  case (Some fut)
  obtain r fut' where p: "start_poll fut = (r, fut')" by (cases "start_poll fut")
  let ?s1 = "s\<lparr>fa_starting := hm_insert a fut' (fa_starting s)\<rparr>"
  have key: "fut' = Connecting b w c as \<Longrightarrow> b = a" for b w c as
    using inv Some p by (cases fut rule: start_poll.cases) (auto simp: fa_inv_but_def)
  have inv1: "fa_inv_but E R ?s1"
    using inv Some key by (auto simp: fa_inv_but_def hm_get_insert)
  from run Some p refl [of ?s1] show ?thesis
  proof (cases rule: poll_starting_cases)
    case 2
    then show ?thesis using fa_inv_mono [OF inv1 subset_insertI [of R a]] by simp
  next
    case (3 b w c as ct)
    then show ?thesis using fa_inv_insert_contact [OF inv1, of ct a] key [of b w c as] by simp
  qed (use inv1 in simp)
qed

lemma poll_all_starting_inv:
  "fa_inv_but E R s \<Longrightarrow> poll_all_starting as s = (rms, t) \<Longrightarrow> fa_inv_but E (R \<union> set rms) t"
proof (induction as arbitrary: R s rms t)
  case (Cons a as)
  obtain rm s1 where s1: "poll_starting a s = (rm, s1)" by (cases "poll_starting a s")
  obtain rms' s2 where s2: "poll_all_starting as s1 = (rms', s2)" by (cases "poll_all_starting as s1")
  have "fa_inv_but E (R \<union> (if rm then {a} else {}) \<union> set rms') s2"
    by (rule Cons.IH [OF poll_starting_inv [OF Cons.prems(1) s1] s2])
  then show ?case
    using Cons.prems(2) s1 s2 by (auto split: if_splits)
qed simp

lemma fa_poll_starting_inv: "fa_inv E s \<Longrightarrow> fa_inv E (fa_poll_starting E s)"
proof -
  assume inv: "fa_inv E s"
  obtain rms t where t: "poll_all_starting (ord_addr E (map fst (fa_starting s))) s = (rms, t)"
    by (cases "poll_all_starting (ord_addr E (map fst (fa_starting s))) s")
  from poll_all_starting_inv [OF inv t] have "fa_inv_but E (set rms) t" by simp
  then show ?thesis
    using t by (auto simp: fa_poll_starting_def fa_inv_but_def hm_get_fold_remove hm_wf_fold_remove split: if_splits)
qed

text \<open>A poll of a contact keeps its address, and sends the modem messages only.\<close>

lemma cn_poll_tx: "cn_addr (snd (cn_poll E c)) = cn_addr c \<and>
    (\<exists>ws ms. cn_wa_tx (snd (cn_poll E c)) = cn_wa_tx c @ map (SendDirectMessage (cn_addr c)) ws \<and>
      cn_modem_tx (snd (cn_poll E c)) = cn_modem_tx c @ map (SendMessage (cn_addr c)) ms)"
proof -
  have "handed_on (cn_addr c) (cn_admin c) UNIV (cn_wa_tx c) (cn_modem_tx c) c"
    by (rule handed_onI [where ws = "[]" and ms = "[]"]) simp_all
  from cho.poll_guarded [OF messages_handed_on lines_handed_on this, of E] show ?thesis
    by (auto simp: handed_on_def)
qed

lemma cn_poll_addr: "cn_addr (snd (cn_poll E c)) = cn_addr c \<and>
    (no_listing (cn_modem_tx c) \<longrightarrow> no_listing (cn_modem_tx (snd (cn_poll E c))))"
  using cn_poll_tx [of E c] by auto

lemma poll_contact_guarded: "guarded True (fa_inv E) (poll_contact E a)"
proof (rule guardedI)
  fix s :: "('a, 'b) contact_factory" assume inv: "fa_inv E s"
  show "fa_inv E (snd (poll_contact E a s)) \<and> (True \<longrightarrow> fst (poll_contact E a s) \<noteq> Panic)"
  proof (cases "hm_get (fa_contacts s) a")
    case None
    then show ?thesis using inv by (simp add: poll_contact_def)
  next
    case (Some c)
    let ?c = "c\<lparr>cn_store := fa_store s, cn_wa_tx := fa_wa_tx s, cn_modem_tx := fa_m_tx s, cn_now := fa_now s\<rparr>"
    obtain r c' where run: "cn_poll E ?c = (r, c')" by (cases "cn_poll E ?c")
    have "cn_ok E ?c" using inv by (simp add: cn_ok_def fa_inv_but_def)
    then have "db_ok E (cn_store c')" "r \<noteq> Panic" "cn_addr c' = a" "no_listing (cn_modem_tx c')"
      using cn_poll_ok [of E ?c] cn_poll_addr [of E ?c] run inv Some
      by (simp_all add: cn_ok_def fa_inv_but_def)
    then show ?thesis
      using inv Some run
      by (cases r) (auto simp: poll_contact_def Let_def fa_inv_but_def hm_get_insert fa_fail_def)
  qed
qed

lemma poll_contacts_guarded: "guarded True (fa_inv E) (poll_contacts E as)"
  by (induction as) (auto intro!: guarded poll_contact_guarded)

lemma fa_poll_contacts_guarded: "guarded True (fa_inv E) (fa_poll_contacts E)"
  unfolding fa_poll_contacts_def
  by (intro guarded guarded_modify poll_contacts_guarded)
    (auto simp: fa_inv_but_def hm_get_fold_remove hm_wf_fold_remove split: if_splits)

lemma fa_drain_ticks_guarded: "decode_ok E \<Longrightarrow> guarded True (fa_inv E) (fa_drain_ticks E as)"
proof (induction as)
  case (Cons a as)
  have "guarded True (fa_inv E) (fa_process_failures E)"
    unfolding fa_process_failures_def
    by (intro guarded guarded_modify factory_base_guarded Cons.prems) simp
  with Cons show ?case
    unfolding fa_drain_ticks.simps
    by (intro guarded guarded_modify) (auto split: timer_answer.split intro: guarded)
qed (simp add: guarded)

lemma fa_poll_guarded: "decode_ok E \<Longrightarrow> guarded True (fa_inv E) (fa_poll E)"
  unfolding fa_poll_def
  by (intro guarded guarded_modify drain_rx_guarded fa_handle_guarded fa_poll_contacts_guarded
      fa_drain_ticks_guarded fa_poll_starting_inv) simp_all

section \<open>The factory implements \<open>ContactManagerManager\<close>\<close>

text \<open>
  All laws but one: removing a contact does not take it away while it is still starting.
\<close>

interpretation fcm: contact_provider E "factory_cmm E" for E :: "('t, 'j) ext"
proof
  fix r a b and s s' :: "('t, 'j) contact_factory"
  show "setup_contact_for (factory_cmm E) r a s = (Ok (), s') \<Longrightarrow> has_contact (factory_cmm E) a s'"
    by (auto simp: fa_setup_contact_for_def fa_has_contact_def modify_def gets_def lift_def hm_get_insert
        elim!: and_then_OkE)
  show "has_contact (factory_cmm E) b s \<Longrightarrow>
      has_contact (factory_cmm E) b (snd (setup_contact_for (factory_cmm E) r a s))"
    by (cases "cn_start E (fa_cfg s) r (case fa_env s of [] \<Rightarrow> [] | as # _ \<Rightarrow> as)")
      (auto simp: fa_setup_contact_for_def fa_has_contact_def and_then_def modify_def gets_def lift_def hm_get_insert)
next
  fix a and s :: "('t, 'j) contact_factory"
  show "recipients (cmm_db (factory_cmm E) (snd (remove_contact_for (factory_cmm E) a s))) =
      recipients (cmm_db (factory_cmm E) s)"
    by (simp add: fa_remove_contact_for_def modify_def)
qed (auto simp: factory_cmm_def fa_has_contact_def modify_def)

end
