(* ===== verification/Factory_Keeps.thy ===== *)
theory Factory_Keeps
  imports Factory_Facts
begin

text \<open>
  Predicates on the contact factory that are carried through a poll: what they have to be closed under,
  and what follows for the commands, the failure timer, the contacts that start and the contacts.
\<close>

section \<open>Setting contacts up\<close>

text \<open>
  A predicate that looking a recipient up, starting a contact that is not there and asking the other
  components for one do not bear on.
\<close>

locale factory_starts =
  fixes E :: "('t, 'j) ext" and P :: "('t, 'j) contact_factory \<Rightarrow> bool"
  assumes lookup: "pres P (fa_db (get_recipient_by_addr_opt E a))"
    and starts: "P s \<Longrightarrow> \<not> fa_has_contact a s \<Longrightarrow> P (s\<lparr>fa_starting := hm_insert a fut (fa_starting s), fa_env := ev\<rparr>)"
    and asks: "P s \<Longrightarrow> P (s\<lparr>fa_wa_tx := fa_wa_tx s @ [WaMakeContact a]\<rparr>)"
      "P s \<Longrightarrow> P (s\<lparr>fa_m_tx := fa_m_tx s @ [ModemMakeContact a]\<rparr>)"
      "P s \<Longrightarrow> P (s\<lparr>fa_cb_tx := fa_cb_tx s @ [cb]\<rparr>)"
begin

lemma base:
  "pres P (setup_recipient E (factory_cmm E) r)" "pres P (request_contact E (factory_cmm E) a src)"
  "pres P (query_contact E (factory_cmm E) a src)" "pres P (setup_contact E (factory_cmm E) a)"
proof -
  have db: "pres P (cmm_store (factory_cmm E) (get_recipient_by_addr_opt E a))" for a
    by (simp add: lookup)
  have su: "P (snd (setup_contact_for (factory_cmm E) r a s))" if "P s" "\<not> has_contact (factory_cmm E) a s" for r a s
    using that starts
    by (auto simp: fa_setup_contact_for_def and_then_def gets_def lift_def modify_def split: outcome.split)
  have tx: "pres P (wa_tx_send (factory_cmm E) (WaMakeContact a))" "pres P (m_tx_send (factory_cmm E) (ModemMakeContact a))"
    "pres P (cb_tx_send (factory_cmm E) c)" for a c
    by (auto simp: factory_cmm_def intro!: pres_modify asks)
  note all = cmm_base_pres [OF db su tx]
  show "pres P (setup_recipient E (factory_cmm E) r)" "pres P (request_contact E (factory_cmm E) a src)"
    "pres P (query_contact E (factory_cmm E) a src)" "pres P (setup_contact E (factory_cmm E) a)"
    by (rule all; assumption)+
qed

lemma ticks:
  assumes "\<And>s as. P s \<Longrightarrow> P (s\<lparr>fa_failed := as\<rparr>)" and "\<And>s as. P s \<Longrightarrow> P (s\<lparr>fa_ticks := as\<rparr>)"
  shows "pres P (fa_drain_ticks E as)"
proof (induction as)
  case (Cons a as)
  have "pres P (fa_process_failures E)"
    unfolding fa_process_failures_def by (intro pres pres_modify base assms(1))
  with Cons show ?case
    unfolding fa_drain_ticks.simps by (intro pres pres_modify assms(2); cases a; simp add: pres)
qed (simp add: pres)

end

section \<open>Commands\<close>

fun drops :: "'t contact_factory_command \<Rightarrow> bool" where
  "drops (DropContact a) = True"
| "drops (DropContactByNick n) = True"
| "drops c = False"

text \<open>What commands other than those do to it: a contact is told something, the presence is asked for.\<close>

locale factory_keeps = factory_starts E P
  for E :: "('t, 'j) ext" and P :: "('t, 'j) contact_factory \<Rightarrow> bool" +
  assumes rows: "pres P (fa_db get_all_recipients)"
    and command: "P s \<Longrightarrow> P (fa_command a c s)"
    and groups: "pres P fa_process_groups"
    and presence: "P s \<Longrightarrow> P (s\<lparr>fa_presence := p\<rparr>)"
    and subscribes: "P s \<Longrightarrow> P (s\<lparr>fa_wa_tx := fa_wa_tx s @ [SubscribePresence a]\<rparr>)"
begin

lemma message:
  assumes "\<And>s. P s \<Longrightarrow> P (s\<lparr>fa_processed := fa_processed s @ [m_id m]\<rparr>)"
  shows "pres P (fa_process_message E m)"
  unfolding fa_process_message_def by (intro pres pres_modify base assms command)

lemma other_commands:
  assumes "c \<noteq> ProcessMessages" and "drops c \<longrightarrow> (\<forall>a. pres P (drop_contact E (factory_cmm E) a))"
  shows "pres P (fa_handle E c)"
proof -
  have sub: "pres P (subscribe_presence_by_nick (factory_cmm E) n)" for n
    unfolding subscribe_presence_by_nick_def
    by (intro pres) (auto simp: factory_cmm_def intro!: pres_modify subscribes)
  have fwd: "pres P (fa_forward_cmd a x)" for a x
    unfolding fa_forward_cmd_def fa_update_away_def
    by (auto split: contact_manager_command.split intro!: pres pres_modify command presence)
  show ?thesis
    using assms
    by (cases c) (auto simp: fa_handle_def fa_load_recipients_def forward_cmd_by_nick_def drop_contact_by_nick_def
        intro!: pres base rows groups sub fwd)
qed

end

section \<open>Contacts that start\<close>

lemma fa_poll_starting_keeps:
  assumes turn: "\<And>b s. P s \<Longrightarrow> P (snd (poll_starting b s))"
    and away: "\<And>s rms. P s \<Longrightarrow> P (s\<lparr>fa_starting := fold hm_remove rms (fa_starting s)\<rparr>)" and s: "P s"
  shows "P (fa_poll_starting E s)"
proof -
  have "P s \<Longrightarrow> P (snd (poll_all_starting as s))" for as s
  proof (induction as arbitrary: s)
    case (Cons b as)
    show ?case
      using Cons.IH [OF turn [OF Cons.prems, of b]] by (cases "poll_starting b s") (auto split: prod.split)
  qed simp
  from this [OF s, of "ord_addr E (map fst (fa_starting s))"] show ?thesis
    using away by (auto simp: fa_poll_starting_def split: prod.split)
qed

section \<open>The turn of a contact\<close>

text \<open>
  Until the turn of \<open>a\<close> comes there is \<open>P\<close>; a turn that succeeds makes \<open>Q\<close> of it; and the turns of the
  others keep both.
\<close>

lemma poll_contacts_turn:
  assumes before: "\<And>b s t rm. P s \<Longrightarrow> b \<noteq> a \<Longrightarrow> poll_contact E b s = (Ok rm, t) \<Longrightarrow> P t"
    and own: "\<And>s t. P s \<Longrightarrow> poll_contact E a s = (Ok False, t) \<Longrightarrow> Q t"
    and after: "\<And>b s t rm. Q s \<Longrightarrow> b \<noteq> a \<Longrightarrow> poll_contact E b s = (Ok rm, t) \<Longrightarrow> Q t"
    and run: "poll_contacts E ks s = (Ok rms, t)" and "distinct ks" and "if a \<in> set ks then P s else Q s"
  shows "a \<in> set rms \<or> Q t"
  using run assms(5,6)
proof (induction ks arbitrary: s rms)
  case (Cons k ks)
  obtain rm s1 rms' where s1: "poll_contact E k s = (Ok rm, s1)" "poll_contacts E ks s1 = (Ok rms', t)"
    "rms = (if rm then k # rms' else rms')"
    using Cons.prems(1) by (auto simp: ret_def elim!: and_then_OkE)
  show ?case
  proof (cases "k = a \<and> rm")
    case False
    have "if a \<in> set ks then P s1 else Q s1"
    proof (cases "k = a")
      case True
      then show ?thesis using False Cons.prems(2,3) s1(1) own by simp
    next
      case False
      then show ?thesis using Cons.prems(3) before [OF _ False s1(1)] after [OF _ False s1(1)] by simp
    qed
    then show ?thesis using Cons.IH [OF s1(2)] Cons.prems(2) s1(3) by auto
  qed (simp add: s1(3))
qed (simp add: ret_def)

lemma fa_poll_contacts_turn:
  assumes before: "\<And>b s t rm. P s \<Longrightarrow> b \<noteq> a \<Longrightarrow> poll_contact E b s = (Ok rm, t) \<Longrightarrow> P t"
    and own: "\<And>s t. P s \<Longrightarrow> poll_contact E a s = (Ok False, t) \<Longrightarrow> Q t"
    and after: "\<And>b s t rm. Q s \<Longrightarrow> b \<noteq> a \<Longrightarrow> poll_contact E b s = (Ok rm, t) \<Longrightarrow> Q t"
    and away: "\<And>s rms. Q s \<Longrightarrow> a \<notin> set rms \<Longrightarrow> Q (s\<lparr>fa_contacts := fold hm_remove rms (fa_contacts s)\<rparr>)"
    and lib: "ord_ok (ord_addr E)" and run: "fa_poll_contacts E s = (Ok (), t)"
    and s: "P s" "hm_wf (fa_contacts s)" "hm_get (fa_contacts s) a \<noteq> None"
  shows "hm_get (fa_contacts t) a = None \<or> Q t"
proof -
  let ?ks = "ord_addr E (map fst (fa_contacts s))"
  obtain rms s1 where s1: "poll_contacts E ?ks s = (Ok rms, s1)"
    and t: "t = s1\<lparr>fa_contacts := fold hm_remove rms (fa_contacts s1)\<rparr>"
    using run by (auto simp: fa_poll_contacts_def gets_def modify_def elim!: and_then_OkE)
  have keys: "distinct (map fst (fa_contacts s))" "a \<in> set (map fst (fa_contacts s))"
    using s(2,3) by (auto simp: hm_wf_def map_of_eq_None_iff)
  have "mset ?ks = mset (map fst (fa_contacts s))" using lib unfolding ord_ok_def by blast
  from mset_eq_imp_distinct_iff [OF this] mset_eq_setD [OF this] keys have "distinct ?ks" "a \<in> set ?ks" by simp_all
  with poll_contacts_turn [of P a E Q, OF before own after s1] s(1) have "a \<in> set rms \<or> Q s1" by simp
  then show ?thesis using t away by (cases "a \<in> set rms") (simp_all add: hm_get_fold_remove)
qed

text \<open>What a poll of a contact sends to the modem and to WhatsApp is texts to its own address.\<close>

lemma poll_contact_tx:
  assumes "poll_contact E b s = (r, t)" and "\<And>c. hm_get (fa_contacts s) b = Some c \<Longrightarrow> cn_addr c = b"
  shows "\<exists>ws ms. fa_wa_tx t = fa_wa_tx s @ map (SendDirectMessage b) ws \<and>
    fa_m_tx t = fa_m_tx s @ map (SendMessage b) ms"
proof (cases "hm_get (fa_contacts s) b")
  case None
  then show ?thesis using assms(1) by (intro exI [of _ "[]"]) (simp add: poll_contact_def)
next
  case (Some c)
  let ?c = "c\<lparr>cn_store := fa_store s, cn_wa_tx := fa_wa_tx s, cn_modem_tx := fa_m_tx s, cn_now := fa_now s\<rparr>"
  from cn_poll_tx [of E ?c] assms(2) [OF Some] obtain ws ms
    where "cn_wa_tx (snd (cn_poll E ?c)) = fa_wa_tx s @ map (SendDirectMessage b) ws"
      and "cn_modem_tx (snd (cn_poll E ?c)) = fa_m_tx s @ map (SendMessage b) ms" by auto
  then show ?thesis
    using assms(1) Some
    by (intro exI [of _ ws] exI [of _ ms])
      (cases "cn_poll E ?c", auto simp: poll_contact_def Let_def fa_fail_def split: outcome.splits)
qed

end
