(* ===== verification/Factory_Delivery.thy ===== *)
theory Factory_Delivery
  imports Factory_Keeps
begin

text \<open>
  What the contact factory does with the messages it is told about, and with the contacts that fail.
\<close>

section \<open>Messages find their contacts\<close>

text \<open>
  A message for \<open>a\<close> is on its way: the contact is starting, or was told to process messages, or the
  component the message came through was asked to make it.
\<close>

definition underway :: "'t pdu_address \<Rightarrow> int \<Rightarrow> ('t, 'j) contact_factory \<Rightarrow> bool" where
  "underway a src s \<longleftrightarrow> hm_get (fa_starting s) a \<noteq> None \<or>
     (\<exists>c. hm_get (fa_contacts s) a = Some c \<and> CmProcessMessages \<in> set (cn_rx c)) \<or>
     (src = SOURCE_SMS \<and> ModemMakeContact a \<in> set (fa_m_tx s)) \<or>
     (src = SOURCE_WA \<and> WaMakeContact a \<in> set (fa_wa_tx s)) \<or> src \<notin> {SOURCE_SMS, SOURCE_WA}"

lemma underway_command: "underway a src s \<Longrightarrow> underway a src (fa_command b c s)"
  by (auto simp: underway_def fa_command_def add_command_def hm_get_insert split: option.split)

lemma underway_told: "hm_get (fa_contacts s) a \<noteq> None \<Longrightarrow> underway a src (fa_command a CmProcessMessages s)"
  by (auto simp: underway_def fa_command_def add_command_def hm_get_insert)

lemma underway_store: "pres (underway a src) (fa_db m)"
  by (rule presI) (simp add: fa_db_def on_field_def underway_def split: prod.split)

interpretation fuw: factory_keeps E "underway a src" for E :: "('t, 'j) ext" and a src
proof
  show "pres (underway a src) fa_process_groups"
    unfolding fa_process_groups_def by (rule pres_modify) (auto simp: underway_def hm_get_map add_command_def)
qed (simp_all add: underway_store underway_command, auto simp: underway_def hm_get_insert)

lemma underway_message: "pres (underway a src) (fa_process_message E m)"
  by (rule fuw.message) (simp add: underway_def)

text \<open>Asking for a contact leaves the clients there are alone, and what is known of messages.\<close>

definition clients_are ::
  "('t pdu_address, ('t, 'j) contact_mgr) hash_map \<Rightarrow> int list \<Rightarrow> ('t, 'j) contact_factory \<Rightarrow> bool" where
  "clients_are C X s \<longleftrightarrow> fa_contacts s = C \<and> fa_processed s = X"

interpretation fcl: factory_starts E "clients_are C X" for E :: "('t, 'j) ext" and C X
  by unfold_locales (auto simp: pres_def fa_db_def on_field_def clients_are_def split: prod.split)

lemma requested_underway:
  assumes lib: "hex_ok E" "ton_ok E"
    and run: "request_contact E (factory_cmm E) a src s = (Ok found, t)" and none: "hm_get (fa_contacts s) a = None"
  shows "underway a src t"
proof (cases found)
  case True
  then have "fa_has_contact a t"
    using fcm.request_contact_has [OF lib] run by simp
  moreover have "fa_contacts t = fa_contacts s"
    using presD [OF fcl.base(2) _ run, of "fa_contacts s" "fa_processed s"] by (simp add: clients_are_def)
  ultimately show ?thesis using none by (simp add: underway_def fa_has_contact_def)
next
  case False
  then obtain s1 where "then_do
      (if src = SOURCE_SMS then m_tx_send (factory_cmm E) (ModemMakeContact a)
       else if src = SOURCE_WA then wa_tx_send (factory_cmm E) (WaMakeContact a) else ret ()) (ret False) s1
      = (Ok False, t)"
    using run by (auto simp: request_contact_def ret_def elim!: and_then_OkE then_do_OkE split: option.splits)
  then show ?thesis
    by (auto simp: factory_cmm_def modify_def ret_def underway_def elim!: then_do_OkE split: if_splits)
qed

text \<open>A message that is seen for the first time.\<close>

definition tell_contact :: "('t, 'j) ext \<Rightarrow> int \<Rightarrow> 't pdu_address \<Rightarrow> (('t, 'j) contact_factory, unit) comp" where
  "tell_contact E src a s =
     (if hm_get (fa_starting s) a \<noteq> None then (Ok (), s)
      else if hm_get (fa_contacts s) a \<noteq> None then (Ok (), fa_command a CmProcessMessages s)
      else then_do (request_contact E (factory_cmm E) a src) (ret ()) s)"

lemma fresh_message:
  assumes "m_id m \<notin> set (fa_processed s)"
  shows "fa_process_message E m s = and_then (lift (get_addr E (m_phone_number m))) (tell_contact E (m_source m))
    (s\<lparr>fa_processed := fa_processed s @ [m_id m]\<rparr>)"
  using assms
  by (cases "get_addr E (m_phone_number m)")
    (simp_all add: fa_process_message_def and_then_def lift_def gets_def modify_def then_do_def tell_contact_def ret_def)

lemma tell_contact_result:
  assumes lib: "hex_ok E" "ton_ok E" and run: "tell_contact E src a s = (Ok (), t)"
  shows "underway a src t \<and> fa_processed t = fa_processed s"
proof (cases "hm_get (fa_starting s) a = None \<and> hm_get (fa_contacts s) a = None")
  case True
  then obtain found where req: "request_contact E (factory_cmm E) a src s = (Ok found, t)"
    using run by (auto simp: tell_contact_def ret_def elim!: then_do_OkE)
  from requested_underway [OF lib req] presD [OF fcl.base(2) _ req, of "fa_contacts s" "fa_processed s"] True
  show ?thesis by (simp add: clients_are_def)
next
  case False
  have same: "fa_processed (fa_command a c s) = fa_processed s" for c
    by (simp add: fa_command_def split: option.split)
  from False run underway_told [of s a src] same show ?thesis
    by (auto simp: tell_contact_def underway_def split: if_splits)
qed

lemma fresh_message_result:
  assumes lib: "hex_ok E" "ton_ok E" and run: "fa_process_message E m s = (Ok (), t)"
    and fresh: "m_id m \<notin> set (fa_processed s)"
  shows "fa_processed t = fa_processed s @ [m_id m] \<and>
    (\<exists>a. get_addr E (m_phone_number m) = Ok a \<and> underway a (m_source m) t)"
  using run tell_contact_result [OF lib, of "m_source m"]
  unfolding fresh_message [OF fresh] by (auto simp: lift_def elim!: and_then_OkE)

text \<open>And so for a list of messages with different identifiers.\<close>

lemma messages_underway:
  assumes lib: "hex_ok E" "ton_ok E" and "for_each ms (fa_process_message E) s = (Ok (), t)" and "distinct (map m_id ms)"
  shows "\<forall>m \<in> set ms. m_id m \<notin> set (fa_processed s) \<longrightarrow>
    (\<exists>a. get_addr E (m_phone_number m) = Ok a \<and> underway a (m_source m) t)"
  using assms(3,4)
proof (induction ms arbitrary: s)
  case (Cons m ms)
  obtain s1 where s1: "fa_process_message E m s = (Ok (), s1)" "for_each ms (fa_process_message E) s1 = (Ok (), t)"
    using Cons.prems(1) by (auto elim: then_do_OkE)
  have keep: "underway a src s1 \<Longrightarrow> underway a src t" for a src
    using presD [OF pres_for_each [OF underway_message] _ s1(2)] by blast
  have done_eq: "set (fa_processed s1) \<subseteq> set (fa_processed s) \<union> {m_id m}"
  proof (cases "m_id m \<in> set (fa_processed s)")
    case True
    then show ?thesis using s1(1) by (auto simp: fa_process_message_def ret_def)
  qed (use fresh_message_result [OF lib s1(1)] in auto)
  show ?case
  proof
    fix x assume "x \<in> set (m # ms)"
    then consider "x = m" | "x \<in> set ms" by auto
    then show "m_id x \<notin> set (fa_processed s) \<longrightarrow>
        (\<exists>a. get_addr E (m_phone_number x) = Ok a \<and> underway a (m_source x) t)"
    proof cases
      case 1
      then show ?thesis using fresh_message_result [OF lib s1(1)] keep by blast
    next
      case 2
      moreover from this have "m_id x \<noteq> m_id m" using Cons.prems(2) by (metis image_eqI distinct.simps(2) list.simps(9) set_map)
      ultimately show ?thesis using Cons.IH [OF s1(2)] Cons.prems(2) done_eq by auto
    qed
  qed
qed simp

section \<open>Contacts that fail\<close>

text \<open>
  A contact whose poll fails is put among the failed ones; the others go on, and the factory itself
  does not fail.
\<close>

lemma poll_contact_result:
  assumes "poll_contact E a s = (r, t)"
  shows "(\<forall>e. r \<noteq> Err e) \<and> (\<forall>b. hm_get (fa_contacts t) b = None \<longleftrightarrow> hm_get (fa_contacts s) b = None) \<and>
    set (fa_failed t) = set (fa_failed s) \<union> (if r = Ok True then {a} else {}) \<and>
    (r = Ok True \<longrightarrow> hm_get (fa_contacts s) a \<noteq> None)"
proof (cases "hm_get (fa_contacts s) a")
  case None
  then show ?thesis using assms by (auto simp: poll_contact_def)
next
  case (Some c)
  let ?c = "c\<lparr>cn_store := fa_store s, cn_wa_tx := fa_wa_tx s, cn_modem_tx := fa_m_tx s, cn_now := fa_now s\<rparr>"
  obtain r' c' where run: "cn_poll E ?c = (r', c')" by (cases "cn_poll E ?c")
  then show ?thesis
    using assms Some
    by (cases r') (auto simp: poll_contact_def Let_def hm_get_insert fa_fail_def set_insert_def split: if_splits)
qed

lemma poll_contacts_result:
  assumes "poll_contacts E ks s = (r, t)"
  shows "(\<forall>e. r \<noteq> Err e) \<and> (\<forall>b. hm_get (fa_contacts t) b = None \<longleftrightarrow> hm_get (fa_contacts s) b = None) \<and>
    (\<forall>rms. r = Ok rms \<longrightarrow> set (fa_failed t) = set (fa_failed s) \<union> set rms \<and>
       (\<forall>a \<in> set rms. hm_get (fa_contacts s) a \<noteq> None))"
  using assms
proof (induction ks arbitrary: s r)
  case (Cons k ks)
  obtain r1 s1 where s1: "poll_contact E k s = (r1, s1)" by (cases "poll_contact E k s")
  obtain r2 s2 where s2: "poll_contacts E ks s1 = (r2, s2)" by (cases "poll_contacts E ks s1")
  from poll_contact_result [OF s1] Cons.IH [of s1 r2] Cons.prems s1 s2 show ?case
    by (cases r1; cases r2) (auto simp: and_then_def ret_def split: if_splits)
qed (auto simp: ret_def)

lemma fa_poll_contacts_result:
  assumes "fa_poll_contacts E s = (r, t)"
  shows "(\<forall>e. r \<noteq> Err e) \<and> (r = Ok () \<longrightarrow> (\<exists>F. set (fa_failed t) = set (fa_failed s) \<union> F \<and>
    (\<forall>a. hm_get (fa_contacts t) a \<noteq> None \<longleftrightarrow> hm_get (fa_contacts s) a \<noteq> None \<and> a \<notin> F) \<and>
    (\<forall>a \<in> F. hm_get (fa_contacts s) a \<noteq> None)))"
proof -
  obtain r1 s1 where s1: "poll_contacts E (ord_addr E (map fst (fa_contacts s))) s = (r1, s1)"
    by (cases "poll_contacts E (ord_addr E (map fst (fa_contacts s))) s")
  note res = poll_contacts_result [OF s1]
  show ?thesis
  proof (cases r1)
    case (Ok rms)
    then have t: "r = Ok ()" "t = s1\<lparr>fa_contacts := fold hm_remove rms (fa_contacts s1)\<rparr>"
      using assms s1 by (simp_all add: fa_poll_contacts_def and_then_def gets_def modify_def)
    have "hm_get (fa_contacts t) a = None \<longleftrightarrow> hm_get (fa_contacts s) a = None \<or> a \<in> set rms" for a
      using res t by (simp add: hm_get_fold_remove del: not_None_eq)
    then show ?thesis using res Ok t by (intro conjI impI exI [of _ "set rms"]) auto
  qed (use res assms s1 in \<open>simp_all add: fa_poll_contacts_def and_then_def gets_def\<close>)
qed

text \<open>When the timer fires each of them that still has a recipient is set up again.\<close>

definition rows_are :: "recipient list \<Rightarrow> 't pdu_address set \<Rightarrow> ('t, 'j) contact_factory \<Rightarrow> bool" where
  "rows_are R A s \<longleftrightarrow> recipients (fa_store s) = R \<and> (\<forall>a \<in> A. fa_has_contact a s)"

interpretation frw: factory_starts E "rows_are R A" for E :: "('t, 'j) ext" and R A
proof
  show "pres (rows_are R A :: ('t, 'j) contact_factory \<Rightarrow> bool) (fa_db (get_recipient_by_addr_opt E a))" for a
  proof (rule presI)
    fix s :: "('t, 'j) contact_factory" assume s: "rows_are R A s"
    obtain r d where d: "get_recipient_by_addr_opt E a (fa_store s) = (r, d)"
      by (cases "get_recipient_by_addr_opt E a (fa_store s)")
    with fcm.by_addr_facts [OF d] s show "rows_are R A (snd (fa_db (get_recipient_by_addr_opt E a) s))"
      by (simp add: fa_db_def on_field_def rows_are_def fa_has_contact_def)
  qed
qed (auto simp: rows_are_def fa_has_contact_def hm_get_insert)

lemma setup_contact_has:
  assumes lib: "hex_ok E" "ton_ok E" and run: "setup_contact E (factory_cmm E) a s = (Ok (), t)"
    and row: "normalize_address E a \<in> r_phone_number ` set (recipients (fa_store s))"
  shows "fa_has_contact a t"
proof -
  obtain ro s1 where s1: "fa_db (get_recipient_by_addr_opt E a) s = (Ok ro, s1)"
    and rest: "(case ro of Some r \<Rightarrow> setup_recipient E (factory_cmm E) r | None \<Rightarrow> ret ()) s1 = (Ok (), t)"
    using run by (auto simp: setup_contact_def elim!: and_then_OkE)
  have "get_recipient_by_addr_opt E a (fa_store s) = (Ok ro, fa_store s1)"
    using s1 by (auto simp: fa_db_def on_field_def split: prod.splits)
  from fcm.by_addr_facts [OF this] row obtain r where r: "ro = Some r" "r_phone_number r = normalize_address E a"
    by (cases ro) auto
  with rest fcm.setup_recipient_has [of E r s1 t] get_addr_of_normal [OF lib] show ?thesis by auto
qed

lemma setup_all_has:
  assumes lib: "hex_ok E" "ton_ok E" and "for_each as (setup_contact E (factory_cmm E)) s = (Ok (), t)"
    and "rows_are R A s"
  shows "rows_are R (A \<union> {a \<in> set as. normalize_address E a \<in> r_phone_number ` set R}) t"
  using assms(3,4)
proof (induction as arbitrary: s A)
  case (Cons a as)
  obtain s1 where s1: "setup_contact E (factory_cmm E) a s = (Ok (), s1)" "for_each as (setup_contact E (factory_cmm E)) s1 = (Ok (), t)"
    using Cons.prems(1) by (auto elim: then_do_OkE)
  let ?A = "A \<union> {b. b = a \<and> normalize_address E a \<in> r_phone_number ` set R}"
  have "rows_are R ?A s1"
    using presD [OF frw.base(4) Cons.prems(2) s1(1)] setup_contact_has [OF lib s1(1)] Cons.prems(2)
    by (auto simp: rows_are_def)
  from Cons.IH [OF s1(2) this] show ?case by (auto simp: rows_are_def)
qed (simp add: ret_def rows_are_def)

end
