(* ===== verification/Logging.thy ===== *)
theory Logging
  imports Wa_Lib
begin

text \<open>
  \<open>logging.rs\<close>: the logger, which prints the records of the program and hands those that matter to
  the log channel on IRC.
\<close>

section \<open>Levels\<close>

text \<open>
  The levels and filters of the \<open>log\<close> crate. Both are ordered by how much they let through, and a
  record passes a filter when its level is at most the filter.
\<close>

datatype log_level = LogError | LogWarn | LogInfo | LogDebug | LogTrace

datatype level_filter = LevelOff | UpTo log_level

primrec level_rank :: "log_level \<Rightarrow> nat" where
  "level_rank LogError = 1"
| "level_rank LogWarn = 2"
| "level_rank LogInfo = 3"
| "level_rank LogDebug = 4"
| "level_rank LogTrace = 5"

primrec filter_rank :: "level_filter \<Rightarrow> nat" where
  "filter_rank LevelOff = 0"
| "filter_rank (UpTo l) = level_rank l"

lemma level_rank_neq [simp]: "level_rank l \<noteq> 0"
  by (cases l) simp_all

lemma level_rank_inject [simp]: "level_rank a = level_rank b \<longleftrightarrow> a = b"
  by (cases a; cases b) simp_all

lemma filter_rank_inject: "filter_rank f = filter_rank g \<longleftrightarrow> f = g"
  by (cases f; cases g) (simp_all add: eq_commute [of 0])

instantiation level_filter :: linorder
begin

definition less_eq_level_filter :: "level_filter \<Rightarrow> level_filter \<Rightarrow> bool" where
  "f \<le> g \<longleftrightarrow> filter_rank f \<le> filter_rank g"

definition less_level_filter :: "level_filter \<Rightarrow> level_filter \<Rightarrow> bool" where
  "f < g \<longleftrightarrow> filter_rank f < filter_rank g"

instance
  by standard (auto simp: less_eq_level_filter_def less_level_filter_def filter_rank_inject [symmetric])

end

abbreviation passes :: "log_level \<Rightarrow> level_filter \<Rightarrow> bool" where
  "passes l f \<equiv> UpTo l \<le> f"

section \<open>The logger\<close>

record log_record =
  lr_target :: string
  lr_level :: log_level
  lr_args :: string

text \<open>\<open>lg_stdout\<close> is what was printed, \<open>lg_cb_tx\<close> what was sent to the control bot.\<close>

record logger =
  lg_chan_level :: level_filter
  lg_stdout_level :: level_filter
  lg_ignore :: bool
  lg_cb_tx :: "control_bot_command list"
  lg_stdout :: "string list"

definition logger_new :: "level_filter \<Rightarrow> level_filter \<Rightarrow> bool \<Rightarrow> logger" where
  "logger_new cll sll ign =
     \<lparr>lg_chan_level = cll, lg_stdout_level = sll, lg_ignore = ign, lg_cb_tx = [], lg_stdout = []\<rparr>"

text \<open>The level \<open>register\<close> gives the logging macros, which drop a record above it.\<close>

definition register_level :: "logger \<Rightarrow> level_filter" where
  "register_level lg = max (lg_chan_level lg) (lg_stdout_level lg)"

definition log_ignored :: "logger \<Rightarrow> string \<Rightarrow> bool" where
  "log_ignored lg target \<longleftrightarrow>
     lg_ignore lg \<and> \<not> starts_with target ''sms_irc'' \<and> \<not> starts_with target ''whatsappweb_eta''"

definition log_enabled :: "logger \<Rightarrow> string \<Rightarrow> log_level \<Rightarrow> bool" where
  "log_enabled lg target lvl \<longleftrightarrow>
     (if log_ignored lg target then False else passes lvl (lg_chan_level lg) \<or> passes lvl (lg_stdout_level lg))"

primrec level_colour :: "log_level \<Rightarrow> string" where
  "level_colour LogError = ''04''"
| "level_colour LogWarn = ''07''"
| "level_colour LogInfo = ''09''"
| "level_colour LogDebug = ''10''"
| "level_colour LogTrace = ''11''"

text \<open>\<open>name\<close> is how the crate prints a level.\<close>

definition stdout_line :: "(log_level \<Rightarrow> string) \<Rightarrow> log_record \<Rightarrow> string" where
  "stdout_line name r = ''['' @ lr_target r @ ''] '' @ name (lr_level r) @ '' -- '' @ lr_args r"

definition channel_line :: "(log_level \<Rightarrow> string) \<Rightarrow> log_record \<Rightarrow> string" where
  "channel_line name r =
     ''['' @ colour @ ''02'' @ lr_target r @ plain @ ''] '' @ bold @ colour @ level_colour (lr_level r)
       @ name (lr_level r) @ plain @ '' -- '' @ lr_args r"

definition logger_log :: "(log_level \<Rightarrow> string) \<Rightarrow> log_record \<Rightarrow> logger \<Rightarrow> logger" where
  "logger_log name r lg =
     (if log_ignored lg (lr_target r) then lg
      else let lg1 = (if passes (lr_level r) (lg_stdout_level lg)
                      then lg\<lparr>lg_stdout := lg_stdout lg @ [stdout_line name r]\<rparr> else lg)
           in if passes (lr_level r) (lg_chan_level lg1)
              then lg1\<lparr>lg_cb_tx := lg_cb_tx lg1 @ [Log (channel_line name r)]\<rparr> else lg1)"

text \<open>A logging macro, after \<open>register\<close>.\<close>

definition log_macro :: "(log_level \<Rightarrow> string) \<Rightarrow> log_record \<Rightarrow> logger \<Rightarrow> logger" where
  "log_macro name r lg = (if passes (lr_level r) (register_level lg) then logger_log name r lg else lg)"

section \<open>What a run of the program logs\<close>

text \<open>The records that concern the channel, and what of a list of commands are log lines.\<close>

definition for_channel :: "logger \<Rightarrow> log_record \<Rightarrow> bool" where
  "for_channel lg r \<longleftrightarrow> \<not> log_ignored lg (lr_target r) \<and> passes (lr_level r) (lg_chan_level lg)"

fun log_lines :: "control_bot_command list \<Rightarrow> string list" where
  "log_lines [] = []"
| "log_lines (Log l # cs) = l # log_lines cs"
| "log_lines (c # cs) = log_lines cs"

lemma log_lines_append [simp]: "log_lines (xs @ ys) = log_lines xs @ log_lines ys"
  by (induction xs rule: log_lines.induct) simp_all

lemma logger_log_levels [simp]:
  "lg_chan_level (logger_log name r lg) = lg_chan_level lg"
  "lg_stdout_level (logger_log name r lg) = lg_stdout_level lg" "lg_ignore (logger_log name r lg) = lg_ignore lg"
  by (simp_all add: logger_log_def Let_def)

lemma log_macro_levels:
  "lg_chan_level (log_macro name r lg) = lg_chan_level lg"
  "lg_stdout_level (log_macro name r lg) = lg_stdout_level lg" "lg_ignore (log_macro name r lg) = lg_ignore lg"
  by (simp_all add: log_macro_def)

lemma log_macro_lines:
  "log_lines (lg_cb_tx (log_macro name r lg)) =
     log_lines (lg_cb_tx lg) @ (if for_channel lg r then [channel_line name r] else [])"
proof -
  have "passes l (lg_chan_level lg) \<Longrightarrow> passes l (register_level lg)" for l
    by (simp add: register_level_def le_max_iff_disj)
  then show ?thesis
    by (simp add: log_macro_def logger_log_def Let_def for_channel_def)
qed

lemma log_run_lines:
  "log_lines (lg_cb_tx (fold (log_macro name) rs lg)) =
     log_lines (lg_cb_tx lg) @ map (channel_line name) (filter (for_channel lg) rs)"
proof (induction rs arbitrary: lg)
  case (Cons r rs)
  have "for_channel (log_macro name r lg) = for_channel lg"
    by (simp add: for_channel_def log_ignored_def log_macro_levels fun_eq_iff)
  then show ?case by (simp add: Cons.IH log_macro_lines)
qed simp

text \<open>A record has an effect exactly when the logger says that it is enabled.\<close>

lemma enabled_iff_effect:
  "log_macro name r lg \<noteq> lg \<longleftrightarrow> log_enabled lg (lr_target r) (lr_level r)"
proof -
  have reg: "passes l (register_level lg) \<longleftrightarrow> passes l (lg_chan_level lg) \<or> passes l (lg_stdout_level lg)" for l
    by (simp add: register_level_def le_max_iff_disj)
  have "lg\<lparr>lg_cb_tx := lg_cb_tx lg @ [c]\<rparr> \<noteq> lg" "lg\<lparr>lg_stdout := lg_stdout lg @ [x]\<rparr> \<noteq> lg"
    "lg\<lparr>lg_stdout := lg_stdout lg @ [x], lg_cb_tx := lg_cb_tx lg @ [c]\<rparr> \<noteq> lg" for c x
    by (metis (no_types) append_self_conv logger.ext_inject logger.surjective logger.update_convs not_Cons_self2)+
  then show ?thesis
    by (auto simp: log_macro_def reg logger_log_def Let_def log_enabled_def)
qed

end
