(* ===== verification/Startup.thy ===== *)
theory Startup
  imports Logging Modem Whatsapp Irc_Client
begin

text \<open>
  \<open>config.rs\<close> and the first half of \<open>main.rs\<close>: finding and reading the configuration, setting up the
  logger, and the choice of one of the three modes the program can run in.
\<close>

section \<open>Configuration\<close>

record logging_config =
  lc_chan_loglevel :: "string option"
  lc_stdout_loglevel :: "string option"
  lc_ignore_other_libraries :: bool

text \<open>The section \<open>irc_server\<close> holds the address to listen on.\<close>

record irc_server_config =
  sc_listen :: string

record main_config =
  mf_database_url :: string
  mf_client :: "client_config option"
  mf_insp_s2s :: "insp_config option"
  mf_irc_server :: "irc_server_config option"
  mf_modem :: modem_config
  mf_whatsapp :: wa_config
  mf_logging :: logging_config

section \<open>The world the program starts in\<close>

text \<open>
  The variable \<open>SMSIRC_CONFIG\<close>, the files, and the parsers of TOML and of log levels. \<open>None\<close> stands for
  an error.
\<close>

record start_env =
  se_var :: "string option"
  se_exists :: "string \<Rightarrow> bool"
  se_read :: "string \<Rightarrow> string option"
  se_toml :: "string \<Rightarrow> main_config option"
  se_level :: "string \<Rightarrow> level_filter option"

definition or_error :: "error \<Rightarrow> 'a option \<Rightarrow> 'a outcome" where
  "or_error e x = (case x of None \<Rightarrow> Err e | Some y \<Rightarrow> Ok y)"

definition find_config :: "start_env \<Rightarrow> string outcome" where
  "find_config S = (case se_var S of
      Some p \<Rightarrow> Ok p
    | None \<Rightarrow>
        if se_exists S ''config.toml'' then Ok ''config.toml''
        else if se_exists S ''/etc/sms-irc.conf'' then Ok ''/etc/sms-irc.conf''
        else Panic)"

section \<open>The modes\<close>

datatype run_mode = ClientMode client_config | InspMode insp_config | ServerMode irc_server_config

definition count_sections :: "main_config \<Rightarrow> nat" where
  "count_sections cfg =
     of_bool (mf_client cfg \<noteq> None) + of_bool (mf_insp_s2s cfg \<noteq> None) + of_bool (mf_irc_server cfg \<noteq> None)"

text \<open>The chain of conditions at the end of \<open>main\<close>; where none holds, \<open>main\<close> returns.\<close>

definition choose_mode :: "main_config \<Rightarrow> run_mode option" where
  "choose_mode cfg = (case mf_client cfg of
      Some c \<Rightarrow> Some (ClientMode c)
    | None \<Rightarrow> (case mf_insp_s2s cfg of
        Some i \<Rightarrow> Some (InspMode i)
      | None \<Rightarrow> map_option ServerMode (mf_irc_server cfg)))"

text \<open>
  What \<open>main\<close> does before it creates the components. The statements are those of \<open>Store::new\<close>; the
  records that \<open>main\<close> itself logs are left out.
\<close>

definition main_start :: "('t, 'j) ext \<Rightarrow> start_env \<Rightarrow> (db, main_config \<times> logger \<times> run_mode option) comp" where
  "main_start E S =
     and_then (lift (find_config S)) (\<lambda>path.
     and_then (lift (or_error IoError (se_read S path))) (\<lambda>contents.
     and_then (lift (or_error ParseError (se_toml S contents))) (\<lambda>cfg.
     and_then (lift (or_error ParseError (se_level S (unwrap_or (lc_chan_loglevel (mf_logging cfg)) ''info'')))) (\<lambda>cll.
     and_then (lift (or_error ParseError (se_level S (unwrap_or (lc_stdout_loglevel (mf_logging cfg)) ''info'')))) (\<lambda>sll.
       if count_sections cfg \<noteq> 1 then panic
       else then_do (store_new E)
         (ret (cfg, logger_new cll sll (lc_ignore_other_libraries (mf_logging cfg)), choose_mode cfg)))))))"

section \<open>Exactly one mode\<close>

lemma one_section:
  "count_sections cfg = 1 \<Longrightarrow>
     (\<exists>c. mf_client cfg = Some c \<and> mf_insp_s2s cfg = None \<and> mf_irc_server cfg = None) \<or>
     (\<exists>i. mf_client cfg = None \<and> mf_insp_s2s cfg = Some i \<and> mf_irc_server cfg = None) \<or>
     (\<exists>v. mf_client cfg = None \<and> mf_insp_s2s cfg = None \<and> mf_irc_server cfg = Some v)"
  by (cases "mf_client cfg"; cases "mf_insp_s2s cfg"; cases "mf_irc_server cfg"; simp add: count_sections_def)

lemma choose_mode_iff:
  assumes "count_sections cfg = 1"
  shows "choose_mode cfg = Some (ClientMode c) \<longleftrightarrow> mf_client cfg = Some c"
    and "choose_mode cfg = Some (InspMode i) \<longleftrightarrow> mf_insp_s2s cfg = Some i"
    and "choose_mode cfg = Some (ServerMode v) \<longleftrightarrow> mf_irc_server cfg = Some v"
    and "choose_mode cfg \<noteq> None"
  using one_section [OF assms] by (auto simp: choose_mode_def)

lemma main_start_one_mode:
  assumes "main_start E S d = (Ok (cfg, lg, mode), d')"
  shows "count_sections cfg = 1 \<and> mode = choose_mode cfg \<and>
    se_level S (unwrap_or (lc_chan_loglevel (mf_logging cfg)) ''info'') = Some (lg_chan_level lg) \<and>
    se_level S (unwrap_or (lc_stdout_loglevel (mf_logging cfg)) ''info'') = Some (lg_stdout_level lg)"
  using assms unfolding main_start_def
  by (auto simp: lift_def ret_def panic_def or_error_def logger_new_def
      elim!: and_then_OkE then_do_OkE split: option.splits if_splits)

end
