(* ===== verification/Bridge.thy ===== *)
theory Bridge
  imports Startup Modem Whatsapp Db_Ok
begin

text \<open>
  The second half of \<open>main.rs\<close>: the components it creates, the channels (\<open>comm.rs\<close>) and the database they
  share, and the event loop that polls them one at a time. The modem and WhatsApp are there in every mode;
  what talks to IRC, the front, is a parameter here.
\<close>

section \<open>The process\<close>

text \<open>
  \<open>br_cf\<close> and \<open>br_cb\<close> are the channels for commands to contacts and to the control bot, which fill up
  until the front is there; those to the modem and to WhatsApp are with their managers.
\<close>

record ('t, 'j, 'f) bridge =
  br_db :: db
  br_now :: int
  br_modem :: "'t modem_mgr"
  br_wa :: "('t, 'j) wa_manager"
  br_front :: "'f option"
  br_cf :: "'t contact_factory_command list"
  br_cb :: "control_bot_command list"

text \<open>
  The state in which \<open>main\<close> turns to the front. \<open>menv\<close> and \<open>wenv\<close>
  are what the serial port and the connection of WhatsApp will answer.
\<close>

definition bridge_new ::
  "main_config \<Rightarrow> db \<Rightarrow> 't modem_mgr \<Rightarrow> 'j web_conn \<Rightarrow> timer_answer list \<Rightarrow> int \<Rightarrow> ('t, 'j, 'f) bridge" where
  "bridge_new cfg d menv wenv tm now =
     \<lparr>br_db = d, br_now = now,
      br_modem = modem_new (mf_modem cfg) (menv\<lparr>mm_rx := [], mm_cf_tx := [], mm_cb_tx := []\<rparr>) d,
      br_wa = wa_new (mf_whatsapp cfg) d wenv tm now, br_front = None, br_cf = [], br_cb = []\<rparr>"

section \<open>Polling\<close>

text \<open>
  A component is polled on the database, the clock and its channel; what it sent is put into the
  channels of the others, where it stays also when the poll fails.
\<close>

definition the_modem :: "('t, 'j, 'f) bridge \<Rightarrow> 't modem_mgr" where
  "the_modem b = (br_modem b)\<lparr>mm_store := br_db b, mm_now := br_now b\<rparr>"

definition put_modem :: "'t modem_mgr \<Rightarrow> ('t, 'j, 'f) bridge \<Rightarrow> ('t, 'j, 'f) bridge" where
  "put_modem m b =
     b\<lparr>br_db := mm_store m, br_modem := m\<lparr>mm_cf_tx := [], mm_cb_tx := []\<rparr>,
       br_cf := br_cf b @ mm_cf_tx m, br_cb := br_cb b @ mm_cb_tx m\<rparr>"

definition the_wa :: "('t, 'j, 'f) bridge \<Rightarrow> ('t, 'j) wa_manager" where
  "the_wa b = (br_wa b)\<lparr>w_store := br_db b, w_now := br_now b\<rparr>"

definition put_wa :: "('t, 'j) wa_manager \<Rightarrow> ('t, 'j, 'f) bridge \<Rightarrow> ('t, 'j, 'f) bridge" where
  "put_wa w b =
     b\<lparr>br_db := w_store w, br_wa := w\<lparr>w_cf_tx := [], w_cb_tx := []\<rparr>,
       br_cf := br_cf b @ w_cf_tx w, br_cb := br_cb b @ w_cb_tx w\<rparr>"

text \<open>Commands for the modem and for WhatsApp.\<close>

definition to_modem :: "'t modem_command list \<Rightarrow> ('t, 'j, 'f) bridge \<Rightarrow> ('t, 'j, 'f) bridge" where
  "to_modem cs b = b\<lparr>br_modem := (br_modem b)\<lparr>mm_rx := mm_rx (br_modem b) @ cs\<rparr>\<rparr>"

definition to_wa :: "('t, 'j) whatsapp_command list \<Rightarrow> ('t, 'j, 'f) bridge \<Rightarrow> ('t, 'j, 'f) bridge" where
  "to_wa cs b = b\<lparr>br_wa := (br_wa b)\<lparr>w_rx := w_rx (br_wa b) @ cs\<rparr>\<rparr>"

text \<open>
  How a front is made once it is connected, the parts of it that are polled, and what else may happen to it.
\<close>

record ('t, 'j, 'f, 'x) mode_ops =
  mode_boot :: "main_config \<Rightarrow> ('t, 'j, 'f) bridge \<Rightarrow> ('t, 'j, 'f) bridge \<Rightarrow> bool"
  mode_poll :: "'x \<Rightarrow> (('t, 'j, 'f) bridge, unit) comp"
  mode_world :: "('t, 'j, 'f) bridge \<Rightarrow> ('t, 'j, 'f) bridge \<Rightarrow> bool"

datatype 'x task = TaskModem | TaskWhatsapp | TaskFront 'x

definition run_task ::
  "('t, 'j) ext \<Rightarrow> 't modem_lib \<Rightarrow> wa_lib \<Rightarrow> ('t, 'j, 'f, 'x) mode_ops \<Rightarrow> 'x task \<Rightarrow> (('t, 'j, 'f) bridge, unit) comp" where
  "run_task E M L D t = (case t of
      TaskModem \<Rightarrow> on_field the_modem put_modem (manager_poll E M)
    | TaskWhatsapp \<Rightarrow> on_field the_wa put_wa (wa_poll E L)
    | TaskFront x \<Rightarrow> mode_poll D x)"

section \<open>The world around it\<close>

text \<open>A message that the modem library lists has the PDU it was read from.\<close>

definition sms_ok :: "('t, 'j) ext \<Rightarrow> 't sms_message \<Rightarrow> bool" where
  "sms_ok E m \<longleftrightarrow> deliver_try_from E (raw_pdu m) = Some (pdu m)"

text \<open>How the futures of the modem manager end, and its timer fires.\<close>

inductive modem_ends :: "('t, 'j) ext \<Rightarrow> 't modem_mgr \<Rightarrow> 't modem_mgr \<Rightarrow> bool" for E :: "('t, 'j) ext" where
  ends_listing: "ListSms \<in> set (mm_jobs m) \<Longrightarrow> (\<And>ms. r = JobOk ms \<Longrightarrow> list_all (sms_ok E) ms) \<Longrightarrow>
    modem_ends E m (list_done r (m\<lparr>mm_jobs := remove1 ListSms (mm_jobs m)\<rparr>))"
| ends_deletion: "DeleteSms \<in> set (mm_jobs m) \<Longrightarrow>
    modem_ends E m (delete_done r' (m\<lparr>mm_jobs := remove1 DeleteSms (mm_jobs m)\<rparr>))"
| ends_registration: "GetRegistration \<in> set (mm_jobs m) \<Longrightarrow>
    modem_ends E m (registration_done reg (m\<lparr>mm_jobs := remove1 GetRegistration (mm_jobs m)\<rparr>))"
| ends_signal: "GetSignal \<in> set (mm_jobs m) \<Longrightarrow>
    modem_ends E m (signal_done csq (m\<lparr>mm_jobs := remove1 GetSignal (mm_jobs m)\<rparr>))"
| ends_sending: "SendSms a ps \<in> set (mm_jobs m) \<Longrightarrow>
    modem_ends E m (send_done E a res (m\<lparr>mm_jobs := remove1 (SendSms a ps) (mm_jobs m)\<rparr>))"
| ticks: "modem_ends E m (cmgl_tick m)"
| port: "modem_ends E m (m\<lparr>mm_timers := ts, mm_inits := is\<rparr>)"
| line: "mm_inner m = ModemRunning us \<Longrightarrow> modem_ends E m (m\<lparr>mm_inner := ModemRunning vs\<rparr>)"

text \<open>
  Time passes, statements will fail, log records are written, and all the connections answer. The one
  promise is that the library does not end the event stream of WhatsApp.
\<close>

inductive world_step :: "('t, 'j) ext \<Rightarrow> ('t, 'j, 'f) bridge \<Rightarrow> ('t, 'j, 'f) bridge \<Rightarrow> bool" for E :: "('t, 'j) ext" where
  time: "world_step E b (b\<lparr>br_now := n, br_db := (br_db b)\<lparr>faults := fs, db_clock := c\<rparr>\<rparr>)"
| logging: "world_step E b (b\<lparr>br_cb := br_cb b @ map Log recs\<rparr>)"
| modem_port: "modem_ends E (the_modem b) m \<Longrightarrow> world_step E b (put_modem m b)"
| wa_link: "StreamEnded \<notin> set st \<Longrightarrow> world_step E b (b\<lparr>br_wa := (br_wa b)\<lparr>w_conn := (w_conn (br_wa b))
      \<lparr>wc_timers := wt, wc_connects := wcs, wc_stream := st, wc_sends := wss, wc_flushes := fl\<rparr>\<rparr>\<rparr>)"
| wa_timer: "world_step E b (b\<lparr>br_wa := (br_wa b)\<lparr>w_ackp := (w_ackp (br_wa b))\<lparr>at_timer := ts\<rparr>,
      w_msgproc := (w_msgproc (br_wa b))\<lparr>wp_io := io\<rparr>\<rparr>\<rparr>)"
| wa_media: "world_step E b (to_wa [MediaFinished r] b)"

text \<open>
  The runs of the process: it ends when a poll fails or panics, so only successful polls lead on.
\<close>

inductive bridge_reach ::
  "('t, 'j) ext \<Rightarrow> 't modem_lib \<Rightarrow> wa_lib \<Rightarrow> ('t, 'j, 'f, 'x) mode_ops \<Rightarrow> main_config \<Rightarrow> ('t, 'j, 'f) bridge \<Rightarrow> bool"
  for E :: "('t, 'j) ext" and M L D cfg
where
  start: "main_start E S d = (Ok (cfg, lg, mode), d') \<Longrightarrow> db_ok E d \<Longrightarrow> StreamEnded \<notin> set (wc_stream wenv) \<Longrightarrow>
    bridge_reach E M L D cfg (bridge_new cfg d' menv wenv tm now)"
| boots: "bridge_reach E M L D cfg b \<Longrightarrow> br_front b = None \<Longrightarrow> mode_boot D cfg b b' \<Longrightarrow> bridge_reach E M L D cfg b'"
| polls: "bridge_reach E M L D cfg b \<Longrightarrow> run_task E M L D t b = (Ok (), b') \<Longrightarrow> bridge_reach E M L D cfg b'"
| worlds: "bridge_reach E M L D cfg b \<Longrightarrow> world_step E b b' \<Longrightarrow> bridge_reach E M L D cfg b'"
| fronts: "bridge_reach E M L D cfg b \<Longrightarrow> mode_world D b b' \<Longrightarrow> bridge_reach E M L D cfg b'"

end
