(* ===== verification/Control_Bot.thy ===== *)
theory Control_Bot
  imports Irc_Client Control_Common
begin

text \<open>
  \<open>control.rs\<close>: the IRC bot through which the administrator controls the bridge when it is a client of
  an IRC network. It also carries the group messages of the administrator and the log.
\<close>

section \<open>State\<close>

record ('t, 'j) control_bot =
  co_irc :: irc_client
  co_chan :: string
  co_admin :: string
  co_channels :: "string list"
  co_log_backlog :: "string list"
  co_store :: db
  co_id :: bool
  co_connected :: bool
  co_webirc_password :: "string option"
  co_rx :: "control_bot_command list"
  co_cf_tx :: "'t contact_factory_command list"
  co_wa_tx :: "('t, 'j) whatsapp_command list"
  co_m_tx :: "'t modem_command list"

definition co_client :: "(irc_client, 'a) comp \<Rightarrow> (('t, 'j) control_bot, 'a) comp" where
  "co_client = on_field co_irc (\<lambda>c s. s\<lparr>co_irc := c\<rparr>)"

definition co_send :: "client_cmd \<Rightarrow> (('t, 'j) control_bot, unit) comp" where
  "co_send c = co_client (client_send c)"

definition co_db :: "(db, 'a) comp \<Rightarrow> (('t, 'j) control_bot, 'a) comp" where
  "co_db = on_field co_store (\<lambda>d s. s\<lparr>co_store := d\<rparr>)"

section \<open>The trait \<open>ControlCommon\<close>\<close>

definition co_control_response :: "string \<Rightarrow> (('t, 'j) control_bot, unit) comp" where
  "co_control_response msg = and_then (gets co_admin) (\<lambda>a. co_send (SendNotice a msg))"

definition bot_control :: "(('t, 'j) control_bot, 't, 'j) control_ops" where
  "bot_control =
     \<lparr>wa_send = (\<lambda>c. modify (\<lambda>s. s\<lparr>co_wa_tx := co_wa_tx s @ [c]\<rparr>)),
      cf_send = (\<lambda>c. modify (\<lambda>s. s\<lparr>co_cf_tx := co_cf_tx s @ [c]\<rparr>)),
      m_send = (\<lambda>c. modify (\<lambda>s. s\<lparr>co_m_tx := co_m_tx s @ [c]\<rparr>)),
      process_insp = process_insp_default, control_response = co_control_response\<rparr>"

section \<open>Lines and commands\<close>

primrec co_join :: "group list \<Rightarrow> (('t, 'j) control_bot, string list) comp" where
  "co_join [] = ret []"
| "co_join (g # gs) =
     then_do (co_send (SendJoin (g_channel g)))
     (and_then (co_join gs) (\<lambda>chans. ret (g_channel g # chans)))"

definition co_process_groups :: "(('t, 'j) control_bot, unit) comp" where
  "co_process_groups =
     and_then (co_db get_all_groups) (\<lambda>grps.
     and_then (co_join grps) (\<lambda>chans.
     and_then (gets co_channels) (\<lambda>old.
     then_do (modify (\<lambda>s. s\<lparr>co_channels := chans\<rparr>))
       (for_each old (\<lambda>ch. if ch \<notin> set chans then co_send (SendPart ch) else ret ())))))"

text \<open>Dropping the iterator \<open>drain(0..)\<close> empties the backlog also where a notice fails.\<close>

definition co_clear_log_backlog :: "(('t, 'j) control_bot, unit) comp" where
  "co_clear_log_backlog =
     and_then (gets (\<lambda>s. (co_log_backlog s, co_chan s))) (\<lambda>(logs, chan).
     then_do (modify (\<lambda>s. s\<lparr>co_log_backlog := []\<rparr>))
       (for_each logs (\<lambda>l. co_send (SendNotice chan l))))"

definition co_on_connected :: "(('t, 'j) control_bot, unit) comp" where
  "co_on_connected =
     then_do (modify (\<lambda>s. s\<lparr>co_connected := True\<rparr>))
     (then_do co_clear_log_backlog co_process_groups)"

definition co_on_privmsg ::
  "('t, 'j) ext \<Rightarrow> string option \<Rightarrow> string \<Rightarrow> string \<Rightarrow> (('t, 'j) control_bot, unit) comp" where
  "co_on_privmsg E pre target mesg = (case pre of
      None \<Rightarrow> ret ()
    | Some from \<Rightarrow>
        and_then (gets (\<lambda>s. (co_admin s, co_chan s, co_channels s))) (\<lambda>(admin, chan, chans).
          if prefix_nick from \<noteq> admin then ret ()
          else if target = chan then process_admin_command E bot_control mesg
          else if target \<in> set chans
          then modify (\<lambda>s. s\<lparr>co_wa_tx := co_wa_tx s @ [SendGroupMessage target mesg]\<rparr>)
          else ret ()))"

definition co_handle_irc_message :: "('t, 'j) ext \<Rightarrow> in_msg \<Rightarrow> (('t, 'j) control_bot, unit) comp" where
  "co_handle_irc_message E im = (case command im of
      Response r _ _ \<Rightarrow> if r = RPL_ENDOFMOTD \<or> r = ERR_NOMOTD then co_on_connected else ret ()
    | PRIVMSG target mesg \<Rightarrow> co_on_privmsg E (prefix im) target mesg
    | ERROR msg \<Rightarrow> err (Failure ''Error from server: {}'' [msg])
    | _ \<Rightarrow> ret ())"

definition co_log :: "string \<Rightarrow> (('t, 'j) control_bot, unit) comp" where
  "co_log l =
     and_then (gets (\<lambda>s. (co_connected s, co_chan s))) (\<lambda>(con, chan).
       if \<not> con then modify (\<lambda>s. s\<lparr>co_log_backlog := co_log_backlog s @ [l]\<rparr>)
       else co_send (SendNotice chan l))"

definition co_handle_int_rx :: "control_bot_command \<Rightarrow> (('t, 'j) control_bot, unit) comp" where
  "co_handle_int_rx m = (case m of
      Log l \<Rightarrow> co_log l
    | ReportFailure e \<Rightarrow>
        and_then (gets co_admin) (\<lambda>a.
          co_send (SendPrivmsg a (a @ '': '' @ bold @ colour @ ''04'' @ e @ plain)))
    | CommandResponse resp \<Rightarrow> co_control_response resp
    | CbProcessGroups \<Rightarrow> co_process_groups)"

section \<open>Polling\<close>

definition co_identify :: "(('t, 'j) control_bot, unit) comp" where
  "co_identify =
     and_then (gets (\<lambda>s. (co_id s, co_webirc_password s))) (\<lambda>(done_id, pwo).
       if \<not> done_id
       then then_do (case pwo of
             Some pw \<Rightarrow> co_send (SendRaw ''WEBIRC'' [pw, ''sms-irc'', ''sms-irc.theta.eu.org'', ''127.0.0.1''])
           | None \<Rightarrow> ret ())
         (then_do (co_send Identify) (modify (\<lambda>s. s\<lparr>co_id := True\<rparr>)))
       else ret ())"

definition co_poll :: "('t, 'j) ext \<Rightarrow> (('t, 'j) control_bot, unit) comp" where
  "co_poll E =
     then_do co_identify
     (then_do (co_client client_write)
     (then_do (and_then (gets (\<lambda>s. cl_stream (co_irc s)))
         (drain_lines (\<lambda>as s. s\<lparr>co_irc := (co_irc s)\<lparr>cl_stream := as\<rparr>\<rparr>) (co_handle_irc_message E)))
       (and_then (gets co_rx) (drain_rx (\<lambda>cs s. s\<lparr>co_rx := cs\<rparr>) co_handle_int_rx))))"

section \<open>Setting it up\<close>

definition co_lib_config :: "client_config \<Rightarrow> irc_lib_config" where
  "co_lib_config cfg =
     \<lparr>il_nickname = Some (case cc_control_bot_nick cfg of None \<Rightarrow> ''smsirc'' | Some n \<Rightarrow> n),
      il_alt_nicks = None, il_realname = Some ''smsirc control bot'',
      il_server = Some (cc_irc_hostname cfg), il_password = cc_irc_password cfg,
      il_port = cc_irc_port cfg, il_channels = Some [cc_irc_channel cfg]\<rparr>"

definition co_new :: "client_config \<Rightarrow> db \<Rightarrow> control_bot_command list \<Rightarrow> irc_client \<Rightarrow> ('t, 'j) control_bot" where
  "co_new cfg d rx cli =
     \<lparr>co_irc = cli, co_chan = cc_irc_channel cfg, co_admin = cc_admin_nick cfg, co_channels = [],
      co_log_backlog = [], co_store = d, co_id = False, co_connected = False,
      co_webirc_password = cc_webirc_password cfg, co_rx = rx, co_cf_tx = [], co_wa_tx = [], co_m_tx = []\<rparr>"

end
