(* ===== verification/Client_Bridge.thy ===== *)
theory Client_Bridge
  imports Bridge Contact_Factory Control_Bot
begin

text \<open>
  The process as a client of an IRC network: the front is the control bot and the contact factory.
\<close>

section \<open>Making the front\<close>

type_synonym ('t, 'j) client_front = "('t, 'j) control_bot \<times> ('t, 'j) contact_factory"

type_synonym ('t, 'j) client_bridge = "('t, 'j, ('t, 'j) client_front) bridge"

text \<open>The bot is connected: it takes its channel, and the factory is created, which sends itself a command.\<close>

definition bridge_boot ::
  "client_config \<Rightarrow> irc_client \<Rightarrow> timer_answer list \<Rightarrow> start_answer list list \<Rightarrow> ('t, 'j) client_bridge
   \<Rightarrow> ('t, 'j) client_bridge" where
  "bridge_boot cc cli tks env b =
     (let fac = fa_new cc (br_db b) (br_cf b) tks env (br_now b)
      in b\<lparr>br_front := Some (co_new cc (br_db b) (br_cb b) cli, fac), br_cf := fa_rx fac\<rparr>)"

inductive client_boot :: "main_config \<Rightarrow> ('t, 'j) client_bridge \<Rightarrow> ('t, 'j) client_bridge \<Rightarrow> bool" where
  "choose_mode cfg = Some (ClientMode cc) \<Longrightarrow> client_boot cfg b (bridge_boot cc cli tks env b)"

section \<open>Polling\<close>

definition put_bot ::
  "('t, 'j) contact_factory \<Rightarrow> ('t, 'j) control_bot \<Rightarrow> ('t, 'j) client_bridge \<Rightarrow> ('t, 'j) client_bridge" where
  "put_bot fac cbot b =
     to_modem (co_m_tx cbot) (to_wa (co_wa_tx cbot)
       (b\<lparr>br_db := co_store cbot, br_front := Some (cbot\<lparr>co_cf_tx := [], co_wa_tx := [], co_m_tx := []\<rparr>, fac),
          br_cb := co_rx cbot, br_cf := br_cf b @ co_cf_tx cbot\<rparr>))"

definition put_factory ::
  "('t, 'j) control_bot \<Rightarrow> ('t, 'j) contact_factory \<Rightarrow> ('t, 'j) client_bridge \<Rightarrow> ('t, 'j) client_bridge" where
  "put_factory cbot fac b =
     to_modem (fa_m_tx fac) (to_wa (fa_wa_tx fac)
       (b\<lparr>br_db := fa_store fac, br_front := Some (cbot, fac\<lparr>fa_cb_tx := [], fa_wa_tx := [], fa_m_tx := []\<rparr>),
          br_cf := fa_rx fac, br_cb := br_cb b @ fa_cb_tx fac\<rparr>))"

datatype client_task = TaskBot | TaskFactory

definition client_poll :: "('t, 'j) ext \<Rightarrow> client_task \<Rightarrow> (('t, 'j) client_bridge, unit) comp" where
  "client_poll E t =
     and_then (gets br_front) (\<lambda>fr. case fr of
         None \<Rightarrow> ret ()
       | Some (cbot, fac) \<Rightarrow> (case t of
           TaskBot \<Rightarrow> on_field (\<lambda>b. cbot\<lparr>co_store := br_db b, co_rx := br_cb b\<rparr>) (put_bot fac) (co_poll E)
         | TaskFactory \<Rightarrow>
             on_field (\<lambda>b. fac\<lparr>fa_store := br_db b, fa_rx := br_cf b, fa_now := br_now b\<rparr>) (put_factory cbot) (fa_poll E)))"

section \<open>The IRC network\<close>

text \<open>What an IRC server says and takes, and how the contacts that are started come out.\<close>

definition irc_answers ::
  "line_answer list \<Rightarrow> write_answer list \<Rightarrow> bool list \<Rightarrow> irc_client \<Rightarrow> irc_client" where
  "irc_answers ls ws ss cl = cl\<lparr>cl_stream := ls, cl_writes := ws, cl_sends := ss\<rparr>"

definition starting_world :: "start_answer list \<Rightarrow> 't starting \<Rightarrow> 't starting" where
  "starting_world as st = (case st of Refused e \<Rightarrow> Refused e | Connecting a w c _ \<Rightarrow> Connecting a w c as)"

inductive client_world :: "('t, 'j) client_bridge \<Rightarrow> ('t, 'j) client_bridge \<Rightarrow> bool" where
  bot_link: "br_front b = Some (cbot, fac) \<Longrightarrow>
    client_world b (b\<lparr>br_front := Some (cbot\<lparr>co_irc := irc_answers ls ws ss (co_irc cbot)\<rparr>, fac)\<rparr>)"
| contact_links: "br_front b = Some (cbot, fac) \<Longrightarrow> client_world b (b\<lparr>br_front := Some (cbot, fac
      \<lparr>fa_contacts := map (\<lambda>(a, c). (a, c\<lparr>cn_irc := irc_answers (clf a) (cwf a) (csf a) (cn_irc c)\<rparr>)) (fa_contacts fac),
       fa_starting := map (\<lambda>(a, fut). (a, starting_world (asf a) fut)) (fa_starting fac),
       fa_ticks := tk, fa_env := ev\<rparr>)\<rparr>)"

definition client_mode :: "('t, 'j) ext \<Rightarrow> ('t, 'j, ('t, 'j) client_front, client_task) mode_ops" where
  "client_mode E = \<lparr>mode_boot = client_boot, mode_poll = client_poll E, mode_world = client_world\<rparr>"

end
