(* ===== verification/Bridge_Facts.thy ===== *)
theory Bridge_Facts
  imports Bridge Whatsapp_Facts Modem_Facts
begin

text \<open>
  The invariant of the whole process: every component keeps what the others rely on. What a front has to
  keep for that is a locale, and what follows for the process is proved in it.
\<close>

section \<open>The modem and the shared database\<close>

definition listing_ok :: "('t, 'j) ext \<Rightarrow> 't modem_command \<Rightarrow> bool" where
  "listing_ok E c \<longleftrightarrow> (\<forall>ms. c = CmglComplete ms \<longrightarrow> list_all (sms_ok E) ms)"

definition modem_inv :: "('t, 'j) ext \<Rightarrow> 't modem_mgr \<Rightarrow> bool" where
  "modem_inv E m \<longleftrightarrow> db_ok E (mm_store m) \<and> list_all (listing_ok E) (mm_rx m)"

lemma modem_inv_frame: "modem_frame m m' \<Longrightarrow> modem_inv E m' = modem_inv E m"
  by (simp add: modem_inv_def modem_frame_def)

lemma modem_inv_sends [simp]:
  "modem_inv E (m_spawn j m) = modem_inv E m" "modem_inv E (m_cb cb m) = modem_inv E m"
  "modem_inv E (m_cf cf m) = modem_inv E m" "modem_inv E (cmgl m) = modem_inv E m"
  "modem_inv E (with_modem d j m) = modem_inv E m"
  by (simp_all add: modem_inv_def m_spawn_def m_cb_def m_cf_def cmgl_def with_modem_def)

lemma modem_inv_path: "modem_inv E (m\<lparr>mm_path := p\<rparr>) = modem_inv E m"
  by (simp add: modem_inv_def)

lemma modem_inv_restart:
  "modem_inv E (poll_modem m) = modem_inv E m" "modem_inv E (reinit_modem m) = modem_inv E m"
  "modem_inv E (on_command_timeout m) = modem_inv E m" "modem_inv E (cmgl_failed e m) = modem_inv E m"
  by (simp_all add: modem_inv_frame [OF poll_modem_frame] modem_inv_frame [OF restart_frame(1)]
      modem_inv_frame [OF restart_frame(2)] modem_inv_frame [OF restart_frame(3)])

lemma modem_inv_update [simp]: "modem_inv E (update_path p m) = modem_inv E m"
  by (simp add: update_path_def modem_inv_restart modem_inv_path)

lemma modem_inv_db:
  "pres (db_ok E) n \<Longrightarrow> safe (\<lambda>_. True) n \<Longrightarrow> guarded True (modem_inv E) (m_db n)"
  unfolding m_db_def
  by (rule guarded_on_field [OF db_ok_guarded]) (simp_all add: modem_inv_def)

lemma modem_inv_handle:
  assumes "listing_ok E c"
  shows "guarded True (modem_inv E) (modem_handle E M c)"
proof -
  have "guarded True (modem_inv E) (cmgl_complete E msgs)" if "list_all (sms_ok E) msgs" for msgs
  proof -
    have "guarded True (modem_inv E) (store_listed E msg)" if "sms_ok E msg" for msg
      unfolding store_listed_def
      by (intro guarded modem_inv_db db_ok_store_sms [where p = "pdu msg"] safe)
        (use that in \<open>simp_all add: sms_ok_def csms_of_def\<close>)
    with that show ?thesis
      unfolding cmgl_complete_def by (intro guarded guarded_modify) (auto simp: list_all_iff)
  qed
  moreover have "guarded True (modem_inv E) (modem_make_contact E a)" for a
    unfolding modem_make_contact_def
    by (intro guarded guarded_modify modem_inv_db db_ok_reads db_ok_writes safe) simp_all
  ultimately show ?thesis
    using assms by (cases c) (auto simp: modem_handle_def listing_ok_def request_csq_def request_reg_def
      send_sms_def Let_def modem_inv_restart intro!: guarded_modify)
qed

lemma modem_inv_commands:
  "list_all (listing_ok E) cs \<Longrightarrow> guarded True (modem_inv E) (modem_commands E M cs)"
proof (induction cs)
  case (Cons c cs)
  then show ?case
    unfolding modem_commands.simps
    by (intro guarded guarded_modify modem_inv_handle) (auto simp: modem_inv_def)
qed (simp add: guarded)

lemma modem_inv_poll: "guarded True (modem_inv E) (manager_poll E M)"
  unfolding manager_poll_def
  by (intro guarded_rules(1) guarded_modify guarded_gets_then modem_inv_commands)
    (simp_all add: modem_inv_restart, simp add: modem_inv_def)

lemma modem_ends_keeps:
  assumes "modem_ends E m m'" and "modem_inv E m" and "path_ok m"
  shows "modem_inv E m' \<and> path_ok m'"
  using assms
proof (cases rule: modem_ends.cases)
  case (ends_listing r)
  then show ?thesis
    using assms(2,3) by (cases r) (auto simp: list_done_def command_timeout_def modem_inv_def listing_ok_def path_ok_def m_int_def)
qed (auto simp: delete_done_def registration_done_def signal_done_def send_done_def cmgl_tick_def command_timeout_def
    modem_inv_def path_ok_def m_int_def m_cb_def listing_ok_def split: job_end.splits option.splits)

section \<open>WhatsApp and the shared database\<close>

lemma wa_db_ok:
  assumes "jid_ok E" and "numbers_parse E"
  shows "wa_kept E (db_ok E) True"
  by unfold_locales
    (use assms in \<open>auto simp: numbers_parse_def db_ok_def rows_ok_def list_all_iff group_parses_def
      intro: db_ok_writes db_ok_store_group\<close>)

lemma wa_poll_ok:
  assumes "jid_ok E" "numbers_parse E" and "db_ok E (w_store w)" and "StreamEnded \<notin> set (wc_stream (w_conn w))"
  shows "fst (wa_poll E L w) \<noteq> Panic \<and> db_ok E (w_store (snd (wa_poll E L w))) \<and>
    StreamEnded \<notin> set (wc_stream (w_conn (snd (wa_poll E L w))))"
proof -
  have "kept_any (db_ok E) True (w_autocreate w) (answers_left (w_conn w)) w"
    using assms(3,4) by (auto simp: kept_any_def kept_def)
  from guardedD [OF wa_kept.poll_guarded [OF wa_db_ok [OF assms(1,2)]] this] show ?thesis
    by (auto simp: kept_any_def kept_def)
qed

section \<open>The invariant\<close>

definition bridge_inv :: "('t, 'j) ext \<Rightarrow> ('f \<Rightarrow> bool) \<Rightarrow> ('t, 'j, 'f) bridge \<Rightarrow> bool" where
  "bridge_inv E ok b \<longleftrightarrow> db_ok E (br_db b) \<and> list_all (listing_ok E) (mm_rx (br_modem b)) \<and> path_ok (br_modem b) \<and>
     mm_cb_tx (br_modem b) = [] \<and>
     StreamEnded \<notin> set (wc_stream (w_conn (br_wa b))) \<and> (\<forall>f. br_front b = Some f \<longrightarrow> ok f)"

lemma put_modem_ok:
  assumes "modem_inv E m" "path_ok m" "bridge_inv E ok b"
  shows "bridge_inv E ok (put_modem m b)"
  using assms by (simp add: bridge_inv_def put_modem_def modem_inv_def path_ok_def)

lemma put_wa_ok:
  assumes "db_ok E (w_store w)" "StreamEnded \<notin> set (wc_stream (w_conn w))" "bridge_inv E ok b"
  shows "bridge_inv E ok (put_wa w b)"
  using assms by (simp add: bridge_inv_def put_wa_def)

text \<open>Commands of the front carry no listing.\<close>

lemma no_listing_ok: "no_listing cs \<Longrightarrow> list_all (listing_ok E) cs"
  by (auto simp: no_listing_def listing_ok_def list_all_iff)

lemma to_modem_ok: "no_listing cs \<Longrightarrow> bridge_inv E ok (to_modem cs b) = bridge_inv E ok b"
  by (simp add: bridge_inv_def to_modem_def path_ok_def no_listing_ok)

lemma to_wa_ok [simp]: "bridge_inv E ok (to_wa cs b) = bridge_inv E ok b"
  by (simp add: bridge_inv_def to_wa_def)

lemma put_front_ok:
  assumes "bridge_inv E ok b" "db_ok E d" "ok f"
  shows "bridge_inv E ok (b\<lparr>br_db := d, br_front := Some f, br_cf := cf, br_cb := cb\<rparr>)"
    and "bridge_inv E ok (b\<lparr>br_db := d, br_front := Some f, br_cb := cb, br_cf := cf\<rparr>)"
    and "bridge_inv E ok (b\<lparr>br_front := Some f\<rparr>)"
  using assms by (simp_all add: bridge_inv_def)

lemma on_field_eq: "on_field get put m s = (fst (m (get s)), put (snd (m (get s))) s)"
  by (simp add: on_field_def split: prod.split)

section \<open>The modem, WhatsApp and the world keep it\<close>

lemma modem_task_ok:
  assumes "bridge_inv E ok b"
  shows "bridge_inv E ok (snd (run_task E M L D TaskModem b)) \<and> fst (run_task E M L D TaskModem b) \<noteq> Panic"
proof -
  have "modem_inv E (the_modem b)" "modem_ok (the_modem b)"
    using assms by (simp_all add: bridge_inv_def modem_inv_def modem_ok_def the_modem_def db_ok_def path_ok_def)
  then have "modem_inv E (snd (manager_poll E M (the_modem b)))"
    "modem_ok (snd (manager_poll E M (the_modem b)))" "fst (manager_poll E M (the_modem b)) \<noteq> Panic"
    using guardedD [OF modem_inv_poll, of E "the_modem b" M] guardedD [OF manager_poll_guarded, of "the_modem b" E M]
    by simp_all
  then show ?thesis
    using put_modem_ok [OF _ _ assms] by (simp add: run_task_def on_field_eq modem_ok_def)
qed

lemma wa_task_ok:
  assumes "jid_ok E" "numbers_parse E" and "bridge_inv E ok b"
  shows "bridge_inv E ok (snd (run_task E M L D TaskWhatsapp b)) \<and> fst (run_task E M L D TaskWhatsapp b) \<noteq> Panic"
proof -
  have "db_ok E (w_store (the_wa b))" "StreamEnded \<notin> set (wc_stream (w_conn (the_wa b)))"
    using assms(3) by (simp_all add: bridge_inv_def the_wa_def)
  from wa_poll_ok [OF assms(1,2) this, of L] show ?thesis
    using put_wa_ok [OF _ _ assms(3)] by (simp add: run_task_def on_field_eq)
qed

lemma world_keeps:
  assumes "world_step E b b'" and "bridge_inv E ok b"
  shows "bridge_inv E ok b'"
  using assms
proof (cases rule: world_step.cases)
  case (time clk fs n)
  have "db_ok E ((br_db b)\<lparr>faults := fs, db_clock := clk\<rparr>)" if "db_ok E (br_db b)"
    using that by (simp add: db_ok_def rows_ok_def db_inv_def)
  then show ?thesis using time assms(2) by (simp add: bridge_inv_def)
next
  case (modem_port m)
  have "modem_inv E (the_modem b)" "path_ok (the_modem b)"
    using assms(2) by (simp_all add: bridge_inv_def modem_inv_def the_modem_def path_ok_def)
  from modem_ends_keeps [OF modem_port(2) this] show ?thesis
    using modem_port(1) put_modem_ok [OF _ _ assms(2)] by simp
qed (auto simp: bridge_inv_def to_wa_def)

lemma main_start_db:
  assumes "main_start E S d = (Ok r, d')" and "db_ok E d"
  shows "db_ok E d'"
proof -
  have "pres (db_ok E) (store_new E)"
    unfolding store_new_def by (intro pres db_ok_reads db_ok_writes)
  then have "pres (db_ok E) (main_start E S)"
    unfolding main_start_def by (intro pres)
  from presD [OF this assms(2,1)] show ?thesis .
qed

section \<open>What a front has to keep\<close>

text \<open>
  \<open>ok\<close> is the front's own invariant, \<open>upset\<close> says that it is about to read what makes it panic, and
  \<open>lib\<close> is what it needs of the libraries.
\<close>

locale front =
  fixes E :: "('t, 'j) ext" and D :: "('t, 'j, 'f, 'x) mode_ops" and ok :: "'f \<Rightarrow> bool"
    and upset :: "('t, 'j, 'f) bridge \<Rightarrow> bool" and lib :: bool
  assumes boot_ok: "mode_boot D cfg b b' \<Longrightarrow> bridge_inv E ok b \<Longrightarrow> bridge_inv E ok b'"
    and poll_ok: "lib \<Longrightarrow> bridge_inv E ok b \<Longrightarrow>
      bridge_inv E ok (snd (mode_poll D x b)) \<and> (upset b \<or> fst (mode_poll D x b) \<noteq> Panic)"
    and world_ok: "mode_world D b b' \<Longrightarrow> bridge_inv E ok b \<Longrightarrow> bridge_inv E ok b'"
begin

lemma task_keeps:
  assumes "jid_ok E" "numbers_parse E" "lib" and "bridge_inv E ok b"
  shows "bridge_inv E ok (snd (run_task E M L D t b)) \<and> (upset b \<or> fst (run_task E M L D t b) \<noteq> Panic)"
  using modem_task_ok [OF assms(4)] wa_task_ok [OF assms(1,2,4)] poll_ok [OF assms(3,4)]
  by (cases t) (simp_all add: run_task_def)

lemma reach_inv:
  assumes "bridge_reach E M L D cfg b" and "jid_ok E" "numbers_parse E" "lib"
  shows "bridge_inv E ok b"
  using assms(1)
proof (induction rule: bridge_reach.induct)
  case (start S d lg mode d' wenv menv tm now)
  then show ?case
    using main_start_db [of E S d "(cfg, lg, mode)" d']
    by (simp add: bridge_inv_def bridge_new_def modem_new_def wa_new_def Let_def path_ok_def listing_ok_def)
next
  case (polls b t b')
  then show ?case using task_keeps [OF assms(2-4), of b M L t] by simp
qed (use boot_ok world_ok world_keeps in blast)+

lemma no_panic:
  assumes "bridge_reach E M L D cfg b" and "jid_ok E" "numbers_parse E" "lib" and "\<not> upset b"
  shows "fst (run_task E M L D t b) \<noteq> Panic"
  using task_keeps [OF assms(2-4) reach_inv [OF assms(1-4)]] assms(5) by blast

lemma reach_database:
  assumes "bridge_reach E M L D cfg b" and "jid_ok E" "numbers_parse E" "lib"
  shows "db_inv (br_db b) \<and> parts_ok E (br_db b) \<and> jids_parse E (br_db b) \<and>
    (\<forall>p. mm_inner (br_modem b) = ModemInitializing p \<longrightarrow> mm_path (br_modem b) = Some p)"
  using reach_inv [OF assms]
  by (auto simp: bridge_inv_def db_ok_def rows_ok_def jids_parse_def parts_ok_def group_parses_def list_all_iff path_ok_def)

end

end
