(* ===== verification/Control_Facts.thy ===== *)
theory Control_Facts
  imports Control_Bot Logging
begin

text \<open>
  Facts about the control bot: it implements \<open>ControlCommon\<close>, only the administrator's lines reach the
  other components, nothing but one command line panics it, and the log channel gets every log line.
\<close>

section \<open>Sending\<close>

lemma co_send_result:
  "co_send c s = (r, s') \<Longrightarrow> (\<exists>cl. s' = s\<lparr>co_irc := cl\<rparr> \<and> cl_stream cl = cl_stream (co_irc s) \<and>
     (r = Ok () \<and> cl_sent cl = cl_sent (co_irc s) @ [c] \<or> r = Err IrcError \<and> cl_sent cl = cl_sent (co_irc s)))"
  by (auto simp: co_send_def co_client_def on_field_def dest: client_send_result split: prod.splits)

lemma co_send_healthy:
  "cl_sends (co_irc s) = [] \<Longrightarrow>
     co_send c s = (Ok (), s\<lparr>co_irc := (co_irc s)\<lparr>cl_sent := cl_sent (co_irc s) @ [c]\<rparr>\<rparr>)"
  by (simp add: co_send_def co_client_def on_field_def client_send_healthy)

lemma co_send_guarded:
  assumes "\<And>s cl. P s \<Longrightarrow> cl_stream cl = cl_stream (co_irc s) \<Longrightarrow> P (s\<lparr>co_irc := cl\<rparr>)"
  shows "guarded b P (co_send c)"
proof (rule guardedI)
  fix s assume P: "P s"
  obtain r s' where "co_send c s = (r, s')" by (cases "co_send c s")
  with assms [OF P] co_send_result [OF this] show "P (snd (co_send c s)) \<and> (b \<longrightarrow> fst (co_send c s) \<noteq> Panic)"
    by auto
qed

lemma co_write_guarded:
  assumes "\<And>s cl. P s \<Longrightarrow> cl_sent cl = cl_sent (co_irc s) \<Longrightarrow> cl_sends cl = cl_sends (co_irc s) \<Longrightarrow>
      cl_stream cl = cl_stream (co_irc s) \<Longrightarrow> P (s\<lparr>co_irc := cl\<rparr>)"
  shows "guarded b P (co_client client_write)"
proof (rule guardedI)
  fix s assume P: "P s"
  obtain r cl where r: "client_write (co_irc s) = (r, cl)" by (cases "client_write (co_irc s)")
  then show "P (snd (co_client client_write s)) \<and> (b \<longrightarrow> fst (co_client client_write s) \<noteq> Panic)"
    using client_write_result [OF r] assms [OF P] by (simp add: co_client_def on_field_def)
qed

section \<open>The bot implements \<open>ControlCommon\<close>\<close>

lemma co_response_keeps:
  "co_cf_tx (snd (co_control_response t s)) = co_cf_tx s" "co_wa_tx (snd (co_control_response t s)) = co_wa_tx s"
  "co_m_tx (snd (co_control_response t s)) = co_m_tx s" "fst (co_control_response t s) \<noteq> Panic"
proof -
  obtain r s' where r: "co_send (SendNotice (co_admin s) t) s = (r, s')"
    by (cases "co_send (SendNotice (co_admin s) t) s")
  from co_send_result [OF r] r
  show "co_cf_tx (snd (co_control_response t s)) = co_cf_tx s" "co_wa_tx (snd (co_control_response t s)) = co_wa_tx s"
    "co_m_tx (snd (co_control_response t s)) = co_m_tx s" "fst (co_control_response t s) \<noteq> Panic"
    by (auto simp: co_control_response_def)
qed

interpretation bctl: control bot_control co_cf_tx co_wa_tx co_m_tx
  by unfold_locales
    (simp_all add: bot_control_def modify_def process_insp_default_def ret_def co_response_keeps)

section \<open>Predicates that hold during a poll\<close>

text \<open>
  A predicate of the bot that sending and the flags do not bear on, with what it says of the store.
  \<open>b\<close> asks for the absence of panics as well.
\<close>

locale bot_keeps =
  fixes P :: "('t, 'j) control_bot \<Rightarrow> bool" and Q :: "db \<Rightarrow> bool" and b :: bool
  assumes bot_store: "P s \<Longrightarrow> Q (co_store s)" "P s \<Longrightarrow> Q d \<Longrightarrow> P (s\<lparr>co_store := d\<rparr>)"
    and bot_client: "P s \<Longrightarrow> P (s\<lparr>co_irc := cl\<rparr>)"
    and bot_flags: "P s \<Longrightarrow> P (s\<lparr>co_channels := cs\<rparr>)" "P s \<Longrightarrow> P (s\<lparr>co_log_backlog := bl\<rparr>)"
      "P s \<Longrightarrow> P (s\<lparr>co_id := i\<rparr>)" "P s \<Longrightarrow> P (s\<lparr>co_connected := c\<rparr>)" "P s \<Longrightarrow> P (s\<lparr>co_rx := rx\<rparr>)"
    and bot_statement: "guarded b Q get_all_groups"
begin

lemma bot_sends: "guarded b P (co_send c)"
  by (rule co_send_guarded) (erule bot_client)

lemma bot_joins: "guarded b P (co_join gs)"
  by (induction gs) (auto intro!: guarded bot_sends)

lemma bot_groups: "guarded b P co_process_groups"
proof -
  have "guarded b P (co_db get_all_groups)"
    unfolding co_db_def by (rule guarded_on_field [OF bot_statement]) (auto intro: bot_store)
  then show ?thesis
    unfolding co_process_groups_def by (intro guarded guarded_modify bot_joins bot_sends bot_flags)
qed

lemma bot_connected: "guarded b P co_on_connected"
  unfolding co_on_connected_def co_clear_log_backlog_def
  by (intro guarded guarded_modify bot_sends bot_groups bot_flags)

lemma bot_commands: "guarded b P (co_handle_int_rx c)"
  unfolding co_handle_int_rx_def co_control_response_def co_log_def
  by (cases c) (auto intro!: guarded guarded_modify bot_sends bot_groups bot_flags)

text \<open>A poll keeps the predicate when the lines of the administrator do.\<close>

lemma bot_lines:
  assumes "\<And>t x. command m = PRIVMSG t x \<Longrightarrow> guarded b P (co_on_privmsg E (prefix m) t x)"
  shows "guarded b P (co_handle_irc_message E m)"
  using assms unfolding co_handle_irc_message_def
  by (cases "command m") (auto intro: guarded bot_connected)

lemma bot_poll:
  assumes "\<And>m. LineIn m \<in> set (cl_stream (co_irc s)) \<Longrightarrow> guarded b P (co_handle_irc_message E m)" and "P s"
  shows "P (snd (co_poll E s)) \<and> (b \<longrightarrow> fst (co_poll E s) \<noteq> Panic)"
proof -
  let ?lines = "drain_lines (\<lambda>as s. s\<lparr>co_irc := (co_irc s)\<lparr>cl_stream := as\<rparr>\<rparr>) (co_handle_irc_message E)"
  let ?rest = "and_then (gets co_rx) (drain_rx (\<lambda>cs s. s\<lparr>co_rx := cs\<rparr>) co_handle_int_rx)"
  let ?start = "then_do co_identify (co_client client_write)"
  have rest: "guarded b P ?rest"
    by (intro guarded drain_rx_guarded bot_flags bot_commands)
  let ?Q = "\<lambda>t. P t \<and> cl_stream (co_irc t) = cl_stream (co_irc s)"
  have "guarded b ?Q (co_send c)" for c by (rule co_send_guarded) (auto intro: bot_client)
  moreover have "guarded b ?Q (co_client client_write)"
    by (rule co_write_guarded) (auto intro: bot_client)
  ultimately have "guarded b ?Q ?start"
    unfolding co_identify_def by (intro guarded guarded_modify) (auto intro: bot_flags)
  then have mid: "?Q (snd (?start s)) \<and> (b \<longrightarrow> fst (?start s) \<noteq> Panic)"
    using guardedD assms(2) by fastforce
  have poll: "co_poll E = then_do ?start (then_do (and_then (gets (\<lambda>s. cl_stream (co_irc s))) ?lines) ?rest)"
    by (simp add: co_poll_def then_do_def and_then_assoc)
  obtain r t where t: "?start s = (r, t)" by (cases "?start s")
  have lines: "guarded b P (?lines (cl_stream (co_irc s)))"
    by (intro drain_lines_guarded bot_client assms(1))
  show ?thesis
  proof (cases r)
    case (Ok u)
    have "guarded b P (then_do (?lines (cl_stream (co_irc t))) ?rest)"
      using mid t by (intro guarded rest) (simp add: lines)
    from guardedD [OF this, of t] show ?thesis
      using mid t Ok unfolding poll by (simp add: then_do_def and_then_def gets_def)
  qed (use mid t in \<open>simp_all add: poll then_do_def and_then_def\<close>)
qed

end

section \<open>Who gives commands\<close>

text \<open>The queues to the three other components, which only the administrator's lines add to.\<close>

definition bot_queues ::
  "('t, 'j) control_bot \<Rightarrow> 't contact_factory_command list \<times> ('t, 'j) whatsapp_command list \<times> 't modem_command list"
  where "bot_queues s = (co_cf_tx s, co_wa_tx s, co_m_tx s)"

lemma bot_queues_logs: "bctl.logs s = bot_queues s"
  by (simp add: bctl.logs_def bot_queues_def)

definition from_admin :: "string \<Rightarrow> in_msg \<Rightarrow> bool" where
  "from_admin A m \<longleftrightarrow> (case prefix m of None \<Rightarrow> False | Some p \<Rightarrow> prefix_nick p = A)"

lemma from_admin_iff: "from_admin A m \<longleftrightarrow> (\<exists>p. prefix m = Some p \<and> prefix_nick p = A)"
  by (simp add: from_admin_def split: option.split)

definition queues_are :: "string \<Rightarrow> 't contact_factory_command list \<times> ('t, 'j) whatsapp_command list \<times> 't modem_command list
   \<Rightarrow> ('t, 'j) control_bot \<Rightarrow> bool" where
  "queues_are A q s \<longleftrightarrow> bot_queues s = q \<and> co_admin s = A"

interpretation bqu: bot_keeps "queues_are A q" "\<lambda>_. True" False for A q
  by unfold_locales (simp_all add: queues_are_def bot_queues_def guarded_def pres_def)

lemma stranger_ignored: "\<not> from_admin (co_admin s) m \<Longrightarrow> co_on_privmsg E (prefix m) t x s = (Ok (), s)"
  by (auto simp: co_on_privmsg_def from_admin_iff ret_def split: option.split)

lemma stranger_lines:
  assumes "\<not> from_admin A m"
  shows "guarded False (queues_are A q) (co_handle_irc_message E m)"
  by (rule bqu.bot_lines, rule guardedI) (use assms in \<open>auto simp: stranger_ignored queues_are_def\<close>)

lemma stranger_poll:
  assumes "\<And>m. LineIn m \<in> set (cl_stream (co_irc s)) \<Longrightarrow> \<not> from_admin (co_admin s) m"
  shows "bot_queues (snd (co_poll E s)) = bot_queues s"
  using bqu.bot_poll [OF stranger_lines, of s "co_admin s" "bot_queues s" E] assms by (simp add: queues_are_def)

text \<open>What a line of the administrator adds.\<close>

lemma admin_line_queues:
  assumes "command m = PRIVMSG target x" and "from_admin (co_admin s) m"
  shows "bot_queues (snd (co_handle_irc_message E m s)) =
    (if target = co_chan s then
       (co_cf_tx s @ option_list admin_cf (line_command E x), co_wa_tx s @ option_list admin_wa (line_command E x),
        co_m_tx s @ option_list admin_m (line_command E x))
     else if target \<in> set (co_channels s) then (co_cf_tx s, co_wa_tx s @ [SendGroupMessage target x], co_m_tx s)
     else bot_queues s)"
  using assms bctl.process_logs [of E x s]
  by (auto simp: co_handle_irc_message_def co_on_privmsg_def from_admin_iff bot_queues_logs ret_def modify_def)
    (simp_all add: bot_queues_def)

section \<open>No panic\<close>

text \<open>The integrity of the store, for a bot that sees no such line.\<close>

definition co_ok :: "(db \<Rightarrow> bool) \<Rightarrow> ('t, 'j) control_bot \<Rightarrow> bool" where
  "co_ok Q s \<longleftrightarrow> Q (co_store s)"

lemma get_all_groups_guarded: "fault_blind Q \<Longrightarrow> guarded b Q get_all_groups"
  by (intro guarded_of_quiet) (auto intro: pres_reads safe)

lemma response_keeps_store: "co_store (snd (co_control_response t s)) = co_store s"
proof -
  obtain r s' where r: "co_send (SendNotice (co_admin s) t) s = (r, s')"
    by (cases "co_send (SendNotice (co_admin s) t) s")
  from co_send_result [OF r] r show ?thesis by (auto simp: co_control_response_def)
qed

lemma admin_command_store: "pres (\<lambda>s. Q (co_store s)) (process_admin_command E bot_control x)"
  by (rule control_pres)
    (simp_all add: bot_control_def pres_def modify_def process_insp_default_def ret_def response_keeps_store)

lemma privmsg_ok: "guarded (\<not> bare_raw x) (co_ok Q) (co_on_privmsg E p t x)"
proof -
  have "guarded (\<not> bare_raw x) (co_ok Q) (process_admin_command E bot_control x)"
    using admin_command_store [of Q E x] bctl.panics_on_raw [of E x]
    by (auto simp: guarded_def safe_def pres_def co_ok_def)
  moreover have "guarded (\<not> bare_raw x) (co_ok Q) (modify (\<lambda>s. s\<lparr>co_wa_tx := co_wa_tx s @ [c]\<rparr>))" for c
    by (rule guarded_modify) (simp add: co_ok_def)
  ultimately show ?thesis
    unfolding co_on_privmsg_def by (intro guarded)
qed

lemma bot_poll_ok:
  fixes s :: "('t, 'j) control_bot"
  assumes blind: "fault_blind Q" and "Q (co_store s)"
  shows "Q (co_store (snd (co_poll E s)))"
    and "(\<And>m t x. LineIn m \<in> set (cl_stream (co_irc s)) \<Longrightarrow> command m = PRIVMSG t x \<Longrightarrow> \<not> bare_raw x)
      \<Longrightarrow> fst (co_poll E s) \<noteq> Panic"
proof -
  have keeps: "bot_keeps (co_ok Q :: ('t, 'j) control_bot \<Rightarrow> bool) Q b" for b
    by unfold_locales (simp_all add: co_ok_def get_all_groups_guarded [OF blind])
  have one: "guarded b (co_ok Q) (co_on_privmsg E p t x)" if "b \<Longrightarrow> \<not> bare_raw x" for b p t x
    using privmsg_ok [of x Q E p t] that by (auto simp: guarded_def)
  have poll: "co_ok Q (snd (co_poll E s)) \<and> (b \<longrightarrow> fst (co_poll E s) \<noteq> Panic)"
    if "\<And>m t x. LineIn m \<in> set (cl_stream (co_irc s)) \<Longrightarrow> command m = PRIVMSG t x \<Longrightarrow> b \<Longrightarrow> \<not> bare_raw x" for b
    by (rule bot_keeps.bot_poll [OF keeps bot_keeps.bot_lines [OF keeps one]])
      (use that assms(2) in \<open>auto simp: co_ok_def\<close>)
  show "Q (co_store (snd (co_poll E s)))" using poll [of False] by (simp add: co_ok_def)
  show "fst (co_poll E s) \<noteq> Panic"
    if "\<And>m t x. LineIn m \<in> set (cl_stream (co_irc s)) \<Longrightarrow> command m = PRIVMSG t x \<Longrightarrow> \<not> bare_raw x"
    using poll [of True] that by simp
qed

section \<open>The log channel\<close>

text \<open>
  What was noticed to a channel, and the log of the bot: what went to its channel and then what waits
  in the backlog. The connection takes every command, and the administrator's nick is not the channel.
\<close>

fun chan_notices :: "string \<Rightarrow> client_cmd list \<Rightarrow> string list" where
  "chan_notices ch [] = []"
| "chan_notices ch (SendNotice t x # cs) = (if t = ch then x # chan_notices ch cs else chan_notices ch cs)"
| "chan_notices ch (c # cs) = chan_notices ch cs"

lemma chan_notices_append [simp]: "chan_notices ch (xs @ ys) = chan_notices ch xs @ chan_notices ch ys"
  by (induction ch xs rule: chan_notices.induct) simp_all

lemma chan_notices_map [simp]: "chan_notices ch (map (SendNotice ch) ls) = ls"
  by (induction ls) simp_all

definition bot_log :: "string \<Rightarrow> ('t, 'j) control_bot \<Rightarrow> string list" where
  "bot_log C s = chan_notices C (cl_sent (co_irc s)) @ co_log_backlog s"

definition log_is ::
  "string \<Rightarrow> string \<Rightarrow> string list \<Rightarrow> control_bot_command list \<Rightarrow> ('t, 'j) control_bot \<Rightarrow> bool" where
  "log_is A C L R s \<longleftrightarrow> cl_sends (co_irc s) = [] \<and> co_admin s = A \<and> co_chan s = C \<and> A \<noteq> C \<and>
     bot_log C s = L \<and> co_rx s = R \<and> (co_connected s \<longrightarrow> co_log_backlog s = [])"

lemmas log_is_defs = log_is_def bot_log_def

text \<open>Everything but a notice to the channel.\<close>

definition off_channel :: "string \<Rightarrow> client_cmd \<Rightarrow> bool" where
  "off_channel C c \<longleftrightarrow> chan_notices C [c] = []"

lemma off_channel_simps [simp]:
  "off_channel C (SendNotice t x) \<longleftrightarrow> t \<noteq> C" "off_channel C (SendPrivmsg t x)" "off_channel C (SendJoin ch)"
  "off_channel C (SendPart ch)" "off_channel C (SendRaw r as)" "off_channel C Identify"
  by (simp_all add: off_channel_def)

lemma log_sends: "off_channel C c \<Longrightarrow> pres (log_is A C L R) (co_send c)"
  by (rule presI) (auto simp: co_send_healthy log_is_defs off_channel_def)

lemma log_response: "pres (log_is A C L R) (co_control_response x)"
  by (rule presI) (auto simp: co_control_response_def co_send_healthy log_is_defs)

lemma log_write: "pres (log_is A C L R) (co_client client_write)"
  by (rule guarded_pres [of False], rule co_write_guarded) (auto simp: log_is_defs)

lemma log_groups: "pres (log_is A C L R) co_process_groups"
proof -
  have "pres (log_is A C L R) (co_db m)" for m :: "(db, group list) comp"
    by (rule presI) (simp add: co_db_def on_field_def log_is_defs split: prod.split)
  moreover have "pres (log_is A C L R) (co_join gs)" for gs
    by (induction gs) (auto intro!: pres log_sends)
  moreover have "pres (log_is A C L R) (modify (\<lambda>s. s\<lparr>co_channels := cs\<rparr>))" for cs
    by (rule pres_modify) (simp add: log_is_defs)
  ultimately show ?thesis
    unfolding co_process_groups_def by (intro pres log_sends) simp_all
qed

lemma log_notices:
  "cl_sends (co_irc s) = [] \<Longrightarrow> for_each ls (\<lambda>l. co_send (SendNotice ch l)) s =
     (Ok (), s\<lparr>co_irc := (co_irc s)\<lparr>cl_sent := cl_sent (co_irc s) @ map (SendNotice ch) ls\<rparr>\<rparr>)"
  by (induction ls arbitrary: s) (simp_all add: ret_def then_do_Ok [OF co_send_healthy])

text \<open>Connecting empties the backlog into the channel.\<close>

lemma log_connected: "pres (log_is A C L R) co_on_connected"
proof (rule presI)
  fix s :: "('t, 'j) control_bot" assume s: "log_is A C L R s"
  let ?s = "s\<lparr>co_connected := True, co_log_backlog := [],
      co_irc := (co_irc s)\<lparr>cl_sent := cl_sent (co_irc s) @ map (SendNotice (co_chan s)) (co_log_backlog s)\<rparr>\<rparr>"
  have "co_clear_log_backlog (s\<lparr>co_connected := True\<rparr>) = (Ok (), ?s)"
    using s by (simp add: co_clear_log_backlog_def log_notices log_is_def)
  then have "co_on_connected s = co_process_groups ?s"
    by (simp add: co_on_connected_def then_do_Ok)
  moreover have "log_is A C L R ?s" using s by (auto simp: log_is_defs)
  ultimately show "log_is A C L R (snd (co_on_connected s))"
    using pres_snd [OF log_groups] by simp
qed

lemma log_lines_keep: "pres (log_is A C L R) (co_handle_irc_message E m)"
proof -
  have cmd: "pres (log_is A C L R) (process_admin_command E bot_control x)" for x
    by (rule control_pres)
      (auto simp: bot_control_def process_insp_default_def log_is_defs intro!: pres_modify pres_ret log_response)
  have wa: "pres (log_is A C L R) (modify (\<lambda>s. s\<lparr>co_wa_tx := co_wa_tx s @ [c]\<rparr>))" for c
    by (rule pres_modify) (simp add: log_is_defs)
  have "pres (log_is A C L R) (co_on_privmsg E p t x)" for p t x
    unfolding co_on_privmsg_def by (intro pres cmd wa)
  then show ?thesis
    unfolding co_handle_irc_message_def by (cases "command m") (auto intro: pres log_connected)
qed

text \<open>A log line is added at the end; other commands do not add any.\<close>

lemma log_commands:
  assumes "log_is A C L R s"
  shows "log_is A C (L @ log_lines [c]) R (snd (co_handle_int_rx c s))"
proof (cases c)
  case (Log l)
  then show ?thesis
    using assms by (auto simp: co_handle_int_rx_def co_log_def modify_def co_send_healthy log_is_defs)
next
  case (ReportFailure e)
  then show ?thesis
    using assms by (auto simp: co_handle_int_rx_def co_send_healthy log_is_defs)
next
  case (CommandResponse x)
  then show ?thesis
    using pres_snd [OF log_response assms] by (simp add: co_handle_int_rx_def)
next
  case CbProcessGroups
  then show ?thesis
    using pres_snd [OF log_groups assms] by (simp add: co_handle_int_rx_def)
qed

lemma log_drain:
  assumes "log_is A C L cs s"
  shows "\<exists>L' R'. log_is A C L' R' (snd (drain_rx (\<lambda>cs s. s\<lparr>co_rx := cs\<rparr>) co_handle_int_rx cs s)) \<and>
    L' @ log_lines R' = L @ log_lines cs"
  using assms
proof (induction cs arbitrary: L s)
  case (Cons c cs)
  obtain r t where t: "co_handle_int_rx c (s\<lparr>co_rx := cs\<rparr>) = (r, t)"
    by (cases "co_handle_int_rx c (s\<lparr>co_rx := cs\<rparr>)")
  have "log_is A C L cs (s\<lparr>co_rx := cs\<rparr>)" using Cons.prems by (simp add: log_is_defs)
  from log_commands [OF this, of c] t have step: "log_is A C (L @ log_lines [c]) cs t" by simp
  have sum: "log_lines (c # cs) = log_lines [c] @ log_lines cs"
    using log_lines_append [of "[c]" cs] by simp
  have run: "drain_rx (\<lambda>cs s. s\<lparr>co_rx := cs\<rparr>) co_handle_int_rx (c # cs) s =
      then_do (co_handle_int_rx c) (drain_rx (\<lambda>cs s. s\<lparr>co_rx := cs\<rparr>) co_handle_int_rx cs) (s\<lparr>co_rx := cs\<rparr>)"
    by simp
  show ?case
    unfolding run sum using Cons.IH [OF step] t
    by (cases r) (simp_all add: then_do_def and_then_def,
      (intro exI [of _ "L @ log_lines [c]"] exI [of _ cs] conjI step, simp)+)
qed (fastforce simp: ret_def)

text \<open>No poll loses, doubles or reorders a log line, whatever its outcome.\<close>

lemma log_poll:
  assumes "log_is A C L R s"
  shows "\<exists>L' R'. log_is A C L' R' (snd (co_poll E s)) \<and> L' @ log_lines R' = L @ log_lines R"
proof -
  let ?lines = "drain_lines (\<lambda>as s. s\<lparr>co_irc := (co_irc s)\<lparr>cl_stream := as\<rparr>\<rparr>) (co_handle_irc_message E)"
  let ?rest = "drain_rx (\<lambda>cs s. s\<lparr>co_rx := cs\<rparr>) co_handle_int_rx"
  let ?start = "then_do co_identify (then_do (co_client client_write) (and_then (gets (\<lambda>s. cl_stream (co_irc s))) ?lines))"
  have "pres (log_is A C L R) (?lines as)" for as
    by (rule guarded_pres [of False], rule drain_lines_guarded)
      (auto simp: log_is_defs guarded_def intro: log_lines_keep)
  moreover have "pres (log_is A C L R) co_identify"
    unfolding co_identify_def by (intro pres log_sends pres_modify) (simp_all add: log_is_defs)
  ultimately have "pres (log_is A C L R) ?start" by (intro pres log_write)
  then have start: "log_is A C L R (snd (?start s))" using assms by (rule pres_snd)
  have poll: "co_poll E = then_do ?start (and_then (gets co_rx) ?rest)"
    by (simp add: co_poll_def then_do_def and_then_assoc)
  obtain r t where t: "?start s = (r, t)" by (cases "?start s")
  have "co_rx t = R" using start t by (simp add: log_is_def)
  then show ?thesis
    using start t log_drain [of A C L R t] by (cases r) (auto simp: poll then_do_def and_then_def gets_def)
qed

text \<open>The bot over time: between polls commands arrive and the server may say anything.\<close>

inductive bot_run ::
  "('t, 'j) ext \<Rightarrow> ('t, 'j) control_bot \<Rightarrow> control_bot_command list \<Rightarrow> ('t, 'j) control_bot \<Rightarrow> bool" for E s where
  start: "bot_run E s [] s"
| poll: "bot_run E s cs t \<Longrightarrow> bot_run E s (cs @ ds) (snd (co_poll E (t\<lparr>co_rx := co_rx t @ ds,
      co_irc := (co_irc t)\<lparr>cl_stream := ls, cl_writes := ws\<rparr>\<rparr>)))"

lemma bot_run_log:
  assumes "bot_run E s cs t" and "log_is A C [] [] s"
  shows "\<exists>L R. log_is A C L R t \<and> L @ log_lines R = log_lines cs"
  using assms(1)
proof (induction rule: bot_run.induct)
  case start
  then show ?case using assms(2) by fastforce
next
  case (poll cs t ds ws ls)
  let ?t = "t\<lparr>co_rx := co_rx t @ ds, co_irc := (co_irc t)\<lparr>cl_stream := ls, cl_writes := ws\<rparr>\<rparr>"
  obtain L R where "log_is A C L R t" and sum: "L @ log_lines R = log_lines cs" using poll.IH by blast
  then have "log_is A C L (R @ ds) ?t" by (auto simp: log_is_defs)
  from log_poll [OF this, of E] sum show ?case by fastforce
qed

end
