(* ===== verification/Client_Facts.thy ===== *)
theory Client_Facts
  imports Client_Bridge Bridge_Facts Factory_Facts Control_Facts
begin

text \<open>
  The control bot and the contact factory keep what the rest of the process relies on.
\<close>

section \<open>The invariant\<close>

text \<open>What the factory needs, apart from the database and from what it has sent.\<close>

definition tables_ok :: "('t, 'j) contact_factory \<Rightarrow> bool" where
  "tables_ok s \<longleftrightarrow> hm_wf (fa_starting s) \<and> hm_wf (fa_contacts s) \<and>
     (\<forall>a. hm_get (fa_starting s) a \<noteq> None \<longrightarrow> hm_get (fa_contacts s) a = None) \<and>
     (\<forall>a c. hm_get (fa_contacts s) a = Some c \<longrightarrow> cn_addr c = a) \<and>
     (\<forall>a b w c as. hm_get (fa_starting s) a = Some (Connecting b w c as) \<longrightarrow> b = a)"

lemma fa_inv_split: "fa_inv E s \<longleftrightarrow> db_ok E (fa_store s) \<and> tables_ok s \<and> no_listing (fa_m_tx s)"
  by (simp add: fa_inv_but_def tables_ok_def)

lemma tables_ok_simps [simp]:
  "tables_ok (s\<lparr>fa_store := d\<rparr>) = tables_ok s" "tables_ok (s\<lparr>fa_rx := rx\<rparr>) = tables_ok s"
  "tables_ok (s\<lparr>fa_now := n\<rparr>) = tables_ok s" "tables_ok (s\<lparr>fa_cb_tx := cb\<rparr>) = tables_ok s"
  "tables_ok (s\<lparr>fa_wa_tx := wt\<rparr>) = tables_ok s" "tables_ok (s\<lparr>fa_m_tx := mt\<rparr>) = tables_ok s"
  "tables_ok (s\<lparr>fa_ticks := tk\<rparr>) = tables_ok s" "tables_ok (s\<lparr>fa_env := ev\<rparr>) = tables_ok s"
  by (simp_all add: tables_ok_def)

definition client_ok :: "('t, 'j) client_front \<Rightarrow> bool" where
  "client_ok p \<longleftrightarrow> (case p of (cbot, fac) \<Rightarrow> tables_ok fac \<and> fa_m_tx fac = [] \<and> fa_wa_tx fac = [] \<and> co_m_tx cbot = [])"

lemma client_ok_pair [simp]:
  "client_ok (cbot, fac) \<longleftrightarrow> tables_ok fac \<and> fa_m_tx fac = [] \<and> fa_wa_tx fac = [] \<and> co_m_tx cbot = []"
  by (simp add: client_ok_def)

section \<open>Every step keeps it\<close>

lemma put_bot_ok:
  assumes "bridge_inv E client_ok b" "db_ok E (co_store cbot)" "no_listing (co_m_tx cbot)" "client_ok (bt, fac)"
  shows "bridge_inv E client_ok (put_bot fac cbot b)"
  unfolding put_bot_def to_modem_ok [OF assms(3)] to_wa_ok
  by (rule put_front_ok(2)) (use assms in simp_all)

lemma put_factory_ok:
  assumes "bridge_inv E client_ok b" "fa_inv E fac" "co_m_tx cbot = []"
  shows "bridge_inv E client_ok (put_factory cbot fac b)"
proof -
  have f: "db_ok E (fa_store fac)" "tables_ok fac" "no_listing (fa_m_tx fac)"
    using assms(2) by (simp_all add: fa_inv_split)
  show ?thesis
    unfolding put_factory_def to_modem_ok [OF f(3)] to_wa_ok
    by (rule put_front_ok(1)) (use f assms in simp_all)
qed

text \<open>The bot sends the modem what the administrator's lines ask for.\<close>

interpretation bnl: bot_keeps "\<lambda>s. no_listing (co_m_tx s)" "\<lambda>_. True" False
  by unfold_locales (simp_all add: guarded_def pres_def)

lemma bot_no_listing: "no_listing (co_m_tx s) \<Longrightarrow> no_listing (co_m_tx (snd (co_poll E s)))"
proof -
  have "guarded False (\<lambda>s. no_listing (co_m_tx s)) (process_admin_command E bot_control x)" for x
    by (rule guardedI) (use bctl.process_logs [of E x] admin_m_no_listing [of E x] in \<open>simp add: bctl.logs_def\<close>)
  then have "guarded False (\<lambda>s. no_listing (co_m_tx s)) (co_on_privmsg E p t x)" for p t x
    unfolding co_on_privmsg_def by (intro guarded guarded_modify) simp_all
  from bnl.bot_poll [OF bnl.bot_lines [OF this], of s] show "no_listing (co_m_tx s) \<Longrightarrow> ?thesis" by simp
qed

text \<open>The line of the control bot that panics the process.\<close>

definition says_raw :: "('t, 'j) client_bridge \<Rightarrow> bool" where
  "says_raw b \<longleftrightarrow> (\<exists>cbot fac m t x. br_front b = Some (cbot, fac) \<and> LineIn m \<in> set (cl_stream (co_irc cbot)) \<and>
     command m = PRIVMSG t x \<and> bare_raw x)"

lemma client_poll_ok:
  assumes "decode_ok E" and "bridge_inv E client_ok b"
  shows "bridge_inv E client_ok (snd (client_poll E t b)) \<and> (says_raw b \<or> fst (client_poll E t b) \<noteq> Panic)"
proof (cases "br_front b")
  case None
  then show ?thesis using assms(2) by (simp add: client_poll_def ret_def)
next
  case (Some p)
  obtain cbot fac where fr: "br_front b = Some (cbot, fac)" using Some by (cases p) simp
  then have ok: "client_ok (cbot, fac)" "db_ok E (br_db b)" using assms(2) by (simp_all add: bridge_inv_def)
  show ?thesis
  proof (cases t)
    case TaskBot
    let ?bot = "cbot\<lparr>co_store := br_db b, co_rx := br_cb b\<rparr>"
    have "db_ok E (co_store (snd (co_poll E ?bot)))"
      by (rule bot_poll_ok(1)) (simp_all add: ok)
    moreover have "no_listing (co_m_tx (snd (co_poll E ?bot)))"
      by (rule bot_no_listing) (use ok in simp)
    moreover have "fst (co_poll E ?bot) \<noteq> Panic" if "\<not> says_raw b"
      by (rule bot_poll_ok(2) [where Q = "db_ok E"]) (use that ok fr in \<open>auto simp: says_raw_def\<close>)
    ultimately show ?thesis
      using TaskBot fr put_bot_ok [OF assms(2) _ _ ok(1)]
      by (auto simp: client_poll_def on_field_eq)
  next
    case TaskFactory
    let ?fac = "fac\<lparr>fa_store := br_db b, fa_rx := br_cf b, fa_now := br_now b\<rparr>"
    have "fa_inv E ?fac" using ok by (simp add: fa_inv_split)
    from guardedD [OF fa_poll_guarded [OF assms(1)] this] show ?thesis
      using TaskFactory fr ok put_factory_ok [OF assms(2), of _ cbot]
      by (simp add: client_poll_def on_field_eq)
  qed
qed

text \<open>And so does the network.\<close>

lemma tables_ok_world:
  assumes "tables_ok fac"
  shows "tables_ok (fac\<lparr>fa_contacts := map (\<lambda>(a, c). (a, c\<lparr>cn_irc := g a c\<rparr>)) (fa_contacts fac),
    fa_starting := map (\<lambda>(a, fut). (a, starting_world (asf a) fut)) (fa_starting fac), fa_ticks := tk, fa_env := ev\<rparr>)"
proof -
  have get: "hm_get (map (\<lambda>(a, c). (a, f a c)) m) k = map_option (f k) (hm_get m k)" for f m k
    by (induction m) auto
  have wf: "hm_wf (map (\<lambda>(a, c). (a, f a c)) m) = hm_wf m" for f m
    by (simp add: hm_wf_def comp_def case_prod_beta)
  have st: "starting_world as fut = Connecting b w c as' \<Longrightarrow> \<exists>as''. fut = Connecting b w c as''" for as fut b w c as'
    by (cases fut) (simp_all add: starting_world_def)
  show ?thesis
    using assms by (auto simp: tables_ok_def get wf dest!: st)
qed

lemma client_world_ok:
  assumes "client_world b b'" and "bridge_inv E client_ok b"
  shows "bridge_inv E client_ok b'"
  using assms
proof (cases rule: client_world.cases)
  case (bot_link cbot fac ls ws ss)
  then show ?thesis using assms(2) by (simp add: bridge_inv_def)
next
  case (contact_links cbot fac)
  have "tables_ok fac" using assms(2) contact_links(2) by (simp add: bridge_inv_def)
  from tables_ok_world [OF this] show ?thesis
    using contact_links(1,2) assms(2) by (simp add: bridge_inv_def)
qed

lemma client_boot_ok:
  assumes "client_boot cfg b b'" and "bridge_inv E client_ok b"
  shows "bridge_inv E client_ok b'"
proof -
  have new: "client_ok (co_new cc d crx cli, fa_new cc d' rx tks env now)" for cc d crx cli d' rx tks env now
    by (simp add: tables_ok_def fa_new_def co_new_def)
  show ?thesis
    using assms(1)
    by (cases rule: client_boot.cases)
      (use assms(2) new in \<open>simp add: bridge_inv_def bridge_boot_def Let_def del: client_ok_pair\<close>)
qed

interpretation client: front E "client_mode E" client_ok says_raw "decode_ok E" for E :: "('t, 'j) ext"
  by unfold_locales
    (auto simp: client_mode_def intro: client_boot_ok client_world_ok dest: client_poll_ok)

end
