(* ===== verification/Client_Properties.thy ===== *)
theory Client_Properties
  imports Factory_Delivery Client_Facts Instance
begin

text \<open>
  The properties of the bridge as a client of an IRC network: what its contacts, their factory and the
  control bot do with messages, commands, failures and the log.
\<close>

section \<open>Contacts\<close>

text \<open>
  A contact that is connected hands every stored message of its own to the administrator, who is
  online: in the order of their times, each as the chunks of its text, and those and no others are then
  deleted. (Every message is private and whole; a part of a longer one waits for the others.)
\<close>
theorem contact_delivers_in_order:
  assumes "cn_process_messages E s = (Ok (), t)" and "cn_connected s" and "cn_admin_is_online s"
    and "distinct (map m_id (messages (cn_store s)))"
    and "mine = filter (\<lambda>m. m_phone_number m = normalize_address E (cn_addr s)) (messages (cn_store s))"
    and "\<forall>m \<in> set mine. spoken E (cn_now s) m \<noteq> None"
  shows "cn_privmsgs t = cn_privmsgs s @ concat (map (said E (cn_admin s) (cn_now s)) (by_ts_id mine)) \<and>
    messages (cn_store t) = filter (\<lambda>m. m_phone_number m \<noteq> normalize_address E (cn_addr s)) (messages (cn_store s))"
  using messages_delivered [OF assms(1-4) refl] assms(5,6)
  by (simp add: addressed_def not_addressed_def all_said_def)

text \<open>
  C17: Nothing is sent to the administrator, and nothing deleted, by a poll of a contact before the
  server has registered it, or while the administrator is away and no line says that they are back.
\<close>
theorem messages_wait_for_the_administrator:
  assumes "\<not> cn_connected s \<and> k \<or> \<not> cn_admin_is_online s \<and> \<not> k"
    and "\<forall>m. LineIn m \<in> set (cl_stream (cn_irc s)) \<longrightarrow> line_waits k (cn_admin s) m"
  shows "messages (cn_store (snd (cn_poll E s))) = messages (cn_store s) \<and>
    cn_privmsgs (snd (cn_poll E s)) = cn_privmsgs s"
  using poll_waits [of k s E] assms by (auto simp: waits_def)

text \<open>
  C19: Whatever the server says in a poll, a contact hands on nothing but texts that the administrator
  wrote, each as a message to its own address.
\<close>
theorem only_the_administrator_is_heard:
  assumes "T = {x. \<exists>m p target. LineIn m \<in> set (cl_stream (cn_irc s)) \<and> command m = PRIVMSG target x \<and>
      prefix m = Some p \<and> prefix_nick p = cn_admin s}"
  shows "\<exists>ws ms. cn_wa_tx (snd (cn_poll E s)) = cn_wa_tx s @ map (SendDirectMessage (cn_addr s)) ws \<and>
    cn_modem_tx (snd (cn_poll E s)) = cn_modem_tx s @ map (SendMessage (cn_addr s)) ms \<and> set ws \<union> set ms \<subseteq> T"
proof -
  have "handed_on (cn_addr s) (cn_admin s) T (cn_wa_tx s) (cn_modem_tx s) s"
    by (rule handed_onI [where ws = "[]" and ms = "[]"]) simp_all
  from cho.poll_guarded [OF messages_handed_on lines_handed_on this, of E] show ?thesis
    using assms by (auto simp: handed_on_def)
qed

section \<open>The factory\<close>

text \<open>
  C13: When the factory has processed the messages without an error, each message it had not seen before
  is underway: its contact is starting, or has been told to process its messages, or the modem or
  WhatsApp, whichever it came through, was asked to make the contact.
\<close>
theorem every_message_is_underway:
  assumes "hex_ok E" "ton_ok E" and "fa_process_messages E s = (Ok (), t)"
    and "distinct (map m_id (messages (fa_store s)))"
    and "m \<in> set (messages (fa_store s))" and "m_id m \<notin> set (fa_processed s)"
  shows "\<exists>a. get_addr E (m_phone_number m) = Ok a \<and> underway a (m_source m) t"
proof -
  obtain ms s1 where s1: "fa_db get_all_messages s = (Ok ms, s1)" and run: "for_each ms (fa_process_message E) s1 = (Ok (), t)"
    using assms(3) unfolding fa_process_messages_def by (rule and_then_OkE)
  have ms: "ms = by_ts_id (messages (fa_store s))" "fa_processed s1 = fa_processed s"
    using s1 by (auto simp: fa_db_def on_field_def get_all_messages_def with_conn_def gets_def
        split: list.splits if_splits prod.splits)
  have "mset (map m_id ms) = mset (map m_id (messages (fa_store s)))"
    by (simp add: ms by_ts_id_def)
  then have "distinct (map m_id ms)" using assms(4) by (metis mset_eq_imp_distinct_iff)
  from messages_underway [OF assms(1,2) run this] show ?thesis
    using assms(5,6) ms by simp
qed


text \<open>
  C27: When the failure timer fires and nothing goes wrong, every failed contact that still has a
  recipient has a client again or is starting one, and no failed contact is left over.
\<close>
theorem failed_contacts_come_back:
  assumes "hex_ok E" "ton_ok E" "ord_ok (ord_addr E)" and "fa_process_failures E s = (Ok (), t)"
    and "a \<in> set (fa_failed s)" and "normalize_address E a \<in> r_phone_number ` set (recipients (fa_store s))"
  shows "fa_has_contact a t"
proof -
  have run: "for_each (ord_addr E (fa_failed s)) (setup_contact E (factory_cmm E)) (s\<lparr>fa_failed := []\<rparr>) = (Ok (), t)"
    using assms(4) by (simp add: fa_process_failures_def)
  have "rows_are (recipients (fa_store s)) {} (s\<lparr>fa_failed := []\<rparr>)" by (simp add: rows_are_def)
  from setup_all_has [OF assms(1,2) run this] show ?thesis
    using assms(5,6) by (simp add: rows_are_def ord_ok_set [OF assms(3)])
qed

section \<open>The control bot\<close>

text \<open>
  C21: A line of the administrator in the control channel adds to the queues of the other components
  exactly what its command asks for, one in a group's channel a message to the group, and any other
  line nothing; and a poll in which the administrator says nothing adds nothing.
\<close>
theorem bot_obeys_the_administrator:
  shows "(command m = PRIVMSG target x \<longrightarrow> bot_queues (snd (co_handle_irc_message E m s)) =
      (if from_admin (co_admin s) m \<and> target = co_chan s then
         (co_cf_tx s @ option_list admin_cf (line_command E x), co_wa_tx s @ option_list admin_wa (line_command E x),
          co_m_tx s @ option_list admin_m (line_command E x))
       else if from_admin (co_admin s) m \<and> target \<in> set (co_channels s)
       then (co_cf_tx s, co_wa_tx s @ [SendGroupMessage target x], co_m_tx s)
       else bot_queues s)) \<and>
    ((\<forall>l. LineIn l \<in> set (cl_stream (co_irc s)) \<longrightarrow> \<not> from_admin (co_admin s) l) \<longrightarrow>
       bot_queues (snd (co_poll E s)) = bot_queues s)"
  using admin_line_queues [of m target x s E] stranger_ignored [of s m E target x] stranger_poll [of s E]
  by (cases "from_admin (co_admin s) m") (simp_all add: co_handle_irc_message_def)

text \<open>
  C14: The log channel implements the log: over any number of polls, failing ones included, the bot says
  in the channel exactly the records that are enabled for it, in their order, once it is connected, as
  long as the connection takes what it is given; until then it keeps them.
\<close>
theorem log_channel_shows_the_log:
  fixes E :: "('t, 'j) ext"
  assumes "cc_admin_nick cfg \<noteq> cc_irc_channel cfg" and "cl_sent cli = []" "cl_sends cli = []"
    and "lg = fold (log_macro name) recs (logger_new cll sll ign)"
    and "bot_run E (co_new cfg d [] cli) (lg_cb_tx lg) t" and "co_rx t = []"
  shows "chan_notices (cc_irc_channel cfg) (cl_sent (co_irc t)) @ co_log_backlog t =
      map (channel_line name) (filter (for_channel (logger_new cll sll ign)) recs) \<and>
    (co_connected t \<longrightarrow> co_log_backlog t = [])"
proof -
  have "log_is (cc_admin_nick cfg) (cc_irc_channel cfg) [] [] (co_new cfg d [] cli :: ('t, 'j) control_bot)"
    using assms(1-3) by (simp add: log_is_defs co_new_def)
  from bot_run_log [OF assms(5) this] obtain L R where
    "log_is (cc_admin_nick cfg) (cc_irc_channel cfg) L R t" "L @ log_lines R = log_lines (lg_cb_tx lg)" by blast
  moreover have "log_lines (lg_cb_tx lg) = map (channel_line name) (filter (for_channel (logger_new cll sll ign)) recs)"
    unfolding assms(4) log_run_lines by (simp add: logger_new_def)
  ultimately show ?thesis using assms(6) by (auto simp: log_is_defs)
qed

text \<open>
  C31: What the logger answers to the question whether a record is enabled is equivalent to what logging
  it does: the record has an effect exactly when the answer is yes.
\<close>
theorem enabled_records_have_an_effect:
  shows "log_enabled lg (lr_target r) (lr_level r) = (log_macro name r lg \<noteq> lg)"
  using enabled_iff_effect [of name r lg] by simp

section \<open>Witnesses\<close>

definition ex_cl :: irc_client where
  "ex_cl = \<lparr>cl_sent = [], cl_sends = [], cl_stream = [], cl_writes = []\<rparr>"

definition ex_ccfg :: client_config where
  "ex_ccfg = \<lparr>cc_irc_hostname = ''irc'', cc_admin_nick = ''eta'', cc_irc_channel = ''#sms'', cc_control_bot_nick = None,
     cc_failure_interval = None, cc_irc_port = None, cc_irc_password = None, cc_webirc_password = None\<rparr>"

definition ex_caddr :: "8 word pdu_address" where
  "ex_caddr = \<lparr>type_addr = 0x91, number = [1, 2]\<rparr>"

definition ex_crow :: recipient where
  "ex_crow = \<lparr>r_id = 1, r_phone_number = ''910102'', r_nick = ''bob'', r_whatsapp = True, r_avatar_url = None,
     r_notify = None, r_nicksrc = NICKSRC_AUTO\<rparr>"

definition ex_cmsg :: message where
  "ex_cmsg = \<lparr>m_id = 1, m_phone_number = ''910102'', m_pdu = None, m_csms_data = None, m_group_target = None,
     m_text = Some ''hi'', m_source = SOURCE_WA, m_ts = 0\<rparr>"

definition ex_cdb :: db where
  "ex_cdb =
     \<lparr>recipients = [ex_crow], messages = [ex_cmsg], groups = [], wa_persistence = [], wa_msgids = [],
      next_recipient_id = 2, next_message_id = 2, next_group_id = 1, db_clock = 0, faults = []\<rparr>"

definition ex_cn :: "(8 word, string) contact_mgr" where
  "ex_cn = (cn_new ex_ccfg ex_caddr True ex_cl ''bob'' ex_cdb)\<lparr>cn_connected := True\<rparr>"

lemma ex_cnorm [simp]: "normalize_address ex_ext ex_caddr = ''910102''"
  by code_simp

lemma ex_cn_sel [simp]:
  "cn_connected ex_cn" "cn_admin_is_online ex_cn" "cn_store ex_cn = ex_cdb" "cn_addr ex_cn = ex_caddr"
  "cn_irc ex_cn = ex_cl" "cn_admin ex_cn = ''eta''" "cn_now ex_cn = 0" "cl_stream ex_cl = []" "messages ex_cdb = [ex_cmsg]"
  by (simp_all add: ex_cn_def cn_new_def ex_cl_def ex_ccfg_def ex_cdb_def)

theorem contact_delivers_in_order_witness:
  "\<exists>t. cn_process_messages ex_ext ex_cn = (Ok (), t) \<and> messages (cn_store t) = [] \<and>
     cn_privmsgs t = cn_privmsgs ex_cn @ said ex_ext ''eta'' 0 ex_cmsg"
proof -
  have ok: "fst (cn_process_messages ex_ext ex_cn) = Ok ()" by code_simp
  obtain r t where t: "cn_process_messages ex_ext ex_cn = (r, t)" by (cases "cn_process_messages ex_ext ex_cn")
  have "spoken ex_ext 0 ex_cmsg \<noteq> None" by (simp add: spoken_def ex_cmsg_def)
  then have "cn_privmsgs t = cn_privmsgs ex_cn @ said ex_ext ''eta'' 0 ex_cmsg \<and> messages (cn_store t) = []"
    using contact_delivers_in_order [OF _ _ _ _ refl, of ex_ext ex_cn t] ok t
    by (simp add: ex_cmsg_def by_ts_id_def)
  with ok t show ?thesis by auto
qed

theorem messages_wait_for_the_administrator_witness:
  "messages (cn_store (snd (cn_poll ex_ext (ex_cn\<lparr>cn_admin_is_online := False\<rparr>)))) = [ex_cmsg]"
  using messages_wait_for_the_administrator [of "ex_cn\<lparr>cn_admin_is_online := False\<rparr>" False ex_ext] by simp

theorem only_the_administrator_is_heard_witness:
  "cn_wa_tx (snd (cn_poll ex_ext ex_cn)) = [] \<and> cn_modem_tx (snd (cn_poll ex_ext ex_cn)) = []"
  using only_the_administrator_is_heard [OF refl, where s = ex_cn and E = ex_ext] by (simp add: ex_cn_def cn_new_def ex_cl_def)

definition ex_fa :: "(8 word, string) contact_factory" where
  "ex_fa = fa_new ex_ccfg ex_cdb [] [] [] 0"

lemma ex_fa_sel [simp]: "fa_store ex_fa = ex_cdb" "fa_processed ex_fa = []"
  by (simp_all add: ex_fa_def fa_new_def)

theorem every_message_is_underway_witness:
  "\<exists>t a. fa_process_messages ex_ext ex_fa = (Ok (), t) \<and> underway a SOURCE_WA t"
proof -
  have ok: "fst (fa_process_messages ex_ext ex_fa) = Ok ()" by code_simp
  obtain r t where t: "fa_process_messages ex_ext ex_fa = (r, t)" by (cases "fa_process_messages ex_ext ex_fa")
  from every_message_is_underway [OF ex_hex_ok ex_ton_ok, of ex_fa t ex_cmsg] ok t show ?thesis
    by (auto simp: ex_cmsg_def)
qed




theorem failed_contacts_come_back_witness:
  "fa_has_contact ex_caddr (snd (fa_process_failures ex_ext (ex_fa\<lparr>fa_failed := [ex_caddr]\<rparr>)))"
proof -
  let ?s = "ex_fa\<lparr>fa_failed := [ex_caddr]\<rparr>"
  have ok: "fst (fa_process_failures ex_ext ?s) = Ok ()" by code_simp
  obtain r t where t: "fa_process_failures ex_ext ?s = (r, t)" by (cases "fa_process_failures ex_ext ?s")
  have "ord_ok (ord_addr ex_ext)" by (simp add: ex_ext_def ord_ok_def)
  moreover have "normalize_address ex_ext ex_caddr \<in> r_phone_number ` set (recipients (fa_store ?s))"
    by (simp add: ex_cdb_def ex_crow_def)
  ultimately show ?thesis
    using failed_contacts_come_back [OF ex_hex_ok ex_ton_ok, of ?s t ex_caddr] ok t by simp
qed

definition ex_bot :: "(8 word, string) control_bot" where
  "ex_bot = co_new ex_ccfg ex_cdb [] ex_cl"

definition ex_order :: in_msg where
  "ex_order = \<lparr>prefix = Some ''eta!u@h'', command = PRIVMSG ''#sms'' ''MODEM SIGNAL''\<rparr>"

theorem bot_obeys_the_administrator_witness:
  "bot_queues (snd (co_handle_irc_message ex_ext ex_order ex_bot)) =
     ([], [], [RequestCsq]) \<and>
   bot_queues (snd (co_poll ex_ext ex_bot)) = ([], [], [])"
proof -
  have "line_command ex_ext ''MODEM SIGNAL'' = Some (Modem GetCsq)" by code_simp
  moreover have "from_admin (co_admin ex_bot) ex_order" by code_simp
  ultimately show ?thesis
    using bot_obeys_the_administrator [of ex_order "''#sms''" "''MODEM SIGNAL''" ex_ext ex_bot]
    by (simp add: ex_order_def ex_bot_def co_new_def ex_ccfg_def ex_cl_def bot_queues_def option_list_def
        modem_to_cts_def)
qed

text \<open>A record logged before the bot is connected reaches the channel after the end of the MOTD.\<close>

definition ex_record :: log_record where
  "ex_record = \<lparr>lr_target = ''sms_irc'', lr_level = LogInfo, lr_args = ''hello''\<rparr>"

definition ex_log :: logger where
  "ex_log = fold (log_macro (\<lambda>_. ''INFO'')) [ex_record] (logger_new (UpTo LogInfo) LevelOff False)"

definition ex_logged :: "(8 word, string) control_bot" where
  "ex_logged = snd (co_poll ex_ext (ex_bot\<lparr>co_rx := co_rx ex_bot @ lg_cb_tx ex_log, co_irc := (co_irc ex_bot)
     \<lparr>cl_stream := [LineIn \<lparr>prefix = None, command = Response RPL_ENDOFMOTD [] None\<rparr>], cl_writes := []\<rparr>\<rparr>))"

lemma ex_logged_run: "bot_run ex_ext ex_bot (lg_cb_tx ex_log) ex_logged"
  unfolding ex_logged_def
  using bot_run.poll [OF bot_run.start, of ex_ext ex_bot "lg_cb_tx ex_log"] by simp

theorem log_channel_shows_the_log_witness:
  "chan_notices ''#sms'' (cl_sent (co_irc ex_logged)) @ co_log_backlog ex_logged =
     [channel_line (\<lambda>_. ''INFO'') ex_record]"
proof -
  have rx: "co_rx ex_logged = []" by code_simp
  have "for_channel (logger_new (UpTo LogInfo) LevelOff False) ex_record" by code_simp
  then show ?thesis
    using log_channel_shows_the_log [OF _ _ _ ex_log_def ex_logged_run [unfolded ex_bot_def] rx]
    by (simp add: ex_ccfg_def ex_cl_def)
qed

end
