(* ===== verification/Link_Bridge.thy ===== *)
theory Link_Bridge
  imports Bridge_Facts Link_Ok
begin

text \<open>
  The process as a server of an InspIRCd network: the front is the link. What it sends to contacts and to
  the control bot comes back to itself.
\<close>

section \<open>The front\<close>

text \<open>Beside the link, the lines of the network that it has not read yet.\<close>

type_synonym ('t, 'j) link_front = "('t, 'j) insp_link \<times> conn_event list"

type_synonym ('t, 'j) link_bridge = "('t, 'j, ('t, 'j) link_front) bridge"

text \<open>The connection is there.\<close>

inductive link_boot :: "main_config \<Rightarrow> ('t, 'j) link_bridge \<Rightarrow> ('t, 'j) link_bridge \<Rightarrow> bool" where
  "choose_mode mc = Some (InspMode i) \<Longrightarrow> link_boot mc b
    (b\<lparr>br_front := Some (insp_new i (br_cf b) (br_cb b) (br_db b) k (br_now b), [])\<rparr>)"

definition put_link :: "('t, 'j) insp_link \<Rightarrow> ('t, 'j) link_bridge \<Rightarrow> ('t, 'j) link_bridge" where
  "put_link l b =
     to_modem (m_tx l) (to_wa (wa_tx l)
       (b\<lparr>br_db := store l, br_front := Some (l\<lparr>wa_tx := [], m_tx := []\<rparr>, []), br_cf := cf_rx l, br_cb := cb_rx l\<rparr>))"

definition link_poll :: "('t, 'j) ext \<Rightarrow> unit \<Rightarrow> (('t, 'j) link_bridge, unit) comp" where
  "link_poll E t =
     and_then (gets br_front) (\<lambda>fr. case fr of
         None \<Rightarrow> ret ()
       | Some (l, evs) \<Rightarrow>
           on_field (\<lambda>b. l\<lparr>store := br_db b, cf_rx := br_cf b, cb_rx := br_cb b, clock := br_now b\<rparr>) put_link
             (insp_poll E evs))"

text \<open>
  The network sends lines and takes or refuses ours. It never splits off a server whose name is a prefix
  of our identifiers.
\<close>

inductive link_world :: "('t, 'j) link_bridge \<Rightarrow> ('t, 'j) link_bridge \<Rightarrow> bool" where
  "br_front b = Some (l, evs) \<Longrightarrow> list_all (event_ok (cfg l)) new \<Longrightarrow>
    link_world b (b\<lparr>br_front := Some (l\<lparr>conn := k\<rparr>, evs @ new)\<rparr>)"

definition link_mode :: "('t, 'j) ext \<Rightarrow> ('t, 'j, ('t, 'j) link_front, unit) mode_ops" where
  "link_mode E = \<lparr>mode_boot = link_boot, mode_poll = link_poll E, mode_world = link_world\<rparr>"

section \<open>It keeps what the rest relies on\<close>

definition link_front_ok :: "('t, 'j) link_front \<Rightarrow> bool" where
  "link_front_ok p \<longleftrightarrow> (case p of (l, evs) \<Rightarrow>
     insp_inv True (cfg l) l \<and> m_tx l = [] \<and> list_all (event_ok (cfg l)) evs)"

lemma link_front_ok_pair [simp]:
  "link_front_ok (l, evs) \<longleftrightarrow> insp_inv True (cfg l) l \<and> m_tx l = [] \<and> list_all (event_ok (cfg l)) evs"
  by (simp add: link_front_ok_def)

definition link_upset :: "('t, 'j) link_bridge \<Rightarrow> bool" where
  "link_upset b \<longleftrightarrow> (\<exists>l evs. br_front b = Some (l, evs) \<and> list_ex upsetting evs)"

lemma put_link_ok:
  assumes "bridge_inv E link_front_ok b" "link_ok E c l"
  shows "bridge_inv E link_front_ok (put_link l b)"
proof -
  have l: "db_ok E (store l)" "no_listing (m_tx l)" "insp_inv True c l" "cfg l = c"
    using assms(2) by (simp_all add: link_ok_def link_db_def insp_inv_def)
  show ?thesis
    unfolding put_link_def to_modem_ok [OF l(2)] to_wa_ok
    by (rule put_front_ok(1)) (use l assms(1) in simp_all)
qed

lemma link_poll_ok:
  assumes "link_lib E" and "bridge_inv E link_front_ok b"
  shows "bridge_inv E link_front_ok (snd (link_poll E t b)) \<and> (link_upset b \<or> fst (link_poll E t b) \<noteq> Panic)"
proof (cases "br_front b")
  case None
  then show ?thesis using assms(2) by (simp add: link_poll_def ret_def)
next
  case (Some p)
  obtain l evs where fr: "br_front b = Some (l, evs)" using Some by (cases p) simp
  let ?l = "l\<lparr>store := br_db b, cf_rx := br_cf b, cb_rx := br_cb b, clock := br_now b\<rparr>"
  have "link_front_ok (l, evs)" "db_ok E (br_db b)" using assms(2) fr by (simp_all add: bridge_inv_def)
  then have "link_ok E (cfg l) ?l" "list_all (event_ok (cfg l)) evs"
    by (simp_all add: link_ok_def link_db_def)
  from guardedD [OF link_poll_guarded [OF assms(1) this(2)] this(1)] show ?thesis
    using fr put_link_ok [OF assms(2)] by (auto simp: link_poll_def on_field_eq link_upset_def)
qed

lemma link_world_ok:
  "link_world b b' \<Longrightarrow> bridge_inv E link_front_ok b \<Longrightarrow> bridge_inv E link_front_ok b'"
  by (cases rule: link_world.cases) (auto simp: bridge_inv_def)

lemma link_boot_ok:
  fixes b :: "('t, 'j) link_bridge"
  shows "link_boot mc b b' \<Longrightarrow> bridge_inv E link_front_ok b \<Longrightarrow> bridge_inv E link_front_ok b'"
proof (erule link_boot.cases)
  fix mc' i and b0 :: "('t, 'j) link_bridge" and k
  have "cfg (insp_new i cf cb d k t :: ('t, 'j) insp_link) = i" "m_tx (insp_new i cf cb d k t :: ('t, 'j) insp_link) = []"
    for cf cb d t
    by (simp_all add: insp_new_def)
  then have new: "link_front_ok (insp_new i cf cb d k t :: ('t, 'j) insp_link, [])" for cf cb d t
    using insp_inv_new [of True i] by simp
  assume "bridge_inv E link_front_ok b" "b = b0"
    and "b' = b0\<lparr>br_front := Some (insp_new i (br_cf b0) (br_cb b0) (br_db b0) k (br_now b0), [])\<rparr>"
  then show ?thesis using new by (simp add: bridge_inv_def del: link_front_ok_pair)
qed

interpretation link: front E "link_mode E" link_front_ok link_upset "link_lib E" for E :: "('t, 'j) ext"
  by unfold_locales
    (auto simp: link_mode_def intro: link_boot_ok link_world_ok dest: link_poll_ok)

end
