(* ===== verification/Server_Ok.thy ===== *)
theory Server_Ok
  imports Irc_Server_Facts Db_Ok
begin

text \<open>
  The IRC server among the other components: what its connections keep of the shared database, what they
  send to the modem, and that no poll of it panics unless a client sends the one command that panics.
\<close>

section \<open>A pending client\<close>

lemma new_message_quiet: "new_message E pre c a sf \<noteq> Panic"
  by (simp add: new_message_def Let_def)

lemma pc_poll_quiet: "fst (pc_poll E p) \<noteq> Panic"
proof -
  have r: "safe (\<lambda>_. True) (pc_reply E c a sf)" for c a sf
    unfolding pc_reply_def by (intro safe safe_lift safe_modify new_message_quiet) simp
  have m: "safe (\<lambda>_. True) (modify f)" for f :: "pending_conn \<Rightarrow> pending_conn"
    by (simp add: safe_modify)
  have q: "safe (\<lambda>_. True) (pc_request_cap E c)" for c
    unfolding pc_request_cap_def by (intro safe r m)
  have "safe (\<lambda>_. True) (pc_handle E c)" for c
    unfolding pc_handle_def pc_cap_def pc_set_user_def pc_unregistered_def
    by (auto intro!: safe r m q split: irc_command.split cap_sub_command.split option.split)
  then have "safe (\<lambda>_. True) (pc_event E ev)" for ev
    unfolding pc_event_def by (cases ev) (auto intro!: safe)
  moreover have "safe (\<lambda>_. True) poll_complete"
    by (auto simp: safe_def poll_complete_def split: list.split send_answer.split)
  ultimately have "safe (\<lambda>_. True) (pc_poll E)"
    unfolding pc_poll_def pc_on_new_def pc_is_done_def
    by (intro safe r m safe_on_field [OF quiet_sink_outbox] safe_on_field [of "\<lambda>_. True" poll_complete]) simp_all
  then show ?thesis by (simp add: safe_def)
qed

lemma poll_complete_reg: "on_field pc_sock (\<lambda>k p. p\<lparr>pc_sock := k\<rparr>) poll_complete p = (r, q) \<Longrightarrow>
    pc_nick q = pc_nick p \<and> pc_user q = pc_user p \<and> pc_realname q = pc_realname p"
  by (auto simp: on_field_def split: prod.splits)

lemma pc_poll_done:
  assumes "pc_poll E p = (Ok True, q)"
  shows "pc_reginfo q \<noteq> Panic"
proof -
  from assms obtain s where "pc_is_done s = (Ok True, q)"
    unfolding pc_poll_def by (auto elim!: and_then_OkE then_do_OkE)
  then have "pc_nick s \<noteq> None \<and> pc_user s \<noteq> None \<and> pc_realname s \<noteq> None"
    and "on_field pc_sock (\<lambda>k p. p\<lparr>pc_sock := k\<rparr>) poll_complete s = (Ok True, q)"
    by (auto simp: pc_is_done_def ret_def split: if_splits)
  then show ?thesis using poll_complete_reg by (fastforce simp: pc_reginfo_def split: option.split)
qed

lemma wrapper_poll_quiet: "w \<noteq> None \<Longrightarrow> fst (wrapper_poll E w) \<noteq> Panic"
proof -
  assume "w \<noteq> None"
  then obtain p where w: "w = Some p" by blast
  obtain r q where q: "pc_poll E p = (r, q)" by (cases "pc_poll E p")
  have "r \<noteq> Panic" using pc_poll_quiet [of E p] q by simp
  then show ?thesis
    using w q pc_poll_done [of E p q]
    by (cases r; cases "pc_reginfo q") (auto simp: wrapper_poll_def split: bool.split)
qed

lemma wrapper_poll_waits: "wrapper_poll E w = (Ok None, w') \<Longrightarrow> w' \<noteq> None"
  by (auto simp: wrapper_poll_def split: option.splits prod.splits outcome.splits bool.splits)

text \<open>The empty wrappers are thrown away, and a new connection has sent nothing.\<close>

lemma poll_pending_ok:
  assumes "list_all (\<lambda>w. w \<noteq> None) ws" and "poll_pending E d t ws = (r, cs, ws')"
  shows "r = Ok () \<and> list_all (\<lambda>w. w \<noteq> None) ws' \<and> list_all (\<lambda>c. ic_m_outbox c = [] \<and> ic_arrivals c = []) cs"
  using assms
proof (induction ws arbitrary: cs r ws')
  case (Cons w ws)
  then show ?case
    using wrapper_poll_quiet [of w E] wrapper_poll_waits [of E w]
    by (fastforce simp: from_pending_def Let_def split: prod.splits outcome.splits option.splits)
qed simp

section \<open>A connection\<close>

text \<open>\<open>A\<close> holds the events that may still arrive in this poll.\<close>

definition ic_ok :: "('t, 'j) ext \<Rightarrow> conn_event set \<Rightarrow> ('t, 'j) irc_connection \<Rightarrow> bool" where
  "ic_ok E A c \<longleftrightarrow> db_ok E (ic_store c) \<and> no_listing (ic_m_outbox c) \<and> set (ic_arrivals c) \<subseteq> A"

lemma ic_ok_simps [simp]:
  "ic_ok E A (c\<lparr>ic_outbox := ob\<rparr>) = ic_ok E A c" "ic_ok E A (c\<lparr>ic_wa_outbox := w\<rparr>) = ic_ok E A c"
  "ic_ok E A (c\<lparr>ic_cf_outbox := f\<rparr>) = ic_ok E A c" "ic_ok E A (c\<lparr>ic_joined_groups := g\<rparr>) = ic_ok E A c"
  "ic_ok E A (c\<lparr>ic_reginfo := ri\<rparr>) = ic_ok E A c" "ic_ok E A (c\<lparr>ic_new := nw\<rparr>) = ic_ok E A c"
  "ic_ok E A (c\<lparr>ic_sock := k\<rparr>) = ic_ok E A c" "ic_ok E A (c\<lparr>ic_clock := t\<rparr>) = ic_ok E A c"
  by (simp_all add: ic_ok_def)

lemma ic_push_ok: "guarded b (ic_ok E A) (ic_push E' pre cm a sf)"
  by (rule guardedI) (simp add: ic_push_result)

lemma reply_ok:
  "guarded b (ic_ok E A) (reply_s2c E' cm a sf)" "guarded b (ic_ok E A) (reply_from_user E' cm a sf)"
  "guarded b (ic_ok E A) (reply_from_nick E' n cm a sf)" "guarded b (ic_ok E A) (from_root E' x)"
  unfolding reply_s2c_def reply_from_user_def reply_from_nick_def from_root_def
  by (intro guarded ic_push_ok)+

lemma ic_store_ok:
  "pres (db_ok E) n \<Longrightarrow> safe (\<lambda>_. True) n \<Longrightarrow> guarded b (ic_ok E A) (ic_store_op n)"
  unfolding ic_store_op_def
  by (rule guarded_on_field [OF guarded_of_quiet]) (simp_all add: ic_ok_def)

lemma collect_ok: "guarded b (ic_ok E A) (collect_recipients is)"
  unfolding participant_recipient_def
  by (induction "is") (auto simp: participant_recipient_def intro!: guarded ic_store_ok db_ok_reads safe)

lemma ic_on_new_ok: "guarded b (ic_ok E A) (ic_on_new E')"
proof -
  have "guarded b (ic_ok E A) (setup_group E' g)" for g
    unfolding setup_group_def by (intro guarded reply_ok collect_ok guarded_modify) simp
  then show ?thesis
    unfolding ic_on_new_def send_motd_def setup_control_channel_def
    by (intro guarded reply_ok ic_store_ok db_ok_reads safe)
qed

interpretation qsnd: quiet_sender "ic_sender E" "\<lambda>f t x. (f, t, x)" ic_sent ic_nick for E :: "('t, 'j) ext"
  by unfold_locales
    (simp_all add: ic_sender_def reply_from_nick_def ic_push_result ensure_joined_default_def ret_def gets_def and_then_def)

lemma ic_sender_ok:
  "m_text msg \<noteq> None \<Longrightarrow> guarded b (ic_ok E A) (process_msg_plain E (ic_sender E) n msg)"
  "guarded b (ic_ok E A) (process_msg_pdu E (ic_sender E) n msg pd)"
proof -
  have ops: "pres (ic_ok E A) (report_error (ic_sender E) f x)" "pres (ic_ok E A) (private_target (ic_sender E))"
    "pres (ic_ok E A) (send_irc_message (ic_sender E) f to x)" "pres (ic_ok E A) (ensure_joined (ic_sender E) ch)"
    for f x to ch
    by (simp_all add: ic_sender_def ensure_joined_default_def pres guarded_pres [OF reply_ok(3) [where b = False]])
  have st: "pres (ic_ok E A) (ic_store_op n)" if "pres (db_ok E) n" "safe (\<lambda>_. True) n" for n :: "(db, 'c) comp"
    using ic_store_ok [OF that] by (rule guarded_pres)
  have dbs: "pres (ic_ok E A) (on_db (ic_sender E) (get_group_by_id g))"
    "pres (ic_ok E A) (on_db (ic_sender E) (delete_message i))"
    "pres (ic_ok E A) (on_db (ic_sender E) (get_all_concatenated k rf))" for g i k rf
    unfolding ic_on_db by (intro st db_ok_reads db_ok_writes safe)+
  note kept = sender_pres [of "ic_ok E A" "ic_sender E", OF ops dbs]
  show "m_text msg \<noteq> None \<Longrightarrow> guarded b (ic_ok E A) (process_msg_plain E (ic_sender E) n msg)"
    by (intro guardedI conjI impI qsnd.plain_no_panic pres_snd [OF kept(1)])
  have "parts_ok E (sender_db (ic_sender E) c)" if "ic_ok E A c" for c
    using that by (simp add: ic_ok_def db_ok_parts ic_sender_def)
  then show "guarded b (ic_ok E A) (process_msg_pdu E (ic_sender E) n msg pd)"
    by (intro guardedI conjI impI qsnd.pdu_no_panic pres_snd [OF kept(2)])
qed

lemma ic_process_message_ok:
  assumes "decode_ok E" and "m_pdu msg = None \<longrightarrow> m_text msg \<noteq> None"
  shows "guarded b (ic_ok E A) (ic_process_message E msg)"
  unfolding ic_process_message_def
  by (intro guarded_and_then guarded_lift get_addr_no_panic ic_store_ok db_ok_reads safe guarded_rules guarded_basic
      ic_sender_ok assms(1)) (use assms(2) in simp)

text \<open>The messages a query returns are rows of the database.\<close>

lemma ic_messages_rows:
  assumes "ic_store_op get_all_messages c = (Ok ms, c')"
  shows "set ms = set (messages (ic_store c))"
  using assms
  by (auto simp: ic_store_op_def on_field_def get_all_messages_def with_conn_def gets_def by_ts_id_def
      split: list.splits if_splits prod.splits)

lemma ic_process_messages_ok:
  fixes E :: "('t, 'j) ext"
  assumes "decode_ok E"
  shows "guarded b (ic_ok E A) (ic_process_messages E)"
proof -
  let ?R = "\<lambda>ms (c :: ('t, 'j) irc_connection). \<forall>m \<in> set ms. m_pdu m = None \<longrightarrow> m_text m \<noteq> None"
  show ?thesis
    unfolding ic_process_messages_def
  proof (rule guarded_and_then_post [where R = ?R])
    show "guarded b (ic_ok E A) (ic_store_op get_all_messages)"
      by (intro ic_store_ok db_ok_reads safe)
    show "?R ms c'" if "ic_ok E A c" "ic_store_op get_all_messages c = (Ok ms, c')" for c ms and c' :: "('t, 'j) irc_connection"
      using that(1) ic_messages_rows [OF that(2)]
      by (auto simp: ic_ok_def db_ok_def db_inv_def list_all_iff message_ok_iff)
    show "ic_ok E A (snd (for_each ms (ic_process_message E) c)) \<and>
        (b \<longrightarrow> fst (for_each ms (ic_process_message E) c) \<noteq> Panic)" if "ic_ok E A c" "?R ms c" for ms c
      by (rule guarded_at [where P = "ic_ok E A"], rule that(1), intro guarded ic_process_message_ok assms)
        (use that(2) in blast)
  qed
qed

section \<open>Lines of the client\<close>

text \<open>The line that is a command whose parser panics.\<close>

definition client_upsets :: "conn_event \<Rightarrow> bool" where
  "client_upsets ev \<longleftrightarrow> (\<exists>m x. ev = Received m \<and> command m = PRIVMSG ''&smsirc'' x \<and> bare_raw x)"

lemma ic_admin_ok: "guarded (\<not> bare_raw x) (ic_ok E A) (process_admin_command E (ic_control E) x)"
proof (rule guardedI)
  fix c assume c: "ic_ok E A c"
  have P: "pres (\<lambda>c. db_ok E (ic_store c) \<and> set (ic_arrivals c) \<subseteq> A) (from_root E y)" for y
    by (auto simp: pres_def from_root_def ic_push_result)
  have "pres (\<lambda>c. db_ok E (ic_store c) \<and> set (ic_arrivals c) \<subseteq> A) (process_admin_command E (ic_control E) x)"
    by (rule control_pres) (simp_all add: ic_control_def P process_insp_default_def pres pres_modify)
  moreover have "no_listing (ic_m_outbox (snd (process_admin_command E (ic_control E) x c)))"
    using sctl.process_logs [of E E x c] admin_m_no_listing [of E x] c by (simp add: sctl.logs_def ic_ok_def)
  ultimately show "ic_ok E A (snd (process_admin_command E (ic_control E) x c)) \<and>
      (\<not> bare_raw x \<longrightarrow> fst (process_admin_command E (ic_control E) x c) \<noteq> Panic)"
    using c sctl.panics_on_raw [of E E x c] by (simp add: pres_def ic_ok_def)
qed

lemma ic_event_ok:
  assumes "decode_ok E"
  shows "guarded (\<not> client_upsets ev) (ic_ok E A) (ic_event E ev)"
proof -
  have pm: "guarded b (ic_ok E A) (ic_handle_privmsg E tgt x)" if "b \<Longrightarrow> tgt = ''&smsirc'' \<Longrightarrow> \<not> bare_raw x" for b tgt x
  proof -
    have "guarded b (ic_ok E A) (process_admin_command E (ic_control E) x)" if "tgt = ''&smsirc''"
      using ic_admin_ok [of x E A] \<open>b \<Longrightarrow> tgt = ''&smsirc'' \<Longrightarrow> \<not> bare_raw x\<close> that by (auto simp: guarded_def)
    moreover have "guarded b (ic_ok E A) (wa_send (ic_control E) w)"
      "guarded b (ic_ok E A) (m_send (ic_control E) (SendMessage a y))" for w a y
      by (auto simp: ic_control_def intro!: guarded_modify) (simp add: ic_ok_def)
    ultimately show ?thesis
      unfolding ic_handle_privmsg_def
      by (intro guarded_rules guarded_and_then guarded_lift get_addr_no_panic assms ic_store_ok db_ok_reads safe reply_ok)
  qed
  have "guarded (\<not> client_upsets (Received m)) (ic_ok E A) (ic_handle_remote E (command m))" for m
    by (cases "command m")
      (auto simp: ic_handle_remote_def client_upsets_def intro!: guarded guarded_modify reply_ok pm)
  then show ?thesis
    unfolding ic_event_def by (cases ev) (auto intro: guarded)
qed

lemma ic_poll_ok:
  assumes "decode_ok E" and "ic_ok E A c"
  shows "ic_ok E A (snd (ic_poll E c)) \<and> ((\<forall>ev \<in> A. \<not> client_upsets ev) \<longrightarrow> fst (ic_poll E c) \<noteq> Panic)"
proof -
  let ?b = "\<forall>ev \<in> A. \<not> client_upsets ev"
  have flush: "guarded ?b (ic_ok E A) (on_field (\<lambda>c. (ic_outbox c, ic_sock c))
      (\<lambda>(ob, k) c. c\<lparr>ic_outbox := ob, ic_sock := k\<rparr>) sink_outbox)"
    by (rule guarded_on_field [where Q = "\<lambda>_. True"])
      (auto simp: guarded_def pres_def safe_def safe_no_panic [OF quiet_sink_outbox])
  have empty: "guarded ?b (ic_ok E A) (modify (\<lambda>c. c\<lparr>ic_arrivals := []\<rparr>))"
    by (rule guarded_modify) (simp add: ic_ok_def)
  have evs: "guarded ?b (ic_ok E A) (for_each evs (ic_event E))" if "set evs \<subseteq> A" for evs
    using that ic_event_ok [OF assms(1), of _ A] by (intro guarded) (fastforce simp: guarded_def)
  have "guarded ?b (ic_ok E A) (ic_poll E)"
    unfolding ic_poll_def
    by (intro guarded_and_then [OF guarded_basic(3)] guarded_rules guarded_basic guarded_modify guarded_gets_then
        ic_on_new_ok empty evs flush) (auto simp: ic_ok_def)
  from guardedD [OF this assms(2)] show ?thesis by simp
qed

section \<open>The server\<close>

text \<open>Between two runs of it a connection's handle on the database is out of date.\<close>

definition conn_ok :: "conn_event set \<Rightarrow> ('t, 'j) irc_connection \<Rightarrow> bool" where
  "conn_ok A c \<longleftrightarrow> no_listing (ic_m_outbox c) \<and> set (ic_arrivals c) \<subseteq> A"

definition server_ok :: "('t, 'j) ext \<Rightarrow> conn_event set \<Rightarrow> ('t, 'j) irc_server \<Rightarrow> bool" where
  "server_ok E A s \<longleftrightarrow> db_ok E (is_store s) \<and> no_listing (is_m_tx s) \<and>
     list_all (conn_ok A) (is_connections s) \<and> list_all (\<lambda>w. w \<noteq> None) (is_pending s)"

lemma ic_ok_conn: "ic_ok E A (c\<lparr>ic_store := d\<rparr>) \<longleftrightarrow> db_ok E d \<and> conn_ok A c"
  "ic_ok E A c \<Longrightarrow> db_ok E (ic_store c) \<and> conn_ok A c"
  by (auto simp: ic_ok_def conn_ok_def)

lemma each_conn_ok:
  assumes "guarded True (ic_ok E A) m" and "db_ok E d" "list_all (conn_ok A) cs"
    and "each_conn m t cs d = (r, cs', d')"
  shows "r = Ok () \<and> db_ok E d' \<and> list_all (conn_ok A) cs'"
  using assms(2-)
proof (induction cs arbitrary: d r cs' d')
  case (Cons c cs)
  obtain r1 c1 where c1: "m (c\<lparr>ic_store := d, ic_clock := t\<rparr>) = (r1, c1)"
    by (cases "m (c\<lparr>ic_store := d, ic_clock := t\<rparr>)")
  obtain r2 cs2 d2 where rest: "each_conn m t cs (ic_store c1) = (r2, cs2, d2)"
    by (cases "each_conn m t cs (ic_store c1)")
  have "ic_ok E A c1 \<and> r1 \<noteq> Panic"
    using guardedD [OF assms(1), of "c\<lparr>ic_store := d, ic_clock := t\<rparr>"] Cons.prems(1,2) c1
    by (simp add: ic_ok_conn(1))
  then show ?case
    using Cons.IH [OF _ _ rest] Cons.prems c1 rest ic_ok_conn(2)
    by (cases r1) (auto simp: Let_def)
qed simp

lemma on_conns_ok:
  assumes "guarded True (ic_ok E A) m"
  shows "guarded b (server_ok E A) (on_conns m)"
proof (rule guardedI)
  fix s assume s: "server_ok E A s"
  obtain r cs d where e: "each_conn m (is_clock s) (is_connections s) (is_store s) = (r, cs, d)"
    by (cases "each_conn m (is_clock s) (is_connections s) (is_store s)")
  from each_conn_ok [OF assms _ _ e] s
  show "server_ok E A (snd (on_conns m s)) \<and> (b \<longrightarrow> fst (on_conns m s) \<noteq> Panic)"
    by (simp add: on_conns_def e server_ok_def)
qed

lemma poll_conns_ok:
  assumes "decode_ok E" and "db_ok E d" "list_all (conn_ok A) cs"
    and "poll_conns E t cs d = (r, cs', was, ms, d')"
  shows "db_ok E d' \<and> list_all (conn_ok A) cs' \<and> no_listing ms \<and>
    ((\<forall>ev \<in> A. \<not> client_upsets ev) \<longrightarrow> r \<noteq> Panic)"
  using assms(2-)
proof (induction cs arbitrary: d r cs' was ms d')
  case (Cons c cs)
  let ?c = "c\<lparr>ic_store := d, ic_clock := t\<rparr>"
  obtain r1 c1 where c1: "ic_poll E ?c = (r1, c1)" by (cases "ic_poll E ?c")
  obtain r2 cs2 was2 ms2 d2 where rest: "poll_conns E t cs (ic_store c1) = (r2, cs2, was2, ms2, d2)"
    by (metis prod_cases5)
  have ok: "ic_ok E A c1" "(\<forall>ev \<in> A. \<not> client_upsets ev) \<longrightarrow> r1 \<noteq> Panic"
    using ic_poll_ok [OF assms(1), of A ?c] Cons.prems(1,2) c1 by (simp_all add: ic_ok_conn(1))
  have "conn_ok A (c1\<lparr>ic_wa_outbox := [], ic_m_outbox := []\<rparr>)" "no_listing (ic_m_outbox c1)"
    using ok(1) by (simp_all add: ic_ok_def conn_ok_def)
  then show ?case
    using Cons.IH [OF _ _ rest] Cons.prems c1 rest ic_ok_conn(2) [OF ok(1)] ok(2)
    by (cases r1) (auto simp: Let_def)
qed auto

lemma is_poll_ok:
  assumes "decode_ok E" and "server_ok E A s"
  shows "server_ok E A (snd (is_poll E s)) \<and> ((\<forall>ev \<in> A. \<not> client_upsets ev) \<longrightarrow> fst (is_poll E s) \<noteq> Panic)"
proof -
  let ?b = "\<forall>ev \<in> A. \<not> client_upsets ev"
  have accept: "guarded ?b (server_ok E A) (is_accept ev)" for ev
    by (cases ev) (auto simp: is_accept_def server_ok_def intro!: guarded guarded_modify)
  have pending: "guarded ?b (server_ok E A) (is_poll_pending E)"
  proof (rule guardedI)
    fix s assume s: "server_ok E A s"
    obtain r cs ws where e: "poll_pending E (is_store s) (is_clock s) (is_pending s) = (r, cs, ws)"
      by (cases "poll_pending E (is_store s) (is_clock s) (is_pending s)")
    have "list_all (conn_ok A) cs" if "list_all (\<lambda>c. ic_m_outbox c = [] \<and> ic_arrivals c = []) cs"
      using that by (auto simp: list_all_iff conn_ok_def)
    then show "server_ok E A (snd (is_poll_pending E s)) \<and> (?b \<longrightarrow> fst (is_poll_pending E s) \<noteq> Panic)"
      using s poll_pending_ok [OF _ e] by (simp add: is_poll_pending_def e server_ok_def)
  qed
  have control: "guarded ?b (server_ok E A) (is_handle_control E cb)" for cb
  proof -
    have "guarded True (ic_ok E A) (ic_handle_control E cb)"
      by (cases cb) (simp_all add: ic_handle_control_def reply_ok guarded)
    then show ?thesis unfolding is_handle_control_def by (rule on_conns_ok)
  qed
  have contact: "guarded ?b (server_ok E A) (is_handle_contact E cf)" for cf
    unfolding is_handle_contact_def by (intro guarded on_conns_ok ic_process_messages_ok assms(1))
  have conns: "guarded ?b (server_ok E A) (is_poll_conns E)"
  proof (rule guardedI)
    fix s assume s: "server_ok E A s"
    obtain r cs was ms d where e: "poll_conns E (is_clock s) (is_connections s) (is_store s) = (r, cs, was, ms, d)"
      by (metis prod_cases5)
    from poll_conns_ok [OF assms(1) _ _ e, where A = A] s
    show "server_ok E A (snd (is_poll_conns E s)) \<and> (?b \<longrightarrow> fst (is_poll_conns E s) \<noteq> Panic)"
      by (simp add: is_poll_conns_def e server_ok_def)
  qed
  have "guarded ?b (server_ok E A) (is_poll E)"
    unfolding is_poll_def
    by (intro guarded guarded_modify accept pending control contact conns) (simp_all add: server_ok_def)
  from guardedD [OF this assms(2)] show ?thesis by simp
qed

end
