(* ===== verification/Server_Bridge.thy ===== *)
theory Server_Bridge
  imports Bridge_Facts Server_Ok
begin

text \<open>
  The process as an IRC server of its own: the front is the server. It gives no commands to contacts and
  none to a control bot.
\<close>

section \<open>The front\<close>

type_synonym ('t, 'j) server_bridge = "('t, 'j, ('t, 'j) irc_server) bridge"

text \<open>The listener is bound.\<close>

inductive server_boot :: "main_config \<Rightarrow> ('t, 'j) server_bridge \<Rightarrow> ('t, 'j) server_bridge \<Rightarrow> bool" where
  "choose_mode cfg = Some (ServerMode v) \<Longrightarrow>
    server_boot cfg b (b\<lparr>br_front := Some (is_new (br_cf b) (br_cb b) (br_db b) (br_now b))\<rparr>)"

definition put_server :: "('t, 'j) irc_server \<Rightarrow> ('t, 'j) server_bridge \<Rightarrow> ('t, 'j) server_bridge" where
  "put_server s b =
     to_modem (is_m_tx s) (to_wa (is_wa_tx s)
       (b\<lparr>br_db := is_store s, br_front := Some (s\<lparr>is_wa_tx := [], is_m_tx := []\<rparr>),
          br_cf := is_cf_rx s, br_cb := is_cb_rx s\<rparr>))"

definition server_poll :: "('t, 'j) ext \<Rightarrow> unit \<Rightarrow> (('t, 'j) server_bridge, unit) comp" where
  "server_poll E t =
     and_then (gets br_front) (\<lambda>fr. case fr of
         None \<Rightarrow> ret ()
       | Some s \<Rightarrow>
           on_field (\<lambda>b. s\<lparr>is_store := br_db b, is_cf_rx := br_cf b, is_cb_rx := br_cb b, is_clock := br_now b\<rparr>)
             put_server (is_poll E))"

text \<open>Clients connect, send lines, and take or refuse ours.\<close>

inductive server_world :: "('t, 'j) server_bridge \<Rightarrow> ('t, 'j) server_bridge \<Rightarrow> bool" where
  "br_front b = Some s \<Longrightarrow> server_world b (b\<lparr>br_front := Some (s\<lparr>is_incoming := is_incoming s @ new,
     is_connections := map (\<lambda>c. c\<lparr>ic_sock := ksf c, ic_arrivals := evf c\<rparr>) (is_connections s),
     is_pending := map (map_option (\<lambda>p. p\<lparr>pc_sock := ksg p, pc_arrivals := evg p\<rparr>)) (is_pending s)\<rparr>)\<rparr>)"

definition server_mode :: "('t, 'j) ext \<Rightarrow> ('t, 'j, ('t, 'j) irc_server, unit) mode_ops" where
  "server_mode E = \<lparr>mode_boot = server_boot, mode_poll = server_poll E, mode_world = server_world\<rparr>"

section \<open>It keeps what the rest relies on\<close>

definition server_front_ok :: "('t, 'j) irc_server \<Rightarrow> bool" where
  "server_front_ok s \<longleftrightarrow> list_all (\<lambda>c. no_listing (ic_m_outbox c)) (is_connections s) \<and> is_m_tx s = [] \<and>
     list_all (\<lambda>w. w \<noteq> None) (is_pending s)"

definition arrived :: "('t, 'j) irc_server \<Rightarrow> conn_event set" where
  "arrived s = (\<Union>c \<in> set (is_connections s). set (ic_arrivals c))"

definition server_upset :: "('t, 'j) server_bridge \<Rightarrow> bool" where
  "server_upset b \<longleftrightarrow> (\<exists>s. br_front b = Some s \<and> (\<exists>ev \<in> arrived s. client_upsets ev))"

lemma put_server_ok:
  assumes "bridge_inv E server_front_ok b" "server_ok E A s"
  shows "bridge_inv E server_front_ok (put_server s b)"
proof -
  have s: "db_ok E (is_store s)" "no_listing (is_m_tx s)" "server_front_ok (s\<lparr>is_wa_tx := [], is_m_tx := []\<rparr>)"
    using assms(2) by (auto simp: server_ok_def server_front_ok_def conn_ok_def list_all_iff)
  show ?thesis
    unfolding put_server_def to_modem_ok [OF s(2)] to_wa_ok
    by (rule put_front_ok(1)) (use s assms(1) in simp_all)
qed

lemma server_poll_ok:
  assumes "decode_ok E" and "bridge_inv E server_front_ok b"
  shows "bridge_inv E server_front_ok (snd (server_poll E t b)) \<and> (server_upset b \<or> fst (server_poll E t b) \<noteq> Panic)"
proof (cases "br_front b")
  case None
  then show ?thesis using assms(2) by (simp add: server_poll_def ret_def)
next
  case (Some s)
  let ?s = "s\<lparr>is_store := br_db b, is_cf_rx := br_cf b, is_cb_rx := br_cb b, is_clock := br_now b\<rparr>"
  have "server_front_ok s" "db_ok E (br_db b)" using assms(2) Some by (simp_all add: bridge_inv_def)
  then have "server_ok E (arrived s) ?s"
    by (auto simp: server_ok_def server_front_ok_def conn_ok_def list_all_iff arrived_def)
  from is_poll_ok [OF assms(1) this] show ?thesis
    using Some put_server_ok [OF assms(2)] by (auto simp: server_poll_def on_field_eq server_upset_def)
qed

lemma server_world_ok:
  "server_world b b' \<Longrightarrow> bridge_inv E server_front_ok b \<Longrightarrow> bridge_inv E server_front_ok b'"
  by (cases rule: server_world.cases) (auto simp: bridge_inv_def server_front_ok_def list_all_iff)

lemma server_boot_ok:
  "server_boot cfg b b' \<Longrightarrow> bridge_inv E server_front_ok b \<Longrightarrow> bridge_inv E server_front_ok b'"
  by (cases rule: server_boot.cases) (auto simp: bridge_inv_def server_front_ok_def is_new_def)

interpretation server: front E "server_mode E" server_front_ok server_upset "decode_ok E" for E :: "('t, 'j) ext"
  by unfold_locales
    (auto simp: server_mode_def intro: server_boot_ok server_world_ok dest: server_poll_ok)

end
