(* ===== verification/Process_Properties.thy ===== *)
theory Process_Properties
  imports Client_Properties Link_Properties Link_Bridge Server_Bridge
begin

text \<open>
  The properties of the whole process in each of its modes: the components keep what the others rely on,
  and none panics where the peers behave.
\<close>

section \<open>As a client of an IRC network\<close>



section \<open>As a server of an InspIRCd network\<close>


section \<open>As an IRC server of its own\<close>


section \<open>Witnesses\<close>








lemma ex_client_lib [simp]: "jid_ok ex_ext" "numbers_parse ex_ext"
  by (simp_all add: jid_ok_def numbers_parse_def ex_ext_def)













end
