(* ===== verification/Client_Delivery.thy ===== *)
theory Client_Delivery
  imports Factory_Delivery
begin

text \<open>
  How a stored message gets to the administrator: the factory is told that there are messages, tells
  the contact, and polls it.
\<close>

section \<open>A contact that was told\<close>

text \<open>The circumstances, what is stored and what was said.\<close>

definition delivering ::
  "'t pdu_address \<times> string \<times> int \<times> bool \<times> bool \<Rightarrow> message list \<Rightarrow> (string \<times> string) list \<Rightarrow> ('t, 'j) contact_mgr \<Rightarrow> bool"
where
  "delivering w M S s \<longleftrightarrow> cn_who s = w \<and> messages (cn_store s) = M \<and> cn_privmsgs s = S"

lemmas delivering_defs = delivering_def cn_who_def cn_privmsgs_def

interpretation cdl: contact_keeps E "delivering w M S" "\<lambda>d. messages d = M" False
  for E :: "('t, 'j) ext" and w M S
  by unfold_locales (auto simp: delivering_defs intro: messages_guarded)

lemma told_commands:
  assumes "drain_rx (\<lambda>cs s. s\<lparr>cn_rx := cs\<rparr>) (cn_handle_int_rx E) cs s = (Ok (), t)"
    and "delivering (a, A, n, True, True) M S s" and "distinct (map m_id M)"
    and "\<forall>m \<in> set (addressed (normalize_address E a) M). spoken E n m \<noteq> None"
  shows "if CmProcessMessages \<in> set cs
    then delivering (a, A, n, True, True) (not_addressed (normalize_address E a) M)
      (S @ all_said E A n (addressed (normalize_address E a) M)) t
    else delivering (a, A, n, True, True) M S t"
  using assms
proof (induction cs arbitrary: s M S)
  case (Cons c cs)
  obtain s1 where s1: "cn_handle_int_rx E c (s\<lparr>cn_rx := cs\<rparr>) = (Ok (), s1)"
    "drain_rx (\<lambda>cs s. s\<lparr>cn_rx := cs\<rparr>) (cn_handle_int_rx E) cs s1 = (Ok (), t)"
    using Cons.prems(1) by (auto elim: then_do_OkE)
  have s: "delivering (a, A, n, True, True) M S (s\<lparr>cn_rx := cs\<rparr>)"
    using Cons.prems(2) by (simp add: delivering_defs)
  show ?case
  proof (cases "c = CmProcessMessages")
    case True
    then have run: "cn_process_messages E (s\<lparr>cn_rx := cs\<rparr>) = (Ok (), s1)"
      using s1(1) by (simp add: cn_handle_int_rx_def)
    have "delivering (a, A, n, True, True) (not_addressed (normalize_address E a) M)
        (S @ all_said E A n (addressed (normalize_address E a) M)) s1"
      using messages_delivered [OF run _ _ _ refl] s Cons.prems(3,4)
      by (simp add: delivering_def) (simp add: cn_who_def)
    from Cons.IH [OF s1(2) this] True Cons.prems(3) show ?thesis by (simp split: if_splits)
  next
    case False
    then have "delivering (a, A, n, True, True) M S s1"
      using guardedD [OF cdl.other_commands [OF False] s, of E] s1(1) by simp
    from Cons.IH [OF s1(2) this Cons.prems(3,4)] False show ?thesis by simp
  qed
qed (simp add: ret_def)

text \<open>Without a line from the server nothing happens in the loop over the lines.\<close>

lemma silent_lines:
  assumes "drain_lines put h as s = (Ok (), t)" and "\<forall>m. LineIn m \<notin> set as"
    and "\<And>as s. P s \<Longrightarrow> P (put as s)" and "P s"
  shows "P t"
  using assms(1,2,4)
proof (induction as arbitrary: s)
  case (Cons a as)
  then show ?case using assms(3) by (cases a) (auto simp: ret_def err_def elim!: then_do_OkE)
qed (simp add: ret_def)

text \<open>The parts of a poll that succeeds.\<close>

lemma contact_poll_parts:
  assumes "cn_poll E s = (Ok (), t)"
  obtains s1 s2 s3 where "then_do (cn_identify E) (cn_client client_write) s = (Ok (), s1)"
    and "drain_lines (\<lambda>as s. s\<lparr>cn_irc := (cn_irc s)\<lparr>cl_stream := as\<rparr>\<rparr>) (cn_handle_irc_message E)
      (cl_stream (cn_irc s1)) s1 = (Ok (), s2)"
    and "drain_rx (\<lambda>cs s. s\<lparr>cn_rx := cs\<rparr>) (cn_handle_int_rx E) (cn_rx s2) s2 = (Ok (), s3)"
    and "cn_client client_write s3 = (Ok (), t)"
proof -
  let ?open = "then_do (cn_identify E) (cn_client client_write)"
  let ?rest = "then_do (and_then (gets (\<lambda>s. cl_stream (cn_irc s)))
        (drain_lines (\<lambda>as s. s\<lparr>cn_irc := (cn_irc s)\<lparr>cl_stream := as\<rparr>\<rparr>) (cn_handle_irc_message E)))
      (then_do (and_then (gets cn_rx) (drain_rx (\<lambda>cs s. s\<lparr>cn_rx := cs\<rparr>) (cn_handle_int_rx E))) (cn_client client_write))"
  have "cn_poll E = then_do ?open ?rest" by (simp add: cn_poll_def then_do_def and_then_assoc)
  with assms obtain u s1 where "?open s = (Ok u, s1)" "?rest s1 = (Ok (), t)" by (auto elim: then_do_OkE)
  then show thesis using that by (auto elim!: then_do_OkE)
qed

lemma told_contact_delivers:
  assumes "cn_poll E s = (Ok (), t)" and "CmProcessMessages \<in> set (cn_rx s)"
    and "cn_connected s" "cn_admin_is_online s" and silent: "\<forall>m. LineIn m \<notin> set (cl_stream (cn_irc s))"
    and ids: "distinct (map m_id (messages (cn_store s)))" and p: "p = normalize_address E (cn_addr s)"
    and whole: "\<forall>m \<in> set (addressed p (messages (cn_store s))). spoken E (cn_now s) m \<noteq> None"
  shows "messages (cn_store t) = not_addressed p (messages (cn_store s)) \<and>
    cn_privmsgs t = cn_privmsgs s @ all_said E (cn_admin s) (cn_now s) (addressed p (messages (cn_store s)))"
proof -
  let ?w = "(cn_addr s, cn_admin s, cn_now s, True, True)"
  let ?P = "\<lambda>t. delivering ?w (messages (cn_store s)) (cn_privmsgs s) t \<and> cn_rx t = cn_rx s"
  let ?Q = "\<lambda>t. ?P t \<and> cl_stream (cn_irc t) = cl_stream (cn_irc s)"
  let ?open = "then_do (cn_identify E) (cn_client client_write)"
  from contact_poll_parts [OF assms(1)] obtain s1 s2 s3 where s1: "?open s = (Ok (), s1)"
    and s2: "drain_lines (\<lambda>as s. s\<lparr>cn_irc := (cn_irc s)\<lparr>cl_stream := as\<rparr>\<rparr>) (cn_handle_irc_message E)
      (cl_stream (cn_irc s1)) s1 = (Ok (), s2)"
    and s3: "drain_rx (\<lambda>cs s. s\<lparr>cn_rx := cs\<rparr>) (cn_handle_int_rx E) (cn_rx s2) s2 = (Ok (), s3)"
    and t: "cn_client client_write s3 = (Ok (), t)" .
  have "guarded False ?Q ?open" by (rule opening_guarded) (simp_all add: delivering_defs)
  moreover have "?Q s" using assms(3,4) by (simp add: delivering_defs)
  ultimately have "?Q s1" using guardedD [of False ?Q ?open s] s1 by simp
  then have "?P s2"
    using silent_lines [OF s2, of ?P] silent by (simp add: delivering_defs)
  then have "delivering ?w (not_addressed p (messages (cn_store s)))
      (cn_privmsgs s @ all_said E (cn_admin s) (cn_now s) (addressed p (messages (cn_store s)))) s3"
    using told_commands [OF s3] assms(2) ids whole unfolding p by simp
  from guardedD [OF cdl.writes this] t show ?thesis by (simp add: delivering_def)
qed

section \<open>The other contacts\<close>

text \<open>A contact leaves the messages of the others alone: no message shares its identifier with one of theirs.\<close>

definition apart :: "string \<Rightarrow> message list \<Rightarrow> db \<Rightarrow> bool" where
  "apart p X d \<longleftrightarrow> addressed p (messages d) = X \<and> distinct (map m_id (messages d))"

definition others :: "message list \<Rightarrow> int set" where
  "others X = {i. \<forall>x \<in> set X. m_id x \<noteq> i}"

lemma apart_faults [simp]: "apart p X (d\<lparr>faults := fs\<rparr>) = apart p X d"
  by (simp add: apart_def)

lemma apart_others:
  "apart p X d \<Longrightarrow> m \<in> set (messages d) \<Longrightarrow> m_phone_number m \<noteq> p \<Longrightarrow> m_id m \<in> others X"
  by (auto simp: apart_def others_def addressed_def distinct_map dest: inj_onD)

lemma apart_statements:
  "pres (apart p X) (get_groups_for_recipient E a)" "pres (apart p X) (get_messages_for_recipient E a)"
  "pres (apart p X) (update_recipient_wa E a wa)" "pres (apart p X) (update_recipient_nick E a nk src)"
  "pres (apart p X) (get_group_by_id g)" "pres (apart p X) (get_all_concatenated n rf)"
  "i \<in> others X \<Longrightarrow> pres (apart p X) (delete_message i)"
proof -
  have blind: "fault_blind (apart p X)" by (simp add: fault_blind_def)
  show "pres (apart p X) (get_groups_for_recipient E a)" "pres (apart p X) (get_messages_for_recipient E a)"
    "pres (apart p X) (get_group_by_id g)" "pres (apart p X) (get_all_concatenated n rf)"
    using blind by (simp_all add: pres_get_groups_for_recipient pres_reads pres_get_group_by_id)
  show "pres (apart p X) (update_recipient_wa E a wa)" "pres (apart p X) (update_recipient_nick E a nk src)"
    unfolding update_recipient_wa_def update_recipient_nick_def update_recipients_def
    by (auto intro!: pres_with_conn pres_modify simp: apart_def)
  show "pres (apart p X) (delete_message i)" if "i \<in> others X"
    unfolding delete_message_def
    by (rule pres_with_conn)
      (use that in \<open>auto simp: pres_def apart_def others_def addressed_def distinct_map_filter intro!: filter_cong\<close>)
qed

definition stays_apart :: "string \<Rightarrow> message list \<Rightarrow> 't pdu_address \<Rightarrow> ('t, 'j) contact_mgr \<Rightarrow> bool" where
  "stays_apart p X b s \<longleftrightarrow> apart p X (cn_store s) \<and> cn_addr s = b"

interpretation cap: contact_keeps E "stays_apart p X b" "apart p X" False
  for E :: "('t, 'j) ext" and p X b
  by unfold_locales (auto simp: stays_apart_def guarded_def apart_statements)

lemma message_apart:
  assumes "m_id m \<in> others X" and "m_phone_number m \<noteq> p"
  shows "pres (stays_apart p X b) (cn_process_message E m)"
proof -
  have db: "pres (stays_apart p X b) (cn_db n)" if "pres (apart p X) n" for n
    using guarded_pres [OF cap.db_guarded] that by (simp add: guarded_def)
  have ops: "pres (stays_apart p X b) (cn_send c)" for c
    by (rule guarded_pres [of False], rule cn_send_guarded) (simp add: stays_apart_def)
  have parts: "m_id x \<in> others X"
    if "stays_apart p X b s" "cn_db (get_all_concatenated (m_phone_number m) rf) s = (Ok ms, t)" "x \<in> set ms" for s rf ms t x
  proof -
    have "set ms \<subseteq> {x \<in> set (messages (cn_store s)). m_phone_number x = m_phone_number m}"
      using that(2) by (auto simp: cn_db_def on_field_def get_all_concatenated_def with_conn_def gets_def
          split: list.splits if_splits prod.splits)
    then show ?thesis using apart_others [of p X "cn_store s"] that(1,3) assms(2) by (auto simp: stays_apart_def)
  qed
  have "pres (stays_apart p X b) (process_msg_plain E contact_sender [] m)"
    "pres (stays_apart p X b) (process_msg_pdu E contact_sender [] m pd)" for pd
    using assms(1)
    by (auto intro!: sender_pres_some [where I = "others X"] db ops pres apart_statements
        guarded_pres [OF cap.notice] intro: parts)
  then show ?thesis
    unfolding cn_process_message_def
    by (auto intro!: pres guarded_pres [OF cap.switch_mode] split: option.split)
qed

lemma messages_apart:
  assumes "normalize_address E b \<noteq> p"
  shows "guarded False (stays_apart p X b) (cn_process_messages E)"
proof -
  let ?R = "\<lambda>ms (s :: ('a, 'b) contact_mgr). \<forall>m \<in> set ms. m_id m \<in> others X \<and> m_phone_number m \<noteq> p"
  have "guarded False (stays_apart p X b) (and_then (cn_db (get_messages_for_recipient E b)) (\<lambda>ms. for_each ms (cn_process_message E)))"
  proof (rule guarded_and_then_post [where R = ?R])
    show "guarded False (stays_apart p X b) (cn_db (get_messages_for_recipient E b))"
      by (intro cap.db_guarded cap.statements)
    show "?R ms t" if s: "stays_apart p X b s" and run: "cn_db (get_messages_for_recipient E b) s = (Ok ms, t)"
      for s ms and t :: "('a, 'b) contact_mgr"
    proof
      fix m assume "m \<in> set ms"
      then have "m \<in> set (messages (cn_store s))" "m_phone_number m \<noteq> p"
        using get_messages_rows [OF run] assms by auto
      then show "m_id m \<in> others X \<and> m_phone_number m \<noteq> p"
        using apart_others s by (auto simp: stays_apart_def)
    qed
    show "stays_apart p X b (snd (for_each ms (cn_process_message E) s)) \<and>
        (False \<longrightarrow> fst (for_each ms (cn_process_message E) s) \<noteq> Panic)" if "stays_apart p X b s" "?R ms s" for ms s
    proof -
      have "pres (stays_apart p X b) (for_each ms (cn_process_message E))"
        using that(2) by (intro pres_for_each message_apart) auto
      then show ?thesis using that(1) by (simp add: pres_snd)
    qed
  qed
  then show ?thesis
    unfolding cn_process_messages_def
    by (intro guarded_gets_then) (auto simp: stays_apart_def guarded_basic split: prod.split)
qed

lemma poll_apart:
  assumes "normalize_address E (cn_addr s) \<noteq> p" and "apart p X (cn_store s)"
  shows "apart p X (cn_store (snd (cn_poll E s)))"
proof -
  let ?P = "stays_apart p X (cn_addr s)"
  have msgs: "guarded False ?P (cn_process_messages E)" by (rule messages_apart [OF assms(1)])
  have "guarded False ?P (cn_handle_irc_message E m)" for m
  proof -
    have "guarded False ?P (cn_on_connected E)"
      unfolding cn_on_connected_def
      by (intro guarded guarded_modify msgs cap.initialize_watch cap.update_away cap.process_groups)
        (simp add: stays_apart_def)
    moreover have "guarded False ?P (cn_on_privmsg pre t x)" "guarded False ?P (cn_on_raw E c as)" for pre t x c as
      unfolding cn_on_privmsg_def cn_on_raw_def
      by (intro guarded guarded_modify msgs cap.sends; simp add: stays_apart_def)+
    ultimately show ?thesis
      unfolding cn_handle_irc_message_def by (cases "command m") (auto intro: guarded cap.on_nick)
  qed
  from cap.poll_guarded [OF msgs this, of s] assms(2) show ?thesis by (simp add: stays_apart_def)
qed

section \<open>The factory tells the contact\<close>

text \<open>
  The contact \<open>c\<close> of \<open>a\<close> is there, with further commands; once the message \<open>i\<close> is processed it has been
  told, and if \<open>d\<close> it is.
\<close>

definition tells ::
  "'t pdu_address \<Rightarrow> ('t, 'j) contact_mgr \<Rightarrow> message list \<Rightarrow> int \<Rightarrow> int \<Rightarrow> bool \<Rightarrow> ('t, 'j) contact_factory \<Rightarrow> bool"
where
  "tells a c M n i d s \<longleftrightarrow> hm_get (fa_starting s) a = None \<and> messages (fa_store s) = M \<and> fa_now s = n \<and>
     (\<exists>cs. hm_get (fa_contacts s) a = Some (c\<lparr>cn_rx := cn_rx c @ cs\<rparr>) \<and>
       (i \<in> set (fa_processed s) \<longrightarrow> CmProcessMessages \<in> set (cn_rx c @ cs))) \<and>
     (d \<longrightarrow> i \<in> set (fa_processed s))"

lemma tells_has: "tells a c M n i d s \<Longrightarrow> fa_has_contact a s"
  by (auto simp: tells_def fa_has_contact_def)

lemma tells_command: "tells a c M n i d s \<Longrightarrow> tells a c M n i d (fa_command b x s)"
  by (auto simp: tells_def fa_command_def add_command_def hm_get_insert split: option.split
      intro: exI [of _ "cs @ [x]" for cs])

lemma tells_told:
  "tells a c M n i d s \<Longrightarrow> tells a c M n i True (fa_command a CmProcessMessages (s\<lparr>fa_processed := fa_processed s @ [i]\<rparr>))"
  by (auto simp: tells_def fa_command_def add_command_def hm_get_insert
      intro: exI [of _ "cs @ [CmProcessMessages]" for cs])

lemma tells_store: "pres (\<lambda>d. messages d = M) m \<Longrightarrow> pres (tells a c M n i d) (fa_db m)"
  unfolding fa_db_def
  by (rule pres_on_field [where Q = "\<lambda>d. messages d = M"]) (auto simp: tells_def)

interpretation ftl: factory_keeps E "tells a c M n i d" for E :: "('t, 'j) ext" and a c M n i d
proof
  fix s :: "('t, 'j) contact_factory" and b fut ev
  assume s: "tells a c M n i d s" "\<not> fa_has_contact b s"
  then have "b \<noteq> a" using tells_has by blast
  with s show "tells a c M n i d (s\<lparr>fa_starting := hm_insert b fut (fa_starting s), fa_env := ev\<rparr>)"
    by (auto simp: tells_def hm_get_insert)
next
  show "pres (tells a c M n i d) fa_process_groups"
    unfolding fa_process_groups_def by (rule pres_modify) (auto simp: tells_def hm_get_map add_command_def)
qed (auto simp: tells_store tells_command pres_reads fault_blind_def, auto simp: tells_def)

text \<open>The message \<open>i\<close> is one for \<open>a\<close>; processing it tells the contact.\<close>

lemma tells_message:
  assumes "m_id m = i \<Longrightarrow> get_addr E (m_phone_number m) = Ok a" and "tells a c M n i d s"
  shows "tells a c M n i (d \<or> m_id m = i) (snd (fa_process_message E m s))"
proof (cases "m_id m \<in> set (fa_processed s)")
  case True
  then show ?thesis using assms(2) by (auto simp: fa_process_message_def ret_def tells_def)
next
  case fresh: False
  let ?s = "s\<lparr>fa_processed := fa_processed s @ [m_id m]\<rparr>"
  show ?thesis
  proof (cases "m_id m = i")
    case True
    have "tell_contact E (m_source m) a ?s = (Ok (), fa_command a CmProcessMessages ?s)"
      using assms(2) by (auto simp: tell_contact_def tells_def)
    then show ?thesis
      using True assms tells_told [OF assms(2)] by (simp add: fresh_message [OF fresh] and_then_def lift_def)
  next
    case False
    then have s: "tells a c M n i d ?s" using assms(2) by (auto simp: tells_def)
    have "tells a c M n i d (snd (then_do (request_contact E (factory_cmm E) b (m_source m)) (ret ()) ?s))" for b
      by (rule pres_snd [OF pres_then_do [OF ftl.base(2) pres_ret] s])
    then have "tells a c M n i d (snd (tell_contact E (m_source m) b ?s))" for b
      using tells_command [OF s] s by (simp add: tell_contact_def)
    with s False show ?thesis
      by (simp add: fresh_message [OF fresh] and_then_def lift_def split: outcome.split)
  qed
qed

lemma tells_mono: "tells a c M n i d s \<Longrightarrow> (d' \<Longrightarrow> d) \<Longrightarrow> tells a c M n i d' s"
  by (auto simp: tells_def)

lemma tells_all:
  assumes "\<forall>m \<in> set ms. m_id m = i \<longrightarrow> get_addr E (m_phone_number m) = Ok a" and "tells a c M n i d s"
    and "for_each ms (fa_process_message E) s = (Ok (), t)"
  shows "tells a c M n i (d \<or> i \<in> m_id ` set ms) t"
  using assms
proof (induction ms arbitrary: s d)
  case (Cons m ms)
  then obtain s1 where s1: "fa_process_message E m s = (Ok (), s1)" "for_each ms (fa_process_message E) s1 = (Ok (), t)"
    by (auto elim: then_do_OkE)
  then have "tells a c M n i (d \<or> m_id m = i) s1"
    using tells_message [of m i E a c M n d s] Cons.prems(1,2) by simp
  from Cons.IH [OF _ this s1(2)] Cons.prems(1) have "tells a c M n i ((d \<or> m_id m = i) \<or> i \<in> m_id ` set ms) t"
    by simp
  then show ?case by (rule tells_mono) auto
qed (simp add: ret_def)

lemma tells_handle:
  assumes "\<forall>m \<in> set M. m_id m = i \<longrightarrow> get_addr E (m_phone_number m) = Ok a" and "i \<in> m_id ` set M"
    and "tells a c M n i d s" and "fa_handle E cmd s = (Ok (), t)" and "\<not> drops cmd"
  shows "tells a c M n i (d \<or> cmd = ProcessMessages) t"
proof (cases "cmd = ProcessMessages")
  case True
  then obtain ms s1 where s1: "fa_db get_all_messages s = (Ok ms, s1)" "for_each ms (fa_process_message E) s1 = (Ok (), t)"
    using assms(4) by (auto simp: fa_handle_def fa_process_messages_def elim!: and_then_OkE)
  have "ms = by_ts_id (messages (fa_store s))"
    using s1(1) by (auto simp: fa_db_def on_field_def get_all_messages_def with_conn_def gets_def
        split: list.splits if_splits prod.splits)
  then have ms: "set ms = set M" using assms(3) by (simp add: tells_def)
  have "tells a c M n i d s1"
    using presD [OF tells_store [OF pres_reads(1)] assms(3) s1(1)] by (simp add: fault_blind_def)
  from tells_all [OF _ this s1(2)] ms assms(1,2) True show ?thesis by simp
next
  case False
  then have "pres (tells a c M n i d) (fa_handle E cmd)" using assms(5) by (intro ftl.other_commands) simp_all
  from presD [OF this assms(3,4)] False show ?thesis by simp
qed

lemma tells_drain:
  assumes "\<forall>m \<in> set M. m_id m = i \<longrightarrow> get_addr E (m_phone_number m) = Ok a" and "i \<in> m_id ` set M"
    and "tells a c M n i d s" and "drain_rx (\<lambda>cs s. s\<lparr>fa_rx := cs\<rparr>) (fa_handle E) cs s = (Ok (), t)"
    and "\<forall>x \<in> set cs. \<not> drops x"
  shows "tells a c M n i (d \<or> ProcessMessages \<in> set cs) t"
  using assms(3-5)
proof (induction cs arbitrary: s d)
  case (Cons x cs)
  then obtain s1 where s1: "fa_handle E x (s\<lparr>fa_rx := cs\<rparr>) = (Ok (), s1)"
    "drain_rx (\<lambda>cs s. s\<lparr>fa_rx := cs\<rparr>) (fa_handle E) cs s1 = (Ok (), t)"
    by (auto elim: then_do_OkE)
  have "tells a c M n i d (s\<lparr>fa_rx := cs\<rparr>)" using Cons.prems(1) by (simp add: tells_def)
  from Cons.IH [OF tells_handle [OF assms(1,2) this s1(1)] s1(2)] Cons.prems(3)
  have "tells a c M n i ((d \<or> x = ProcessMessages) \<or> ProcessMessages \<in> set cs) t" by simp
  then show ?case by (rule tells_mono) auto
qed (simp add: ret_def)

section \<open>The factory polls the contact\<close>

lemma tells_starting: "tells a c M n i d s \<Longrightarrow> tells a c M n i d (snd (poll_starting b s))"
  by (cases "b = a")
    (auto simp: poll_starting_def tells_def fa_fail_def hm_get_insert Let_def
      split: option.split prod.split start_answer.split starting.split)

lemma tells_poll_starting: "tells a c M n i d s \<Longrightarrow> tells a c M n i d (fa_poll_starting E s)"
  by (rule fa_poll_starting_keeps [where P = "tells a c M n i d", OF tells_starting]) (simp_all add: tells_def hm_get_fold_remove)

text \<open>Until its turn the contact has its command and the store its messages; afterwards they are said.\<close>

definition awaits ::
  "('t, 'j) ext \<Rightarrow> 't pdu_address \<Rightarrow> ('t, 'j) contact_mgr \<Rightarrow> message list \<Rightarrow> int \<Rightarrow> ('t, 'j) contact_factory \<Rightarrow> bool" where
  "awaits E a c X n s \<longleftrightarrow> fa_inv E s \<and> apart (normalize_address E a) X (fa_store s) \<and> fa_now s = n \<and>
     (\<exists>cs. hm_get (fa_contacts s) a = Some (c\<lparr>cn_rx := cs\<rparr>) \<and> CmProcessMessages \<in> set cs)"

definition served ::
  "('t, 'j) ext \<Rightarrow> 't pdu_address \<Rightarrow> (string \<times> string) list \<Rightarrow> ('t, 'j) contact_factory \<Rightarrow> bool" where
  "served E a S s \<longleftrightarrow> fa_inv E s \<and> apart (normalize_address E a) [] (fa_store s) \<and>
     (\<exists>c. hm_get (fa_contacts s) a = Some c \<and> cn_privmsgs c = S)"

lemma poll_other:
  assumes lib: "hex_ok E" "ton_ok E" and run: "poll_contact E b s = (r, t)" and "b \<noteq> a" and inv: "fa_inv E s"
    and X: "apart (normalize_address E a) X (fa_store s)"
  shows "fa_inv E t \<and> apart (normalize_address E a) X (fa_store t) \<and> fa_now t = fa_now s \<and>
    hm_get (fa_contacts t) a = hm_get (fa_contacts s) a"
proof -
  have "fa_inv E t" using guardedD [OF poll_contact_guarded inv, of b] run by simp
  moreover have "apart (normalize_address E a) X (fa_store t) \<and> fa_now t = fa_now s \<and>
      hm_get (fa_contacts t) a = hm_get (fa_contacts s) a"
  proof (cases "hm_get (fa_contacts s) b")
    case (Some c)
    let ?c = "c\<lparr>cn_store := fa_store s, cn_wa_tx := fa_wa_tx s, cn_modem_tx := fa_m_tx s, cn_now := fa_now s\<rparr>"
    have "cn_addr c = b" using inv Some by (simp add: fa_inv_but_def)
    then have "normalize_address E (cn_addr ?c) \<noteq> normalize_address E a"
      using normalize_inject [OF lib] \<open>b \<noteq> a\<close> by simp
    from poll_apart [OF this, of X] X have "apart (normalize_address E a) X (cn_store (snd (cn_poll E ?c)))" by simp
    then show ?thesis
      using run Some \<open>b \<noteq> a\<close>
      by (auto simp: poll_contact_def Let_def fa_fail_def hm_get_insert split: prod.splits outcome.splits)
  qed (use run X in \<open>simp add: poll_contact_def\<close>)
  ultimately show ?thesis by simp
qed

lemma poll_own:
  assumes run: "poll_contact E a s = (Ok False, t)" and s: "awaits E a c X n s"
    and c: "cn_connected c" "cn_admin_is_online c" "\<forall>m. LineIn m \<notin> set (cl_stream (cn_irc c))"
    and whole: "\<forall>m \<in> set X. spoken E n m \<noteq> None"
  shows "served E a (cn_privmsgs c @ all_said E (cn_admin c) n X) t"
proof -
  obtain cs where cs: "hm_get (fa_contacts s) a = Some (c\<lparr>cn_rx := cs\<rparr>)" "CmProcessMessages \<in> set cs"
    using s by (auto simp: awaits_def)
  let ?c = "c\<lparr>cn_rx := cs, cn_store := fa_store s, cn_wa_tx := fa_wa_tx s, cn_modem_tx := fa_m_tx s, cn_now := fa_now s\<rparr>"
  obtain r c' where poll: "cn_poll E ?c = (r, c')" by (cases "cn_poll E ?c")
  have r: "r = Ok ()" and t: "fa_store t = cn_store c'" "hm_get (fa_contacts t) a = Some c'"
    using run cs(1) poll by (auto simp: poll_contact_def Let_def hm_get_insert split: outcome.splits)
  have addr: "cn_addr ?c = a"
    using s cs(1) unfolding awaits_def fa_inv_but_def by fastforce
  have X: "addressed (normalize_address E a) (messages (fa_store s)) = X"
    "distinct (map m_id (messages (fa_store s)))" "fa_now s = n"
    using s by (simp_all add: awaits_def apart_def)
  have "messages (cn_store c') = not_addressed (normalize_address E a) (messages (fa_store s)) \<and>
      cn_privmsgs c' = cn_privmsgs ?c @ all_said E (cn_admin c) n X"
    using told_contact_delivers [OF poll [unfolded r] _ _ _ _ _ refl] c cs(2) X whole addr by simp
  then have "messages (cn_store c') = not_addressed (normalize_address E a) (messages (fa_store s))"
    "cn_privmsgs c' = cn_privmsgs c @ all_said E (cn_admin c) n X" by (simp_all add: cn_privmsgs_def)
  moreover have "fa_inv E t" using guardedD [OF poll_contact_guarded, of E s a] s run by (simp add: awaits_def)
  ultimately show ?thesis using t X by (simp add: served_def apart_def)
qed

lemma fa_poll_contacts_serves:
  assumes lib: "hex_ok E" "ton_ok E" "ord_ok (ord_addr E)"
    and c: "cn_connected c" "cn_admin_is_online c" "\<forall>m. LineIn m \<notin> set (cl_stream (cn_irc c))"
    and whole: "\<forall>m \<in> set X. spoken E n m \<noteq> None"
    and run: "fa_poll_contacts E s = (Ok (), t)" and s: "awaits E a c X n s"
  shows "hm_get (fa_contacts t) a = None \<or> served E a (cn_privmsgs c @ all_said E (cn_admin c) n X) t"
proof (rule fa_poll_contacts_turn [where P = "awaits E a c X n", OF _ _ _ _ lib(3) run s])
  fix b s t rm assume run: "b \<noteq> a" "poll_contact E b s = (Ok rm, t)"
  show "awaits E a c X n s \<Longrightarrow> awaits E a c X n t"
    using poll_other [OF lib(1,2) run(2,1), of X] by (auto simp: awaits_def)
  show "served E a S s \<Longrightarrow> served E a S t" for S
    using poll_other [OF lib(1,2) run(2,1), of "[]"] by (auto simp: served_def)
next
  show "served E a S s \<Longrightarrow> a \<notin> set rms \<Longrightarrow> served E a S (s\<lparr>fa_contacts := fold hm_remove rms (fa_contacts s)\<rparr>)"
    for S rms and s :: "('a, 'b) contact_factory"
    by (auto simp: served_def fa_inv_but_def hm_get_fold_remove hm_wf_fold_remove split: if_splits)
qed (use s poll_own [OF _ _ c whole] in \<open>auto simp: awaits_def fa_inv_but_def\<close>)

text \<open>The failure timer starts contacts again, but it leaves those alone that are there, and the messages.\<close>

definition settled ::
  "('t pdu_address, ('t, 'j) contact_mgr) hash_map \<Rightarrow> message list \<Rightarrow> ('t, 'j) contact_factory \<Rightarrow> bool" where
  "settled C M s \<longleftrightarrow> fa_contacts s = C \<and> messages (fa_store s) = M"

interpretation fse: factory_starts E "settled C M" for E :: "('t, 'j) ext" and C M
proof
  show "pres (settled C M) (fa_db (get_recipient_by_addr_opt E x))" for x
    unfolding fa_db_def
    by (rule pres_on_field [where Q = "\<lambda>d. messages d = M"]) (auto simp: settled_def pres_reads fault_blind_def)
qed (simp_all add: settled_def)

lemma settled_ticks: "pres (settled C M) (fa_drain_ticks E as)"
  by (rule fse.ticks) (simp_all add: settled_def)

section \<open>A poll of the factory\<close>

lemma tells_awaits:
  assumes "tells a c M n i True s" and "fa_inv E s"
  shows "awaits E a c (addressed (normalize_address E a) M) n s"
proof -
  have "db_inv (fa_store s)" using assms(2) by (simp add: fa_inv_but_def db_ok_def)
  then have "distinct (map m_id (messages (fa_store s)))" by (simp add: db_inv_def key_ok_def)
  then show ?thesis using assms by (auto simp: tells_def awaits_def apart_def)
qed

lemma factory_poll_delivers:
  assumes lib: "hex_ok E" "ton_ok E" "ord_ok (ord_addr E)" "decode_ok E"
    and inv: "fa_inv E s" and poll: "fa_poll E s = (Ok (), t)"
    and rx: "ProcessMessages \<in> set (fa_rx s)" "\<forall>x \<in> set (fa_rx s). \<not> drops x"
    and c: "hm_get (fa_contacts s) a = Some c" "cn_connected c" "cn_admin_is_online c"
      "\<forall>m. LineIn m \<notin> set (cl_stream (cn_irc c))"
    and m: "m \<in> set X" "m_id m \<notin> set (fa_processed s)" "get_addr E (m_phone_number m) = Ok a"
    and X: "X = addressed (normalize_address E a) (messages (fa_store s))"
    and whole: "\<forall>m \<in> set X. spoken E (fa_now s) m \<noteq> None"
    and there: "hm_get (fa_contacts t) a = Some c'"
  shows "cn_privmsgs c' = cn_privmsgs c @ all_said E (cn_admin c) (fa_now s) X \<and>
    addressed (normalize_address E a) (messages (fa_store t)) = []"
proof -
  let ?M = "messages (fa_store s)"
  let ?S = "cn_privmsgs c @ all_said E (cn_admin c) (fa_now s) X"
  obtain s1 s3 where s1: "drain_rx (\<lambda>cs s. s\<lparr>fa_rx := cs\<rparr>) (fa_handle E) (fa_rx s) s = (Ok (), s1)"
    and s3: "fa_poll_contacts E (fa_poll_starting E s1) = (Ok (), s3)" and t: "fa_drain_ticks E (fa_ticks s3) s3 = (Ok (), t)"
    using poll by (auto simp: fa_poll_def modify_iff elim!: then_do_OkE)
  have ids: "distinct (map m_id ?M)" and free: "hm_get (fa_starting s) a = None"
    using inv c(1) by (auto simp: fa_inv_but_def db_ok_def db_inv_def key_ok_def)
  have M: "m \<in> set ?M" using m(1) X by (simp add: addressed_def)
  then have "\<forall>x \<in> set ?M. m_id x = m_id m \<longrightarrow> get_addr E (m_phone_number x) = Ok a"
    using ids m(3) by (auto simp: distinct_map dest: inj_onD)
  moreover have "tells a c ?M (fa_now s) (m_id m) False s"
    using c(1) free m(2) by (auto simp: tells_def intro: exI [of _ "[]"])
  ultimately have "tells a c ?M (fa_now s) (m_id m) True s1"
    using tells_drain [OF _ _ _ s1 rx(2)] M rx(1) by simp
  then have told: "tells a c ?M (fa_now s) (m_id m) True (fa_poll_starting E s1)" by (rule tells_poll_starting)
  have "guarded True (fa_inv E) (drain_rx (\<lambda>cs s. s\<lparr>fa_rx := cs\<rparr>) (fa_handle E) (fa_rx s))"
    by (intro drain_rx_guarded fa_handle_guarded lib) simp
  from guarded_at [of "fa_inv E", OF inv this] s1 have "fa_inv E (fa_poll_starting E s1)"
    by (simp add: fa_poll_starting_inv)
  from fa_poll_contacts_serves [OF lib(1-3) c(2-4) whole s3] tells_awaits [OF told this] X
  have "hm_get (fa_contacts s3) a = None \<or> served E a ?S s3" by simp
  moreover have "settled (fa_contacts s3) (messages (fa_store s3)) t"
    using presD [OF settled_ticks _ t] by (simp add: settled_def)
  ultimately show ?thesis using there by (auto simp: settled_def served_def apart_def)
qed

end
