(* ===== verification/Incoming_Sms.thy ===== *)
theory Incoming_Sms
  imports Client_Delivery Client_Facts
begin

text \<open>
  The way of an incoming SMS through the process in client mode: from a listing of the modem to the
  database, and from there, through the contact factory and the contact, to the administrator.
\<close>

section \<open>From the listing to the database\<close>

text \<open>
  The next identifier is at least \<open>k\<close>, and if \<open>d\<close> there is a message with the given row that is not older.
\<close>

definition stocked :: "int \<Rightarrow> bool \<Rightarrow> string \<times> 8 word list option \<times> int option \<times> int \<Rightarrow> db \<Rightarrow> bool" where
  "stocked k d row db \<longleftrightarrow> k \<le> next_message_id db \<and>
     (d \<longrightarrow> (\<exists>x \<in> set (messages db). sms_row x = row \<and> k \<le> m_id x))"

lemma stocked_blind: "fault_blind (stocked k d row)"
  by (simp add: fault_blind_def stocked_def)

lemma stocked_insert: "stocked k d row db \<Longrightarrow> stocked k d row (snd (insert_message m db))"
  by (auto simp: stocked_def insert_message_def Let_def)

lemma stocked_statements:
  "pres (stocked k d row) (get_recipient_by_addr_opt E a)"
  "pres (stocked k d row) (store_recipient E a nick)"
  "pres (stocked k d row) (store_sms_message E a pd csms)"
proof -
  show "pres (stocked k d row) (get_recipient_by_addr_opt E a)"
    by (rule pres_reads [OF stocked_blind])
  show "pres (stocked k d row) (store_recipient E a nick)"
    unfolding store_recipient_def
    by (rule pres_with_conn) (auto simp: pres_def stocked_def insert_recipient_def Let_def)
  show "pres (stocked k d row) (store_sms_message E a pd csms)"
    unfolding store_sms_message_def
    by (rule pres_with_conn) (simp_all add: pres_def stocked_insert, simp add: stocked_def)
qed

lemma stored_row:
  assumes "store_sms_message E a pd csms db = (Ok x, db')" and "k \<le> next_message_id db"
  shows "stocked k True (normalize_address E a, Some pd, csms, SOURCE_SMS) db'"
  using assms
  by (auto simp: store_sms_message_def with_conn_def insert_message_def stocked_def sms_row_def Let_def
      split: list.splits if_splits)

text \<open>The manager, with what it has told the factory.\<close>

definition fetched :: "int \<Rightarrow> bool \<Rightarrow> string \<times> 8 word list option \<times> int option \<times> int \<Rightarrow> 't modem_mgr \<Rightarrow> bool" where
  "fetched k d row s \<longleftrightarrow> stocked k d row (mm_store s) \<and> (d \<longrightarrow> ProcessMessages \<in> set (mm_cf_tx s))"

lemma fetched_simps [simp]:
  "fetched k d row (s\<lparr>mm_rx := cs\<rparr>) = fetched k d row s" "fetched k d row (m_spawn j s) = fetched k d row s"
  "fetched k d row (m_cb cb s) = fetched k d row s" "fetched k d row (cmgl s) = fetched k d row s"
  "fetched k d row (with_modem desc j s) = fetched k d row s" "fetched k d row (s\<lparr>mm_path := p\<rparr>) = fetched k d row s"
  by (simp_all add: fetched_def m_spawn_def m_cb_def cmgl_def with_modem_def)

lemma fetched_cf: "fetched k d row s \<Longrightarrow> fetched k d row (m_cf c s)"
  by (auto simp: fetched_def m_cf_def)

lemma fetched_frame: "modem_frame s t \<Longrightarrow> fetched k d row t = fetched k d row s"
  by (simp add: fetched_def modem_frame_def)

lemma fetched_db: "pres (stocked k d row) n \<Longrightarrow> pres (fetched k d row) (m_db n)"
  unfolding m_db_def
  by (rule pres_on_field [where Q = "stocked k d row"]) (auto simp: fetched_def)

lemma fetched_listed: "pres (fetched k d row) (store_listed E msg)"
  unfolding store_listed_def by (intro pres fetched_db stocked_statements)

lemma fetched_handle: "pres (fetched k d row) (modem_handle E M c)"
proof -
  have "pres (fetched k d row) (cmgl_complete E msgs)" for msgs
    unfolding cmgl_complete_def by (intro pres pres_modify fetched_listed) (simp_all add: fetched_cf)
  moreover have "pres (fetched k d row) (modem_make_contact E a)" for a
    unfolding modem_make_contact_def
    by (intro pres pres_modify fetched_db stocked_statements) (simp_all add: fetched_cf)
  ultimately show ?thesis
    by (cases c) (auto simp: modem_handle_def request_csq_def request_reg_def send_sms_def Let_def update_path_def
        fetched_frame [OF restart_frame(1)] fetched_frame [OF restart_frame(2)] fetched_frame [OF restart_frame(3)]
        intro!: pres_modify)
qed

text \<open>A listing that is complete stores its unread messages.\<close>

lemma stocks_listed:
  assumes "for_each msgs (store_listed E) s = (Ok (), t)" and "k \<le> next_message_id (mm_store s)"
    and "msg \<in> set msgs" "status msg = ReceivedUnread"
  shows "stocked k True (listed_row E msg) (mm_store t)"
  using assms(1-3)
proof (induction msgs arbitrary: s)
  case (Cons m ms)
  obtain s1 where s1: "store_listed E m s = (Ok (), s1)" "for_each ms (store_listed E) s1 = (Ok (), t)"
    using Cons.prems(1) by (auto elim: then_do_OkE)
  let ?P = "\<lambda>d (u :: 'a modem_mgr). stocked k d (listed_row E msg) (mm_store u)"
  have keep: "pres (?P d) (store_listed E m)" for d m
    unfolding store_listed_def m_db_def
    by (intro pres pres_on_field [where Q = "stocked k d (listed_row E msg)"] stocked_statements) auto
  show ?case
  proof (cases "m = msg")
    case True
    then obtain x where row: "m_db (store_sms_message E (originating_address (pdu msg)) (raw_pdu msg) (csms_of (pdu msg))) s
        = (Ok x, s1)"
      using s1(1) assms(4) by (auto simp: store_listed_def ret_def elim!: then_do_OkE)
    have "?P True s1"
      using stored_row [OF conjunct1 [OF m_db_result [OF row]] Cons.prems(2)] by (simp add: listed_row_def)
    then show ?thesis using presD [OF pres_for_each [OF keep] _ s1(2)] by blast
  next
    case False
    have "k \<le> next_message_id (mm_store s1)"
      using presD [OF keep [of False] _ s1(1)] Cons.prems(2) by (simp add: stocked_def)
    then show ?thesis using Cons.IH [OF s1(2)] Cons.prems(3) False by simp
  qed
qed simp

lemma fetched_complete:
  assumes "cmgl_complete E msgs s = (Ok (), t)" and "k \<le> next_message_id (mm_store s)"
    and "msg \<in> set msgs" "status msg = ReceivedUnread"
  shows "fetched k True (listed_row E msg) t"
proof -
  obtain s1 where s1: "for_each msgs (store_listed E) s = (Ok (), s1)"
    and t: "t = (let s2 = m_cf ProcessMessages s1 in if get_modem s2 then m_spawn DeleteSms s2 else s2)"
    using assms(1) by (auto simp: cmgl_complete_def modify_iff elim!: then_do_OkE)
  have "fetched k True (listed_row E msg) (m_cf ProcessMessages s1)"
    using stocks_listed [OF s1 assms(2-4)] by (simp add: fetched_def m_cf_def)
  then show ?thesis using t by (simp add: Let_def)
qed

lemma fetched_commands:
  assumes "modem_commands E M cs s = (Ok (), t)" and "fetched k d row s" and "row = listed_row E msg"
    and "msg \<in> set msgs" "status msg = ReceivedUnread"
  shows "fetched k (d \<or> CmglComplete msgs \<in> set cs) row t"
  using assms(1,2)
proof (induction cs arbitrary: s d)
  case (Cons c cs)
  then obtain s1 where s1: "modem_handle E M c (s\<lparr>mm_rx := cs\<rparr>) = (Ok (), s1)" "modem_commands E M cs s1 = (Ok (), t)"
    by (auto elim!: then_do_OkE)
  have "fetched k (d \<or> c = CmglComplete msgs) row s1"
  proof (cases "c = CmglComplete msgs")
    case True
    then have "cmgl_complete E msgs (s\<lparr>mm_rx := cs\<rparr>) = (Ok (), s1)" using s1(1) by (simp add: modem_handle_def)
    from fetched_complete [OF this _ assms(4,5), of k] show ?thesis
      using Cons.prems(2) True assms(3) by (simp add: fetched_def stocked_def)
  next
    case False
    then show ?thesis using presD [OF fetched_handle _ s1(1)] Cons.prems(2) by simp
  qed
  from Cons.IH [OF s1(2) this] show ?case by (cases "c = CmglComplete msgs") (auto simp: disj_assoc)
qed (simp add: ret_def)

lemma modem_poll_fetches:
  assumes "manager_poll E M s = (Ok (), t)" and "CmglComplete msgs \<in> set (mm_rx s)"
    and "msg \<in> set msgs" "status msg = ReceivedUnread"
  shows "fetched (next_message_id (mm_store s)) True (listed_row E msg) t"
proof -
  have frame: "modem_frame s (poll_modem s)" by (rule poll_modem_frame)
  then have run: "modem_commands E M (mm_rx s) (poll_modem s) = (Ok (), t)"
    using assms(1) by (simp add: manager_poll_def modem_frame_def)
  have "fetched (next_message_id (mm_store s)) False (listed_row E msg) (poll_modem s)"
    unfolding fetched_frame [OF frame] by (simp add: fetched_def stocked_def)
  from fetched_commands [OF run this refl assms(3,4)] assms(2) show ?thesis by simp
qed

end
