(* ===== verification/Message_Ids.thy ===== *)
theory Message_Ids
  imports Incoming_Sms
begin

text \<open>
  The factory remembers the messages it has processed by their identifiers. No identifier is given twice,
  so in client mode it never takes a new message for one of those.
\<close>

section \<open>The next identifier never goes back\<close>

definition serial :: "int \<Rightarrow> db \<Rightarrow> bool" where
  "serial n d \<longleftrightarrow> n \<le> next_message_id d"

lemma serial_blind [simp]: "fault_blind (serial n)"
  by (simp add: fault_blind_def serial_def)

lemmas serial_reads =
  pres_reads [OF serial_blind] pres_get_group_by_id [OF serial_blind] pres_get_groups_for_recipient [OF serial_blind]

lemma serial_insert: "pres (serial n) (insert_message m)"
  by (auto simp: pres_def serial_def insert_message_def Let_def)

lemma serial_writes:
  "pres (serial n) (update_recipient_notify E a ntf)" "pres (serial n) (update_recipient_nick E a nk src)"
  "pres (serial n) (update_recipient_wa E a wa)" "pres (serial n) (delete_recipient_with_addr E a)"
  "pres (serial n) (store_recipient E a nk)" "pres (serial n) (store_wa_recipient E a nk ntf src)"
  "pres (serial n) (store_wa_msgid mid)" "pres (serial n) (store_wa_persistence p)"
  "pres (serial n) (delete_message i)" "pres (serial n) (delete_group_with_id i)"
  "pres (serial n) (store_group E j c ps as t)" "pres (serial n) (update_group E j ps as t)"
  unfolding update_recipient_notify_def update_recipient_nick_def update_recipient_wa_def update_recipients_def
    delete_recipient_with_addr_def store_recipient_def store_wa_recipient_def store_wa_msgid_def
    store_wa_persistence_def delete_message_def delete_group_with_id_def store_group_def update_group_def
  by (rule pres_with_conn;
      auto simp: pres_def modify_def insert_recipient_def Let_def serial_def split: option.split)+

lemma serial_store_wa: "pres (serial n) (store_wa_message E a txt gt ts)"
  unfolding store_wa_message_def by (rule pres_with_conn [OF serial_insert]) (simp add: serial_def)

interpretation wa_serial: wa_kept E L "serial n" False for E :: "('t, 'j) ext" and L n
  by unfold_locales (auto intro: serial_writes serial_store_wa)

interpretation cser: contact_keeps E "\<lambda>s. serial n (cn_store s)" "serial n" False for E :: "('t, 'j) ext" and n
  by unfold_locales (auto simp: guarded_def intro: serial_reads serial_writes)

lemma modem_serial: "serial n (mm_store s) \<Longrightarrow> serial n (mm_store (snd (manager_poll E M s)))"
proof -
  have one: "fetched n False row = (\<lambda>u. serial n (mm_store u))" for row
    by (auto simp: fetched_def stocked_def serial_def)
  have "pres (fetched n False row) (modem_commands E M cs)" for row cs
  proof (induction cs)
    case (Cons c cs)
    then show ?case unfolding modem_commands.simps by (intro pres pres_modify fetched_handle) simp
  qed (simp add: pres)
  then have "pres (fetched n False row) (manager_poll E M)" for row
    unfolding manager_poll_def by (intro pres pres_modify) (simp add: fetched_frame [OF poll_modem_frame])
  then have poll: "pres (\<lambda>u. serial n (mm_store u)) (manager_poll E M)" by (simp add: one)
  show "serial n (mm_store s) \<Longrightarrow> ?thesis" by (rule pres_snd [OF poll])
qed

lemma wa_serial: "serial n (w_store s) \<Longrightarrow> serial n (w_store (snd (wa_poll E L s)))"
  using guardedD [OF wa_serial.poll_guarded, of n "w_autocreate s" "answers_left (w_conn s)" s E L]
  by (auto simp: kept_any_def kept_def)

lemma contact_serial: "serial n (cn_store s) \<Longrightarrow> serial n (cn_store (snd (cn_poll E s)))"
proof -
  have ops: "pres (\<lambda>s. serial n (cn_store s)) (cn_send c)" for c :: client_cmd
    by (rule guarded_pres [of False], rule cn_send_guarded) simp
  have msgs: "guarded False (\<lambda>s. serial n (cn_store s)) (cn_process_messages E)"
    by (rule cser.messages_pres) (auto intro: ops serial_reads serial_writes)
  have "guarded False (\<lambda>s. serial n (cn_store s)) (cn_handle_irc_message E m)" for m
  proof -
    have "guarded False (\<lambda>s. serial n (cn_store s)) (cn_on_connected E)"
      unfolding cn_on_connected_def
      by (intro guarded guarded_modify msgs cser.initialize_watch cser.update_away cser.process_groups) simp
    moreover have "guarded False (\<lambda>s. serial n (cn_store s)) (cn_on_privmsg pre t x)"
      "guarded False (\<lambda>s. serial n (cn_store s)) (cn_on_raw E c as)" for pre t x c as
      unfolding cn_on_privmsg_def cn_on_raw_def by (intro guarded guarded_modify msgs cser.sends; simp)+
    ultimately show ?thesis
      unfolding cn_handle_irc_message_def by (cases "command m") (auto intro: guarded cser.on_nick)
  qed
  from cser.poll_guarded [OF msgs this, of s] show "serial n (cn_store s) \<Longrightarrow> ?thesis" by simp
qed

section \<open>What the factory has processed\<close>

definition knows :: "int \<Rightarrow> ('t, 'j) contact_factory \<Rightarrow> bool" where
  "knows n s \<longleftrightarrow> serial n (fa_store s) \<and> (\<forall>i \<in> set (fa_processed s). i < next_message_id (fa_store s))"

lemma knows_store:
  "knows n s \<Longrightarrow> serial (next_message_id (fa_store s)) d \<Longrightarrow> knows n (s\<lparr>fa_store := d\<rparr>)"
  by (auto simp: knows_def serial_def)

lemma knows_db:
  assumes "\<And>k. pres (serial k) m"
  shows "pres (knows n) (fa_db m)"
proof (rule presI)
  fix s :: "('b, 'c) contact_factory" assume s: "knows n s"
  have "serial (next_message_id (fa_store s)) (snd (m (fa_store s)))"
    using pres_snd [OF assms] by (simp add: serial_def)
  then show "knows n (snd (fa_db m s))" using knows_store [OF s]
    by (simp add: fa_db_def on_field_def case_prod_beta)
qed

lemma knows_command: "knows n (fa_command a c s) = knows n s"
  by (simp add: knows_def fa_command_def split: option.split)

interpretation fkn: factory_keeps E "knows n" for E :: "('t, 'j) ext" and n
proof
  show "pres (knows n) (fa_db get_all_recipients)" "pres (knows n) (fa_db (get_recipient_by_addr_opt E a))" for a
    by (simp_all add: knows_db serial_reads)
  show "pres (knows n) fa_process_groups"
    unfolding fa_process_groups_def by (rule pres_modify) (simp add: knows_def)
qed (simp_all add: knows_command, simp_all add: knows_def)

lemma knows_message: "m_id m < n \<Longrightarrow> pres (knows n) (fa_process_message E m)"
  by (rule fkn.message) (auto simp: knows_def serial_def)

lemma knows_messages:
  assumes "knows n s" and "db_inv (fa_store s)"
  shows "knows n (snd (fa_process_messages E s))"
proof -
  let ?k = "next_message_id (fa_store s)"
  obtain r s1 where s1: "fa_db get_all_messages s = (r, s1)" by (cases "fa_db get_all_messages s")
  have k: "pres (knows k) (fa_db get_all_messages)" for k by (simp add: knows_db serial_reads)
  have "knows ?k s" using assms(1) by (auto simp: knows_def serial_def)
  then have k1: "knows ?k s1" using presD [OF k _ s1] by blast
  have weak: "knows n u" if "knows ?k u" for u :: "('a, 'b) contact_factory"
    using that assms(1) by (auto simp: knows_def serial_def)
  show ?thesis
  proof (cases r)
    case (Ok ms)
    have "set ms \<subseteq> set (messages (fa_store s))"
      using s1 Ok by (auto simp: fa_db_def on_field_def get_all_messages_def with_conn_def gets_def by_ts_id_def
          split: list.splits if_splits prod.splits)
    then have "\<forall>m \<in> set ms. m_id m < ?k" using assms(2) by (auto simp: db_inv_def key_ok_def)
    then have "pres (knows ?k) (for_each ms (fa_process_message E))" by (intro pres knows_message) blast
    then show ?thesis using s1 Ok k1 weak by (simp add: fa_process_messages_def and_then_def pres_snd)
  qed (use s1 k1 weak in \<open>simp_all add: fa_process_messages_def and_then_def\<close>)
qed

lemma knows_handle:
  assumes "knows n s" and "db_inv (fa_store s)"
  shows "knows n (snd (fa_handle E c s))"
proof (cases "c = ProcessMessages")
  case True
  then show ?thesis using knows_messages [OF assms] by (simp add: fa_handle_def)
next
  case False
  have "pres (knows n) (drop_contact E (factory_cmm E) b)" for b
    unfolding drop_contact_def factory_sel fa_remove_contact_for_def
    by (intro pres pres_modify knows_db serial_writes) (simp add: knows_def)
  then have "pres (knows n) (fa_handle E c)" using False by (intro fkn.other_commands) simp_all
  then show ?thesis using assms(1) by (rule pres_snd)
qed

text \<open>Through a whole poll.\<close>

lemma knows_starting: "knows n s \<Longrightarrow> knows n (snd (poll_starting b s))"
  by (auto simp: poll_starting_def knows_def fa_fail_def Let_def
      split: option.split prod.split start_answer.split starting.split)

lemma knows_poll_starting: "knows n s \<Longrightarrow> knows n (fa_poll_starting E s)"
  by (rule fa_poll_starting_keeps [where P = "knows n", OF knows_starting]) (simp_all add: knows_def)

lemma knows_contact: "pres (knows n) (poll_contact E a)"
proof (rule presI)
  fix s :: "('a, 'b) contact_factory" assume s: "knows n s"
  show "knows n (snd (poll_contact E a s))"
  proof (cases "hm_get (fa_contacts s) a")
    case (Some c)
    let ?c = "c\<lparr>cn_store := fa_store s, cn_wa_tx := fa_wa_tx s, cn_modem_tx := fa_m_tx s, cn_now := fa_now s\<rparr>"
    have "serial (next_message_id (fa_store s)) (cn_store (snd (cn_poll E ?c)))"
      by (rule contact_serial) (simp add: serial_def)
    from knows_store [OF s this] show ?thesis
      using Some by (cases "cn_poll E ?c")
        (auto simp: poll_contact_def Let_def fa_fail_def knows_def split: outcome.split)
  qed (simp add: poll_contact_def s)
qed

lemma knows_poll_contacts: "pres (knows n) (fa_poll_contacts E)"
proof -
  have "pres (knows n) (poll_contacts E ks)" for ks
    by (induction ks) (auto intro!: pres knows_contact)
  then show ?thesis
    unfolding fa_poll_contacts_def by (intro pres pres_modify) (simp_all, simp add: knows_def)
qed

lemma knows_ticks: "pres (knows n) (fa_drain_ticks E as)"
  by (rule fkn.ticks) (simp_all add: knows_def)

lemma knows_poll:
  assumes "decode_ok E" and "fa_inv E s" and "knows n s"
  shows "knows n (snd (fa_poll E s))"
proof -
  let ?P = "\<lambda>s. fa_inv E s \<and> knows n s"
  have "guarded True ?P (fa_handle E c)" for c
  proof (rule guardedI)
    fix u :: "('a, 'b) contact_factory" assume u: "?P u"
    then have "db_inv (fa_store u)" by (simp add: fa_inv_but_def db_ok_def)
    then show "?P (snd (fa_handle E c u)) \<and> (True \<longrightarrow> fst (fa_handle E c u) \<noteq> Panic)"
      using u guarded_at [OF _ fa_handle_guarded [OF assms(1)], of u c] knows_handle [of n u E c] by simp
  qed
  then have "guarded True ?P (drain_rx (\<lambda>cs s. s\<lparr>fa_rx := cs\<rparr>) (fa_handle E) cs)" for cs
    by (rule drain_rx_guarded [rotated]) (simp add: knows_def)
  then have "pres ?P (drain_rx (\<lambda>cs s. s\<lparr>fa_rx := cs\<rparr>) (fa_handle E) cs)" for cs
    by (rule guarded_pres)
  moreover have "pres ?P (fa_poll_contacts E)" "pres ?P (fa_drain_ticks E as)" for as
    by (intro pres_conj guarded_pres [OF fa_poll_contacts_guarded] guarded_pres [OF fa_drain_ticks_guarded]
        knows_poll_contacts knows_ticks assms(1))+
  ultimately have "pres ?P (fa_poll E)"
    unfolding fa_poll_def
    by (intro pres pres_modify) (simp_all add: fa_poll_starting_inv knows_poll_starting)
  from pres_snd [OF this] assms(2,3) show ?thesis by blast
qed

section \<open>In every run of the process\<close>

definition ids_known :: "('t, 'j) client_bridge \<Rightarrow> bool" where
  "ids_known b \<longleftrightarrow> (\<forall>cbot fac. br_front b = Some (cbot, fac) \<longrightarrow>
     (\<forall>i \<in> set (fa_processed fac). i < next_message_id (br_db b)))"

lemma ids_known_grows:
  "ids_known b \<Longrightarrow> br_front b' = br_front b \<Longrightarrow> serial (next_message_id (br_db b)) (br_db b') \<Longrightarrow> ids_known b'"
  by (fastforce simp: ids_known_def serial_def)

lemma ids_known_client:
  assumes "decode_ok E" and "bridge_inv E client_ok b" and "ids_known b"
  shows "ids_known (snd (client_poll E x b))"
proof (cases "br_front b")
  case None
  then show ?thesis using assms(3) by (simp add: client_poll_def ret_def)
next
  case (Some p)
  obtain cbot fac where fr: "br_front b = Some (cbot, fac)" using Some by (cases p) simp
  then have ok: "client_ok (cbot, fac)" "db_ok E (br_db b)" using assms(2) by (simp_all add: bridge_inv_def)
  show ?thesis
  proof (cases x)
    case TaskBot
    let ?bot = "cbot\<lparr>co_store := br_db b, co_rx := br_cb b\<rparr>"
    have "serial (next_message_id (br_db b)) (co_store (snd (co_poll E ?bot)))"
      by (rule bot_poll_ok(1) [OF serial_blind]) (simp add: serial_def)
    then show ?thesis
      using TaskBot fr assms(3)
      by (auto simp: client_poll_def on_field_eq put_bot_def to_modem_def to_wa_def ids_known_def serial_def)
  next
    case TaskFactory
    let ?fac = "fac\<lparr>fa_store := br_db b, fa_rx := br_cf b, fa_now := br_now b\<rparr>"
    have "fa_inv E ?fac" using ok by (simp add: fa_inv_split)
    moreover have "knows (next_message_id (br_db b)) ?fac"
      using assms(3) fr by (simp add: ids_known_def knows_def serial_def)
    ultimately have "knows (next_message_id (br_db b)) (snd (fa_poll E ?fac))" by (rule knows_poll [OF assms(1)])
    then show ?thesis
      using TaskFactory fr
      by (auto simp: client_poll_def on_field_eq put_factory_def to_modem_def to_wa_def ids_known_def knows_def)
  qed
qed

lemma ids_known_task:
  assumes "decode_ok E" and "bridge_inv E client_ok b" and "ids_known b"
  shows "ids_known (snd (run_task E M L (client_mode E) t b))"
proof (cases t)
  case TaskModem
  have "serial (next_message_id (br_db b)) (mm_store (snd (manager_poll E M (the_modem b))))"
    by (rule modem_serial) (simp add: the_modem_def serial_def)
  then show ?thesis
    using TaskModem by (intro ids_known_grows [OF assms(3)]) (simp_all add: run_task_def on_field_eq put_modem_def)
next
  case TaskWhatsapp
  have "serial (next_message_id (br_db b)) (w_store (snd (wa_poll E L (the_wa b))))"
    by (rule wa_serial) (simp add: the_wa_def serial_def)
  then show ?thesis
    using TaskWhatsapp by (intro ids_known_grows [OF assms(3)]) (simp_all add: run_task_def on_field_eq put_wa_def)
next
  case (TaskFront x)
  then show ?thesis using ids_known_client [OF assms] by (simp add: run_task_def client_mode_def)
qed

lemma modem_ends_store: "modem_ends E m m' \<Longrightarrow> mm_store m' = mm_store m"
  by (cases rule: modem_ends.cases)
    (auto simp: list_done_def delete_done_def registration_done_def signal_done_def send_done_def cmgl_tick_def
      command_timeout_def m_int_def m_cb_def split: job_end.splits option.splits)

lemma world_front_db: "world_step E b b' \<Longrightarrow> br_front b' = br_front b \<and> next_message_id (br_db b') = next_message_id (br_db b)"
  by (cases rule: world_step.cases)
    (auto simp: put_modem_def to_wa_def the_modem_def dest!: modem_ends_store)

lemma reach_ids_known:
  assumes "bridge_reach E M L (client_mode E) cfg b" and lib: "jid_ok E" "numbers_parse E" "decode_ok E"
  shows "ids_known b"
  using assms(1)
proof (induction rule: bridge_reach.induct)
  case (start S d lg mode d' wenv menv tm now)
  then show ?case by (simp add: ids_known_def bridge_new_def)
next
  case (boots b b')
  then show ?case
    by (auto simp: client_mode_def client_boot.simps bridge_boot_def Let_def fa_new_def ids_known_def)
next
  case (polls b t b')
  then show ?case
    using ids_known_task [OF lib(3) client.reach_inv [OF polls.hyps(1) lib], of M L t] by simp
next
  case (worlds b b')
  then show ?case
    using world_front_db [OF worlds.hyps(2)] ids_known_grows [OF worlds.IH] by (simp add: serial_def)
next
  case (fronts b b')
  then show ?case
    by (auto simp: client_mode_def client_world.simps ids_known_def)
qed

section \<open>From the modem to the administrator\<close>

lemma incoming_sms_said:
  assumes inv: "bridge_inv E client_ok b" and ids: "ids_known b"
    and lib: "decode_ok E" "hex_ok E" "ton_ok E" "ord_ok (ord_addr E)"
    and sms: "CmglComplete msgs \<in> set (mm_rx (br_modem b))" "msg \<in> set msgs" "status msg = ReceivedUnread"
      "a = originating_address (pdu msg)" "number a \<noteq> []"
    and modem: "run_task E M L (client_mode E) TaskModem b = (Ok (), b1)"
    and front: "run_task E M L (client_mode E) (TaskFront TaskFactory) b1 = (Ok (), b2)"
    and keep: "\<forall>x \<in> set (br_cf b1). \<not> drops x"
    and c: "br_front b = Some (cbot, fac)" "hm_get (fa_contacts fac) a = Some c" "cn_connected c" "cn_admin_is_online c"
      "\<forall>m. LineIn m \<notin> set (cl_stream (cn_irc c))"
    and X: "X = addressed (normalize_address E a) (messages (br_db b1))" "\<forall>m \<in> set X. spoken E (br_now b) m \<noteq> None"
    and there: "br_front b2 = Some (cbot', fac')" "hm_get (fa_contacts fac') a = Some c'"
  shows "cn_privmsgs c' = cn_privmsgs c @ all_said E (cn_admin c) (br_now b) X \<and>
    addressed (normalize_address E a) (messages (br_db b2)) = [] \<and>
    (\<exists>m g. m \<in> set X \<and> decode_message (pdu msg) = Inr g \<and> spoken E (br_now b) m = Some (gsm_text g))"
proof -
  let ?k = "next_message_id (br_db b)"
  obtain mm where mm: "manager_poll E M (the_modem b) = (Ok (), mm)" "b1 = put_modem mm b"
    using modem by (cases "manager_poll E M (the_modem b)") (simp add: run_task_def on_field_eq)
  have "CmglComplete msgs \<in> set (mm_rx (the_modem b))" using sms(1) by (simp add: the_modem_def)
  from modem_poll_fetches [OF mm(1) this sms(2,3)]
  obtain x where x: "x \<in> set (messages (br_db b1))" "sms_row x = listed_row E msg" "?k \<le> m_id x"
    and told: "ProcessMessages \<in> set (br_cf b1)"
    using mm(2) by (auto simp: fetched_def stocked_def the_modem_def put_modem_def)
  have row: "m_phone_number x = normalize_address E a" "m_pdu x = Some (raw_pdu msg)"
    using x(2) sms(4) by (simp_all add: sms_row_def listed_row_def)
  then have xX: "x \<in> set X" using x(1) X(1) by (simp add: addressed_def)
  have b1: "br_front b1 = Some (cbot, fac)" "br_now b1 = br_now b" using mm(2) c(1) by (simp_all add: put_modem_def)
  let ?fac = "fac\<lparr>fa_store := br_db b1, fa_rx := br_cf b1, fa_now := br_now b1\<rparr>"
  obtain t where t: "fa_poll E ?fac = (Ok (), t)" "b2 = put_factory cbot t b1"
    using front b1(1) by (cases "fa_poll E ?fac") (simp add: run_task_def client_mode_def client_poll_def on_field_eq)
  have "bridge_inv E client_ok b1"
    using modem_task_ok [OF inv, of M L "client_mode E"] modem by simp
  then have fac: "fa_inv E ?fac" using b1(1) by (simp add: bridge_inv_def fa_inv_split)
  have fresh: "m_id x \<notin> set (fa_processed ?fac)" using ids c(1) x(3) by (fastforce simp: ids_known_def)
  have "hm_get (fa_contacts t) a = Some c'" "fa_store t = br_db b2"
    using there t(2) by (auto simp: put_factory_def to_modem_def to_wa_def)
  with factory_poll_delivers [OF lib(2,3,4,1) fac t(1) _ _ _ c(3-5) xX fresh]
    told keep c(2) X row get_addr_normalize [OF lib(2,3) sms(5)] b1(2)
  have "cn_privmsgs c' = cn_privmsgs c @ all_said E (cn_admin c) (br_now b) X \<and>
    addressed (normalize_address E a) (messages (br_db b2)) = []" by simp
  moreover have "deliver_try_from E (raw_pdu msg) = Some (pdu msg)"
    using inv sms(1,2) by (auto simp: bridge_inv_def listing_ok_def sms_ok_def list_all_iff)
  then have "\<exists>g. decode_message (pdu msg) = Inr g \<and> spoken E (br_now b) x = Some (gsm_text g)"
    using X(2) xX row(2) by (auto simp: spoken_def split: if_splits sum.splits)
  ultimately show ?thesis using xX by blast
qed

end
