(* ===== verification/Outgoing_Texts.thy ===== *)
theory Outgoing_Texts
  imports Client_Delivery Client_Facts
begin

text \<open>
  How what the administrator writes to a contact gets to the modem or to WhatsApp: the contact hands it
  on in its poll, and the factory with it in its own.
\<close>

section \<open>What a contact hears\<close>

text \<open>
  The texts that the administrator \<open>A\<close> writes to the contact, which is called \<open>n\<close> at first, in the lines
  that come before the next wait.
\<close>

definition nick_after :: "string \<Rightarrow> in_msg \<Rightarrow> string" where
  "nick_after n m = (case (prefix m, command m) of
      (Some p, NICK n') \<Rightarrow> if prefix_nick p = n then n' else n
    | _ \<Rightarrow> n)"

definition text_in :: "string \<Rightarrow> string \<Rightarrow> in_msg \<Rightarrow> string list" where
  "text_in A n m = (case (prefix m, command m) of
      (Some p, PRIVMSG target x) \<Rightarrow> if prefix_nick p = A \<and> target = n then [x] else []
    | _ \<Rightarrow> [])"

primrec heard :: "string \<Rightarrow> string \<Rightarrow> line_answer list \<Rightarrow> string list" where
  "heard A n [] = []"
| "heard A n (a # as) = (case a of
      LineIn m \<Rightarrow> text_in A n m @ heard A (nick_after n m) as
    | _ \<Rightarrow> [])"

section \<open>What a contact hands on\<close>

definition holds ::
  "'t pdu_address \<Rightarrow> string \<Rightarrow> string \<Rightarrow> ('t, 'j) whatsapp_command list \<Rightarrow> 't modem_command list
   \<Rightarrow> ('t, 'j) contact_mgr \<Rightarrow> bool" where
  "holds a A n X Y s \<longleftrightarrow>
     cn_addr s = a \<and> cn_admin s = A \<and> cn_nick s = n \<and> cn_wa_tx s = X \<and> cn_modem_tx s = Y"

interpretation chd: contact_quiet E "holds a A n X Y" "\<lambda>d. True" False
  for E :: "('t, 'j) ext" and a A n X Y
  by unfold_locales (auto simp: holds_def guarded_def pres_def)

lemma messages_hold: "guarded False (holds a A n X Y) (cn_process_messages E)"
proof (rule chd.messages_pres)
  show "pres (holds a A n X Y) (cn_send (SendPrivmsg t x))" for t x
    by (rule guarded_pres [of False], rule cn_send_guarded) (simp add: holds_def)
qed (simp_all add: pres_def)

lemma other_lines_hold:
  assumes "\<And>target x. command m \<noteq> PRIVMSG target x" and "\<And>n'. command m \<noteq> NICK n'"
  shows "guarded False (holds a A n X Y) (cn_handle_irc_message E m)"
proof -
  have "guarded False (holds a A n X Y) (cn_on_connected E)"
    unfolding cn_on_connected_def
    by (intro guarded guarded_modify messages_hold chd.initialize_watch chd.update_away chd.process_groups)
      (simp add: holds_def)
  moreover have "guarded False (holds a A n X Y) (cn_on_raw E c as)" for c as
    unfolding cn_on_raw_def by (intro guarded guarded_modify messages_hold) (simp_all add: holds_def)
  ultimately show ?thesis
    using assms unfolding cn_handle_irc_message_def by (cases "command m") (auto intro: guarded)
qed

lemma line_hands_on:
  assumes run: "cn_handle_irc_message E m s = (Ok (), t)" and s: "holds a A n X Y s"
  shows "\<exists>ws ms. (text_in A n m = ws \<and> ms = [] \<or> text_in A n m = ms \<and> ws = []) \<and>
    holds a A (nick_after n m) (X @ map (SendDirectMessage a) ws) (Y @ map (SendMessage a) ms) t"
proof -
  consider (spoken) target x where "command m = PRIVMSG target x" | (renamed) n' where "command m = NICK n'"
    | (other) "\<And>target x. command m \<noteq> PRIVMSG target x" "\<And>n'. command m \<noteq> NICK n'"
    by blast
  then show ?thesis
  proof cases
    case spoken
    then have "cn_on_privmsg (prefix m) target x s = (Ok (), t)" using run by (simp add: cn_handle_irc_message_def)
    moreover have "holds a A n X Y u" if "cn_send (SendNotice p y) s = (Ok (), u)" for p y u
      using guardedD [OF chd.sends s, of "SendNotice p y"] that by simp
    ultimately show ?thesis
      using s spoken
      by (auto simp: cn_on_privmsg_def text_in_def nick_after_def ret_def modify_def gets_def and_then_def holds_def
          split: option.splits if_splits)
  next
    case renamed
    then have "cn_on_nick (prefix m) n' s = (Ok (), t)" using run by (simp add: cn_handle_irc_message_def)
    then show ?thesis
      using s renamed
      by (auto simp: cn_on_nick_def text_in_def nick_after_def ret_def modify_def holds_def split: option.splits)
  next
    case other
    then have "text_in A n m = []" "nick_after n m = n"
      by (auto simp: text_in_def nick_after_def split: option.split irc_command.split)
    moreover have "holds a A n X Y t" using guardedD [OF other_lines_hold [OF other] s, of E] run by simp
    ultimately show ?thesis by (intro exI [of _ "[]"]) simp
  qed
qed

lemma lines_hand_on:
  assumes "drain_lines (\<lambda>as s. s\<lparr>cn_irc := (cn_irc s)\<lparr>cl_stream := as\<rparr>\<rparr>) (cn_handle_irc_message E) as s = (Ok (), t)"
    and "holds a A n X Y s"
  shows "\<exists>n' ws ms. heard A n as \<in> shuffles ws ms \<and>
    holds a A n' (X @ map (SendDirectMessage a) ws) (Y @ map (SendMessage a) ms) t"
  using assms
proof (induction as arbitrary: s n X Y)
  case Nil
  then show ?case by (intro exI [of _ n] exI [of _ "[]"]) (simp add: ret_def)
next
  case (Cons l as)
  have s: "holds a A n X Y (s\<lparr>cn_irc := (cn_irc s)\<lparr>cl_stream := as\<rparr>\<rparr>)"
    using Cons.prems(2) by (simp add: holds_def)
  show ?case
  proof (cases l)
    case (LineIn m)
    obtain s1 where s1: "cn_handle_irc_message E m (s\<lparr>cn_irc := (cn_irc s)\<lparr>cl_stream := as\<rparr>\<rparr>) = (Ok (), s1)"
      "drain_lines (\<lambda>as s. s\<lparr>cn_irc := (cn_irc s)\<lparr>cl_stream := as\<rparr>\<rparr>) (cn_handle_irc_message E) as s1 = (Ok (), t)"
      using Cons.prems(1) LineIn by (auto elim: then_do_OkE)
    from line_hands_on [OF s1(1) s] obtain ws ms
      where m: "text_in A n m = ws \<and> ms = [] \<or> text_in A n m = ms \<and> ws = []"
        and held: "holds a A (nick_after n m) (X @ map (SendDirectMessage a) ws) (Y @ map (SendMessage a) ms) s1"
      by blast
    from Cons.IH [OF s1(2) held] obtain n' ws' ms'
      where rest: "heard A (nick_after n m) as \<in> shuffles ws' ms'"
        and "holds a A n' (X @ map (SendDirectMessage a) (ws @ ws')) (Y @ map (SendMessage a) (ms @ ms')) t"
      by auto
    moreover have "text_in A n m @ heard A (nick_after n m) as \<in> shuffles (ws @ ws') (ms @ ms')"
      using m rest
      by (auto simp: text_in_def Cons_in_shuffles_leftI Cons_in_shuffles_rightI split: option.splits irc_command.splits)
    ultimately show ?thesis
      using LineIn by (intro exI [of _ n'] exI [of _ "ws @ ws'"] exI [of _ "ms @ ms'"]) simp
  qed (use Cons.prems(1) s in \<open>auto simp: ret_def err_def intro: exI [of _ n] exI [of _ "[]"]\<close>)
qed

lemma contact_poll_hands_on:
  assumes "cn_poll E s = (Ok (), t)"
  shows "\<exists>ws ms. heard (cn_admin s) (cn_nick s) (cl_stream (cn_irc s)) \<in> shuffles ws ms \<and>
    cn_wa_tx t = cn_wa_tx s @ map (SendDirectMessage (cn_addr s)) ws \<and>
    cn_modem_tx t = cn_modem_tx s @ map (SendMessage (cn_addr s)) ms"
proof -
  let ?P = "holds (cn_addr s) (cn_admin s) (cn_nick s) (cn_wa_tx s) (cn_modem_tx s)"
  let ?Q = "\<lambda>t. ?P t \<and> cl_stream (cn_irc t) = cl_stream (cn_irc s)"
  from contact_poll_parts [OF assms] obtain s1 s2 s3
    where s1: "then_do (cn_identify E) (cn_client client_write) s = (Ok (), s1)"
      and s2: "drain_lines (\<lambda>as s. s\<lparr>cn_irc := (cn_irc s)\<lparr>cl_stream := as\<rparr>\<rparr>) (cn_handle_irc_message E)
        (cl_stream (cn_irc s1)) s1 = (Ok (), s2)"
      and s3: "drain_rx (\<lambda>cs s. s\<lparr>cn_rx := cs\<rparr>) (cn_handle_int_rx E) (cn_rx s2) s2 = (Ok (), s3)"
      and t: "cn_client client_write s3 = (Ok (), t)" .
  have "guarded False ?Q (then_do (cn_identify E) (cn_client client_write))"
    by (rule opening_guarded) (simp_all add: holds_def)
  moreover have "?Q s" by (simp add: holds_def)
  ultimately have Q: "?Q s1" using guardedD [of False ?Q _ s] s1 by fastforce
  from lines_hand_on [OF s2 conjunct1 [OF Q]] obtain n ws ms where heard: "heard (cn_admin s) (cn_nick s) (cl_stream (cn_irc s)) \<in> shuffles ws ms"
    and held: "holds (cn_addr s) (cn_admin s) n (cn_wa_tx s @ map (SendDirectMessage (cn_addr s)) ws)
      (cn_modem_tx s @ map (SendMessage (cn_addr s)) ms) s2"
    unfolding conjunct2 [OF Q] by blast
  have "guarded False (holds a A n X Y) (drain_rx (\<lambda>cs s. s\<lparr>cn_rx := cs\<rparr>) (cn_handle_int_rx E) (cn_rx s2))" for a A n X Y
    by (intro drain_rx_guarded chd.commands messages_hold) (simp add: holds_def)
  from guardedD [OF this held] s3 have "holds (cn_addr s) (cn_admin s) n
      (cn_wa_tx s @ map (SendDirectMessage (cn_addr s)) ws) (cn_modem_tx s @ map (SendMessage (cn_addr s)) ms) s3" by simp
  from guardedD [OF chd.writes this] t heard show ?thesis by (auto simp: holds_def)
qed

section \<open>What the factory hands on\<close>

text \<open>The texts for \<open>a\<close> among the commands to WhatsApp and to the modem.\<close>

primrec wa_to :: "'t pdu_address \<Rightarrow> ('t, 'j) whatsapp_command list \<Rightarrow> string list" where
  "wa_to a [] = []"
| "wa_to a (c # cs) = (case c of SendDirectMessage b x \<Rightarrow> if b = a then [x] else [] | _ \<Rightarrow> []) @ wa_to a cs"

primrec sms_to :: "'t pdu_address \<Rightarrow> 't modem_command list \<Rightarrow> string list" where
  "sms_to a [] = []"
| "sms_to a (c # cs) = (case c of SendMessage b x \<Rightarrow> if b = a then [x] else [] | _ \<Rightarrow> []) @ sms_to a cs"

lemma texts_to_append [simp]:
  "wa_to a (xs @ ys) = wa_to a xs @ wa_to a ys" "sms_to a (us @ vs) = sms_to a us @ sms_to a vs"
  by (induction xs; simp) (induction us; simp)

lemma texts_to_map [simp]:
  "wa_to a (map (SendDirectMessage b) ws) = (if b = a then ws else [])"
  "sms_to a (map (SendMessage b) ms) = (if b = a then ms else [])"
  by (induction ws; simp) (induction ms; simp)

text \<open>
  Until its turn the contact \<open>c\<close> of \<open>a\<close> is only given commands, and no text for \<open>a\<close> is handed on;
  afterwards those of \<open>T\<close> have been.
\<close>

definition rests ::
  "'t pdu_address \<Rightarrow> ('t, 'j) contact_mgr \<Rightarrow> string list \<Rightarrow> string list \<Rightarrow> ('t, 'j) contact_factory \<Rightarrow> bool" where
  "rests a c X Y s \<longleftrightarrow> hm_get (fa_starting s) a = None \<and>
     (\<exists>cs. hm_get (fa_contacts s) a = Some (c\<lparr>cn_rx := cs\<rparr>)) \<and>
     wa_to a (fa_wa_tx s) = X \<and> sms_to a (fa_m_tx s) = Y"

definition handed ::
  "'t pdu_address \<Rightarrow> string list \<Rightarrow> string list \<Rightarrow> string list \<Rightarrow> ('t, 'j) contact_factory \<Rightarrow> bool" where
  "handed a T X Y s \<longleftrightarrow>
     (\<exists>ws ms. T \<in> shuffles ws ms \<and> wa_to a (fa_wa_tx s) = X @ ws \<and> sms_to a (fa_m_tx s) = Y @ ms)"

lemma rests_command: "rests a c X Y s \<Longrightarrow> rests a c X Y (fa_command b x s)"
  by (auto simp: rests_def fa_command_def add_command_def hm_get_insert split: option.split)

lemma rests_store: "pres (rests a c X Y) (fa_db m)"
  by (rule presI) (simp add: fa_db_def on_field_def rests_def split: prod.split)

interpretation frs: factory_keeps E "rests a c X Y" for E :: "('t, 'j) ext" and a c X Y
proof
  fix s :: "('t, 'j) contact_factory" and b fut ev
  assume s: "rests a c X Y s" "\<not> fa_has_contact b s"
  then have "b \<noteq> a" by (auto simp: rests_def fa_has_contact_def)
  with s show "rests a c X Y (s\<lparr>fa_starting := hm_insert b fut (fa_starting s), fa_env := ev\<rparr>)"
    by (simp add: rests_def hm_get_insert)
next
  show "pres (rests a c X Y) fa_process_groups"
    unfolding fa_process_groups_def by (rule pres_modify) (auto simp: rests_def hm_get_map add_command_def)
qed (simp_all add: rests_store rests_command, simp_all add: rests_def)

interpretation fhd: factory_starts E "handed a T X Y" for E :: "('t, 'j) ext" and a T X Y
proof
  show "pres (handed a T X Y :: ('t, 'j) contact_factory \<Rightarrow> bool) (fa_db (get_recipient_by_addr_opt E b))" for b
    by (rule presI) (simp add: fa_db_def on_field_def handed_def split: prod.split)
qed (simp_all add: handed_def)

lemma rests_handle: "\<not> drops c' \<Longrightarrow> pres (rests a c X Y) (fa_handle E c')"
proof (cases "c' = ProcessMessages")
  case True
  have "pres (rests a c X Y) (fa_process_message E m)" for m
    by (rule frs.message) (simp add: rests_def)
  then have "pres (rests a c X Y) (fa_process_messages E)"
    unfolding fa_process_messages_def by (intro pres rests_store)
  then show ?thesis using True by (simp add: fa_handle_def)
qed (simp add: frs.other_commands)

lemma rests_drain:
  "\<forall>x \<in> set cs. \<not> drops x \<Longrightarrow> pres (rests a c X Y) (drain_rx (\<lambda>cs s. s\<lparr>fa_rx := cs\<rparr>) (fa_handle E) cs)"
proof (induction cs)
  case (Cons x cs)
  then show ?case
    unfolding drain_rx.simps by (intro pres pres_modify rests_handle) (simp_all add: rests_def)
qed (simp add: pres)

lemma rests_poll_starting: "rests a c X Y s \<Longrightarrow> rests a c X Y (fa_poll_starting E s)"
proof (rule fa_poll_starting_keeps [where P = "rests a c X Y"])
  show "rests a c X Y s \<Longrightarrow> rests a c X Y (snd (poll_starting b s))" for b and s :: "('a, 'b) contact_factory"
    by (cases "b = a")
      (auto simp: poll_starting_def rests_def fa_fail_def hm_get_insert Let_def
        split: option.split prod.split start_answer.split starting.split)
qed (simp_all add: rests_def hm_get_fold_remove)

text \<open>The turns of the others, and its own.\<close>

lemma other_turn:
  assumes "fa_inv E s" "b \<noteq> a" "poll_contact E b s = (r, t)"
  shows "fa_inv E t \<and> wa_to a (fa_wa_tx t) = wa_to a (fa_wa_tx s) \<and> sms_to a (fa_m_tx t) = sms_to a (fa_m_tx s) \<and>
    hm_get (fa_contacts t) a = hm_get (fa_contacts s) a \<and> fa_starting t = fa_starting s"
proof -
  have "hm_get (fa_contacts t) a = hm_get (fa_contacts s) a \<and> fa_starting t = fa_starting s"
    using assms(2,3)
    by (auto simp: poll_contact_def Let_def fa_fail_def hm_get_insert split: option.splits prod.splits outcome.splits)
  moreover have "fa_inv E t" using guardedD [OF poll_contact_guarded assms(1), of b] assms(3) by simp
  moreover have "\<And>c. hm_get (fa_contacts s) b = Some c \<Longrightarrow> cn_addr c = b" using assms(1) by (simp add: fa_inv_but_def)
  ultimately show ?thesis using poll_contact_tx [OF assms(3)] assms(2) by auto
qed

lemma own_turn:
  assumes inv: "fa_inv E s" and s: "rests a c X Y s" and run: "poll_contact E a s = (Ok False, t)"
  shows "fa_inv E t \<and> handed a (heard (cn_admin c) (cn_nick c) (cl_stream (cn_irc c))) X Y t"
proof -
  obtain cs where cs: "hm_get (fa_contacts s) a = Some (c\<lparr>cn_rx := cs\<rparr>)" using s by (auto simp: rests_def)
  let ?c = "c\<lparr>cn_rx := cs, cn_store := fa_store s, cn_wa_tx := fa_wa_tx s, cn_modem_tx := fa_m_tx s, cn_now := fa_now s\<rparr>"
  obtain r c' where poll: "cn_poll E ?c = (r, c')" by (cases "cn_poll E ?c")
  have r: "r = Ok ()" and t: "fa_wa_tx t = cn_wa_tx c'" "fa_m_tx t = cn_modem_tx c'"
    using run cs poll by (auto simp: poll_contact_def Let_def split: outcome.splits)
  have "cn_addr c = a" using inv cs unfolding fa_inv_but_def by fastforce
  with contact_poll_hands_on [OF poll [unfolded r]] obtain ws ms
    where "heard (cn_admin c) (cn_nick c) (cl_stream (cn_irc c)) \<in> shuffles ws ms"
      and "fa_wa_tx t = fa_wa_tx s @ map (SendDirectMessage a) ws" "fa_m_tx t = fa_m_tx s @ map (SendMessage a) ms"
    using t by auto
  then have "handed a (heard (cn_admin c) (cn_nick c) (cl_stream (cn_irc c))) X Y t"
    using s by (auto simp: handed_def rests_def)
  then show ?thesis using guardedD [OF poll_contact_guarded inv, of a] run by simp
qed

lemma factory_poll_hands_on:
  assumes lib: "ord_ok (ord_addr E)" "decode_ok E" and inv: "fa_inv E s" and poll: "fa_poll E s = (Ok (), t)"
    and rx: "\<forall>x \<in> set (fa_rx s). \<not> drops x"
    and c: "hm_get (fa_contacts s) a = Some c" "hm_get (fa_contacts t) a \<noteq> None"
  shows "handed a (heard (cn_admin c) (cn_nick c) (cl_stream (cn_irc c))) (wa_to a (fa_wa_tx s)) (sms_to a (fa_m_tx s)) t"
proof -
  let ?P = "rests a c (wa_to a (fa_wa_tx s)) (sms_to a (fa_m_tx s))"
  let ?Q = "handed a (heard (cn_admin c) (cn_nick c) (cl_stream (cn_irc c))) (wa_to a (fa_wa_tx s)) (sms_to a (fa_m_tx s))"
  obtain s1 s3 where s1: "drain_rx (\<lambda>cs s. s\<lparr>fa_rx := cs\<rparr>) (fa_handle E) (fa_rx s) s = (Ok (), s1)"
    and s3: "fa_poll_contacts E (fa_poll_starting E s1) = (Ok (), s3)" and t: "fa_drain_ticks E (fa_ticks s3) s3 = (Ok (), t)"
    using poll by (auto simp: fa_poll_def modify_iff elim!: then_do_OkE)
  have "?P s" using inv c(1) by (auto simp: rests_def fa_inv_but_def intro: exI [of _ "cn_rx c"])
  from presD [OF rests_drain [OF rx] this s1] have rests: "?P (fa_poll_starting E s1)" by (rule rests_poll_starting)
  have "guarded True (fa_inv E) (drain_rx (\<lambda>cs s. s\<lparr>fa_rx := cs\<rparr>) (fa_handle E) (fa_rx s))"
    by (intro drain_rx_guarded fa_handle_guarded lib) simp
  from guarded_at [of "fa_inv E", OF inv this] s1 have inv1: "fa_inv E (fa_poll_starting E s1)"
    by (simp add: fa_poll_starting_inv)
  have "hm_get (fa_contacts s3) a = None \<or> fa_inv E s3 \<and> ?Q s3"
  proof (rule fa_poll_contacts_turn [where P = "\<lambda>s. fa_inv E s \<and> ?P s" and Q = "\<lambda>s. fa_inv E s \<and> ?Q s", OF _ _ _ _ lib(1) s3])
    fix b s t rm assume run: "b \<noteq> a" "poll_contact E b s = (Ok rm, t)"
    show "fa_inv E s \<and> ?P s \<Longrightarrow> fa_inv E t \<and> ?P t" "fa_inv E s \<and> ?Q s \<Longrightarrow> fa_inv E t \<and> ?Q t"
      using other_turn [OF _ run] by (auto simp: rests_def handed_def)
  next
    show "fa_inv E s \<and> ?Q s \<Longrightarrow> a \<notin> set rms \<Longrightarrow>
        fa_inv E (s\<lparr>fa_contacts := fold hm_remove rms (fa_contacts s)\<rparr>) \<and> ?Q (s\<lparr>fa_contacts := fold hm_remove rms (fa_contacts s)\<rparr>)"
      for s rms
      by (auto simp: handed_def fa_inv_but_def hm_get_fold_remove hm_wf_fold_remove split: if_splits)
    show "fa_inv E s \<and> ?P s \<Longrightarrow> poll_contact E a s = (Ok False, t) \<Longrightarrow> fa_inv E t \<and> ?Q t" for s t
      using own_turn [of E s a c _ _ t] by blast
  qed (use rests inv1 in \<open>auto simp: rests_def fa_inv_but_def\<close>)
  moreover have "settled (fa_contacts s3) (messages (fa_store s3)) t"
    using presD [OF settled_ticks _ t] by (simp add: settled_def)
  ultimately have "?Q s3" using c(2) by (auto simp: settled_def)
  moreover have "pres ?Q (fa_drain_ticks E (fa_ticks s3))" by (rule fhd.ticks) (simp_all add: handed_def)
  ultimately show ?thesis using t by (metis presD)
qed

section \<open>In the process\<close>

lemma front_hands_on:
  assumes inv: "bridge_inv E client_ok b" and lib: "decode_ok E" "ord_ok (ord_addr E)"
    and c: "br_front b = Some (cbot, fac)" "hm_get (fa_contacts fac) a = Some c"
    and keep: "\<forall>x \<in> set (br_cf b). \<not> drops x"
    and run: "run_task E M L (client_mode E) (TaskFront TaskFactory) b = (Ok (), b')"
    and there: "br_front b' = Some (cbot', fac')" "hm_get (fa_contacts fac') a \<noteq> None"
  shows "\<exists>ws ms. heard (cn_admin c) (cn_nick c) (cl_stream (cn_irc c)) \<in> shuffles ws ms \<and>
    wa_to a (w_rx (br_wa b')) = wa_to a (w_rx (br_wa b)) @ ws \<and>
    sms_to a (mm_rx (br_modem b')) = sms_to a (mm_rx (br_modem b)) @ ms"
    and "mm_jobs (br_modem b') = mm_jobs (br_modem b) \<and> mm_cb_tx (br_modem b') = []"
proof -
  let ?fac = "fac\<lparr>fa_store := br_db b, fa_rx := br_cf b, fa_now := br_now b\<rparr>"
  have tx: "fa_wa_tx fac = []" "fa_m_tx fac = []" "mm_cb_tx (br_modem b) = []"
    using inv c(1) by (simp_all add: bridge_inv_def)
  obtain t where t: "fa_poll E ?fac = (Ok (), t)" "b' = put_factory cbot t b"
    using run c(1) by (cases "fa_poll E ?fac") (simp add: run_task_def client_mode_def client_poll_def on_field_eq)
  have "fa_inv E ?fac" using inv c(1) by (simp add: bridge_inv_def fa_inv_split)
  moreover have "hm_get (fa_contacts t) a \<noteq> None"
    using there t(2) by (auto simp: put_factory_def to_modem_def to_wa_def)
  ultimately have "handed a (heard (cn_admin c) (cn_nick c) (cl_stream (cn_irc c))) [] [] t"
    using factory_poll_hands_on [OF lib(2,1) _ t(1), of a c] keep c(2) tx by simp
  then show "\<exists>ws ms. heard (cn_admin c) (cn_nick c) (cl_stream (cn_irc c)) \<in> shuffles ws ms \<and>
      wa_to a (w_rx (br_wa b')) = wa_to a (w_rx (br_wa b)) @ ws \<and>
      sms_to a (mm_rx (br_modem b')) = sms_to a (mm_rx (br_modem b)) @ ms"
    by (auto simp: t(2) handed_def put_factory_def to_modem_def to_wa_def)
  show "mm_jobs (br_modem b') = mm_jobs (br_modem b) \<and> mm_cb_tx (br_modem b') = []"
    using tx(3) by (simp add: t(2) put_factory_def to_modem_def to_wa_def)
qed

end
