(* ===== verification/Delivery_Properties.thy ===== *)
theory Delivery_Properties
  imports Process_Properties Modem_Properties Message_Ids Outgoing_Texts
begin

text \<open>
  The properties that the components of the client mode have together: what the modem receives is said
  to the administrator, and what the administrator writes is handed to the modem or to WhatsApp.
\<close>

section \<open>An incoming SMS\<close>


section \<open>An outgoing message\<close>


section \<open>Witnesses\<close>























































end
