(* ===== verification/Spec2Isabelle.thy ===== *)
theory Spec2Isabelle
  imports Core_Properties Link_Properties Server_Properties Whatsapp_Properties Modem_Properties
    Client_Properties Process_Properties Delivery_Properties
begin

text \<open>
  Verification of sms-irc, a bridge from SMS and WhatsApp to IRC written in Rust (\<open>src/src\<close>).

  \<^bold>\<open>The program.\<close> A modem (\<open>modem.rs\<close>, over huawei\_modem) and WhatsApp (\<open>whatsapp*.rs\<close>, over whatsappweb)
  store what arrives in a PostgreSQL database (\<open>store.rs\<close>, \<open>models.rs\<close>) and tell the IRC side to process
  it. The IRC side is one of three: a client of an IRC network, with a connection for each contact
  (\<open>contact.rs\<close>, \<open>contact_factory.rs\<close>) and a control bot (\<open>control.rs\<close>); a server of an InspIRCd network
  (\<open>insp_s2s.rs\<close>, \<open>insp_user.rs\<close>); or an IRC server of its own (\<open>irc_s2c*.rs\<close>). The administrator writes
  to contacts and groups, and gives commands in a small language (\<open>admin.rs\<close>). The components are
  futures on one thread that send each other commands (\<open>comm.rs\<close>) and share the database; \<open>main.rs\<close>
  reads the configuration (\<open>config.rs\<close>), sets up the logger (\<open>logging.rs\<close>) and wires them together.

  \<^bold>\<open>How code becomes definitions.\<close> A function that returns a value is a HOL function. A method
  \<open>fn f(&mut self, ..) -> Result<T>\<close> is a computation \<open>('s, 'a) comp\<close> (\<open>Prelude\<close>) over the record of
  \<open>self\<close>: it returns \<open>Ok\<close>, \<open>Err\<close> or \<open>Panic\<close> and the state, also after an error half way. \<open>?\<close> is
  \<^const>\<open>and_then\<close>, a \<open>for\<close> loop with \<open>?\<close> is \<^const>\<open>for_each\<close>, a method of a field is \<^const>\<open>on_field\<close>. A trait is
  a record of operations (\<^const>\<open>process_msg_plain\<close> takes an implementation of \<open>Sender\<close>) and its provided
  methods are definitions over the record. A sender of a channel is a list in the state that commands
  are appended to. Strings are UTF-8 byte strings, hash maps association lists without duplicate keys;
  where the code iterates over one, the order is a parameter (\<open>ord_str\<close>, \<open>ord_addr\<close>, \<open>ord_jid\<close>). Times
  are nanoseconds as integers; machine integers are written out where they can overflow (the
  acknowledgement tracker, identifiers of users, the indices of the line splitter).

  \<^bold>\<open>What is a parameter.\<close> Functions of libraries are fields of the records \<open>ext\<close>, \<open>wa_lib\<close> and
  \<open>modem_lib\<close>; what the theorems need of them are the hypotheses \<open>hex_ok\<close>, \<open>ton_ok\<close> (encodings are read
  back), \<open>decode_ok\<close>, \<open>jid_ok\<close>, \<open>numbers_parse\<close> and \<open>ord_ok\<close> (an iteration permutes the map), satisfied
  by the instance of \<open>Instance\<close>. The world is a schedule in the state: which statements of the database
  fail (\<open>faults\<close>), what a sink accepts, what lines, events and timers come, how futures end. Each poll
  consumes what is there and returns, so every loop of a poll is structural recursion over a schedule.

  \<^bold>\<open>Theories.\<close>
  \<^item> \<open>Prelude\<close>, \<open>Rust_Str\<close>, \<open>Wire\<close>: computations with the calculi \<open>pres\<close>, \<open>safe\<close> and \<open>guarded\<close>; \<open>str\<close>,
    formatting and hash maps; the macro \<open>sink_outbox!\<close> of \<open>util.rs\<close>.
  \<^item> \<open>Models\<close>, \<open>Util\<close>, \<open>Store\<close>, \<open>Db_Ok\<close>: rows and commands; addresses and names; every query and statement
    with the integrity \<open>db_inv\<close> of the schema; and what all components rely on, \<open>db_ok\<close>.
  \<^item> \<open>Admin\<close>, \<open>Control_Common\<close>: the command language with its round trip, and the trait \<open>ControlCommon\<close>
    with the locale \<open>control\<close>.
  \<^item> \<open>Sender_Common\<close>: splitting and sending of messages, the locales \<open>sender\<close> and \<open>quiet_sender\<close>.
  \<^item> \<open>Contact_Common\<close>: the trait \<open>ContactManagerManager\<close>, the locales \<open>contact_provider\<close> and
    \<open>contact_manager\<close>.
  \<^item> \<open>Insp_User\<close>, \<open>Insp_Link\<close>, \<open>Insp_Inv\<close>, \<open>Insp_Protocol\<close>, \<open>Link_Ok\<close>, \<open>Link_Properties\<close>: the InspIRCd link with
    every handler, the invariant of its tables, the protocol, its freedom from panics.
  \<^item> \<open>Irc_Registration\<close>, \<open>Irc_Server\<close>, \<open>Irc_Server_Facts\<close>, \<open>Server_Ok\<close>, \<open>Server_Properties\<close>: the IRC server;
    registration refines a specification on histories.
  \<^item> \<open>Wa_Lib\<close>, \<open>Wa_Conn\<close>, \<open>Wa_Message\<close>, \<open>Wa_Ack\<close>, \<open>Whatsapp\<close>, \<open>Whatsapp_Facts\<close>, \<open>Whatsapp_Properties\<close>: the
    connection that reconnects, the text of messages, the tracker of acknowledgements, the manager.
  \<^item> \<open>Modem\<close>, \<open>Modem_Facts\<close>, \<open>Modem_Properties\<close>: the connection to the modem and its manager.
  \<^item> \<open>Irc_Client\<close>, \<open>Contact\<close>, \<open>Contact_Facts\<close>, \<open>Contact_Factory\<close>, \<open>Factory_Facts\<close>, \<open>Factory_Keeps\<close>,
    \<open>Factory_Delivery\<close>, \<open>Control_Bot\<close>, \<open>Control_Facts\<close>, \<open>Client_Properties\<close>: the clients for contacts,
    their factory and the bot.
  \<^item> \<open>Logging\<close>, \<open>Startup\<close>: the logger, the configuration, the choice of the mode.
  \<^item> \<open>Bridge\<close>, \<open>Bridge_Facts\<close>: the process, its runs and its invariant, with what talks to IRC as a parameter
    (the locale \<open>front\<close>); \<open>Client_Bridge\<close>, \<open>Client_Facts\<close>, \<open>Link_Bridge\<close>, \<open>Server_Bridge\<close>: the three
    fronts; \<open>Process_Properties\<close>: what holds of the process in each mode.
  \<^item> \<open>Client_Delivery\<close>, \<open>Incoming_Sms\<close>, \<open>Message_Ids\<close>, \<open>Outgoing_Texts\<close>, \<open>Delivery_Properties\<close>: an
    SMS on its way from the modem to the administrator: a contact that is told to process messages delivers its own while the
    other contacts leave them alone; a listing stores its messages and tells the factory; an identifier
    is never given twice, so no new message counts as processed; and the three together. The other way:
    what a contact hears from the administrator it hands on, and the factory with it.

  \<^bold>\<open>Interfaces.\<close> Each locale states what an implementation promises, and is interpreted on the model's
  own definitions: \<open>control\<close> on the link, a connection of the server and the bot; \<open>sender\<close> and
  \<open>quiet_sender\<close> on the link, a connection of the server and a contact; \<open>contact_provider\<close> on the link
  and on the factory, whose removal forgets only connected contacts, so that only the link is a
  \<open>contact_manager\<close>; \<open>retrying\<close> on the modem and on the connection to WhatsApp; \<open>contact_quiet\<close>,
  \<open>contact_keeps\<close>, \<open>factory_starts\<close>, \<open>factory_keeps\<close>, \<open>bot_keeps\<close> and \<open>wa_kept\<close> on the predicates that are
  carried through a poll (the invariants, and what the delivery of a message needs of the others);
  \<open>front\<close> on the three modes.

  \<^bold>\<open>What is shown.\<close> Invariants of each component through every handler and every outcome, and of the
  process over all runs, in every mode, with the exact lines that can still make it panic. Delivery: in
  client mode an SMS the modem lists is said to the administrator after two polls, and what the
  administrator writes is handed to the modem or to WhatsApp; what
  is stored is sent in order and deleted afterwards, what fails stays; messages wait for the
  administrator; each stored message is underway to its contact; SMS are stored before the modem deletes
  them; offline WhatsApp messages are sent on connection and repeated ones stored once. Authority: only
  the administrator's lines have effects, the link needs the password. Equivalences and refinements:
  registration, the log channel, the logger's \<open>enabled\<close>. Round trips of commands and addresses, bounds
  of the splitter, termination of the command loops, reconnection after any number of failures.

  \<^bold>\<open>Fuel and bounds.\<close> The command loops of the link run for the length of their queue, which is enough
  because no handler sends to the queue it is called from (\<open>drain_cb_empties\<close>, \<open>drain_cf_empties\<close>). The
  loop of the WhatsApp poll runs at most twice, since its second round finds nothing left, and the stream
  is read with as many steps as it has answers. The collision loop for nicks ends because a network has
  finitely many users; the loops of the modem shrink the schedule of its port.

  \<^bold>\<open>Not modelled.\<close> Printing to the terminal, the SIGHUP handler (it logs), the records the components log
  themselves (any log records may be written at any time), name resolution and socket set-up, how serde
  reads the configuration, the SQL of diesel and the migrations, QR images, downloads and decryption,
  and the protocols inside the libraries. A receiver of a channel is never dropped before its sender, as
  in the process, where the end of a component ends the process.
\<close>

end
